(* ===== verification/Prelude.thy ===== *)
theory Prelude
  imports Main "HOL-Library.Word"
begin

text \<open>
  What every component shares: the machine types of the C code, the search loops of the
  code (a scan of an array for the first entry that satisfies a test, and a sequence of such
  scans tried one after the other), the C integer idioms (masking, rounding) and the generic
  facts about them. The collections \<open>scan_simps\<close>, \<open>mask_simps\<close> and \<open>codec_simps\<close> are filled
  by the component theories.
\<close>

unbundle bit_operations_syntax

named_theorems scan_simps \<open>evaluation of the array scans\<close>
named_theorems mask_simps \<open>evaluation of masked constants\<close>
named_theorems codec_simps \<open>byte and bit encodings\<close>

section \<open>Machine integers\<close>

type_synonym u8 = "8 word"
type_synonym u16 = "16 word"
type_synonym u32 = "32 word"
type_synonym u64 = "64 word"

section \<open>Scanning an array\<close>

text \<open>
  The loop \<open>for(i = 0; i < n; i++) if(P(a[i])) return(i);\<close> over an array given as a list.
\<close>

primrec first_index_from :: "nat \<Rightarrow> ('a \<Rightarrow> bool) \<Rightarrow> 'a list \<Rightarrow> nat option" where
  "first_index_from i P [] = None"
| "first_index_from i P (x # xs) = (if P x then Some i else first_index_from (Suc i) P xs)"

definition first_index :: "('a \<Rightarrow> bool) \<Rightarrow> 'a list \<Rightarrow> nat option" where
  "first_index P xs = first_index_from 0 P xs"

lemma first_index_from_shift:
  "first_index_from i P xs = map_option (\<lambda>k. i + k) (first_index P xs)"
proof -
  have "first_index_from (i + j) P xs = map_option (\<lambda>k. i + k) (first_index_from j P xs)" for j
  proof (induction xs arbitrary: j)
    case Nil
    then show ?case by simp
  next
    case (Cons x xs)
    from Cons.IH [of "Suc j"] show ?case by simp
  qed
  from this [of 0] show ?thesis by (simp add: first_index_def)
qed

lemma first_index_Nil [simp, scan_simps]: "first_index P [] = None"
  by (simp add: first_index_def)

lemma first_index_Cons [scan_simps]:
  "first_index P (x # xs) = (if P x then Some 0 else map_option Suc (first_index P xs))"
proof -
  have "first_index_from (Suc 0) P xs = map_option Suc (first_index P xs)"
    by (simp add: first_index_from_shift [of "Suc 0"] cong: map_option_cong)
  then show ?thesis by (simp add: first_index_def)
qed

lemma plus_Suc_fun: "(+) (Suc n) = (\<lambda>k. Suc (n + k))"
  by auto

lemma first_index_None [simp]: "first_index P xs = None \<longleftrightarrow> (\<forall>x \<in> set xs. \<not> P x)"
  by (induction xs) (auto simp: first_index_Cons)

lemma first_index_Some:
  "first_index P xs = Some i \<longleftrightarrow> i < length xs \<and> P (xs ! i) \<and> (\<forall>j < i. \<not> P (xs ! j))"
proof (induction xs arbitrary: i)
  case Nil
  then show ?case by simp
next
  case (Cons x xs)
  show ?case
  proof (cases i)
    case 0
    then show ?thesis by (auto simp: first_index_Cons)
  next
    case (Suc k)
    have "first_index P (x # xs) = Some (Suc k) \<longleftrightarrow> \<not> P x \<and> first_index P xs = Some k"
      by (auto simp: first_index_Cons)
    also have "\<dots> \<longleftrightarrow> \<not> P x \<and> k < length xs \<and> P (xs ! k) \<and> (\<forall>j < k. \<not> P (xs ! j))"
      by (simp add: Cons.IH)
    also have "\<dots> \<longleftrightarrow> Suc k < length (x # xs) \<and> P ((x # xs) ! Suc k)
        \<and> (\<forall>j < Suc k. \<not> P ((x # xs) ! j))"
      by (auto simp: less_Suc_eq_0_disj)
    finally show ?thesis by (simp only: Suc)
  qed
qed

lemma first_index_SomeD:
  assumes "first_index P xs = Some i"
  shows "i < length xs" and "P (xs ! i)" and "\<And>j. j < i \<Longrightarrow> \<not> P (xs ! j)"
  using assms by (simp_all add: first_index_Some)

lemma first_index_exists: "(\<exists>i. first_index P xs = Some i) \<longleftrightarrow> (\<exists>x \<in> set xs. P x)"
  by (metis first_index_None not_None_eq)

lemma first_index_append:
  "first_index P (xs @ ys) = (case first_index P xs of
     Some i \<Rightarrow> Some i | None \<Rightarrow> map_option (\<lambda>k. length xs + k) (first_index P ys))"
proof (induction xs)
  case Nil
  have "map_option ((+) 0) (first_index P ys) = first_index P ys"
    by (simp add: option.map_ident_strong)
  then show ?case by simp
next
  case (Cons x xs)
  then show ?case
    by (simp add: first_index_Cons option.map_comp o_def plus_Suc_fun del: first_index_None
        split: option.split)
qed

lemma first_index_cong:
  "(\<And>x. x \<in> set xs \<Longrightarrow> P x = Q x) \<Longrightarrow> first_index P xs = first_index Q xs"
  by (induction xs) (auto simp: first_index_Cons)

section \<open>A sequence of searches\<close>

text \<open>Searches tried one after the other, each returning at once when it finds something.\<close>

primrec search_in_order :: "('k \<Rightarrow> 'i option) \<Rightarrow> 'k list \<Rightarrow> 'i option" where
  "search_in_order f [] = None"
| "search_in_order f (k # ks) = (case f k of Some i \<Rightarrow> Some i | None \<Rightarrow> search_in_order f ks)"

definition or_else :: "'i option \<Rightarrow> 'i option \<Rightarrow> 'i option" where
  "or_else a b = (case a of Some i \<Rightarrow> Some i | None \<Rightarrow> b)"

lemma or_else_simps [simp, scan_simps]:
  "or_else (Some i) b = Some i" "or_else None b = b" "or_else a None = a"
  by (simp_all add: or_else_def split: option.split)

lemma or_else_assoc: "or_else (or_else a b) c = or_else a (or_else b c)"
  by (cases a) simp_all

lemma or_else_eq_Some: "or_else a b = Some i \<longleftrightarrow> a = Some i \<or> a = None \<and> b = Some i"
  by (cases a) simp_all

lemma or_else_eq_None [simp]: "or_else a b = None \<longleftrightarrow> a = None \<and> b = None"
  by (cases a) simp_all

lemma search_in_order_Cons_or_else:
  "search_in_order f (k # ks) = or_else (f k) (search_in_order f ks)"
  by (simp add: or_else_def)

lemma search_in_order_map: "search_in_order f (map g ks) = search_in_order (\<lambda>k. f (g k)) ks"
  by (induction ks) (simp_all split: option.split)

lemma search_in_order_append:
  "search_in_order f (ks @ ls) = or_else (search_in_order f ks) (search_in_order f ls)"
  by (induction ks) (simp_all split: option.split)

lemma search_in_order_None [simp]: "search_in_order f ks = None \<longleftrightarrow> (\<forall>k \<in> set ks. f k = None)"
  by (induction ks) (auto split: option.split)

lemma search_in_order_Some:
  "search_in_order f ks = Some i \<longleftrightarrow>
     (\<exists>n < length ks. f (ks ! n) = Some i \<and> (\<forall>m < n. f (ks ! m) = None))"
proof (induction ks)
  case Nil
  then show ?case by simp
next
  case (Cons k ks)
  show ?case
  proof (cases "f k")
    case None
    have "(\<exists>n < length (k # ks). f ((k # ks) ! n) = Some i \<and> (\<forall>m < n. f ((k # ks) ! m) = None))
      \<longleftrightarrow> (\<exists>n < length ks. f (ks ! n) = Some i \<and> (\<forall>m < n. f (ks ! m) = None))"
      (is "?L \<longleftrightarrow> ?R")
    proof
      assume ?L
      then obtain n where n: "n < length (k # ks)" "f ((k # ks) ! n) = Some i"
        "\<forall>m < n. f ((k # ks) ! m) = None" by blast
      with None obtain n' where "n = Suc n'" by (cases n) auto
      with n show ?R by (intro exI [of _ n']) auto
    next
      assume ?R
      then obtain n where n: "n < length ks" "f (ks ! n) = Some i" "\<forall>m < n. f (ks ! m) = None"
        by blast
      with None show ?L by (intro exI [of _ "Suc n"]) (auto simp: less_Suc_eq_0_disj)
    qed
    with None Cons.IH show ?thesis by simp
  next
    case (Some j)
    have first: "n = 0" if "\<forall>m < n. f ((k # ks) ! m) = None" for n
      using that Some by (cases n) auto
    show ?thesis
    proof
      assume "search_in_order f (k # ks) = Some i"
      with Some show "\<exists>n < length (k # ks). f ((k # ks) ! n) = Some i
          \<and> (\<forall>m < n. f ((k # ks) ! m) = None)"
        by (intro exI [of _ 0]) simp
    next
      assume "\<exists>n < length (k # ks). f ((k # ks) ! n) = Some i
          \<and> (\<forall>m < n. f ((k # ks) ! m) = None)"
      then have "f k = Some i" using first by force
      then show "search_in_order f (k # ks) = Some i" by simp
    qed
  qed
qed

lemma search_in_order_member:
  "search_in_order f ks = Some i \<Longrightarrow> \<exists>k \<in> set ks. f k = Some i"
  by (auto simp: search_in_order_Some)

section \<open>Words\<close>

text \<open>Clearing the bits of a mask is idempotent, and a number below the mask is kept.\<close>

lemma and_not_idem [simp]: "(x AND NOT m) AND NOT m = x AND NOT (m :: 'a::len word)"
  by (simp add: ac_simps)

lemma two_digits_le:
  fixes f g m n b :: nat
  assumes "m < b" and "n < b"
  shows "f * b + m \<le> g * b + n \<longleftrightarrow> f < g \<or> (f = g \<and> m \<le> n)"
proof (cases f g rule: linorder_cases)
  case less
  then have "(f + 1) * b \<le> g * b" by (intro mult_le_mono1) simp
  with assms less show ?thesis by (simp add: algebra_simps)
next
  case greater
  then have "(g + 1) * b \<le> f * b" by (intro mult_le_mono1) simp
  with assms greater show ?thesis by (simp add: algebra_simps)
qed simp

lemma unat_less_numeral: "unat (x :: 'a::len word) < 2 ^ LENGTH('a)"
  by (rule unsigned_less)

lemma word_add_no_wrap:
  "unat a + unat b < 2 ^ LENGTH('a) \<Longrightarrow> unat (a + b) = unat a + unat (b :: 'a::len word)"
  by (simp add: unat_word_ariths)

text \<open>Rounding down to a multiple of a power of two.\<close>

lemma unat_small: "p < 2 ^ 64 \<Longrightarrow> unat (of_nat p :: u64) = p"
  by (simp add: unat_of_nat)

lemma and_not_mask_shift: "x AND NOT (mask n) = push_bit n (drop_bit n (x :: 'a::len word))"
  by (rule bit_word_eqI) (auto simp: bit_simps)

lemma unat_shift_down_up:
  "unat (push_bit n (drop_bit n (x :: 'a::len word))) = unat x div 2 ^ n * 2 ^ n"
proof -
  have x: "unat x < 2 ^ LENGTH('a)" by (rule unat_less_numeral)
  have "unat (push_bit n (drop_bit n x)) = take_bit LENGTH('a) (push_bit n (drop_bit n (unat x)))"
    using x by (simp add: unsigned_push_bit_eq unsigned_drop_bit_eq take_bit_nat_eq_self)
  also have "\<dots> = unat x div 2 ^ n * 2 ^ n"
  proof -
    have "unat x div 2 ^ n * 2 ^ n \<le> unat x" by simp
    also note x
    finally show ?thesis by (simp add: push_bit_eq_mult drop_bit_eq_div take_bit_nat_eq_self)
  qed
  finally show ?thesis .
qed

section \<open>Decimal output\<close>

text \<open>\<open>%u\<close> of \<open>printf\<close>.\<close>

definition digit_char :: "nat \<Rightarrow> char" where
  "digit_char d = char_of (48 + d)"

fun show_nat :: "nat \<Rightarrow> string" where
  "show_nat n = (if n < 10 then [digit_char n] else show_nat (n div 10) @ [digit_char (n mod 10)])"

declare show_nat.simps [simp del]

lemma show_nat_length: "n < 10 ^ Suc k \<Longrightarrow> length (show_nat n) \<le> Suc k"
proof (induction k arbitrary: n)
  case 0
  then show ?case by (simp add: show_nat.simps [of n])
next
  case (Suc k)
  from Suc.prems have "n div 10 < 10 ^ Suc k" by (simp add: less_mult_imp_div_less mult.commute)
  from Suc.IH [OF this] show ?case by (simp add: show_nat.simps [of n])
qed

end
