(* ===== verification/Machine.thy ===== *)
theory Machine
  imports Prelude
begin

text \<open>
  The cpu types and subtypes of \<open>include/mach/machine.h\<close>. Both are C \<open>int\<close>s: they are
  32-bit words here, compared for equality, or as unsigned numbers after the feature bits of
  \<open>CPU_SUBTYPE_MASK\<close> have been cleared (the mask is an unsigned constant, so the masked value
  is unsigned in C too); where the code compares unmasked subtypes, the model uses the signed
  comparison of words. The constants are abbreviations, so that evaluation sees numerals.
\<close>

type_synonym cpu_type = u32
type_synonym cpu_subtype = u32

abbreviation (input) "CPU_TYPE_ANY \<equiv> (- 1 :: cpu_type)"
abbreviation (input) "CPU_TYPE_MC680x0 \<equiv> (6 :: cpu_type)"
abbreviation (input) "CPU_TYPE_I386 \<equiv> (7 :: cpu_type)"
abbreviation (input) "CPU_TYPE_HPPA \<equiv> (11 :: cpu_type)"
abbreviation (input) "CPU_TYPE_ARM \<equiv> (12 :: cpu_type)"
abbreviation (input) "CPU_TYPE_MC88000 \<equiv> (13 :: cpu_type)"
abbreviation (input) "CPU_TYPE_SPARC \<equiv> (14 :: cpu_type)"
abbreviation (input) "CPU_TYPE_I860 \<equiv> (15 :: cpu_type)"
abbreviation (input) "CPU_TYPE_POWERPC \<equiv> (18 :: cpu_type)"
abbreviation (input) "CPU_TYPE_VEO \<equiv> (255 :: cpu_type)"
abbreviation (input) "CPU_TYPE_X86_64 \<equiv> (0x1000007 :: cpu_type)"
abbreviation (input) "CPU_TYPE_ARM64 \<equiv> (0x100000C :: cpu_type)"
abbreviation (input) "CPU_TYPE_POWERPC64 \<equiv> (0x1000012 :: cpu_type)"

abbreviation (input) "CPU_SUBTYPE_MASK \<equiv> (0xFF000000 :: cpu_subtype)"
abbreviation (input) "CPU_SUBTYPE_MULTIPLE \<equiv> (- 1 :: cpu_subtype)"
abbreviation (input) "CPU_SUBTYPE_LITTLE_ENDIAN \<equiv> (0 :: cpu_subtype)"
abbreviation (input) "CPU_SUBTYPE_BIG_ENDIAN \<equiv> (1 :: cpu_subtype)"

abbreviation (input) "CPU_SUBTYPE_I386_ALL \<equiv> (3 :: cpu_subtype)"
abbreviation (input) "CPU_SUBTYPE_X86_64_ALL \<equiv> CPU_SUBTYPE_I386_ALL"
abbreviation (input) "CPU_SUBTYPE_486 \<equiv> (4 :: cpu_subtype)"
abbreviation (input) "CPU_SUBTYPE_486SX \<equiv> (132 :: cpu_subtype)"
abbreviation (input) "CPU_SUBTYPE_586 \<equiv> (5 :: cpu_subtype)"
abbreviation (input) "CPU_SUBTYPE_PENT \<equiv> (5 :: cpu_subtype)"
abbreviation (input) "CPU_SUBTYPE_PENTPRO \<equiv> (22 :: cpu_subtype)"
abbreviation (input) "CPU_SUBTYPE_PENTII_M3 \<equiv> (54 :: cpu_subtype)"
abbreviation (input) "CPU_SUBTYPE_PENTII_M5 \<equiv> (86 :: cpu_subtype)"
abbreviation (input) "CPU_SUBTYPE_PENTIUM_4 \<equiv> (10 :: cpu_subtype)"
abbreviation (input) "CPU_SUBTYPE_X86_64_H \<equiv> (8 :: cpu_subtype)"

abbreviation (input) "CPU_SUBTYPE_MC680x0_ALL \<equiv> (1 :: cpu_subtype)"
abbreviation (input) "CPU_SUBTYPE_MC68030 \<equiv> (1 :: cpu_subtype)"
abbreviation (input) "CPU_SUBTYPE_MC68040 \<equiv> (2 :: cpu_subtype)"
abbreviation (input) "CPU_SUBTYPE_MC68030_ONLY \<equiv> (3 :: cpu_subtype)"

abbreviation (input) "CPU_SUBTYPE_HPPA_ALL \<equiv> (0 :: cpu_subtype)"
abbreviation (input) "CPU_SUBTYPE_HPPA_7100 \<equiv> (0 :: cpu_subtype)"
abbreviation (input) "CPU_SUBTYPE_HPPA_7100LC \<equiv> (1 :: cpu_subtype)"

abbreviation (input) "CPU_SUBTYPE_ARM_ALL \<equiv> (0 :: cpu_subtype)"
abbreviation (input) "CPU_SUBTYPE_ARM_V4T \<equiv> (5 :: cpu_subtype)"
abbreviation (input) "CPU_SUBTYPE_ARM_V6 \<equiv> (6 :: cpu_subtype)"
abbreviation (input) "CPU_SUBTYPE_ARM_V5TEJ \<equiv> (7 :: cpu_subtype)"
abbreviation (input) "CPU_SUBTYPE_ARM_XSCALE \<equiv> (8 :: cpu_subtype)"
abbreviation (input) "CPU_SUBTYPE_ARM_V7 \<equiv> (9 :: cpu_subtype)"
abbreviation (input) "CPU_SUBTYPE_ARM_V7F \<equiv> (10 :: cpu_subtype)"
abbreviation (input) "CPU_SUBTYPE_ARM_V7S \<equiv> (11 :: cpu_subtype)"
abbreviation (input) "CPU_SUBTYPE_ARM_V7K \<equiv> (12 :: cpu_subtype)"
abbreviation (input) "CPU_SUBTYPE_ARM_V8 \<equiv> (13 :: cpu_subtype)"
abbreviation (input) "CPU_SUBTYPE_ARM_V6M \<equiv> (14 :: cpu_subtype)"
abbreviation (input) "CPU_SUBTYPE_ARM_V7M \<equiv> (15 :: cpu_subtype)"
abbreviation (input) "CPU_SUBTYPE_ARM_V7EM \<equiv> (16 :: cpu_subtype)"
abbreviation (input) "CPU_SUBTYPE_ARM64_ALL \<equiv> (0 :: cpu_subtype)"
abbreviation (input) "CPU_SUBTYPE_ARM64_V8 \<equiv> (1 :: cpu_subtype)"

abbreviation (input) "CPU_SUBTYPE_MC88000_ALL \<equiv> (0 :: cpu_subtype)"
abbreviation (input) "CPU_SUBTYPE_MC88110 \<equiv> (2 :: cpu_subtype)"
abbreviation (input) "CPU_SUBTYPE_I860_ALL \<equiv> (0 :: cpu_subtype)"
abbreviation (input) "CPU_SUBTYPE_I860_860 \<equiv> (1 :: cpu_subtype)"
abbreviation (input) "CPU_SUBTYPE_SPARC_ALL \<equiv> (0 :: cpu_subtype)"

abbreviation (input) "CPU_SUBTYPE_POWERPC_ALL \<equiv> (0 :: cpu_subtype)"
abbreviation (input) "CPU_SUBTYPE_POWERPC_601 \<equiv> (1 :: cpu_subtype)"
abbreviation (input) "CPU_SUBTYPE_POWERPC_602 \<equiv> (2 :: cpu_subtype)"
abbreviation (input) "CPU_SUBTYPE_POWERPC_603 \<equiv> (3 :: cpu_subtype)"
abbreviation (input) "CPU_SUBTYPE_POWERPC_603e \<equiv> (4 :: cpu_subtype)"
abbreviation (input) "CPU_SUBTYPE_POWERPC_603ev \<equiv> (5 :: cpu_subtype)"
abbreviation (input) "CPU_SUBTYPE_POWERPC_604 \<equiv> (6 :: cpu_subtype)"
abbreviation (input) "CPU_SUBTYPE_POWERPC_604e \<equiv> (7 :: cpu_subtype)"
abbreviation (input) "CPU_SUBTYPE_POWERPC_620 \<equiv> (8 :: cpu_subtype)"
abbreviation (input) "CPU_SUBTYPE_POWERPC_750 \<equiv> (9 :: cpu_subtype)"
abbreviation (input) "CPU_SUBTYPE_POWERPC_7400 \<equiv> (10 :: cpu_subtype)"
abbreviation (input) "CPU_SUBTYPE_POWERPC_7450 \<equiv> (11 :: cpu_subtype)"
abbreviation (input) "CPU_SUBTYPE_POWERPC_970 \<equiv> (100 :: cpu_subtype)"

abbreviation (input) "CPU_SUBTYPE_VEO_1 \<equiv> (1 :: cpu_subtype)"
abbreviation (input) "CPU_SUBTYPE_VEO_2 \<equiv> (2 :: cpu_subtype)"
abbreviation (input) "CPU_SUBTYPE_VEO_3 \<equiv> (3 :: cpu_subtype)"
abbreviation (input) "CPU_SUBTYPE_VEO_4 \<equiv> (4 :: cpu_subtype)"
abbreviation (input) "CPU_SUBTYPE_VEO_ALL \<equiv> CPU_SUBTYPE_VEO_2"

text \<open>\<open>cpusubtype & ~CPU_SUBTYPE_MASK\<close>: the subtype without its feature bits.\<close>

definition subtype_base :: "cpu_subtype \<Rightarrow> cpu_subtype" where
  "subtype_base s = s AND NOT CPU_SUBTYPE_MASK"

lemma subtype_base_idem [simp]: "subtype_base (subtype_base s) = subtype_base s"
  by (simp add: subtype_base_def)

lemma subtype_base_take_bit: "subtype_base s = take_bit 24 s"
proof -
  have "NOT CPU_SUBTYPE_MASK = (mask 24 :: u32)" by (simp add: mask_eq_exp_minus_1)
  then show ?thesis by (simp only: subtype_base_def take_bit_eq_mask)
qed

lemma subtype_base_0 [simp]: "subtype_base 0 = 0"
  and subtype_base_1 [simp]: "subtype_base 1 = 1"
  by (simp_all add: subtype_base_take_bit)

lemma subtype_base_numeral [simp]: "subtype_base (numeral n) = take_bit 24 (numeral n)"
  by (rule subtype_base_take_bit)

lemma subtype_base_small: "s < 0x1000000 \<Longrightarrow> subtype_base s = s"
  by (simp add: subtype_base_take_bit take_bit_eq_mod word_less_nat_alt word_arith_nat_mod)

text \<open>\<open>CPU_SUBTYPE_INTEL_FAMILY\<close> and \<open>CPU_SUBTYPE_INTEL_MODEL\<close> of a masked subtype.\<close>

definition INTEL_FAMILY :: "cpu_subtype \<Rightarrow> cpu_subtype" where
  "INTEL_FAMILY x = x AND 15"

definition INTEL_MODEL :: "cpu_subtype \<Rightarrow> cpu_subtype" where
  "INTEL_MODEL x = drop_bit 4 x"

abbreviation (input) "CPU_SUBTYPE_INTEL_FAMILY_MAX \<equiv> (15 :: nat)"

lemma INTEL_FAMILY_max: "unat (INTEL_FAMILY x) \<le> CPU_SUBTYPE_INTEL_FAMILY_MAX"
proof -
  have "INTEL_FAMILY x \<le> 15" by (simp add: INTEL_FAMILY_def word_and_le1)
  then show ?thesis by (simp add: word_le_nat_alt)
qed

lemma INTEL_family_model_inj:
  "INTEL_FAMILY x = INTEL_FAMILY y \<Longrightarrow> INTEL_MODEL x = INTEL_MODEL y \<Longrightarrow> x = y"
proof -
  have split: "z = push_bit 4 (drop_bit 4 z) + take_bit 4 z" for z :: u32
    by (rule bits_ident [symmetric])
  have "z AND 15 = take_bit 4 z" for z :: u32
    by (simp add: take_bit_eq_mask mask_eq_exp_minus_1)
  moreover assume "INTEL_FAMILY x = INTEL_FAMILY y" "INTEL_MODEL x = INTEL_MODEL y"
  ultimately show "x = y"
    using split [of x] split [of y] by (simp add: INTEL_FAMILY_def INTEL_MODEL_def)
qed

end
