(* ===== verification/Preference.thy ===== *)
theory Preference
  imports Prelude
begin

text \<open>
  The abstract specification of a selection by preference. A rank gives each acceptable
  element a natural number, smaller being better; a selection from an array is best for the
  rank when it returns the first of the elements of smallest rank, and nothing exactly when
  no element has a rank. Scans, sequences of scans and searches for a minimum are best for
  the rank they compute, and a rank determines its selection.
\<close>

type_synonym 'a rank = "'a \<Rightarrow> nat option"

definition is_best :: "'a rank \<Rightarrow> 'a list \<Rightarrow> nat option \<Rightarrow> bool" where
  "is_best r xs res \<longleftrightarrow> (case res of
     None \<Rightarrow> \<forall>x \<in> set xs. r x = None
   | Some i \<Rightarrow> i < length xs \<and> (\<exists>k. r (xs ! i) = Some k
       \<and> (\<forall>j < length xs. \<forall>k'. r (xs ! j) = Some k' \<longrightarrow> k < k' \<or> (k = k' \<and> i \<le> j))))"

lemma is_best_None: "is_best r xs None \<longleftrightarrow> (\<forall>x \<in> set xs. r x = None)"
  by (simp add: is_best_def)

lemma is_best_Some:
  "is_best r xs (Some i) \<longleftrightarrow> i < length xs \<and> (\<exists>k. r (xs ! i) = Some k
     \<and> (\<forall>j < length xs. \<forall>k'. r (xs ! j) = Some k' \<longrightarrow> k < k' \<or> (k = k' \<and> i \<le> j)))"
  by (simp add: is_best_def)

lemma is_best_unique:
  assumes a: "is_best r xs a" and b: "is_best r xs b"
  shows "a = b"
proof (cases a)
  case None
  with a have none: "\<forall>x \<in> set xs. r x = None" by (simp add: is_best_None)
  show ?thesis
  proof (cases b)
    case (Some j)
    with b have "j < length xs" "r (xs ! j) \<noteq> None" by (auto simp: is_best_Some)
    with none show ?thesis by simp
  qed (simp add: None)
next
  case (Some i)
  with a obtain k where i: "i < length xs" "r (xs ! i) = Some k" and
    le: "\<forall>j < length xs. \<forall>k'. r (xs ! j) = Some k' \<longrightarrow> k < k' \<or> (k = k' \<and> i \<le> j)"
    by (auto simp: is_best_Some)
  show ?thesis
  proof (cases b)
    case None
    with b i show ?thesis by (auto simp: is_best_None)
  next
    case (Some j)
    with b obtain l where j: "j < length xs" "r (xs ! j) = Some l" and
      le': "\<forall>i < length xs. \<forall>k'. r (xs ! i) = Some k' \<longrightarrow> l < k' \<or> (l = k' \<and> j \<le> i)"
      by (auto simp: is_best_Some)
    from le j le' i have "i = j" by force
    with Some \<open>a = Some i\<close> show ?thesis by simp
  qed
qed

lemma is_best_ranked: "is_best r xs (Some i) \<Longrightarrow> i < length xs \<and> r (xs ! i) \<noteq> None"
  by (auto simp: is_best_Some)

lemma is_best_complete:
  "is_best r xs res \<Longrightarrow> x \<in> set xs \<Longrightarrow> r x \<noteq> None \<Longrightarrow> \<exists>i. res = Some i"
  by (cases res) (auto simp: is_best_None)

lemma is_best_cong: "(\<And>x. x \<in> set xs \<Longrightarrow> r x = r' x) \<Longrightarrow> is_best r xs res = is_best r' xs res"
  by (auto simp: is_best_def split: option.split)

section \<open>Ranks that scans compute\<close>

definition test_rank :: "('a \<Rightarrow> bool) \<Rightarrow> 'a rank" where
  "test_rank P x = (if P x then Some 0 else None)"

text \<open>First by one rank, bounded by \<open>n\<close>, then by a second one.\<close>

definition then_rank :: "nat \<Rightarrow> 'a rank \<Rightarrow> 'a rank \<Rightarrow> 'a rank" where
  "then_rank n r s x = (case r x of Some k \<Rightarrow> Some k | None \<Rightarrow> map_option ((+) n) (s x))"

lemma then_rank_eq_0: "n \<noteq> 0 \<Longrightarrow> then_rank n r s x = Some 0 \<longleftrightarrow> r x = Some 0"
  by (cases "r x") (auto simp: then_rank_def)

text \<open>The position of the first test that the element passes.\<close>

definition tests_rank :: "('a \<Rightarrow> bool) list \<Rightarrow> 'a rank" where
  "tests_rank Ps x = first_index (\<lambda>P. P x) Ps"

lemma is_best_first_index: "is_best (test_rank P) xs (first_index P xs)"
proof (cases "first_index P xs")
  case None
  then show ?thesis by (simp add: is_best_None test_rank_def del: first_index_None)
      (simp add: test_rank_def)
next
  case (Some i)
  note first = first_index_SomeD [OF this]
  have "i \<le> j" if "P (xs ! j)" for j
    using first(3) [of j] that by (meson not_less)
  with first Some show ?thesis by (auto simp: is_best_Some test_rank_def)
qed

lemma is_best_then:
  assumes a: "is_best r xs a" and b: "is_best s xs b" and bound: "\<And>x k. r x = Some k \<Longrightarrow> k < n"
  shows "is_best (then_rank n r s) xs (or_else a b)"
proof (cases a)
  case None
  with a have "\<And>x. x \<in> set xs \<Longrightarrow> then_rank n r s x = map_option ((+) n) (s x)"
    by (simp add: is_best_None then_rank_def)
  then have "is_best (then_rank n r s) xs b = is_best (\<lambda>x. map_option ((+) n) (s x)) xs b"
    by (rule is_best_cong)
  moreover have "is_best (\<lambda>x. map_option ((+) n) (s x)) xs b"
    using b by (cases b) (fastforce simp: is_best_None is_best_Some)+
  ultimately show ?thesis by (simp add: None)
next
  case (Some i)
  with a obtain k where i: "i < length xs" "r (xs ! i) = Some k" and
    le: "\<And>j k'. j < length xs \<Longrightarrow> r (xs ! j) = Some k' \<Longrightarrow> k < k' \<or> (k = k' \<and> i \<le> j)"
    by (auto simp: is_best_Some)
  have "k < k' \<or> (k = k' \<and> i \<le> j)"
    if "j < length xs" "then_rank n r s (xs ! j) = Some k'" for j k'
    using that le [OF that(1)] bound [OF i(2)]
    by (auto simp: then_rank_def split: option.splits)
  with i have "is_best (then_rank n r s) xs (Some i)"
    by (auto simp: is_best_Some then_rank_def)
  then show ?thesis by (simp add: Some)
qed

lemma tests_rank_Cons: "tests_rank (P # Ps) = then_rank 1 (test_rank P) (tests_rank Ps)"
  by (auto simp: fun_eq_iff tests_rank_def then_rank_def test_rank_def first_index_Cons
      plus_Suc_fun [of 0, simplified])

lemma is_best_tests:
  "is_best (tests_rank Ps) xs (search_in_order (\<lambda>P. first_index P xs) Ps)"
proof (induction Ps)
  case Nil
  then show ?case by (simp add: is_best_None tests_rank_def)
next
  case (Cons P Ps)
  have "is_best (tests_rank (P # Ps)) xs
      (or_else (first_index P xs) (search_in_order (\<lambda>P. first_index P xs) Ps))"
    unfolding tests_rank_Cons
    by (rule is_best_then [OF is_best_first_index Cons]) (simp add: test_rank_def split: if_splits)
  then show ?case by (simp add: or_else_def)
qed

lemma tests_rank_bound: "tests_rank Ps x = Some k \<Longrightarrow> k < length Ps"
  by (simp add: tests_rank_def first_index_Some)

text \<open>
  Stated with \<open>list_ex\<close>: a hypothesis that quantifies over the tests themselves would be a
  rewrite rule for every predicate.
\<close>

lemma tests_rank_ranked: "tests_rank Ps x \<noteq> None \<longleftrightarrow> list_ex (\<lambda>P. P x) Ps"
proof (induction Ps)
  case Nil
  show ?case by (simp add: tests_rank_def)
next
  case (Cons P Ps)
  then show ?case by (cases "P x") (simp_all add: tests_rank_def first_index_Cons del: first_index_None)
qed

lemma tests_rank_SomeD: "tests_rank Ps x = Some k \<Longrightarrow> list_ex (\<lambda>P. P x) Ps"
  using tests_rank_ranked [of Ps x] by simp

text \<open>The first element at which a measure is least.\<close>

definition measure_rank :: "('a \<Rightarrow> bool) \<Rightarrow> ('a \<Rightarrow> nat) \<Rightarrow> 'a rank" where
  "measure_rank P m x = (if P x then Some (m x) else None)"

lemma is_best_least:
  assumes "\<exists>x \<in> set xs. P x"
  shows "is_best (measure_rank P m) xs
    (first_index (\<lambda>x. P x \<and> (\<forall>y \<in> set xs. P y \<longrightarrow> m x \<le> m y)) xs)"
proof -
  let ?Q = "\<lambda>x. P x \<and> (\<forall>y \<in> set xs. P y \<longrightarrow> m x \<le> m y)"
  let ?x = "arg_min_on m {x \<in> set xs. P x}"
  have "finite {x \<in> set xs. P x}" "{x \<in> set xs. P x} \<noteq> {}" using assms by auto
  from arg_min_if_finite [OF this, of m] have "?x \<in> set xs" "?Q ?x" by (auto simp: not_less)
  then have "\<exists>x \<in> set xs. ?Q x" by blast
  then obtain i where "first_index ?Q xs = Some i"
    unfolding first_index_exists [symmetric] by blast
  note i = this first_index_SomeD [OF this]
  have "m (xs ! i) < m (xs ! j) \<or> (m (xs ! i) = m (xs ! j) \<and> i \<le> j)"
    if "j < length xs" "P (xs ! j)" for j
  proof (cases "m (xs ! i) < m (xs ! j)")
    case False
    with i(3) that have eq: "m (xs ! i) = m (xs ! j)" by (metis nth_mem order.not_eq_order_implies_strict)
    with i(3) that have "?Q (xs ! j)" by auto
    with i(4) [of j] have "i \<le> j" by (meson not_less)
    with eq show ?thesis by simp
  qed simp
  with i show ?thesis by (auto simp: is_best_Some measure_rank_def split: if_splits)
qed

text \<open>One more element at the end: it is taken when it is strictly better.\<close>

lemma is_best_snoc:
  assumes "is_best (measure_rank P m) xs b"
  shows "is_best (measure_rank P m) (xs @ [x])
    (if P x \<and> (case b of None \<Rightarrow> True | Some i \<Rightarrow> m x < m (xs ! i)) then Some (length xs) else b)"
proof (cases b)
  case None
  with assms have "\<And>y. y \<in> set xs \<Longrightarrow> \<not> P y" by (auto simp: is_best_None measure_rank_def)
  then have "\<And>j. j < length xs \<Longrightarrow> \<not> P (xs ! j)" by simp
  with None assms show ?thesis
    by (auto simp: is_best_None is_best_Some measure_rank_def nth_append less_Suc_eq)
next
  case (Some i)
  with assms have i: "i < length xs" "P (xs ! i)"
    and le: "\<And>j. j < length xs \<Longrightarrow> P (xs ! j) \<Longrightarrow> m (xs ! i) < m (xs ! j) \<or> (m (xs ! i) = m (xs ! j) \<and> i \<le> j)"
    by (auto simp: is_best_Some measure_rank_def split: if_splits)
  show ?thesis
  proof (cases "P x \<and> m x < m (xs ! i)")
    case True
    then have "m x < m (xs ! j)" if "j < length xs" "P (xs ! j)" for j
      using le [OF that] by auto
    with True Some show ?thesis
      by (auto simp: is_best_Some measure_rank_def nth_append less_Suc_eq split: if_splits)
  next
    case False
    have "m (xs ! i) < m ((xs @ [x]) ! j) \<or> (m (xs ! i) = m ((xs @ [x]) ! j) \<and> i \<le> j)"
      if "j < Suc (length xs)" "P ((xs @ [x]) ! j)" for j
      using that False le [of j] i by (auto simp: nth_append less_Suc_eq)
    with False Some i show ?thesis
      by (auto simp: is_best_Some measure_rank_def nth_append split: if_splits)
  qed
qed

end
