(* ===== verification/Fat.thy ===== *)
theory Fat
  imports Machine Preference
begin

text \<open>
  The fat (universal) file structures of \<open>include/mach-o/fat.h\<close>, and the view of them that
  architecture selection reads: the cpu type and subtype of each slice. The selection routines
  of \<open>libstuff/best_arch.c\<close> and \<open>libmacho/arch.c\<close> take a \<open>struct fat_arch\<close> array and a
  \<open>struct fat_arch_64\<close> array of which one is null; every loop reads the second when it is not.
  That choice is the datatype \<open>fat_table\<close>.
\<close>

record fat_header =
  fh_magic :: u32
  fh_nfat_arch :: u32

record fat_arch =
  fa_cputype :: cpu_type
  fa_cpusubtype :: cpu_subtype
  fa_offset :: u32
  fa_size :: u32
  fa_align :: u32

record fat_arch_64 =
  fa64_cputype :: cpu_type
  fa64_cpusubtype :: cpu_subtype
  fa64_offset :: u64
  fa64_size :: u64
  fa64_align :: u32
  fa64_reserved :: u32

datatype fat_table = Fat32 "fat_arch list" | Fat64 "fat_arch_64 list"

type_synonym slice = "cpu_type \<times> cpu_subtype"

fun slices :: "fat_table \<Rightarrow> slice list" where
  "slices (Fat64 fs) = map (\<lambda>f. (fa64_cputype f, fa64_cpusubtype f)) fs"
| "slices (Fat32 fs) = map (\<lambda>f. (fa_cputype f, fa_cpusubtype f)) fs"

text \<open>The two tests of the scans: the subtypes agree up to feature bits, or exactly.\<close>

definition same_arch :: "cpu_type \<Rightarrow> cpu_subtype \<Rightarrow> slice \<Rightarrow> bool" where
  "same_arch ct cs s \<longleftrightarrow> fst s = ct \<and> subtype_base (snd s) = subtype_base cs"

definition base_test :: "cpu_type \<Rightarrow> cpu_subtype \<Rightarrow> slice \<Rightarrow> bool" where
  "base_test ct sub s \<longleftrightarrow> fst s = ct \<and> subtype_base (snd s) = sub"

definition raw_test :: "cpu_type \<Rightarrow> cpu_subtype \<Rightarrow> slice \<Rightarrow> bool" where
  "raw_test ct sub s \<longleftrightarrow> fst s = ct \<and> snd s = sub"

definition find_base :: "slice list \<Rightarrow> cpu_type \<Rightarrow> cpu_subtype \<Rightarrow> nat option" where
  "find_base ss ct sub = first_index (base_test ct sub) ss"

definition find_raw :: "slice list \<Rightarrow> cpu_type \<Rightarrow> cpu_subtype \<Rightarrow> nat option" where
  "find_raw ss ct sub = first_index (raw_test ct sub) ss"

lemma search_find_base:
  "search_in_order (find_base ss ct) ks = search_in_order (\<lambda>P. first_index P ss) (map (base_test ct) ks)"
  by (simp add: search_in_order_map find_base_def [abs_def])

lemma search_find_raw:
  "search_in_order (find_raw ss ct) ks = search_in_order (\<lambda>P. first_index P ss) (map (raw_test ct) ks)"
  by (simp add: search_in_order_map find_raw_def [abs_def])

text \<open>
  The contract of an architecture chooser, whichever routine provides it: the first exact
  match wins, and whatever is chosen is a slice of the table whose cpu type \<open>serves\<close> the one
  asked for.
\<close>

locale slice_chooser =
  fixes pick :: "cpu_type \<Rightarrow> cpu_subtype \<Rightarrow> slice list \<Rightarrow> nat option"
    and serves :: "cpu_type \<Rightarrow> cpu_type \<Rightarrow> bool"
  assumes exact_first: "first_index (same_arch ct cs) ss = Some i \<Longrightarrow> pick ct cs ss = Some i"
    and picked_type: "pick ct cs ss = Some i \<Longrightarrow> i < length ss \<and> serves (fst (ss ! i)) ct"
begin

lemma exact_succeeds:
  assumes "s \<in> set ss" and "same_arch ct cs s"
  obtains i where "pick ct cs ss = Some i" and "i < length ss" and "same_arch ct cs (ss ! i)"
    and "\<forall>j < i. \<not> same_arch ct cs (ss ! j)"
proof -
  from assms obtain i where i: "first_index (same_arch ct cs) ss = Some i"
    by (metis first_index_exists)
  from exact_first [OF i] first_index_SomeD [OF i] show ?thesis
    by (intro that) auto
qed

lemma wrong_type_fails:
  assumes "\<forall>s \<in> set ss. \<not> serves (fst s) ct"
  shows "pick ct cs ss = None"
proof (rule ccontr)
  assume "pick ct cs ss \<noteq> None"
  then obtain i where "pick ct cs ss = Some i" by blast
  from picked_type [OF this] have "i < length ss" "serves (fst (ss ! i)) ct" by auto
  with assms show False by (metis nth_mem)
qed

lemma exact_stable_append:
  assumes "s \<in> set ss" and "same_arch ct cs s"
  shows "pick ct cs (ss @ ts) = pick ct cs ss"
proof -
  from assms obtain i where i: "first_index (same_arch ct cs) ss = Some i"
    by (metis first_index_exists)
  then have "first_index (same_arch ct cs) (ss @ ts) = Some i"
    by (simp add: first_index_append)
  from exact_first [OF this] exact_first [OF i] show ?thesis by simp
qed

end

end
