(* ===== verification/Arch_Combine.thy ===== *)
theory Arch_Combine
  imports Machine
begin

text \<open>
  \<open>cpusubtype_combine\<close> and \<open>cpusubtype_execute\<close> of \<open>libstuff/best_arch.c\<close>: what subtype a link
  of two objects gets, and whether a host of one subtype runs code of another.
\<close>

section \<open>Combining subtypes\<close>

text \<open>The results are \<open>cpu_subtype_t\<close> values; -1 says that the two cannot be combined.\<close>

definition combine_m68k :: "cpu_subtype \<Rightarrow> cpu_subtype \<Rightarrow> cpu_subtype" where
  "combine_m68k s1 s2 =
     (let b1 = subtype_base s1; b2 = subtype_base s2 in
      if b1 \<noteq> CPU_SUBTYPE_MC680x0_ALL \<and> b1 \<noteq> CPU_SUBTYPE_MC68030_ONLY \<and> b1 \<noteq> CPU_SUBTYPE_MC68040
      then - 1
      else if b2 \<noteq> CPU_SUBTYPE_MC680x0_ALL \<and> b2 \<noteq> CPU_SUBTYPE_MC68030_ONLY
        \<and> b2 \<noteq> CPU_SUBTYPE_MC68040
      then - 1
      else if b1 = CPU_SUBTYPE_MC68030_ONLY \<and> b2 = CPU_SUBTYPE_MC68040 then - 1
      else if b1 = CPU_SUBTYPE_MC68040 \<and> b2 = CPU_SUBTYPE_MC68030_ONLY then - 1
      else if b1 = CPU_SUBTYPE_MC68030_ONLY \<or> b2 = CPU_SUBTYPE_MC68030_ONLY
      then CPU_SUBTYPE_MC68030_ONLY
      else if b1 = CPU_SUBTYPE_MC68040 \<or> b2 = CPU_SUBTYPE_MC68040 then CPU_SUBTYPE_MC68040
      else - 1)"

definition combine_ppc :: "cpu_subtype \<Rightarrow> cpu_subtype \<Rightarrow> cpu_subtype" where
  "combine_ppc s1 s2 =
     (let b1 = subtype_base s1; b2 = subtype_base s2 in
      if b1 = CPU_SUBTYPE_POWERPC_ALL then s2
      else if b2 = CPU_SUBTYPE_POWERPC_ALL then s1
      else if b1 = CPU_SUBTYPE_POWERPC_601 \<or> b2 = CPU_SUBTYPE_POWERPC_601
      then CPU_SUBTYPE_POWERPC_601
      else if b1 > b2 then s1 else s2)"

definition combine_ppc64 :: "cpu_subtype \<Rightarrow> cpu_subtype \<Rightarrow> cpu_subtype" where
  "combine_ppc64 s1 s2 =
     (let b1 = subtype_base s1; b2 = subtype_base s2 in
      if b1 = CPU_SUBTYPE_POWERPC_ALL then s2
      else if b2 = CPU_SUBTYPE_POWERPC_ALL then s1
      else if b1 > b2 then s1 else s2)"

definition combine_veo :: "cpu_subtype \<Rightarrow> cpu_subtype \<Rightarrow> cpu_subtype" where
  "combine_veo s1 s2 =
     (let b1 = subtype_base s1; b2 = subtype_base s2 in
      if b1 = CPU_SUBTYPE_VEO_1 \<and> b2 = CPU_SUBTYPE_VEO_2 then CPU_SUBTYPE_VEO_1
      else if b1 = CPU_SUBTYPE_VEO_2 \<and> b2 = CPU_SUBTYPE_VEO_1 then CPU_SUBTYPE_VEO_1
      else if b1 = CPU_SUBTYPE_VEO_3 \<and> b2 = CPU_SUBTYPE_VEO_2 then CPU_SUBTYPE_VEO_3
      else if b1 = CPU_SUBTYPE_VEO_2 \<and> b2 = CPU_SUBTYPE_VEO_3 then CPU_SUBTYPE_VEO_3
      else if b1 = CPU_SUBTYPE_VEO_4 \<and> (b2 = CPU_SUBTYPE_VEO_2 \<or> b2 = CPU_SUBTYPE_VEO_3)
      then CPU_SUBTYPE_VEO_4
      else if (b1 = CPU_SUBTYPE_VEO_2 \<or> b1 = CPU_SUBTYPE_VEO_3) \<and> b2 = CPU_SUBTYPE_VEO_4
      then CPU_SUBTYPE_VEO_4
      else - 1)"

definition combine_m88k :: "cpu_subtype \<Rightarrow> cpu_subtype \<Rightarrow> cpu_subtype" where
  "combine_m88k s1 s2 =
     (let b1 = subtype_base s1; b2 = subtype_base s2 in
      if b1 \<noteq> CPU_SUBTYPE_MC88000_ALL \<and> b1 \<noteq> CPU_SUBTYPE_MC88110 then - 1
      else if b2 \<noteq> CPU_SUBTYPE_MC88000_ALL \<and> b2 \<noteq> CPU_SUBTYPE_MC88110 then - 1
      else if b1 = CPU_SUBTYPE_MC88110 \<or> b2 = CPU_SUBTYPE_MC88110 then CPU_SUBTYPE_MC88110
      else - 1)"

definition combine_i860 :: "cpu_subtype \<Rightarrow> cpu_subtype \<Rightarrow> cpu_subtype" where
  "combine_i860 s1 s2 =
     (let b1 = subtype_base s1; b2 = subtype_base s2 in
      if b1 \<noteq> CPU_SUBTYPE_I860_ALL \<and> b1 \<noteq> CPU_SUBTYPE_I860_860 then - 1
      else if b2 \<noteq> CPU_SUBTYPE_I860_ALL \<and> b2 \<noteq> CPU_SUBTYPE_I860_860 then - 1
      else if b1 = CPU_SUBTYPE_I860_860 \<or> b2 = CPU_SUBTYPE_I860_860 then CPU_SUBTYPE_I860_860
      else - 1)"

definition combine_hppa :: "cpu_subtype \<Rightarrow> cpu_subtype \<Rightarrow> cpu_subtype" where
  "combine_hppa s1 s2 =
     (let b1 = subtype_base s1; b2 = subtype_base s2 in
      if b1 \<noteq> CPU_SUBTYPE_HPPA_ALL \<and> b1 \<noteq> CPU_SUBTYPE_HPPA_7100LC then - 1
      else if b2 \<noteq> CPU_SUBTYPE_HPPA_ALL \<and> b2 \<noteq> CPU_SUBTYPE_HPPA_7100LC then - 1
      else CPU_SUBTYPE_HPPA_7100LC)"

definition combine_arm :: "cpu_subtype \<Rightarrow> cpu_subtype \<Rightarrow> cpu_subtype" where
  "combine_arm s1 s2 =
     (let b1 = subtype_base s1; b2 = subtype_base s2 in
      if b1 = CPU_SUBTYPE_ARM_ALL then s2
      else if b2 = CPU_SUBTYPE_ARM_ALL then s1
      else if b1 = CPU_SUBTYPE_ARM_V7
      then (if b2 = CPU_SUBTYPE_ARM_XSCALE then - 1 else CPU_SUBTYPE_ARM_V7)
      else if b1 = CPU_SUBTYPE_ARM_V6
      then (if b2 = CPU_SUBTYPE_ARM_XSCALE then - 1 else CPU_SUBTYPE_ARM_V6)
      else if b1 = CPU_SUBTYPE_ARM_XSCALE
      then (if b2 = CPU_SUBTYPE_ARM_V7 \<or> b2 = CPU_SUBTYPE_ARM_V6 \<or> b2 = CPU_SUBTYPE_ARM_V5TEJ
            then - 1 else CPU_SUBTYPE_ARM_XSCALE)
      else if b1 = CPU_SUBTYPE_ARM_V5TEJ
      then (if b2 = CPU_SUBTYPE_ARM_XSCALE then - 1
            else if b2 = CPU_SUBTYPE_ARM_V7 then CPU_SUBTYPE_ARM_V7
            else if b2 = CPU_SUBTYPE_ARM_V6 then CPU_SUBTYPE_ARM_V6
            else CPU_SUBTYPE_ARM_V5TEJ)
      else if b1 = CPU_SUBTYPE_ARM_V4T then b2
      else - 1)"

definition cpusubtype_combine :: "cpu_type \<Rightarrow> cpu_subtype \<Rightarrow> cpu_subtype \<Rightarrow> cpu_subtype" where
  "cpusubtype_combine ct s1 s2 =
     (if ct = CPU_TYPE_X86_64 \<and> (s1 = CPU_SUBTYPE_X86_64_H \<or> s2 = CPU_SUBTYPE_X86_64_H) then - 1
      else if ct = CPU_TYPE_I386 \<or> ct = CPU_TYPE_X86_64 then CPU_SUBTYPE_I386_ALL
      else if subtype_base s1 = subtype_base s2 then s1
      else if ct = CPU_TYPE_MC680x0 then combine_m68k s1 s2
      else if ct = CPU_TYPE_POWERPC then combine_ppc s1 s2
      else if ct = CPU_TYPE_POWERPC64 then combine_ppc64 s1 s2
      else if ct = CPU_TYPE_VEO then combine_veo s1 s2
      else if ct = CPU_TYPE_MC88000 then combine_m88k s1 s2
      else if ct = CPU_TYPE_I860 then combine_i860 s1 s2
      else if ct = CPU_TYPE_HPPA then combine_hppa s1 s2
      else if ct = CPU_TYPE_ARM then combine_arm s1 s2
      else - 1)"

section \<open>Executing a subtype on a host\<close>

definition execute_ppc :: "cpu_subtype \<Rightarrow> cpu_subtype \<Rightarrow> bool" where
  "execute_ppc host exec =
     (let h = subtype_base host; e = subtype_base exec in
      if h = CPU_SUBTYPE_POWERPC_970 then
        e \<in> {CPU_SUBTYPE_POWERPC_970, CPU_SUBTYPE_POWERPC_7450, CPU_SUBTYPE_POWERPC_7400,
             CPU_SUBTYPE_POWERPC_750, CPU_SUBTYPE_POWERPC_620, CPU_SUBTYPE_POWERPC_604e,
             CPU_SUBTYPE_POWERPC_604, CPU_SUBTYPE_POWERPC_603ev, CPU_SUBTYPE_POWERPC_603e,
             CPU_SUBTYPE_POWERPC_603, CPU_SUBTYPE_POWERPC_602, CPU_SUBTYPE_POWERPC_ALL}
      else if h = CPU_SUBTYPE_POWERPC_7450 \<or> h = CPU_SUBTYPE_POWERPC_7400 then
        e \<in> {CPU_SUBTYPE_POWERPC_7450, CPU_SUBTYPE_POWERPC_7400,
             CPU_SUBTYPE_POWERPC_750, CPU_SUBTYPE_POWERPC_620, CPU_SUBTYPE_POWERPC_604e,
             CPU_SUBTYPE_POWERPC_604, CPU_SUBTYPE_POWERPC_603ev, CPU_SUBTYPE_POWERPC_603e,
             CPU_SUBTYPE_POWERPC_603, CPU_SUBTYPE_POWERPC_602, CPU_SUBTYPE_POWERPC_ALL}
      else if h \<in> {CPU_SUBTYPE_POWERPC_750, CPU_SUBTYPE_POWERPC_620, CPU_SUBTYPE_POWERPC_604e,
             CPU_SUBTYPE_POWERPC_604, CPU_SUBTYPE_POWERPC_603ev, CPU_SUBTYPE_POWERPC_603e,
             CPU_SUBTYPE_POWERPC_603, CPU_SUBTYPE_POWERPC_602} then
        e \<in> {CPU_SUBTYPE_POWERPC_750, CPU_SUBTYPE_POWERPC_620, CPU_SUBTYPE_POWERPC_604e,
             CPU_SUBTYPE_POWERPC_604, CPU_SUBTYPE_POWERPC_603ev, CPU_SUBTYPE_POWERPC_603e,
             CPU_SUBTYPE_POWERPC_603, CPU_SUBTYPE_POWERPC_602, CPU_SUBTYPE_POWERPC_ALL}
      else if h = CPU_SUBTYPE_POWERPC_601 then
        e \<in> {CPU_SUBTYPE_POWERPC_750, CPU_SUBTYPE_POWERPC_620, CPU_SUBTYPE_POWERPC_604e,
             CPU_SUBTYPE_POWERPC_604, CPU_SUBTYPE_POWERPC_603ev, CPU_SUBTYPE_POWERPC_603e,
             CPU_SUBTYPE_POWERPC_603, CPU_SUBTYPE_POWERPC_602, CPU_SUBTYPE_POWERPC_601,
             CPU_SUBTYPE_POWERPC_ALL}
      else e = CPU_SUBTYPE_POWERPC_ALL)"

definition execute_i386 :: "cpu_subtype \<Rightarrow> bool" where
  "execute_i386 exec \<longleftrightarrow>
     subtype_base exec \<in> {CPU_SUBTYPE_I386_ALL, CPU_SUBTYPE_486, CPU_SUBTYPE_486SX,
       CPU_SUBTYPE_586, CPU_SUBTYPE_PENTPRO, CPU_SUBTYPE_PENTII_M3, CPU_SUBTYPE_PENTII_M5,
       CPU_SUBTYPE_PENTIUM_4}"

definition execute_m68k :: "cpu_subtype \<Rightarrow> cpu_subtype \<Rightarrow> bool" where
  "execute_m68k host exec =
     (let h = subtype_base host; e = subtype_base exec in
      if h = CPU_SUBTYPE_MC68040 then e = CPU_SUBTYPE_MC68040 \<or> e = CPU_SUBTYPE_MC680x0_ALL
      else if h = CPU_SUBTYPE_MC68030
      then e = CPU_SUBTYPE_MC680x0_ALL \<or> e = CPU_SUBTYPE_MC68030_ONLY
      else e = CPU_SUBTYPE_MC680x0_ALL)"

definition execute_m88k :: "cpu_subtype \<Rightarrow> cpu_subtype \<Rightarrow> bool" where
  "execute_m88k host exec =
     (let h = subtype_base host; e = subtype_base exec in
      if h = CPU_SUBTYPE_MC88110 then e = CPU_SUBTYPE_MC88110 \<or> e = CPU_SUBTYPE_MC88000_ALL
      else e = CPU_SUBTYPE_MC88000_ALL)"

definition execute_hppa :: "cpu_subtype \<Rightarrow> cpu_subtype \<Rightarrow> bool" where
  "execute_hppa host exec =
     (let h = subtype_base host; e = subtype_base exec in
      if h = CPU_SUBTYPE_HPPA_7100LC then e = CPU_SUBTYPE_HPPA_ALL \<or> e = CPU_SUBTYPE_HPPA_7100LC
      else if h = CPU_SUBTYPE_HPPA_7100 then e = CPU_SUBTYPE_HPPA_ALL
      else e = CPU_SUBTYPE_HPPA_ALL)"

definition execute_arm :: "cpu_subtype \<Rightarrow> cpu_subtype \<Rightarrow> bool" where
  "execute_arm host exec =
     (if host = CPU_SUBTYPE_ARM_V6
      then exec \<in> {CPU_SUBTYPE_ARM_ALL, CPU_SUBTYPE_ARM_V4T, CPU_SUBTYPE_ARM_V5TEJ, CPU_SUBTYPE_ARM_V6}
      else if host = CPU_SUBTYPE_ARM_V5TEJ
      then exec \<in> {CPU_SUBTYPE_ARM_ALL, CPU_SUBTYPE_ARM_V5TEJ, CPU_SUBTYPE_ARM_V4T}
      else if host = CPU_SUBTYPE_ARM_XSCALE
      then exec \<in> {CPU_SUBTYPE_ARM_ALL, CPU_SUBTYPE_ARM_XSCALE, CPU_SUBTYPE_ARM_V4T}
      else if host = CPU_SUBTYPE_ARM_V4T
      then exec \<in> {CPU_SUBTYPE_ARM_ALL, CPU_SUBTYPE_ARM_V4T}
      else exec = CPU_SUBTYPE_ARM_ALL)"

text \<open>The ARM64 case falls through to the 32-bit ARM case when its own tests say nothing.\<close>

definition execute_arm64 :: "cpu_subtype \<Rightarrow> cpu_subtype \<Rightarrow> bool" where
  "execute_arm64 host exec =
     (if host = CPU_SUBTYPE_ARM64_V8
      then (if exec = CPU_SUBTYPE_ARM64_ALL \<or> exec = CPU_SUBTYPE_ARM64_V8 then True
            else execute_arm host exec)
      else if exec = CPU_SUBTYPE_ARM64_ALL then True else execute_arm host exec)"

definition cpusubtype_execute :: "cpu_type \<Rightarrow> cpu_subtype \<Rightarrow> cpu_subtype \<Rightarrow> bool" where
  "cpusubtype_execute ct host exec =
     (if subtype_base host = subtype_base exec then True
      else if ct = CPU_TYPE_POWERPC then execute_ppc host exec
      else if ct = CPU_TYPE_I386 then execute_i386 exec
      else if ct = CPU_TYPE_MC680x0 then execute_m68k host exec
      else if ct = CPU_TYPE_MC88000 then execute_m88k host exec
      else if ct = CPU_TYPE_HPPA then execute_hppa host exec
      else if ct = CPU_TYPE_SPARC then subtype_base exec = CPU_SUBTYPE_SPARC_ALL
      else if ct = CPU_TYPE_ARM64 then execute_arm64 host exec
      else if ct = CPU_TYPE_ARM then execute_arm host exec
      else False)"

section \<open>Properties\<close>

lemmas combine_defs = combine_m68k_def combine_ppc_def combine_ppc64_def combine_veo_def
  combine_m88k_def combine_i860_def combine_hppa_def combine_arm_def

lemma combine_m68k_commute: "combine_m68k s1 s2 = combine_m68k s2 s1"
  unfolding combine_m68k_def Let_def by (simp split: if_split)

lemma combine_veo_commute: "combine_veo s1 s2 = combine_veo s2 s1"
proof -
  consider "subtype_base s1 = CPU_SUBTYPE_VEO_1" | "subtype_base s1 = CPU_SUBTYPE_VEO_2"
    | "subtype_base s1 = CPU_SUBTYPE_VEO_3" | "subtype_base s1 = CPU_SUBTYPE_VEO_4"
    | "subtype_base s1 \<notin> {CPU_SUBTYPE_VEO_1, CPU_SUBTYPE_VEO_2, CPU_SUBTYPE_VEO_3, CPU_SUBTYPE_VEO_4}"
    by blast
  then show ?thesis by cases (simp_all add: combine_veo_def Let_def)
qed

lemma combine_m88k_commute: "combine_m88k s1 s2 = combine_m88k s2 s1"
  unfolding combine_m88k_def Let_def by (simp split: if_split)

lemma combine_i860_commute: "combine_i860 s1 s2 = combine_i860 s2 s1"
  unfolding combine_i860_def Let_def by (simp split: if_split)

lemma combine_hppa_commute: "combine_hppa s1 s2 = combine_hppa s2 s1"
  unfolding combine_hppa_def Let_def by (simp split: if_split)

lemma combine_ppc_commute:
  "subtype_base s1 \<noteq> subtype_base s2 \<Longrightarrow> combine_ppc s1 s2 = combine_ppc s2 s1"
  unfolding combine_ppc_def Let_def by (auto simp: not_less)

lemma combine_ppc64_commute:
  "subtype_base s1 \<noteq> subtype_base s2 \<Longrightarrow> combine_ppc64 s1 s2 = combine_ppc64 s2 s1"
  unfolding combine_ppc64_def Let_def by (auto simp: not_less)

text \<open>
  Combining subtypes does not depend on the order of the two objects, up to
  feature bits, for every cpu type but ARM.
\<close>

theorem combine_commutes:
  assumes "ct \<noteq> CPU_TYPE_ARM"
  shows "subtype_base (cpusubtype_combine ct s1 s2) = subtype_base (cpusubtype_combine ct s2 s1)"
proof (cases "subtype_base s1 = subtype_base s2")
  case False
  with assms show ?thesis
    unfolding cpusubtype_combine_def combine_m68k_commute [of s2] combine_veo_commute [of s2]
      combine_m88k_commute [of s2] combine_i860_commute [of s2] combine_hppa_commute [of s2]
    by (simp add: combine_ppc_commute [of s2] combine_ppc64_commute [of s2] disj_commute)
qed (simp add: cpusubtype_combine_def disj_commute)

theorem combine_commutes_witness:
  "subtype_base (cpusubtype_combine CPU_TYPE_POWERPC CPU_SUBTYPE_POWERPC_970 CPU_SUBTYPE_POWERPC_750)
    = subtype_base (cpusubtype_combine CPU_TYPE_POWERPC CPU_SUBTYPE_POWERPC_750 CPU_SUBTYPE_POWERPC_970)"
  by (rule combine_commutes) simp

text \<open>
  For ARM the order matters: a v6 object combined with a v7 object gives v6, and
  a v7 object combined with a v6 object gives v7. The matrix in the comment of
  \<open>cpusubtype_combine\<close> gives v7 for both. The matrix also gives ALL for every combination with
  ALL, where the code returns the other subtype.
\<close>

theorem combine_arm_v6_v7:
  "cpusubtype_combine CPU_TYPE_ARM CPU_SUBTYPE_ARM_V6 CPU_SUBTYPE_ARM_V7 = CPU_SUBTYPE_ARM_V6
   \<and> cpusubtype_combine CPU_TYPE_ARM CPU_SUBTYPE_ARM_V7 CPU_SUBTYPE_ARM_V6 = CPU_SUBTYPE_ARM_V7
   \<and> subtype_base (cpusubtype_combine CPU_TYPE_ARM CPU_SUBTYPE_ARM_ALL s) = subtype_base s
   \<and> subtype_base (cpusubtype_combine CPU_TYPE_ARM s CPU_SUBTYPE_ARM_ALL) = subtype_base s"
  by (auto simp: cpusubtype_combine_def combine_arm_def Let_def)

text \<open>A result that is -1 or one of the two subtypes, with or without its feature bits.\<close>

definition selected :: "cpu_subtype \<Rightarrow> cpu_subtype \<Rightarrow> cpu_subtype \<Rightarrow> bool" where
  "selected s1 s2 r \<longleftrightarrow> r = - 1 \<or> r \<in> {s1, s2, subtype_base s1, subtype_base s2}"

lemma selected_simps [simp]:
  "selected s1 s2 (- 1)" "selected s1 s2 s1" "selected s1 s2 s2"
  "subtype_base s1 = k \<Longrightarrow> selected s1 s2 k" "subtype_base s2 = k \<Longrightarrow> selected s1 s2 k"
  by (auto simp: selected_def)

lemma selected_if:
  "(c \<Longrightarrow> selected s1 s2 a) \<Longrightarrow> (\<not> c \<Longrightarrow> selected s1 s2 b) \<Longrightarrow> selected s1 s2 (if c then a else b)"
  by simp

lemma selected_base:
  "selected s1 s2 r \<Longrightarrow> r = - 1 \<or> subtype_base r \<in> {subtype_base s1, subtype_base s2}"
  by (auto simp: selected_def)

lemma combine_cases_select:
  "selected s1 s2 (combine_m68k s1 s2)" "selected s1 s2 (combine_ppc s1 s2)"
  "selected s1 s2 (combine_ppc64 s1 s2)" "selected s1 s2 (combine_veo s1 s2)"
  "selected s1 s2 (combine_m88k s1 s2)" "selected s1 s2 (combine_i860 s1 s2)"
  "selected s1 s2 (combine_arm s1 s2)"
  unfolding combine_defs Let_def by (safe intro!: selected_if) simp_all

lemma combine_hppa_select:
  assumes "subtype_base s1 \<noteq> subtype_base s2"
  shows "selected s1 s2 (combine_hppa s1 s2)"
proof -
  have "subtype_base s1 = CPU_SUBTYPE_HPPA_7100LC \<or> subtype_base s2 = CPU_SUBTYPE_HPPA_7100LC"
    if "subtype_base s1 \<in> {CPU_SUBTYPE_HPPA_ALL, CPU_SUBTYPE_HPPA_7100LC}"
      "subtype_base s2 \<in> {CPU_SUBTYPE_HPPA_ALL, CPU_SUBTYPE_HPPA_7100LC}"
    using that assms by auto
  then show ?thesis unfolding combine_hppa_def Let_def by (intro selected_if) auto
qed

text \<open>
  Apart from the Intel types, where every combination becomes the ALL subtype,
  combining either fails with -1 or gives (up to feature bits) one of the two subtypes.
\<close>

theorem combine_selects:
  assumes "ct \<noteq> CPU_TYPE_I386" and "ct \<noteq> CPU_TYPE_X86_64"
  shows "cpusubtype_combine ct s1 s2 = - 1
    \<or> subtype_base (cpusubtype_combine ct s1 s2) \<in> {subtype_base s1, subtype_base s2}"
proof -
  have "selected s1 s2 (cpusubtype_combine ct s1 s2)"
    unfolding cpusubtype_combine_def using assms
    by (intro selected_if combine_cases_select combine_hppa_select) simp_all
  then show ?thesis by (rule selected_base)
qed

theorem combine_selects_witness:
  "cpusubtype_combine CPU_TYPE_HPPA 0 1 = - 1
    \<or> subtype_base (cpusubtype_combine CPU_TYPE_HPPA 0 1) \<in> {subtype_base 0, subtype_base 1}"
  by (rule combine_selects) simp_all

text \<open>
  Combining a subtype with itself gives it back for every cpu type but the Intel
  ones: there it gives the ALL subtype, and for x86-64 it fails on the Haswell subtype, although
  the comment of \<open>cpusubtype_combine\<close> says that equal subtypes can always be combined and that
  the subtype passed in is returned.
\<close>

theorem combine_same:
  "cpusubtype_combine ct s s =
     (if ct = CPU_TYPE_X86_64 \<and> s = CPU_SUBTYPE_X86_64_H then - 1
      else if ct \<in> {CPU_TYPE_I386, CPU_TYPE_X86_64} then CPU_SUBTYPE_I386_ALL else s)"
  by (simp add: cpusubtype_combine_def)

text \<open>The known PowerPC subtypes that run on each other's successors (all but the 601).\<close>

definition ppc_ladder :: "cpu_subtype set" where
  "ppc_ladder = {CPU_SUBTYPE_POWERPC_ALL, CPU_SUBTYPE_POWERPC_602, CPU_SUBTYPE_POWERPC_603,
     CPU_SUBTYPE_POWERPC_603e, CPU_SUBTYPE_POWERPC_603ev, CPU_SUBTYPE_POWERPC_604,
     CPU_SUBTYPE_POWERPC_604e, CPU_SUBTYPE_POWERPC_620, CPU_SUBTYPE_POWERPC_750,
     CPU_SUBTYPE_POWERPC_7400, CPU_SUBTYPE_POWERPC_7450, CPU_SUBTYPE_POWERPC_970}"

definition ppc_limit :: "cpu_subtype \<Rightarrow> cpu_subtype" where
  "ppc_limit h =
     (if h = CPU_SUBTYPE_POWERPC_970 then CPU_SUBTYPE_POWERPC_970
      else if h \<in> {CPU_SUBTYPE_POWERPC_7450, CPU_SUBTYPE_POWERPC_7400} then CPU_SUBTYPE_POWERPC_7450
      else if h \<in> ppc_ladder - {CPU_SUBTYPE_POWERPC_ALL} \<or> h = CPU_SUBTYPE_POWERPC_601
      then CPU_SUBTYPE_POWERPC_750 else CPU_SUBTYPE_POWERPC_ALL)"

lemma execute_ppc_ladder:
  assumes "subtype_base s \<in> ppc_ladder"
  shows "cpusubtype_execute CPU_TYPE_POWERPC host s \<longleftrightarrow> subtype_base s \<le> ppc_limit (subtype_base host)"
proof -
  let ?h = "subtype_base host"
  consider "?h = CPU_SUBTYPE_POWERPC_970" | "?h \<in> {CPU_SUBTYPE_POWERPC_7450, CPU_SUBTYPE_POWERPC_7400}"
    | "?h = CPU_SUBTYPE_POWERPC_601"
    | "?h \<in> ppc_ladder - {CPU_SUBTYPE_POWERPC_970, CPU_SUBTYPE_POWERPC_7450, CPU_SUBTYPE_POWERPC_7400,
        CPU_SUBTYPE_POWERPC_ALL}"
    | "?h = CPU_SUBTYPE_POWERPC_ALL" | "?h \<notin> ppc_ladder" "?h \<noteq> CPU_SUBTYPE_POWERPC_601"
    by blast
  then show ?thesis
  proof cases
    case 1
    with assms show ?thesis unfolding ppc_ladder_def
      by (elim insertE) (simp_all add: cpusubtype_execute_def execute_ppc_def ppc_limit_def)
  next
    case 2
    with assms show ?thesis unfolding ppc_ladder_def
      by (elim insertE) (simp_all add: cpusubtype_execute_def execute_ppc_def ppc_limit_def)
  next
    case 3
    with assms show ?thesis unfolding ppc_ladder_def
      by (elim insertE) (simp_all add: cpusubtype_execute_def execute_ppc_def ppc_limit_def)
  next
    case 4
    then have "ppc_limit ?h = CPU_SUBTYPE_POWERPC_750" "execute_ppc host s \<longleftrightarrow>
        subtype_base s \<in> {CPU_SUBTYPE_POWERPC_750, CPU_SUBTYPE_POWERPC_620, CPU_SUBTYPE_POWERPC_604e,
          CPU_SUBTYPE_POWERPC_604, CPU_SUBTYPE_POWERPC_603ev, CPU_SUBTYPE_POWERPC_603e,
          CPU_SUBTYPE_POWERPC_603, CPU_SUBTYPE_POWERPC_602, CPU_SUBTYPE_POWERPC_ALL}"
      "?h \<le> CPU_SUBTYPE_POWERPC_750"
      unfolding ppc_ladder_def by (auto simp: ppc_limit_def ppc_ladder_def execute_ppc_def)
    with assms show ?thesis unfolding ppc_ladder_def
      by (elim insertE) (auto simp: cpusubtype_execute_def)
  next
    case 5
    with assms show ?thesis unfolding ppc_ladder_def
      by (elim insertE) (simp_all add: cpusubtype_execute_def execute_ppc_def ppc_limit_def ppc_ladder_def)
  next
    case 6
    with assms have "?h \<noteq> subtype_base s" by metis
    with 6 assms show ?thesis unfolding ppc_ladder_def
      by (simp add: cpusubtype_execute_def execute_ppc_def ppc_limit_def ppc_ladder_def)
  qed
qed

lemma execute_ppc_mono:
  assumes "subtype_base s \<in> ppc_ladder" and "subtype_base s' \<in> ppc_ladder"
    and "subtype_base s \<le> subtype_base s'" and "cpusubtype_execute CPU_TYPE_POWERPC host s'"
  shows "cpusubtype_execute CPU_TYPE_POWERPC host s"
  using assms by (simp add: execute_ppc_ladder)

text \<open>
  A PowerPC host that can run the combination of two known subtypes, neither of
  them the 601, can run both: the subtype of a linked file is safe for all of its objects.
\<close>

theorem combine_ppc_executable:
  assumes "subtype_base s1 \<in> ppc_ladder" and "subtype_base s2 \<in> ppc_ladder"
    and "cpusubtype_execute CPU_TYPE_POWERPC host (cpusubtype_combine CPU_TYPE_POWERPC s1 s2)"
  shows "cpusubtype_execute CPU_TYPE_POWERPC host s1 \<and> cpusubtype_execute CPU_TYPE_POWERPC host s2"
proof -
  let ?c = "cpusubtype_combine CPU_TYPE_POWERPC s1 s2"
  have "CPU_SUBTYPE_POWERPC_601 \<notin> ppc_ladder" by (simp add: ppc_ladder_def)
  with assms(1,2) have "subtype_base ?c = max (subtype_base s1) (subtype_base s2)"
    by (auto simp: cpusubtype_combine_def combine_ppc_def Let_def max_def)
  with assms show ?thesis
    by (intro conjI; elim execute_ppc_mono [rotated 3]) (auto simp: max_def)
qed

theorem combine_ppc_executable_witness:
  "cpusubtype_execute CPU_TYPE_POWERPC CPU_SUBTYPE_POWERPC_970 CPU_SUBTYPE_POWERPC_750
   \<and> cpusubtype_execute CPU_TYPE_POWERPC CPU_SUBTYPE_POWERPC_970 CPU_SUBTYPE_POWERPC_7400"
  by (rule combine_ppc_executable)
    (simp_all add: ppc_ladder_def cpusubtype_combine_def combine_ppc_def cpusubtype_execute_def
      execute_ppc_def Let_def)

end
