(* ===== verification/Best_Arch.thy ===== *)
theory Best_Arch
  imports Fat Arch_Combine
begin

text \<open>
  \<open>libstuff/best_arch.c\<close>: which slice of a fat file a host or a link should use
  (\<open>cpusubtype_findbestarch\<close>, \<open>cpusubtype_findbestarch_64\<close>).

  The selection is a \<open>switch\<close> on the cpu type whose cases run scans of the whole table, each
  for one subtype, in the order the code lists them; a C \<open>switch\<close> label that falls through
  continues with the scans of the next label. A label is therefore the list of subtypes it
  scans for, followed by the list of the label it falls into. \<open>None\<close> is the result -1.
\<close>

section \<open>Finding the best architecture\<close>

definition ppc64_order :: "cpu_subtype \<Rightarrow> cpu_subtype list" where
  "ppc64_order cs =
     (let from_default = [CPU_SUBTYPE_POWERPC_ALL];
          from_970 = CPU_SUBTYPE_POWERPC_970 # from_default;
          b = subtype_base cs
      in if b = CPU_SUBTYPE_POWERPC_ALL \<or> b = CPU_SUBTYPE_POWERPC_970 then from_970
         else from_default)"

definition x86_64_order :: "cpu_subtype list" where
  "x86_64_order = [CPU_SUBTYPE_I386_ALL]"

definition i386_order :: "cpu_subtype \<Rightarrow> cpu_subtype list" where
  "i386_order cs =
     (let from_pent = [CPU_SUBTYPE_486];
          from_default = CPU_SUBTYPE_PENT # from_pent;
          b = subtype_base cs;
          first = (if b = CPU_SUBTYPE_PENT \<or> b = CPU_SUBTYPE_486SX then from_pent
                   else if b = CPU_SUBTYPE_I386_ALL \<or> b = CPU_SUBTYPE_486 then []
                   else from_default)
      in first @ [CPU_SUBTYPE_I386_ALL]
         @ [CPU_SUBTYPE_486, CPU_SUBTYPE_486SX, CPU_SUBTYPE_586])"

definition m68k_order :: "cpu_subtype \<Rightarrow> cpu_subtype list" where
  "m68k_order cs =
     [CPU_SUBTYPE_MC680x0_ALL]
     @ (if subtype_base cs = CPU_SUBTYPE_MC680x0_ALL
        then [CPU_SUBTYPE_MC68040, CPU_SUBTYPE_MC68030_ONLY] else [])"

definition ppc_from_750 :: "cpu_subtype list" where
  "ppc_from_750 =
     [CPU_SUBTYPE_POWERPC_750, CPU_SUBTYPE_POWERPC_604e, CPU_SUBTYPE_POWERPC_604,
      CPU_SUBTYPE_POWERPC_603ev, CPU_SUBTYPE_POWERPC_603e, CPU_SUBTYPE_POWERPC_603]
     @ [CPU_SUBTYPE_POWERPC_ALL]"

definition ppc_order :: "cpu_subtype \<Rightarrow> cpu_subtype list" where
  "ppc_order cs =
     (let from_7450 = [CPU_SUBTYPE_POWERPC_7450, CPU_SUBTYPE_POWERPC_7400] @ ppc_from_750;
          from_970 = CPU_SUBTYPE_POWERPC_970 # from_7450;
          b = subtype_base cs
      in if b \<in> {CPU_SUBTYPE_POWERPC_ALL, CPU_SUBTYPE_POWERPC_970} then from_970
         else if b \<in> {CPU_SUBTYPE_POWERPC_7450, CPU_SUBTYPE_POWERPC_7400} then from_7450
         else if b \<in> {CPU_SUBTYPE_POWERPC_750, CPU_SUBTYPE_POWERPC_604e,
             CPU_SUBTYPE_POWERPC_604, CPU_SUBTYPE_POWERPC_603ev, CPU_SUBTYPE_POWERPC_603e,
             CPU_SUBTYPE_POWERPC_603} then ppc_from_750
         else [CPU_SUBTYPE_POWERPC_ALL])"

definition veo_order :: "cpu_subtype \<Rightarrow> cpu_subtype list" where
  "veo_order cs =
     (let from_veo4 = [CPU_SUBTYPE_VEO_3, CPU_SUBTYPE_VEO_2];
          from_veo1 = CPU_SUBTYPE_VEO_2 # from_veo4;
          b = subtype_base cs
      in if b = CPU_SUBTYPE_VEO_1 \<or> b = CPU_SUBTYPE_VEO_3 then from_veo1
         else if b = CPU_SUBTYPE_VEO_4 then from_veo4
         else [])"

text \<open>The ARM scans compare the subtypes with their feature bits.\<close>

definition arm_oldest :: "cpu_subtype list" where
  "arm_oldest = [CPU_SUBTYPE_ARM_V4T, CPU_SUBTYPE_ARM_V6M, CPU_SUBTYPE_ARM_V7M,
     CPU_SUBTYPE_ARM_V7EM, CPU_SUBTYPE_ARM_ALL]"

definition arm_order :: "cpu_subtype \<Rightarrow> cpu_subtype list" where
  "arm_order cs =
     (if cs = CPU_SUBTYPE_ARM_ALL \<or> cs = CPU_SUBTYPE_ARM_V7K then [CPU_SUBTYPE_ARM_V7S] else [])
     @ (if cs = CPU_SUBTYPE_ARM_ALL \<or> cs = CPU_SUBTYPE_ARM_V7S then [CPU_SUBTYPE_ARM_V7F] else [])
     @ (if cs = CPU_SUBTYPE_ARM_ALL \<or> cs = CPU_SUBTYPE_ARM_V7F then [CPU_SUBTYPE_ARM_V7] else [])
     @ (if cs = CPU_SUBTYPE_ARM_ALL \<or> cs = CPU_SUBTYPE_ARM_V7 \<or> cs = CPU_SUBTYPE_ARM_V6
        then [CPU_SUBTYPE_ARM_V6] else [])
     @ (if cs = CPU_SUBTYPE_ARM_ALL \<or> cs = CPU_SUBTYPE_ARM_V6 \<or> cs = CPU_SUBTYPE_ARM_V5TEJ
        then [CPU_SUBTYPE_ARM_V5TEJ] else [])
     @ (if cs = CPU_SUBTYPE_ARM_ALL \<or> cs = CPU_SUBTYPE_ARM_XSCALE
        then [CPU_SUBTYPE_ARM_XSCALE] else [])
     @ arm_oldest"

text \<open>The types whose case is one scan for the ALL subtype.\<close>

definition all_order :: "cpu_type \<Rightarrow> cpu_subtype list" where
  "all_order ct =
     (if ct = CPU_TYPE_MC88000 then [CPU_SUBTYPE_MC88000_ALL]
      else if ct = CPU_TYPE_I860 then [CPU_SUBTYPE_I860_ALL]
      else if ct = CPU_TYPE_HPPA then [CPU_SUBTYPE_HPPA_ALL]
      else if ct = CPU_TYPE_SPARC then [CPU_SUBTYPE_SPARC_ALL]
      else [])"

definition arm64_order :: "cpu_subtype list" where
  "arm64_order = [CPU_SUBTYPE_ARM64_ALL]"

lemmas order_simps [simp] = ppc_from_750_def arm_oldest_def arm64_order_def

text \<open>
  The two last loops of the i386 case: the lowest family among the slices, then the first
  slice of that family with the lowest model. \<open>lowest_index\<close> starts as -1, and
  \<open>lowest_model\<close> as \<open>LONG_MAX\<close>.
\<close>

abbreviation (input) "LONG_MAX \<equiv> (2 ^ 63 - 1 :: nat)"

primrec lowest_family :: "cpu_type \<Rightarrow> slice list \<Rightarrow> nat \<Rightarrow> nat" where
  "lowest_family ct [] lf = lf"
| "lowest_family ct (s # ss) lf =
     (if fst s \<noteq> ct then lowest_family ct ss lf
      else if unat (INTEL_FAMILY (subtype_base (snd s))) < lf
      then lowest_family ct ss (unat (INTEL_FAMILY (subtype_base (snd s))))
      else lowest_family ct ss lf)"

primrec lowest_model :: "cpu_type \<Rightarrow> nat \<Rightarrow> nat \<Rightarrow> slice list \<Rightarrow> nat \<Rightarrow> nat option \<Rightarrow> nat option" where
  "lowest_model ct lf i [] lm li = li"
| "lowest_model ct lf i (s # ss) lm li =
     (if fst s \<noteq> ct then lowest_model ct lf (Suc i) ss lm li
      else if unat (INTEL_FAMILY (subtype_base (snd s))) = lf
        \<and> unat (INTEL_MODEL (subtype_base (snd s))) < lm
      then lowest_model ct lf (Suc i) ss (unat (INTEL_MODEL (subtype_base (snd s)))) (Some i)
      else lowest_model ct lf (Suc i) ss lm li)"

definition i386_lowest :: "slice list \<Rightarrow> nat option" where
  "i386_lowest ss =
     (let lf = lowest_family CPU_TYPE_I386 ss (CPU_SUBTYPE_INTEL_FAMILY_MAX + 1)
      in if lf = CPU_SUBTYPE_INTEL_FAMILY_MAX + 1 then None
         else lowest_model CPU_TYPE_I386 lf 0 ss LONG_MAX None)"

definition find_cputype_dependent :: "cpu_type \<Rightarrow> cpu_subtype \<Rightarrow> slice list \<Rightarrow> nat option" where
  "find_cputype_dependent ct cs ss =
     (let base = search_in_order (find_base ss ct); arm64 = base arm64_order in
      if ct = CPU_TYPE_POWERPC64 then base (ppc64_order cs)
      else if ct = CPU_TYPE_X86_64 then base x86_64_order
      else if ct = CPU_TYPE_I386 then or_else (base (i386_order cs)) (i386_lowest ss)
      else if ct = CPU_TYPE_MC680x0 then base (m68k_order cs)
      else if ct = CPU_TYPE_POWERPC then base (ppc_order cs)
      else if ct = CPU_TYPE_VEO then base (veo_order cs)
      else if ct \<in> {CPU_TYPE_MC88000, CPU_TYPE_I860, CPU_TYPE_HPPA, CPU_TYPE_SPARC}
      then base (all_order ct)
      else if ct = CPU_TYPE_ARM then or_else (search_in_order (find_raw ss ct) (arm_order cs)) arm64
      else if ct = CPU_TYPE_ARM64 then arm64
      else None)"

definition findbestarch_slices :: "cpu_type \<Rightarrow> cpu_subtype \<Rightarrow> slice list \<Rightarrow> nat option" where
  "findbestarch_slices ct cs ss =
     or_else (first_index (same_arch ct cs) ss) (find_cputype_dependent ct cs ss)"

definition internal_cpusubtype_findbestarch ::
    "cpu_type \<Rightarrow> cpu_subtype \<Rightarrow> fat_table \<Rightarrow> nat option" where
  "internal_cpusubtype_findbestarch ct cs t = findbestarch_slices ct cs (slices t)"

definition cpusubtype_findbestarch_64 ::
    "cpu_type \<Rightarrow> cpu_subtype \<Rightarrow> fat_arch_64 list \<Rightarrow> fat_arch_64 option" where
  "cpusubtype_findbestarch_64 ct cs fs =
     (case internal_cpusubtype_findbestarch ct cs (Fat64 fs) of
        None \<Rightarrow> None | Some i \<Rightarrow> Some (fs ! i))"

definition cpusubtype_findbestarch ::
    "cpu_type \<Rightarrow> cpu_subtype \<Rightarrow> fat_arch list \<Rightarrow> fat_arch option" where
  "cpusubtype_findbestarch ct cs fs =
     (case internal_cpusubtype_findbestarch ct cs (Fat32 fs) of
        None \<Rightarrow> None | Some i \<Rightarrow> Some (fs ! i))"

section \<open>The i386 loops\<close>

text \<open>The family and the model of an i386 slice, as the scans of \<open>i386_lowest\<close> compare them.\<close>

abbreviation fam :: "slice \<Rightarrow> nat" where
  "fam s \<equiv> unat (INTEL_FAMILY (subtype_base (snd s)))"

abbreviation mdl :: "slice \<Rightarrow> nat" where
  "mdl s \<equiv> unat (INTEL_MODEL (subtype_base (snd s)))"

lemma mdl_less_LONG_MAX: "mdl s < LONG_MAX"
  using unat_less_numeral [of "INTEL_MODEL (subtype_base (snd s))"] by simp

lemma lowest_family_bound: "lowest_family ct ss lf \<le> lf"
proof (induction ss arbitrary: lf)
  case (Cons x ss)
  then show ?case by (auto intro: order.trans less_imp_le)
qed simp

lemma lowest_family_le: "s \<in> set ss \<Longrightarrow> fst s = ct \<Longrightarrow> lowest_family ct ss lf \<le> fam s"
proof (induction ss arbitrary: lf)
  case (Cons x ss)
  then show ?case
    using lowest_family_bound [of ct ss lf] lowest_family_bound [of ct ss "fam x"] by auto
qed simp

lemma lowest_family_attained:
  "lowest_family ct ss lf = lf \<or> (\<exists>s \<in> set ss. fst s = ct \<and> fam s = lowest_family ct ss lf)"
proof (induction ss arbitrary: lf)
  case (Cons x ss)
  show ?case
    using Cons.IH [of lf] Cons.IH [of "fam x"] by auto
qed simp

text \<open>A slice that the last loop of the i386 case considers, and those it can return.\<close>

abbreviation candidate :: "cpu_type \<Rightarrow> nat \<Rightarrow> slice \<Rightarrow> bool" where
  "candidate ct lf s \<equiv> fst s = ct \<and> fam s = lf"

definition least_candidate :: "cpu_type \<Rightarrow> nat \<Rightarrow> slice list \<Rightarrow> slice \<Rightarrow> bool" where
  "least_candidate ct lf ss s \<longleftrightarrow>
     candidate ct lf s \<and> (\<forall>t \<in> set ss. candidate ct lf t \<longrightarrow> mdl s \<le> mdl t)"

lemma least_candidate_skip:
  assumes "candidate ct lf x \<Longrightarrow> \<exists>t \<in> set ss. candidate ct lf t \<and> mdl t < mdl x"
  shows "first_index (least_candidate ct lf (x # ss)) (x # ss)
    = map_option Suc (first_index (least_candidate ct lf ss) ss)"
proof -
  have "\<not> least_candidate ct lf (x # ss) x"
    using assms by (auto simp: least_candidate_def not_le)
  moreover have "least_candidate ct lf (x # ss) s = least_candidate ct lf ss s" for s
    using assms by (force simp: least_candidate_def)
  then have "least_candidate ct lf (x # ss) = least_candidate ct lf ss" by (rule ext)
  ultimately show ?thesis by (simp add: first_index_Cons)
qed

lemma lowest_model_eq:
  "lowest_model ct lf i ss lm li =
     (if \<exists>s \<in> set ss. candidate ct lf s \<and> mdl s < lm
      then map_option (\<lambda>k. i + k) (first_index (least_candidate ct lf ss) ss) else li)"
proof (induction ss arbitrary: i lm li)
  case Nil
  then show ?case by simp
next
  case (Cons x ss)
  note skip = least_candidate_skip [where x = x and ss = ss and ct = ct and lf = lf]
  show ?case
  proof (cases "candidate ct lf x \<and> mdl x < lm")
    case True
    show ?thesis
    proof (cases "\<exists>s \<in> set ss. candidate ct lf s \<and> mdl s < mdl x")
      case better: True
      with True have "lowest_model ct lf i (x # ss) lm li
          = map_option (\<lambda>k. Suc i + k) (first_index (least_candidate ct lf ss) ss)"
        by (simp add: Cons.IH plus_Suc_fun)
      with True skip better show ?thesis by (simp add: option.map_comp o_def plus_Suc_fun)
    next
      case False
      with True have "least_candidate ct lf (x # ss) x"
        by (auto simp: least_candidate_def not_less)
      then have "first_index (least_candidate ct lf (x # ss)) (x # ss) = Some 0"
        by (simp add: first_index_Cons)
      with True False show ?thesis by (simp add: Cons.IH)
    qed
  next
    case False
    then have step: "lowest_model ct lf i (x # ss) lm li = lowest_model ct lf (Suc i) ss lm li"
      by auto
    have later: "(\<exists>s \<in> set (x # ss). candidate ct lf s \<and> mdl s < lm)
        \<longleftrightarrow> (\<exists>s \<in> set ss. candidate ct lf s \<and> mdl s < lm)"
      using False by auto
    show ?thesis
    proof (cases "\<exists>s \<in> set ss. candidate ct lf s \<and> mdl s < lm")
      case True
      then obtain s where "s \<in> set ss" "candidate ct lf s" "mdl s < lm" by blast
      then have "candidate ct lf x \<Longrightarrow> \<exists>t \<in> set ss. candidate ct lf t \<and> mdl t < mdl x"
        using False by (intro bexI [of _ s]) auto
      from skip [OF this] show ?thesis
        unfolding step later Cons.IH by (simp only: True option.map_comp o_def if_True) (simp add: plus_Suc_fun)
    next
      case False
      then show ?thesis unfolding step later Cons.IH by (simp only: if_False)
    qed
  qed
qed

lemma i386_lowest_eq:
  "i386_lowest ss =
     (let lf = lowest_family CPU_TYPE_I386 ss (CPU_SUBTYPE_INTEL_FAMILY_MAX + 1)
      in if \<exists>s \<in> set ss. fst s = CPU_TYPE_I386
         then first_index (least_candidate CPU_TYPE_I386 lf ss) ss else None)"
proof -
  let ?lf = "lowest_family CPU_TYPE_I386 ss (CPU_SUBTYPE_INTEL_FAMILY_MAX + 1)"
  show ?thesis
  proof (cases "\<exists>s \<in> set ss. fst s = CPU_TYPE_I386")
    case True
    then obtain s where s: "s \<in> set ss" "fst s = CPU_TYPE_I386" by blast
    from lowest_family_le [OF s, of "CPU_SUBTYPE_INTEL_FAMILY_MAX + 1"]
    have less: "?lf < CPU_SUBTYPE_INTEL_FAMILY_MAX + 1"
      using INTEL_FAMILY_max [of "subtype_base (snd s)"] by simp
    then obtain t where "t \<in> set ss" "candidate CPU_TYPE_I386 ?lf t"
      using lowest_family_attained
        [of CPU_TYPE_I386 ss "CPU_SUBTYPE_INTEL_FAMILY_MAX + 1"] by auto
    with less True mdl_less_LONG_MAX show ?thesis
      by (auto simp: i386_lowest_def Let_def lowest_model_eq option.map_ident_strong)
  next
    case False
    then have "lowest_family CPU_TYPE_I386 ss lf = lf" for lf
      by (induction ss) auto
    with False show ?thesis by (simp add: i386_lowest_def)
  qed
qed

lemma mdl_bound: "mdl s < 2 ^ 28"
proof -
  have "mdl s = unat (subtype_base (snd s)) div 16"
    using drop_bit_eq_div [of 4 "unat (subtype_base (snd s))"]
    by (simp add: INTEL_MODEL_def flip: unat_drop_bit_eq del: drop_bit_eq_div)
  then show ?thesis using unat_less_numeral [of "subtype_base (snd s)"] by simp
qed

text \<open>Family first, then model, as one number.\<close>

definition intel_key :: "slice \<Rightarrow> nat" where
  "intel_key s = fam s * 2 ^ 28 + mdl s"

lemma intel_key_le: "intel_key s \<le> intel_key t \<longleftrightarrow> fam s < fam t \<or> (fam s = fam t \<and> mdl s \<le> mdl t)"
  unfolding intel_key_def by (rule two_digits_le [OF mdl_bound mdl_bound])

lemma intel_key_eq: "intel_key s = intel_key t \<longleftrightarrow> subtype_base (snd s) = subtype_base (snd t)"
proof
  assume "intel_key s = intel_key t"
  then have "fam s = fam t" "mdl s = mdl t"
    using intel_key_le [of s t] intel_key_le [of t s] by auto
  then show "subtype_base (snd s) = subtype_base (snd t)"
    by (auto intro: INTEL_family_model_inj [OF unsigned_word_eqI unsigned_word_eqI])
qed (simp add: intel_key_def)

lemma i386_lowest_best:
  "is_best (measure_rank (\<lambda>s. fst s = CPU_TYPE_I386) intel_key) ss (i386_lowest ss)"
proof (cases "\<exists>s \<in> set ss. fst s = CPU_TYPE_I386")
  case True
  let ?lf = "lowest_family CPU_TYPE_I386 ss (CPU_SUBTYPE_INTEL_FAMILY_MAX + 1)"
  have attained: "\<exists>s \<in> set ss. candidate CPU_TYPE_I386 ?lf s"
  proof -
    from True obtain s where "s \<in> set ss" "fst s = CPU_TYPE_I386" by blast
    from lowest_family_le [OF this, of "CPU_SUBTYPE_INTEL_FAMILY_MAX + 1"]
    have "?lf < CPU_SUBTYPE_INTEL_FAMILY_MAX + 1"
      using INTEL_FAMILY_max [of "subtype_base (snd s)"] by simp
    with lowest_family_attained [of CPU_TYPE_I386 ss "CPU_SUBTYPE_INTEL_FAMILY_MAX + 1"]
    show ?thesis by auto
  qed
  have least: "least_candidate CPU_TYPE_I386 ?lf ss s \<longleftrightarrow> fst s = CPU_TYPE_I386
      \<and> (\<forall>t \<in> set ss. fst t = CPU_TYPE_I386 \<longrightarrow> intel_key s \<le> intel_key t)" if "s \<in> set ss" for s
  proof -
    have le: "?lf \<le> fam t" if "t \<in> set ss" "fst t = CPU_TYPE_I386" for t
      using that by (rule lowest_family_le)
    show ?thesis
      using attained le that by (fastforce simp: least_candidate_def intel_key_le)
  qed
  have "i386_lowest ss = first_index (\<lambda>s. fst s = CPU_TYPE_I386
      \<and> (\<forall>t \<in> set ss. fst t = CPU_TYPE_I386 \<longrightarrow> intel_key s \<le> intel_key t)) ss"
    using True by (simp only: i386_lowest_eq Let_def if_True first_index_cong [OF least])
  with is_best_least [OF True] show ?thesis by simp
next
  case False
  then show ?thesis by (auto simp: i386_lowest_eq is_best_None measure_rank_def)
qed

section \<open>The preference order that the selection implements\<close>

text \<open>
  The tests in order of preference for a cpu type and a wanted subtype: the exact match, then
  the subtypes of its case of the \<open>switch\<close>. For i386 every slice of the type is acceptable
  in the end, the lowest family and model first.
\<close>

definition base_order :: "cpu_type \<Rightarrow> cpu_subtype \<Rightarrow> cpu_subtype list" where
  "base_order ct cs =
     (if ct = CPU_TYPE_POWERPC64 then ppc64_order cs
      else if ct = CPU_TYPE_X86_64 then x86_64_order
      else if ct = CPU_TYPE_I386 then i386_order cs
      else if ct = CPU_TYPE_MC680x0 then m68k_order cs
      else if ct = CPU_TYPE_POWERPC then ppc_order cs
      else if ct = CPU_TYPE_VEO then veo_order cs
      else if ct \<in> {CPU_TYPE_MC88000, CPU_TYPE_I860, CPU_TYPE_HPPA, CPU_TYPE_SPARC,
        CPU_TYPE_ARM, CPU_TYPE_ARM64} then [0]
      else [])"

definition slice_tests :: "cpu_type \<Rightarrow> cpu_subtype \<Rightarrow> (slice \<Rightarrow> bool) list" where
  "slice_tests ct cs = same_arch ct cs
     # (if ct = CPU_TYPE_ARM then map (raw_test ct) (arm_order cs) else [])
     @ map (base_test ct) (base_order ct cs)"

definition slice_rank :: "cpu_type \<Rightarrow> cpu_subtype \<Rightarrow> slice rank" where
  "slice_rank ct cs =
     then_rank (length (slice_tests ct cs)) (tests_rank (slice_tests ct cs))
       (measure_rank (\<lambda>s. ct = CPU_TYPE_I386 \<and> fst s = CPU_TYPE_I386) intel_key)"

lemma findbestarch_slices_search:
  "findbestarch_slices ct cs ss =
     or_else (search_in_order (\<lambda>P. first_index P ss) (slice_tests ct cs))
       (if ct = CPU_TYPE_I386 then i386_lowest ss else None)"
proof -
  have "find_cputype_dependent ct cs ss =
     or_else (search_in_order (\<lambda>P. first_index P ss) (tl (slice_tests ct cs)))
       (if ct = CPU_TYPE_I386 then i386_lowest ss else None)"
    by (simp add: find_cputype_dependent_def slice_tests_def base_order_def all_order_def Let_def
        search_find_base search_find_raw search_in_order_append del: search_in_order.simps(2))
  then show ?thesis
    by (simp add: findbestarch_slices_def or_else_assoc slice_tests_def
        search_in_order_Cons_or_else del: search_in_order.simps(2))
qed

lemma findbestarch_slices_best:
  "is_best (slice_rank ct cs) ss (findbestarch_slices ct cs ss)"
proof -
  have "is_best (measure_rank (\<lambda>s. ct = CPU_TYPE_I386 \<and> fst s = CPU_TYPE_I386) intel_key) ss
      (if ct = CPU_TYPE_I386 then i386_lowest ss else None)"
    using i386_lowest_best [of ss] by (simp add: is_best_None measure_rank_def)
  then show ?thesis
    unfolding slice_rank_def findbestarch_slices_search
    by (rule is_best_then [OF is_best_tests _ tests_rank_bound])
qed

lemma list_ex_base_test:
  "list_ex (\<lambda>P. P s) (map (base_test ct) ks) \<longleftrightarrow> fst s = ct \<and> subtype_base (snd s) \<in> set ks"
  by (induction ks) (auto simp: base_test_def)

lemma list_ex_raw_test:
  "list_ex (\<lambda>P. P s) (map (raw_test ct) ks) \<longleftrightarrow> fst s = ct \<and> snd s \<in> set ks"
  by (induction ks) (auto simp: raw_test_def)

lemma slice_rank_ranked:
  "slice_rank ct cs s \<noteq> None \<longleftrightarrow>
     same_arch ct cs s \<or> (ct = CPU_TYPE_ARM \<and> fst s = ct \<and> snd s \<in> set (arm_order cs))
     \<or> (fst s = ct \<and> subtype_base (snd s) \<in> set (base_order ct cs))
     \<or> (ct = CPU_TYPE_I386 \<and> fst s = CPU_TYPE_I386)"
proof -
  have "list_ex (\<lambda>P. P s) (slice_tests ct cs) \<longleftrightarrow>
     same_arch ct cs s \<or> (ct = CPU_TYPE_ARM \<and> fst s = ct \<and> snd s \<in> set (arm_order cs))
     \<or> (fst s = ct \<and> subtype_base (snd s) \<in> set (base_order ct cs))"
    unfolding slice_tests_def
    by (cases "ct = CPU_TYPE_ARM") (auto simp: list_ex_raw_test list_ex_base_test)
  moreover have "slice_rank ct cs s \<noteq> None \<longleftrightarrow> tests_rank (slice_tests ct cs) s \<noteq> None
      \<or> (ct = CPU_TYPE_I386 \<and> fst s = CPU_TYPE_I386)"
    unfolding slice_rank_def then_rank_def measure_rank_def
    by (cases "tests_rank (slice_tests ct cs) s") simp_all
  ultimately show ?thesis by (simp only: tests_rank_ranked) blast
qed

lemma slice_rank_type: "slice_rank ct cs s \<noteq> None \<Longrightarrow> fst s = ct"
  unfolding slice_rank_ranked same_arch_def by blast

lemma slice_rank_exact: "slice_rank ct cs s = Some 0 \<longleftrightarrow> same_arch ct cs s"
proof -
  have tests: "tests_rank (slice_tests ct cs) s = Some 0 \<longleftrightarrow> same_arch ct cs s"
    unfolding slice_tests_def
    by (cases "same_arch ct cs s") (auto simp: tests_rank_def first_index_Cons)
  have "length (slice_tests ct cs) \<noteq> 0" by (simp add: slice_tests_def)
  then have "slice_rank ct cs s = Some 0 \<longleftrightarrow> tests_rank (slice_tests ct cs) s = Some 0"
    unfolding slice_rank_def by (rule then_rank_eq_0)
  with tests show ?thesis by simp
qed

lemma findbestarch_slices_Some:
  "findbestarch_slices ct cs ss = Some i \<Longrightarrow> i < length ss \<and> slice_rank ct cs (ss ! i) \<noteq> None"
  using findbestarch_slices_best [of ct cs ss] by (auto dest: is_best_ranked)

lemma findbestarch_slices_None:
  "findbestarch_slices ct cs ss = None \<longleftrightarrow> (\<forall>s \<in> set ss. slice_rank ct cs s = None)"
proof (cases "findbestarch_slices ct cs ss")
  case None
  with findbestarch_slices_best [of ct cs ss] show ?thesis by (simp add: is_best_None)
next
  case (Some i)
  with findbestarch_slices_Some [OF this] show ?thesis by (metis nth_mem option.distinct(1))
qed

interpretation libstuff: slice_chooser findbestarch_slices "(=)"
proof
  fix ct cs ss i
  assume "first_index (same_arch ct cs) ss = Some i"
  then show "findbestarch_slices ct cs ss = Some i" by (simp add: findbestarch_slices_def)
next
  fix ct cs ss i
  assume "findbestarch_slices ct cs ss = Some i"
  from findbestarch_slices_Some [OF this] slice_rank_type [of ct cs "ss ! i"]
  show "i < length ss \<and> fst (ss ! i) = ct" by simp
qed

section \<open>Properties\<close>


text \<open>
  If a slice matches the cpu type and subtype exactly (up to feature bits),
  \<open>cpusubtype_findbestarch\<close> always succeeds, and returns the first such slice.
\<close>

theorem findbestarch_exact_match:
  assumes "f \<in> set fs" and "fa_cputype f = ct" and "subtype_base (fa_cpusubtype f) = subtype_base cs"
  shows "\<exists>i < length fs. cpusubtype_findbestarch ct cs fs = Some (fs ! i)
    \<and> fa_cputype (fs ! i) = ct \<and> subtype_base (fa_cpusubtype (fs ! i)) = subtype_base cs
    \<and> (\<forall>j < i. fa_cputype (fs ! j) \<noteq> ct
         \<or> subtype_base (fa_cpusubtype (fs ! j)) \<noteq> subtype_base cs)"
proof -
  let ?ss = "slices (Fat32 fs)"
  from assms have "(ct, fa_cpusubtype f) \<in> set ?ss" "same_arch ct cs (ct, fa_cpusubtype f)"
    by (auto simp: same_arch_def)
  then obtain i where i: "findbestarch_slices ct cs ?ss = Some i" "i < length ?ss"
    "same_arch ct cs (?ss ! i)" "\<forall>j < i. \<not> same_arch ct cs (?ss ! j)"
    by (rule libstuff.exact_succeeds)
  from i(1) have "cpusubtype_findbestarch ct cs fs = Some (fs ! i)"
    by (simp add: cpusubtype_findbestarch_def internal_cpusubtype_findbestarch_def del: slices.simps)
  with i(2-4) show ?thesis by (intro exI [of _ i]) (simp add: same_arch_def)
qed

theorem findbestarch_exact_match_witness:
  "\<exists>f. cpusubtype_findbestarch CPU_TYPE_POWERPC CPU_SUBTYPE_POWERPC_750
     [\<lparr>fa_cputype = CPU_TYPE_I386, fa_cpusubtype = 3, fa_offset = 0, fa_size = 0, fa_align = 0\<rparr>,
      \<lparr>fa_cputype = CPU_TYPE_POWERPC, fa_cpusubtype = 9, fa_offset = 0, fa_size = 0, fa_align = 0\<rparr>]
     = Some f"
  using findbestarch_exact_match
    [of "\<lparr>fa_cputype = CPU_TYPE_POWERPC, fa_cpusubtype = 9, fa_offset = 0, fa_size = 0, fa_align = 0\<rparr>"
      "[\<lparr>fa_cputype = CPU_TYPE_I386, fa_cpusubtype = 3, fa_offset = 0, fa_size = 0, fa_align = 0\<rparr>,
        \<lparr>fa_cputype = CPU_TYPE_POWERPC, fa_cpusubtype = 9, fa_offset = 0, fa_size = 0, fa_align = 0\<rparr>]"
      CPU_TYPE_POWERPC CPU_SUBTYPE_POWERPC_750]
  by fastforce

lemma ppc_order_executable:
  assumes "subtype_base host \<noteq> CPU_SUBTYPE_POWERPC_ALL" and "subtype_base exec \<in> set (ppc_order host)"
  shows "execute_ppc host exec"
proof -
  let ?h = "subtype_base host"
  consider "?h = CPU_SUBTYPE_POWERPC_970"
    | "?h \<in> {CPU_SUBTYPE_POWERPC_7450, CPU_SUBTYPE_POWERPC_7400}"
    | "?h \<in> {CPU_SUBTYPE_POWERPC_750, CPU_SUBTYPE_POWERPC_604e, CPU_SUBTYPE_POWERPC_604,
        CPU_SUBTYPE_POWERPC_603ev, CPU_SUBTYPE_POWERPC_603e, CPU_SUBTYPE_POWERPC_603}"
    | "?h \<notin> {CPU_SUBTYPE_POWERPC_970, CPU_SUBTYPE_POWERPC_7450, CPU_SUBTYPE_POWERPC_7400,
        CPU_SUBTYPE_POWERPC_750, CPU_SUBTYPE_POWERPC_604e, CPU_SUBTYPE_POWERPC_604,
        CPU_SUBTYPE_POWERPC_603ev, CPU_SUBTYPE_POWERPC_603e, CPU_SUBTYPE_POWERPC_603}"
    by blast
  then show ?thesis
  proof cases
    case 1
    with assms show ?thesis by (simp add: ppc_order_def execute_ppc_def Let_def) argo
  next
    case 2
    with assms show ?thesis by (elim insertE) (simp_all add: ppc_order_def execute_ppc_def Let_def, argo+)
  next
    case 3
    with assms show ?thesis by (elim insertE) (simp_all add: ppc_order_def execute_ppc_def Let_def, argo+)
  next
    case 4
    with assms show ?thesis by (simp add: ppc_order_def execute_ppc_def)
  qed
qed

lemma base_order_executable:
  assumes "ct \<in> {CPU_TYPE_POWERPC, CPU_TYPE_MC680x0, CPU_TYPE_MC88000, CPU_TYPE_HPPA, CPU_TYPE_SPARC}"
    and "ct = CPU_TYPE_POWERPC \<Longrightarrow> subtype_base host \<noteq> CPU_SUBTYPE_POWERPC_ALL"
    and "ct = CPU_TYPE_MC680x0 \<Longrightarrow> subtype_base host \<noteq> CPU_SUBTYPE_MC680x0_ALL"
    and "subtype_base exec \<in> set (base_order ct host)"
  shows "cpusubtype_execute ct host exec"
proof -
  from assms(1) consider "ct = CPU_TYPE_POWERPC" | "ct = CPU_TYPE_MC680x0" | "ct = CPU_TYPE_MC88000"
    | "ct = CPU_TYPE_HPPA" | "ct = CPU_TYPE_SPARC" by blast
  then show ?thesis
  proof cases
    case 1
    with assms(2,4) ppc_order_executable [of host exec] show ?thesis
      by (simp add: base_order_def cpusubtype_execute_def)
  next
    case 2
    with assms(3,4) show ?thesis
      by (simp add: base_order_def cpusubtype_execute_def m68k_order_def execute_m68k_def)
  next
    case 3
    with assms(4) show ?thesis
      by (simp add: base_order_def cpusubtype_execute_def execute_m88k_def)
  next
    case 4
    with assms(4) show ?thesis
      by (simp add: base_order_def cpusubtype_execute_def execute_hppa_def)
  next
    case 5
    with assms(4) show ?thesis
      by (simp add: base_order_def cpusubtype_execute_def)
  qed
qed

text \<open>
  Property C28. On the PowerPC, 68k, 88k, HP-PA and SPARC the slice that
  \<open>internal_cpusubtype_findbestarch\<close> picks for a host is one that \<open>cpusubtype_execute\<close> says
  the host can run, for every host subtype that is not the ALL type (the case the interface
  of \<open>cpusubtype_execute\<close> excludes).
\<close>

theorem findbestarch_picks_executable:
  assumes "ct \<in> {CPU_TYPE_POWERPC, CPU_TYPE_MC680x0, CPU_TYPE_MC88000, CPU_TYPE_HPPA, CPU_TYPE_SPARC}"
    and "ct = CPU_TYPE_POWERPC \<Longrightarrow> subtype_base host \<noteq> CPU_SUBTYPE_POWERPC_ALL"
    and "ct = CPU_TYPE_MC680x0 \<Longrightarrow> subtype_base host \<noteq> CPU_SUBTYPE_MC680x0_ALL"
    and "internal_cpusubtype_findbestarch ct host t = Some i"
  shows "cpusubtype_execute ct host (snd (slices t ! i))"
proof -
  let ?s = "slices t ! i"
  have "ct \<noteq> CPU_TYPE_ARM" "ct \<noteq> CPU_TYPE_I386" using assms(1) by auto
  moreover from assms(4) have "slice_rank ct host ?s \<noteq> None"
    unfolding internal_cpusubtype_findbestarch_def by (blast dest: findbestarch_slices_Some)
  ultimately consider "same_arch ct host ?s" | "subtype_base (snd ?s) \<in> set (base_order ct host)"
    unfolding slice_rank_ranked by blast
  then show ?thesis
  proof cases
    case 1
    then show ?thesis by (simp add: cpusubtype_execute_def same_arch_def)
  next
    case 2
    with assms(1-3) show ?thesis by (rule base_order_executable)
  qed
qed

theorem findbestarch_picks_executable_witness:
  "cpusubtype_execute CPU_TYPE_POWERPC CPU_SUBTYPE_POWERPC_7450
     (snd (slices (Fat32 [\<lparr>fa_cputype = 18, fa_cpusubtype = 100, fa_offset = 0, fa_size = 0, fa_align = 0\<rparr>,
        \<lparr>fa_cputype = 18, fa_cpusubtype = 9, fa_offset = 0, fa_size = 0, fa_align = 0\<rparr>]) ! 1))"
  by (rule findbestarch_picks_executable)
    (simp_all add: internal_cpusubtype_findbestarch_def findbestarch_slices_def
      find_cputype_dependent_def ppc_order_def find_base_def first_index_Cons same_arch_def
      base_test_def Let_def)

text \<open>
  For i386 the selection fails only when the table has no i386 slice at all.
\<close>

theorem findbestarch_i386_total:
  "internal_cpusubtype_findbestarch CPU_TYPE_I386 cs t = None
     \<longleftrightarrow> CPU_TYPE_I386 \<notin> fst ` set (slices t)"
proof -
  have "slice_rank CPU_TYPE_I386 cs s \<noteq> None \<longleftrightarrow> fst s = CPU_TYPE_I386" for s
    unfolding slice_rank_ranked same_arch_def by blast
  then have "slice_rank CPU_TYPE_I386 cs s = None \<longleftrightarrow> fst s \<noteq> CPU_TYPE_I386" for s by blast
  then show ?thesis
    unfolding internal_cpusubtype_findbestarch_def findbestarch_slices_None by auto
qed

end
