(* ===== verification/Arch_Info.thy ===== *)
theory Arch_Info
  imports Machine
begin

text \<open>
  The table of architectures of \<open>libmacho/arch.c\<close> and its lookups by name
  (\<open>NXGetArchInfoFromName\<close>), by cpu type (\<open>NXGetArchInfoFromCpuType\<close>) and for the local host
  (\<open>NXGetLocalArchInfo\<close>). The entry with a null name that ends the C table is the end of the
  list; a null result is \<open>None\<close>. What \<open>host_info\<close> answers, and whether the second \<open>malloc\<close> of
  \<open>NXGetArchInfoFromCpuType\<close> succeeds, are parameters; the first \<open>malloc\<close>, which the code does
  not check, is taken to succeed.
\<close>

datatype NXByteOrder = NX_UnknownByteOrder | NX_LittleEndian | NX_BigEndian

record NXArchInfo =
  ai_name :: string
  ai_cputype :: cpu_type
  ai_cpusubtype :: cpu_subtype
  ai_byteorder :: NXByteOrder
  ai_description :: string

abbreviation (input) arch_info ::
    "string \<Rightarrow> cpu_type \<Rightarrow> cpu_subtype \<Rightarrow> NXByteOrder \<Rightarrow> string \<Rightarrow> NXArchInfo" where
  "arch_info n ct cs bo d \<equiv> \<lparr>ai_name = n, ai_cputype = ct, ai_cpusubtype = cs, ai_byteorder = bo,
     ai_description = d\<rparr>"

definition ArchInfoTable :: "NXArchInfo list" where
  "ArchInfoTable =
    [arch_info ''hppa'' CPU_TYPE_HPPA CPU_SUBTYPE_HPPA_ALL NX_BigEndian ''HP-PA'',
     arch_info ''i386'' CPU_TYPE_I386 CPU_SUBTYPE_I386_ALL NX_LittleEndian ''Intel 80x86'',
     arch_info ''x86_64'' CPU_TYPE_X86_64 CPU_SUBTYPE_X86_64_ALL NX_LittleEndian ''Intel x86-64'',
     arch_info ''x86_64h'' CPU_TYPE_X86_64 CPU_SUBTYPE_X86_64_H NX_LittleEndian ''Intel x86-64h Haswell'',
     arch_info ''i860'' CPU_TYPE_I860 CPU_SUBTYPE_I860_ALL NX_BigEndian ''Intel 860'',
     arch_info ''m68k'' CPU_TYPE_MC680x0 CPU_SUBTYPE_MC680x0_ALL NX_BigEndian ''Motorola 68K'',
     arch_info ''m88k'' CPU_TYPE_MC88000 CPU_SUBTYPE_MC88000_ALL NX_BigEndian ''Motorola 88K'',
     arch_info ''ppc'' CPU_TYPE_POWERPC CPU_SUBTYPE_POWERPC_ALL NX_BigEndian ''PowerPC'',
     arch_info ''ppc64'' CPU_TYPE_POWERPC64 CPU_SUBTYPE_POWERPC_ALL NX_BigEndian ''PowerPC 64-bit'',
     arch_info ''sparc'' CPU_TYPE_SPARC CPU_SUBTYPE_SPARC_ALL NX_BigEndian ''SPARC'',
     arch_info ''arm'' CPU_TYPE_ARM CPU_SUBTYPE_ARM_ALL NX_LittleEndian ''ARM'',
     arch_info ''arm64'' CPU_TYPE_ARM64 CPU_SUBTYPE_ARM64_ALL NX_LittleEndian ''ARM64'',
     arch_info ''any'' CPU_TYPE_ANY CPU_SUBTYPE_MULTIPLE NX_UnknownByteOrder ''Architecture Independent'',
     arch_info ''veo'' CPU_TYPE_VEO CPU_SUBTYPE_VEO_ALL NX_BigEndian ''veo'',
     arch_info ''hppa7100LC'' CPU_TYPE_HPPA CPU_SUBTYPE_HPPA_7100LC NX_BigEndian ''HP-PA 7100LC'',
     arch_info ''m68030'' CPU_TYPE_MC680x0 CPU_SUBTYPE_MC68030_ONLY NX_BigEndian ''Motorola 68030'',
     arch_info ''m68040'' CPU_TYPE_MC680x0 CPU_SUBTYPE_MC68040 NX_BigEndian ''Motorola 68040'',
     arch_info ''i486'' CPU_TYPE_I386 CPU_SUBTYPE_486 NX_LittleEndian ''Intel 80486'',
     arch_info ''i486SX'' CPU_TYPE_I386 CPU_SUBTYPE_486SX NX_LittleEndian ''Intel 80486SX'',
     arch_info ''pentium'' CPU_TYPE_I386 CPU_SUBTYPE_PENT NX_LittleEndian ''Intel Pentium'',
     arch_info ''i586'' CPU_TYPE_I386 CPU_SUBTYPE_586 NX_LittleEndian ''Intel 80586'',
     arch_info ''pentpro'' CPU_TYPE_I386 CPU_SUBTYPE_PENTPRO NX_LittleEndian ''Intel Pentium Pro'',
     arch_info ''i686'' CPU_TYPE_I386 CPU_SUBTYPE_PENTPRO NX_LittleEndian ''Intel Pentium Pro'',
     arch_info ''pentIIm3'' CPU_TYPE_I386 CPU_SUBTYPE_PENTII_M3 NX_LittleEndian ''Intel Pentium II Model 3'',
     arch_info ''pentIIm5'' CPU_TYPE_I386 CPU_SUBTYPE_PENTII_M5 NX_LittleEndian ''Intel Pentium II Model 5'',
     arch_info ''pentium4'' CPU_TYPE_I386 CPU_SUBTYPE_PENTIUM_4 NX_LittleEndian ''Intel Pentium 4'',
     arch_info ''x86_64h'' CPU_TYPE_I386 CPU_SUBTYPE_X86_64_H NX_LittleEndian ''Intel x86-64h Haswell'',
     arch_info ''ppc601'' CPU_TYPE_POWERPC CPU_SUBTYPE_POWERPC_601 NX_BigEndian ''PowerPC 601'',
     arch_info ''ppc603'' CPU_TYPE_POWERPC CPU_SUBTYPE_POWERPC_603 NX_BigEndian ''PowerPC 603'',
     arch_info ''ppc603e'' CPU_TYPE_POWERPC CPU_SUBTYPE_POWERPC_603e NX_BigEndian ''PowerPC 603e'',
     arch_info ''ppc603ev'' CPU_TYPE_POWERPC CPU_SUBTYPE_POWERPC_603ev NX_BigEndian ''PowerPC 603ev'',
     arch_info ''ppc604'' CPU_TYPE_POWERPC CPU_SUBTYPE_POWERPC_604 NX_BigEndian ''PowerPC 604'',
     arch_info ''ppc604e'' CPU_TYPE_POWERPC CPU_SUBTYPE_POWERPC_604e NX_BigEndian ''PowerPC 604e'',
     arch_info ''ppc750'' CPU_TYPE_POWERPC CPU_SUBTYPE_POWERPC_750 NX_BigEndian ''PowerPC 750'',
     arch_info ''ppc7400'' CPU_TYPE_POWERPC CPU_SUBTYPE_POWERPC_7400 NX_BigEndian ''PowerPC 7400'',
     arch_info ''ppc7450'' CPU_TYPE_POWERPC CPU_SUBTYPE_POWERPC_7450 NX_BigEndian ''PowerPC 7450'',
     arch_info ''ppc970'' CPU_TYPE_POWERPC CPU_SUBTYPE_POWERPC_970 NX_BigEndian ''PowerPC 970'',
     arch_info ''ppc970-64'' CPU_TYPE_POWERPC64 CPU_SUBTYPE_POWERPC_970 NX_BigEndian ''PowerPC 970 64-bit'',
     arch_info ''armv4t'' CPU_TYPE_ARM CPU_SUBTYPE_ARM_V4T NX_LittleEndian ''arm v4t'',
     arch_info ''armv5'' CPU_TYPE_ARM CPU_SUBTYPE_ARM_V5TEJ NX_LittleEndian ''arm v5'',
     arch_info ''xscale'' CPU_TYPE_ARM CPU_SUBTYPE_ARM_XSCALE NX_LittleEndian ''arm xscale'',
     arch_info ''armv6'' CPU_TYPE_ARM CPU_SUBTYPE_ARM_V6 NX_LittleEndian ''arm v6'',
     arch_info ''armv6m'' CPU_TYPE_ARM CPU_SUBTYPE_ARM_V6M NX_LittleEndian ''arm v6m'',
     arch_info ''armv7'' CPU_TYPE_ARM CPU_SUBTYPE_ARM_V7 NX_LittleEndian ''arm v7'',
     arch_info ''armv7f'' CPU_TYPE_ARM CPU_SUBTYPE_ARM_V7F NX_LittleEndian ''arm v7f'',
     arch_info ''armv7s'' CPU_TYPE_ARM CPU_SUBTYPE_ARM_V7S NX_LittleEndian ''arm v7s'',
     arch_info ''armv7k'' CPU_TYPE_ARM CPU_SUBTYPE_ARM_V7K NX_LittleEndian ''arm v7k'',
     arch_info ''armv7m'' CPU_TYPE_ARM CPU_SUBTYPE_ARM_V7M NX_LittleEndian ''arm v7m'',
     arch_info ''armv7em'' CPU_TYPE_ARM CPU_SUBTYPE_ARM_V7EM NX_LittleEndian ''arm v7em'',
     arch_info ''armv8'' CPU_TYPE_ARM CPU_SUBTYPE_ARM_V8 NX_LittleEndian ''arm v8'',
     arch_info ''arm64'' CPU_TYPE_ARM64 CPU_SUBTYPE_ARM64_V8 NX_LittleEndian ''arm64 v8'',
     arch_info ''little'' CPU_TYPE_ANY CPU_SUBTYPE_LITTLE_ENDIAN NX_LittleEndian ''Little Endian'',
     arch_info ''big'' CPU_TYPE_ANY CPU_SUBTYPE_BIG_ENDIAN NX_BigEndian ''Big Endian'',
     arch_info ''veo1'' CPU_TYPE_VEO CPU_SUBTYPE_VEO_1 NX_BigEndian ''veo 1'',
     arch_info ''veo2'' CPU_TYPE_VEO CPU_SUBTYPE_VEO_2 NX_BigEndian ''veo 2'']"

definition NXGetAllArchInfos :: "NXArchInfo list" where
  "NXGetAllArchInfos = ArchInfoTable"

definition NXGetArchInfoFromName :: "string \<Rightarrow> NXArchInfo option" where
  "NXGetArchInfoFromName name = find (\<lambda>ai. ai_name ai = name) ArchInfoTable"

definition intel_description :: "cpu_subtype \<Rightarrow> string" where
  "intel_description cs =
     ''Intel family '' @ show_nat (unat (INTEL_FAMILY (subtype_base cs)))
     @ '' model '' @ show_nat (unat (INTEL_MODEL (subtype_base cs)))"

definition powerpc_description :: "cpu_subtype \<Rightarrow> string" where
  "powerpc_description cs = ''PowerPC cpusubtype '' @ show_nat (unat cs)"

definition made_up_info :: "bool \<Rightarrow> cpu_type \<Rightarrow> cpu_subtype \<Rightarrow> string \<Rightarrow> NXArchInfo option" where
  "made_up_info alloc ct cs descr =
     (if \<not> alloc then None
      else map_option (\<lambda>ai. ai\<lparr>ai_cpusubtype := cs, ai_description := descr\<rparr>)
        (find (\<lambda>ai. ai_cputype ai = ct) ArchInfoTable))"

definition types_match :: "cpu_type \<Rightarrow> cpu_subtype \<Rightarrow> NXArchInfo \<Rightarrow> bool" where
  "types_match ct cs ai \<longleftrightarrow> ai_cputype ai = ct
     \<and> (cs = CPU_SUBTYPE_MULTIPLE \<or> subtype_base (ai_cpusubtype ai) = subtype_base cs)"

definition NXGetArchInfoFromCpuType :: "bool \<Rightarrow> cpu_type \<Rightarrow> cpu_subtype \<Rightarrow> NXArchInfo option" where
  "NXGetArchInfoFromCpuType alloc ct cs =
     (case find (types_match ct cs) ArchInfoTable of
        Some ai \<Rightarrow> Some ai
      | None \<Rightarrow>
          if ct = CPU_TYPE_I386 then made_up_info alloc ct cs (intel_description cs)
          else if ct = CPU_TYPE_POWERPC then made_up_info alloc ct cs (powerpc_description cs)
          else None)"

definition NXGetLocalArchInfo ::
    "bool \<Rightarrow> (cpu_type \<times> cpu_subtype) option \<Rightarrow> NXArchInfo option" where
  "NXGetLocalArchInfo alloc host_info =
     (case host_info of None \<Rightarrow> None
      | Some (ct, cs) \<Rightarrow>
          NXGetArchInfoFromCpuType alloc ct
            (if ct = CPU_TYPE_MC680x0 \<and> cs = CPU_SUBTYPE_MC680x0_ALL
             then CPU_SUBTYPE_MC68030_ONLY else cs))"

section \<open>Properties\<close>

lemma find_found: "x \<in> set xs \<Longrightarrow> P x \<Longrightarrow> \<exists>y. find P xs = Some y"
  by (induction xs) auto

lemma find_SomeD: "find P xs = Some y \<Longrightarrow> y \<in> set xs \<and> P y"
  by (induction xs) (auto split: if_splits)

lemma family_found:
  "ct \<in> {CPU_TYPE_I386, CPU_TYPE_POWERPC} \<Longrightarrow>
     \<exists>ai. find (\<lambda>ai. ai_cputype ai = ct) ArchInfoTable = Some ai"
  by (elim insertE emptyE) (simp_all add: ArchInfoTable_def)

lemma made_up_info_types:
  assumes "made_up_info alloc ct cs descr = Some ai"
  shows "types_match ct cs ai"
proof -
  from assms obtain a where a: "find (\<lambda>ai. ai_cputype ai = ct) ArchInfoTable = Some a"
    and ai: "ai = a\<lparr>ai_cpusubtype := cs, ai_description := descr\<rparr>"
    by (auto simp: made_up_info_def split: if_splits)
  from find_SomeD [OF a] show ?thesis by (simp add: ai types_match_def)
qed

text \<open>
  The lookup by name finds every entry of the table but two: the i386 entry named
  \<open>x86_64h\<close> and the second entry named \<open>arm64\<close> are shadowed by an earlier entry of the same
  name, and \<open>NXGetArchInfoFromName\<close> never returns them.
\<close>

theorem name_lookup_shadowed:
  "filter (\<lambda>ai. NXGetArchInfoFromName (ai_name ai) \<noteq> Some ai) ArchInfoTable =
     [arch_info ''x86_64h'' CPU_TYPE_I386 CPU_SUBTYPE_X86_64_H NX_LittleEndian
        ''Intel x86-64h Haswell'',
      arch_info ''arm64'' CPU_TYPE_ARM64 CPU_SUBTYPE_ARM64_V8 NX_LittleEndian ''arm64 v8'']"
  by code_simp

text \<open>
  What the lookup by types returns has the cpu type asked for and, unless any
  subtype was asked for, a subtype that agrees with it up to feature bits.
\<close>

theorem cputype_lookup_sound:
  assumes "NXGetArchInfoFromCpuType alloc ct cs = Some ai"
  shows "ai_cputype ai = ct
    \<and> (cs = CPU_SUBTYPE_MULTIPLE \<or> subtype_base (ai_cpusubtype ai) = subtype_base cs)"
proof (cases "find (types_match ct cs) ArchInfoTable")
  case None
  with assms have "types_match ct cs ai"
    by (auto simp: NXGetArchInfoFromCpuType_def split: if_splits intro: made_up_info_types)
  then show ?thesis by (simp only: types_match_def)
next
  case (Some a)
  with assms have "a = ai" by (simp add: NXGetArchInfoFromCpuType_def)
  with find_SomeD [OF Some] show ?thesis by (simp add: types_match_def)
qed

theorem cputype_lookup_sound_witness:
  "ai_cputype (arch_info ''ppc'' CPU_TYPE_POWERPC 77 NX_BigEndian ''PowerPC cpusubtype 77'')
     = CPU_TYPE_POWERPC
   \<and> ((77 :: cpu_subtype) = CPU_SUBTYPE_MULTIPLE
      \<or> subtype_base (ai_cpusubtype (arch_info ''ppc'' CPU_TYPE_POWERPC 77 NX_BigEndian
          ''PowerPC cpusubtype 77'')) = subtype_base 77)"
  by (rule cputype_lookup_sound [of True])
    code_simp

text \<open>
  The two lookups agree: an architecture found by its name is found by its types
  too, as an entry with the same type and subtype, without any allocation.
\<close>

theorem name_then_types:
  assumes "NXGetArchInfoFromName name = Some ai"
  shows "\<exists>ai'. NXGetArchInfoFromCpuType False (ai_cputype ai) (ai_cpusubtype ai) = Some ai'
    \<and> ai_cputype ai' = ai_cputype ai
    \<and> (ai_cpusubtype ai = CPU_SUBTYPE_MULTIPLE
        \<or> subtype_base (ai_cpusubtype ai') = subtype_base (ai_cpusubtype ai))"
proof -
  let ?P = "types_match (ai_cputype ai) (ai_cpusubtype ai)"
  from assms have "ai \<in> set ArchInfoTable"
    unfolding NXGetArchInfoFromName_def by (blast dest: find_SomeD)
  moreover have "?P ai" by (simp add: types_match_def)
  ultimately obtain ai' where ai': "find ?P ArchInfoTable = Some ai'" by (blast dest: find_found)
  with find_SomeD [OF this] show ?thesis
    by (simp add: NXGetArchInfoFromCpuType_def types_match_def)
qed

lemma armv7_found:
  "NXGetArchInfoFromName ''armv7'' =
     Some (arch_info ''armv7'' CPU_TYPE_ARM CPU_SUBTYPE_ARM_V7 NX_LittleEndian ''arm v7'')"
  by code_simp

theorem name_then_types_witness:
  "\<exists>ai'. NXGetArchInfoFromCpuType False CPU_TYPE_ARM CPU_SUBTYPE_ARM_V7 = Some ai'
    \<and> ai_cputype ai' = CPU_TYPE_ARM
    \<and> (CPU_SUBTYPE_ARM_V7 = CPU_SUBTYPE_MULTIPLE
        \<or> subtype_base (ai_cpusubtype ai') = subtype_base CPU_SUBTYPE_ARM_V7)"
  using name_then_types [of "''armv7''"
      "arch_info ''armv7'' CPU_TYPE_ARM CPU_SUBTYPE_ARM_V7 NX_LittleEndian ''arm v7''"]
  by (simp add: armv7_found)

text \<open>
  The buffers of the made-up descriptions are large enough for every subtype, the
  terminating null included: \<open>sizeof("Intel family  model ") + 2 + 8\<close> bytes for an Intel
  subtype and \<open>sizeof("PowerPC cpusubtype ") + 10\<close> for a PowerPC one.
\<close>

theorem description_fits:
  "length (intel_description cs) + 1 \<le> (length ''Intel family  model '' + 1) + 2 + 8
   \<and> length (powerpc_description cs) + 1 \<le> (length ''PowerPC cpusubtype '' + 1) + 10"
proof -
  have "length (show_nat (unat (INTEL_FAMILY (subtype_base cs)))) \<le> 2"
    using INTEL_FAMILY_max [of "subtype_base cs"]
      show_nat_length [of "unat (INTEL_FAMILY (subtype_base cs))" 1] by simp
  moreover have "unat (INTEL_MODEL (subtype_base cs)) < 10 ^ Suc 7"
  proof -
    have "unat (subtype_base cs) < 2 ^ 24"
      using take_bit_nat_less_exp [of 24 "unat cs"]
      by (simp add: subtype_base_take_bit unsigned_take_bit_eq)
    then show ?thesis by (simp add: INTEL_MODEL_def unat_drop_bit_eq drop_bit_eq_div unat_div)
  qed
  then have "length (show_nat (unat (INTEL_MODEL (subtype_base cs)))) \<le> 8"
    using show_nat_length [of _ 7] by simp
  moreover have "unat cs < 10 ^ Suc 9" using unat_less_numeral [of cs] by simp
  then have "length (show_nat (unat cs)) \<le> 10" using show_nat_length [of _ 9] by simp
  ultimately show ?thesis by (simp add: intel_description_def powerpc_description_def)
qed

text \<open>
  For i386 and PowerPC the lookup by types finds something for every subtype,
  unless the allocation of a description fails.
\<close>

theorem cputype_lookup_total:
  assumes "ct \<in> {CPU_TYPE_I386, CPU_TYPE_POWERPC}"
  shows "\<exists>ai. NXGetArchInfoFromCpuType True ct cs = Some ai"
proof -
  from family_found [OF assms] obtain ai
    where ai: "find (\<lambda>ai. ai_cputype ai = ct) ArchInfoTable = Some ai" by blast
  have made: "\<exists>ai'. made_up_info True ct cs descr = Some ai'" for descr
    by (simp add: made_up_info_def ai)
  show ?thesis
  proof (cases "find (types_match ct cs) ArchInfoTable")
    case None
    with assms made show ?thesis
      by (cases "ct = CPU_TYPE_I386") (simp_all add: NXGetArchInfoFromCpuType_def)
  qed (simp add: NXGetArchInfoFromCpuType_def)
qed

theorem cputype_lookup_total_witness:
  "\<exists>ai. NXGetArchInfoFromCpuType True CPU_TYPE_I386 200 = Some ai"
  by (rule cputype_lookup_total) simp

end
