(* ===== verification/Nx_Arch.thy ===== *)
theory Nx_Arch
  imports Best_Arch Arch_Info
begin

text \<open>
  The selection and combination routines of \<open>libmacho/arch.c\<close> (\<open>NXFindBestFatArch\<close>,
  \<open>NXFindBestFatArch_64\<close>, \<open>NXCombineCpuSubtypes\<close>): the library's own version of what
  \<open>libstuff/best_arch.c\<close> does for the tools. The cases of the \<open>switch\<close> are lists of scans, as
  in \<open>Best_Arch\<close>; two of the PowerPC scans use tests of their own. The ARM cases are loops that
  keep the slice of highest subtype.
\<close>

section \<open>Finding the best architecture\<close>

definition nx_i386_order :: "cpu_subtype \<Rightarrow> cpu_subtype list" where
  "nx_i386_order cs =
     (let from_pent = [CPU_SUBTYPE_486];
          from_default = CPU_SUBTYPE_PENT # from_pent;
          b = subtype_base cs;
          first = (if b = CPU_SUBTYPE_PENT \<or> b = CPU_SUBTYPE_486SX then from_pent
                   else if b = CPU_SUBTYPE_I386_ALL \<or> b = CPU_SUBTYPE_486 then []
                   else from_default)
      in first @ [CPU_SUBTYPE_I386_ALL]
         @ [CPU_SUBTYPE_486, CPU_SUBTYPE_486SX, CPU_SUBTYPE_586])"

abbreviation (input) "INT_MAX \<equiv> (2 ^ 31 - 1 :: nat)"

definition nx_i386_lowest :: "slice list \<Rightarrow> nat option" where
  "nx_i386_lowest ss =
     (let lf = lowest_family CPU_TYPE_I386 ss (CPU_SUBTYPE_INTEL_FAMILY_MAX + 1)
      in if lf = CPU_SUBTYPE_INTEL_FAMILY_MAX + 1 then None
         else lowest_model CPU_TYPE_I386 lf 0 ss INT_MAX None)"

definition nx_x86_64_order :: "cpu_subtype list" where
  "nx_x86_64_order = [CPU_SUBTYPE_X86_64_ALL]"

definition nx_m68k_order :: "cpu_subtype \<Rightarrow> cpu_subtype list" where
  "nx_m68k_order cs =
     [CPU_SUBTYPE_MC680x0_ALL]
     @ (if subtype_base cs = CPU_SUBTYPE_MC680x0_ALL
        then [CPU_SUBTYPE_MC68040, CPU_SUBTYPE_MC68030_ONLY] else [])"

text \<open>The scan for the 750 keeps the feature bits and clears the others.\<close>

definition nx_750_test :: "slice \<Rightarrow> bool" where
  "nx_750_test s \<longleftrightarrow> fst s = CPU_TYPE_POWERPC
     \<and> snd s AND CPU_SUBTYPE_MASK = CPU_SUBTYPE_POWERPC_750"

text \<open>The scan for the 603ev clears the high bits of the cpu type.\<close>

definition nx_603ev_test :: "slice \<Rightarrow> bool" where
  "nx_603ev_test s \<longleftrightarrow> fst s AND NOT CPU_SUBTYPE_MASK = CPU_TYPE_POWERPC
     \<and> subtype_base (snd s) = CPU_SUBTYPE_POWERPC_603ev"

definition nx_ppc_from_750 :: "(slice \<Rightarrow> bool) list" where
  "nx_ppc_from_750 =
     [nx_750_test, base_test CPU_TYPE_POWERPC CPU_SUBTYPE_POWERPC_604e,
      base_test CPU_TYPE_POWERPC CPU_SUBTYPE_POWERPC_604, nx_603ev_test,
      base_test CPU_TYPE_POWERPC CPU_SUBTYPE_POWERPC_603e,
      base_test CPU_TYPE_POWERPC CPU_SUBTYPE_POWERPC_603]
     @ [base_test CPU_TYPE_POWERPC CPU_SUBTYPE_POWERPC_ALL]"

definition nx_ppc_tests :: "cpu_subtype \<Rightarrow> (slice \<Rightarrow> bool) list" where
  "nx_ppc_tests cs =
     (let from_7450 = [base_test CPU_TYPE_POWERPC CPU_SUBTYPE_POWERPC_7450,
            base_test CPU_TYPE_POWERPC CPU_SUBTYPE_POWERPC_7400] @ nx_ppc_from_750;
          from_970 = base_test CPU_TYPE_POWERPC CPU_SUBTYPE_POWERPC_970 # from_7450;
          b = subtype_base cs
      in if b \<in> {CPU_SUBTYPE_POWERPC_ALL, CPU_SUBTYPE_POWERPC_970} then from_970
         else if b \<in> {CPU_SUBTYPE_POWERPC_7450, CPU_SUBTYPE_POWERPC_7400} then from_7450
         else if b \<in> {CPU_SUBTYPE_POWERPC_750, CPU_SUBTYPE_POWERPC_604e,
             CPU_SUBTYPE_POWERPC_604, CPU_SUBTYPE_POWERPC_603ev, CPU_SUBTYPE_POWERPC_603e,
             CPU_SUBTYPE_POWERPC_603} then nx_ppc_from_750
         else [base_test CPU_TYPE_POWERPC CPU_SUBTYPE_POWERPC_ALL])"

definition nx_ppc64_order :: "cpu_subtype \<Rightarrow> cpu_subtype list" where
  "nx_ppc64_order cs =
     (let from_default = [CPU_SUBTYPE_POWERPC_ALL];
          from_970 = CPU_SUBTYPE_POWERPC_970 # from_default;
          b = subtype_base cs
      in if b = CPU_SUBTYPE_POWERPC_ALL \<or> b = CPU_SUBTYPE_POWERPC_970 then from_970
         else from_default)"

definition nx_all_order :: "cpu_type \<Rightarrow> cpu_subtype list" where
  "nx_all_order ct =
     (if ct = CPU_TYPE_MC88000 then [CPU_SUBTYPE_MC88000_ALL]
      else if ct = CPU_TYPE_I860 then [CPU_SUBTYPE_I860_ALL]
      else if ct = CPU_TYPE_HPPA then [CPU_SUBTYPE_HPPA_ALL]
      else if ct = CPU_TYPE_SPARC then [CPU_SUBTYPE_SPARC_ALL]
      else [])"

text \<open>
  The loop of the ARM cases. The state is \<open>best_fat_arch\<close> with the subtype it points to, once
  \<open>fat_match_found\<close>; subtypes are compared as signed integers.
\<close>

primrec highest_subtype ::
    "(slice \<Rightarrow> bool) \<Rightarrow> nat \<Rightarrow> slice list \<Rightarrow> (nat \<times> cpu_subtype) option \<Rightarrow> (nat \<times> cpu_subtype) option"
where
  "highest_subtype P i [] best = best"
| "highest_subtype P i (s # ss) best =
     (if \<not> P s then highest_subtype P (Suc i) ss best
      else case best of
        None \<Rightarrow> highest_subtype P (Suc i) ss (Some (i, snd s))
      | Some b \<Rightarrow>
          if word_sless (snd b) (snd s) then highest_subtype P (Suc i) ss (Some (i, snd s))
          else highest_subtype P (Suc i) ss best)"

definition nx_arm :: "cpu_type \<Rightarrow> cpu_subtype \<Rightarrow> slice list \<Rightarrow> nat option" where
  "nx_arm ct cs ss =
     (case highest_subtype (\<lambda>s. fst s = ct \<and> \<not> word_sless cs (snd s)) 0 ss None of
        Some b \<Rightarrow> Some (fst b)
      | None \<Rightarrow>
          if ct = CPU_TYPE_ARM64
          then map_option fst (highest_subtype (\<lambda>s. fst s = CPU_TYPE_ARM) 0 ss None)
          else None)"

definition nx_cputype_dependent :: "cpu_type \<Rightarrow> cpu_subtype \<Rightarrow> slice list \<Rightarrow> nat option" where
  "nx_cputype_dependent ct cs ss =
     (let base = search_in_order (find_base ss ct) in
      if ct = CPU_TYPE_I386 then or_else (base (nx_i386_order cs)) (nx_i386_lowest ss)
      else if ct = CPU_TYPE_X86_64 then base nx_x86_64_order
      else if ct = CPU_TYPE_MC680x0 then base (nx_m68k_order cs)
      else if ct = CPU_TYPE_POWERPC
      then search_in_order (\<lambda>P. first_index P ss) (nx_ppc_tests cs)
      else if ct = CPU_TYPE_POWERPC64 then base (nx_ppc64_order cs)
      else if ct \<in> {CPU_TYPE_MC88000, CPU_TYPE_I860, CPU_TYPE_HPPA, CPU_TYPE_SPARC}
      then base (nx_all_order ct)
      else if ct \<in> {CPU_TYPE_ARM, CPU_TYPE_ARM64} then nx_arm ct cs ss
      else None)"

definition nx_findbest_slices :: "cpu_type \<Rightarrow> cpu_subtype \<Rightarrow> slice list \<Rightarrow> nat option" where
  "nx_findbest_slices ct cs ss =
     or_else (first_index (same_arch ct cs) ss) (nx_cputype_dependent ct cs ss)"

definition internal_NXFindBestFatArch :: "cpu_type \<Rightarrow> cpu_subtype \<Rightarrow> fat_table \<Rightarrow> nat option" where
  "internal_NXFindBestFatArch ct cs t = nx_findbest_slices ct cs (slices t)"

definition NXFindBestFatArch :: "cpu_type \<Rightarrow> cpu_subtype \<Rightarrow> fat_arch list \<Rightarrow> fat_arch option" where
  "NXFindBestFatArch ct cs fs =
     (case internal_NXFindBestFatArch ct cs (Fat32 fs) of None \<Rightarrow> None | Some i \<Rightarrow> Some (fs ! i))"

definition NXFindBestFatArch_64 ::
    "cpu_type \<Rightarrow> cpu_subtype \<Rightarrow> fat_arch_64 list \<Rightarrow> fat_arch_64 option" where
  "NXFindBestFatArch_64 ct cs fs =
     (case internal_NXFindBestFatArch ct cs (Fat64 fs) of None \<Rightarrow> None | Some i \<Rightarrow> Some (fs ! i))"

section \<open>Combining subtypes\<close>

definition nx_combine_m68k :: "cpu_subtype \<Rightarrow> cpu_subtype \<Rightarrow> cpu_subtype" where
  "nx_combine_m68k s1 s2 =
     (let b1 = subtype_base s1; b2 = subtype_base s2 in
      if b1 \<noteq> CPU_SUBTYPE_MC680x0_ALL \<and> b1 \<noteq> CPU_SUBTYPE_MC68030_ONLY \<and> b1 \<noteq> CPU_SUBTYPE_MC68040
      then - 1
      else if b2 \<noteq> CPU_SUBTYPE_MC680x0_ALL \<and> b2 \<noteq> CPU_SUBTYPE_MC68030_ONLY
        \<and> b2 \<noteq> CPU_SUBTYPE_MC68040
      then - 1
      else if b1 = CPU_SUBTYPE_MC68030_ONLY \<and> b2 = CPU_SUBTYPE_MC68040 then - 1
      else if b1 = CPU_SUBTYPE_MC68040 \<and> b2 = CPU_SUBTYPE_MC68030_ONLY then - 1
      else if b1 = CPU_SUBTYPE_MC68030_ONLY \<or> b2 = CPU_SUBTYPE_MC68030_ONLY
      then CPU_SUBTYPE_MC68030_ONLY
      else if b1 = CPU_SUBTYPE_MC68040 \<or> b2 = CPU_SUBTYPE_MC68040 then CPU_SUBTYPE_MC68040
      else - 1)"

definition nx_combine_ppc :: "cpu_subtype \<Rightarrow> cpu_subtype \<Rightarrow> cpu_subtype" where
  "nx_combine_ppc s1 s2 =
     (let b1 = subtype_base s1; b2 = subtype_base s2 in
      if b1 = CPU_SUBTYPE_POWERPC_ALL then s2
      else if b2 = CPU_SUBTYPE_POWERPC_ALL then s1
      else if b1 = CPU_SUBTYPE_POWERPC_601 \<or> b2 = CPU_SUBTYPE_POWERPC_601
      then CPU_SUBTYPE_POWERPC_601
      else if b1 > b2 then s1 else s2)"

definition nx_combine_m88k :: "cpu_subtype \<Rightarrow> cpu_subtype \<Rightarrow> cpu_subtype" where
  "nx_combine_m88k s1 s2 =
     (let b1 = subtype_base s1; b2 = subtype_base s2 in
      if b1 \<noteq> CPU_SUBTYPE_MC88000_ALL \<and> b1 \<noteq> CPU_SUBTYPE_MC88110 then - 1
      else if b2 \<noteq> CPU_SUBTYPE_MC88000_ALL \<and> b2 \<noteq> CPU_SUBTYPE_MC88110 then - 1
      else if b1 = CPU_SUBTYPE_MC88110 \<or> b2 = CPU_SUBTYPE_MC88110 then CPU_SUBTYPE_MC88110
      else - 1)"

definition nx_combine_i860 :: "cpu_subtype \<Rightarrow> cpu_subtype \<Rightarrow> cpu_subtype" where
  "nx_combine_i860 s1 s2 =
     (let b1 = subtype_base s1; b2 = subtype_base s2 in
      if b1 \<noteq> CPU_SUBTYPE_I860_ALL \<and> b1 \<noteq> CPU_SUBTYPE_I860_860 then - 1
      else if b2 \<noteq> CPU_SUBTYPE_I860_ALL \<and> b2 \<noteq> CPU_SUBTYPE_I860_860 then - 1
      else if b1 = CPU_SUBTYPE_I860_860 \<or> b2 = CPU_SUBTYPE_I860_860 then CPU_SUBTYPE_I860_860
      else - 1)"

definition nx_combine_hppa :: "cpu_subtype \<Rightarrow> cpu_subtype \<Rightarrow> cpu_subtype" where
  "nx_combine_hppa s1 s2 =
     (let b1 = subtype_base s1; b2 = subtype_base s2 in
      if b1 \<noteq> CPU_SUBTYPE_HPPA_ALL \<and> b1 \<noteq> CPU_SUBTYPE_HPPA_7100LC then - 1
      else if b2 \<noteq> CPU_SUBTYPE_HPPA_ALL \<and> b2 \<noteq> CPU_SUBTYPE_HPPA_7100LC then - 1
      else CPU_SUBTYPE_HPPA_7100LC)"

definition nx_combine_arm :: "cpu_subtype \<Rightarrow> cpu_subtype \<Rightarrow> cpu_subtype" where
  "nx_combine_arm s1 s2 =
     (let b1 = subtype_base s1; b2 = subtype_base s2 in
      if b1 = CPU_SUBTYPE_ARM_ALL then s2
      else if b2 = CPU_SUBTYPE_ARM_ALL then s1
      else if b1 = CPU_SUBTYPE_ARM_V7
      then (if b2 = CPU_SUBTYPE_ARM_XSCALE then - 1 else CPU_SUBTYPE_ARM_V7)
      else if b1 = CPU_SUBTYPE_ARM_V6
      then (if b2 = CPU_SUBTYPE_ARM_XSCALE then - 1 else CPU_SUBTYPE_ARM_V6)
      else if b1 = CPU_SUBTYPE_ARM_XSCALE
      then (if b2 = CPU_SUBTYPE_ARM_V7 \<or> b2 = CPU_SUBTYPE_ARM_V6 \<or> b2 = CPU_SUBTYPE_ARM_V5TEJ
            then - 1 else CPU_SUBTYPE_ARM_XSCALE)
      else if b1 = CPU_SUBTYPE_ARM_V5TEJ
      then (if b2 = CPU_SUBTYPE_ARM_XSCALE then - 1
            else if b2 = CPU_SUBTYPE_ARM_V7 then CPU_SUBTYPE_ARM_V7
            else if b2 = CPU_SUBTYPE_ARM_V6 then CPU_SUBTYPE_ARM_V6
            else CPU_SUBTYPE_ARM_V5TEJ)
      else if b1 = CPU_SUBTYPE_ARM_V4T then b2
      else - 1)"

definition NXCombineCpuSubtypes :: "cpu_type \<Rightarrow> cpu_subtype \<Rightarrow> cpu_subtype \<Rightarrow> cpu_subtype" where
  "NXCombineCpuSubtypes ct s1 s2 =
     (if ct = CPU_TYPE_X86_64 \<and> (s1 = CPU_SUBTYPE_X86_64_H \<or> s2 = CPU_SUBTYPE_X86_64_H) then - 1
      else if ct = CPU_TYPE_I386 then CPU_SUBTYPE_I386_ALL
      else if ct = CPU_TYPE_X86_64 then CPU_SUBTYPE_X86_64_ALL
      else if subtype_base s1 = subtype_base s2 then s1
      else if ct = CPU_TYPE_MC680x0 then nx_combine_m68k s1 s2
      else if ct = CPU_TYPE_POWERPC then nx_combine_ppc s1 s2
      else if ct = CPU_TYPE_MC88000 then nx_combine_m88k s1 s2
      else if ct = CPU_TYPE_I860 then nx_combine_i860 s1 s2
      else if ct = CPU_TYPE_HPPA then nx_combine_hppa s1 s2
      else if ct = CPU_TYPE_ARM then nx_combine_arm s1 s2
      else - 1)"

section \<open>The loop that keeps the highest subtype\<close>

text \<open>The measure it minimises: the distance of the signed subtype from the largest one.\<close>

definition sub_key :: "slice \<Rightarrow> nat" where
  "sub_key s = nat (2 ^ 31 - 1 - sint (snd s))"

lemma sint_u32: "- (2 ^ 31) \<le> sint (w :: u32)" "sint (w :: u32) < 2 ^ 31"
  using sint_ge [of w] sint_lt [of w] by simp_all

lemma sub_key_less: "sub_key s < sub_key t \<longleftrightarrow> word_sless (snd t) (snd s)"
  using sint_u32 [of "snd s"] sint_u32 [of "snd t"] by (auto simp: sub_key_def word_sless_alt)

lemma sub_key_bound: "sub_key s < 2 ^ 32"
  using sint_u32 [of "snd s"] by (simp add: sub_key_def)

lemma highest_subtype_best:
  assumes "is_best (measure_rank P sub_key) pre (map_option fst best)"
    and "\<And>b. best = Some b \<Longrightarrow> fst b < length pre \<and> snd b = snd (pre ! fst b)"
  shows "is_best (measure_rank P sub_key) (pre @ ss)
    (map_option fst (highest_subtype P (length pre) ss best))"
  using assms
proof (induction ss arbitrary: pre best)
  case Nil
  then show ?case by simp
next
  case (Cons s ss)
  define best' where "best' =
    (if P s \<and> (case best of None \<Rightarrow> True | Some b \<Rightarrow> word_sless (snd b) (snd s))
     then Some (length pre, snd s) else best)"
  have step: "highest_subtype P (length pre) (s # ss) best
      = highest_subtype P (length (pre @ [s])) ss best'"
    by (auto simp: best'_def split: option.splits)
  have "map_option fst best' = (if P s \<and> (case map_option fst best of None \<Rightarrow> True
      | Some i \<Rightarrow> sub_key s < sub_key (pre ! i)) then Some (length pre) else map_option fst best)"
    using Cons.prems(2) by (auto simp: best'_def sub_key_less split: option.splits)
  with is_best_snoc [OF Cons.prems(1), of s]
  have "is_best (measure_rank P sub_key) (pre @ [s]) (map_option fst best')" by simp
  moreover have "fst b < length (pre @ [s]) \<and> snd b = snd ((pre @ [s]) ! fst b)"
    if "best' = Some b" for b
    using that Cons.prems(2) by (auto simp: best'_def nth_append split: if_splits)
  ultimately show ?case
    unfolding step using Cons.IH [of "pre @ [s]" best'] by simp
qed

lemma highest_subtype_is_best:
  "is_best (measure_rank P sub_key) ss (map_option fst (highest_subtype P 0 ss None))"
  using highest_subtype_best [of P "[]" None ss] by (simp add: is_best_None)

section \<open>The preference order that the selection implements\<close>

lemma nx_i386_lowest_eq: "nx_i386_lowest ss = i386_lowest ss"
proof -
  have "mdl s < INT_MAX" for s using mdl_bound [of s] by simp
  then have "lowest_model CPU_TYPE_I386 lf 0 ss INT_MAX None
      = lowest_model CPU_TYPE_I386 lf 0 ss LONG_MAX None" for lf
    unfolding lowest_model_eq using mdl_less_LONG_MAX by auto
  then show ?thesis by (simp only: nx_i386_lowest_def i386_lowest_def)
qed

definition nx_tests :: "cpu_type \<Rightarrow> cpu_subtype \<Rightarrow> (slice \<Rightarrow> bool) list" where
  "nx_tests ct cs = same_arch ct cs #
     (if ct = CPU_TYPE_I386 then map (base_test ct) (nx_i386_order cs)
      else if ct = CPU_TYPE_X86_64 then map (base_test ct) nx_x86_64_order
      else if ct = CPU_TYPE_MC680x0 then map (base_test ct) (nx_m68k_order cs)
      else if ct = CPU_TYPE_POWERPC then nx_ppc_tests cs
      else if ct = CPU_TYPE_POWERPC64 then map (base_test ct) (nx_ppc64_order cs)
      else map (base_test ct) (nx_all_order ct))"

definition nx_last_rank :: "cpu_type \<Rightarrow> cpu_subtype \<Rightarrow> slice rank" where
  "nx_last_rank ct cs =
     (if ct = CPU_TYPE_I386 then measure_rank (\<lambda>s. fst s = CPU_TYPE_I386) intel_key
      else if ct \<in> {CPU_TYPE_ARM, CPU_TYPE_ARM64}
      then then_rank (2 ^ 32) (measure_rank (\<lambda>s. fst s = ct \<and> \<not> word_sless cs (snd s)) sub_key)
        (measure_rank (\<lambda>s. ct = CPU_TYPE_ARM64 \<and> fst s = CPU_TYPE_ARM) sub_key)
      else (\<lambda>_. None))"

definition nx_rank :: "cpu_type \<Rightarrow> cpu_subtype \<Rightarrow> slice rank" where
  "nx_rank ct cs =
     then_rank (length (nx_tests ct cs)) (tests_rank (nx_tests ct cs)) (nx_last_rank ct cs)"

definition nx_last :: "cpu_type \<Rightarrow> cpu_subtype \<Rightarrow> slice list \<Rightarrow> nat option" where
  "nx_last ct cs ss =
     (if ct = CPU_TYPE_I386 then i386_lowest ss
      else if ct \<in> {CPU_TYPE_ARM, CPU_TYPE_ARM64} then nx_arm ct cs ss else None)"

lemma nx_findbest_search:
  "nx_findbest_slices ct cs ss =
     or_else (search_in_order (\<lambda>P. first_index P ss) (nx_tests ct cs)) (nx_last ct cs ss)"
proof -
  have "nx_cputype_dependent ct cs ss =
     or_else (search_in_order (\<lambda>P. first_index P ss) (tl (nx_tests ct cs))) (nx_last ct cs ss)"
    by (simp add: nx_cputype_dependent_def nx_tests_def nx_last_def nx_all_order_def
        nx_i386_lowest_eq Let_def search_find_base del: search_in_order.simps(2))
  then show ?thesis
    by (simp add: nx_findbest_slices_def or_else_assoc nx_tests_def
        search_in_order_Cons_or_else del: search_in_order.simps(2))
qed

lemma nx_arm_or_else:
  "nx_arm ct cs ss =
     or_else (map_option fst (highest_subtype (\<lambda>s. fst s = ct \<and> \<not> word_sless cs (snd s)) 0 ss None))
       (if ct = CPU_TYPE_ARM64
        then map_option fst (highest_subtype (\<lambda>s. fst s = CPU_TYPE_ARM) 0 ss None) else None)"
  unfolding nx_arm_def
  by (cases "highest_subtype (\<lambda>s. fst s = ct \<and> \<not> word_sless cs (snd s)) 0 ss None") simp_all

lemma nx_arm_best:
  "is_best (then_rank (2 ^ 32)
       (measure_rank (\<lambda>s. fst s = ct \<and> \<not> word_sless cs (snd s)) sub_key)
       (measure_rank (\<lambda>s. ct = CPU_TYPE_ARM64 \<and> fst s = CPU_TYPE_ARM) sub_key)) ss (nx_arm ct cs ss)"
  unfolding nx_arm_or_else
proof (rule is_best_then)
  show "is_best (measure_rank (\<lambda>s. ct = CPU_TYPE_ARM64 \<and> fst s = CPU_TYPE_ARM) sub_key) ss
      (if ct = CPU_TYPE_ARM64
       then map_option fst (highest_subtype (\<lambda>s. fst s = CPU_TYPE_ARM) 0 ss None) else None)"
    using highest_subtype_is_best [of "\<lambda>s. fst s = CPU_TYPE_ARM" ss]
    by (simp add: is_best_None measure_rank_def)
next
  fix x k
  assume "measure_rank (\<lambda>s. fst s = ct \<and> \<not> word_sless cs (snd s)) sub_key x = Some k"
  then show "k < 2 ^ 32"
    using sub_key_bound [of x] by (simp add: measure_rank_def split: if_splits)
qed (rule highest_subtype_is_best)

lemma nx_last_best: "is_best (nx_last_rank ct cs) ss (nx_last ct cs ss)"
  using nx_arm_best [of ct cs ss] i386_lowest_best [of ss]
  by (simp add: nx_last_rank_def nx_last_def is_best_None)

lemma nx_findbest_best: "is_best (nx_rank ct cs) ss (nx_findbest_slices ct cs ss)"
  unfolding nx_rank_def nx_findbest_search
  by (rule is_best_then [OF is_best_tests nx_last_best tests_rank_bound])

text \<open>Which cpu types a slice may have to be picked for another one.\<close>

definition nx_serves :: "cpu_type \<Rightarrow> cpu_type \<Rightarrow> bool" where
  "nx_serves t ct \<longleftrightarrow> t = ct \<or> (ct = CPU_TYPE_ARM64 \<and> t = CPU_TYPE_ARM)
     \<or> (ct = CPU_TYPE_POWERPC \<and> t AND NOT CPU_SUBTYPE_MASK = CPU_TYPE_POWERPC)"

lemma list_ex_map_base_test: "list_ex (\<lambda>P. P s) (map (base_test ct) ks) \<Longrightarrow> fst s = ct"
  by (simp add: list_ex_base_test)

lemma nx_ppc_tests_serve:
  "list_ex (\<lambda>P. P s) (nx_ppc_tests cs) \<Longrightarrow> nx_serves (fst s) CPU_TYPE_POWERPC"
  by (auto simp: nx_ppc_tests_def nx_ppc_from_750_def nx_serves_def nx_750_test_def
      nx_603ev_test_def base_test_def Let_def split: if_splits)

lemma nx_tests_serve:
  assumes "list_ex (\<lambda>P. P s) (nx_tests ct cs)"
  shows "nx_serves (fst s) ct"
proof (cases "ct = CPU_TYPE_POWERPC")
  case True
  with assms nx_ppc_tests_serve [of s cs] show ?thesis
    by (auto simp: nx_tests_def same_arch_def nx_serves_def)
next
  case False
  with assms have "fst s = ct"
    unfolding nx_tests_def
    by (auto simp: same_arch_def list_ex_base_test split: if_splits)
  then show ?thesis by (simp add: nx_serves_def)
qed

lemma nx_last_serve: "nx_last_rank ct cs s \<noteq> None \<Longrightarrow> nx_serves (fst s) ct"
  by (auto simp: nx_last_rank_def measure_rank_def then_rank_def nx_serves_def split: if_splits)

lemma nx_rank_serve:
  assumes "nx_rank ct cs s \<noteq> None"
  shows "nx_serves (fst s) ct"
proof (cases "tests_rank (nx_tests ct cs) s")
  case None
  with assms show ?thesis by (intro nx_last_serve [of ct cs]) (simp add: nx_rank_def then_rank_def)
next
  case (Some k)
  then show ?thesis by (intro nx_tests_serve [of s ct cs] tests_rank_SomeD)
qed

interpretation libmacho: slice_chooser nx_findbest_slices nx_serves
proof
  fix ct cs ss i
  assume "first_index (same_arch ct cs) ss = Some i"
  then show "nx_findbest_slices ct cs ss = Some i" by (simp add: nx_findbest_slices_def)
next
  fix ct cs ss i
  assume "nx_findbest_slices ct cs ss = Some i"
  with nx_findbest_best [of ct cs ss] have "i < length ss" "nx_rank ct cs (ss ! i) \<noteq> None"
    by (auto dest: is_best_ranked)
  with nx_rank_serve [of ct cs "ss ! i"] show "i < length ss \<and> nx_serves (fst (ss ! i)) ct" by simp
qed

section \<open>Properties\<close>


lemma nx_orders_eq:
  "nx_i386_order = i386_order" "nx_x86_64_order = x86_64_order" "nx_m68k_order = m68k_order"
  "nx_ppc64_order = ppc64_order" "nx_all_order = all_order"
  by (simp_all add: fun_eq_iff nx_i386_order_def i386_order_def nx_x86_64_order_def
      x86_64_order_def nx_m68k_order_def m68k_order_def nx_ppc64_order_def ppc64_order_def
      nx_all_order_def all_order_def)

text \<open>
  Outside PowerPC, ARM and VEO the library and the tools select the same slice:
  \<open>internal_NXFindBestFatArch\<close> and \<open>internal_cpusubtype_findbestarch\<close> agree on every table.
\<close>

theorem nx_agrees_with_libstuff:
  assumes "ct \<in> {CPU_TYPE_I386, CPU_TYPE_X86_64, CPU_TYPE_MC680x0, CPU_TYPE_POWERPC64,
    CPU_TYPE_MC88000, CPU_TYPE_I860, CPU_TYPE_HPPA, CPU_TYPE_SPARC}"
  shows "internal_NXFindBestFatArch ct cs t = internal_cpusubtype_findbestarch ct cs t"
proof -
  have "nx_cputype_dependent ct cs (slices t) = find_cputype_dependent ct cs (slices t)"
    using assms unfolding nx_cputype_dependent_def find_cputype_dependent_def Let_def
      nx_orders_eq nx_i386_lowest_eq
    by (elim insertE emptyE) (simp_all only: refl if_True if_False simp_thms rel_simps, simp_all)
  then show ?thesis
    by (simp add: internal_NXFindBestFatArch_def internal_cpusubtype_findbestarch_def
        nx_findbest_slices_def findbestarch_slices_def)
qed

theorem nx_agrees_with_libstuff_witness:
  "internal_NXFindBestFatArch CPU_TYPE_I386 CPU_SUBTYPE_PENT (Fat32 [])
     = internal_cpusubtype_findbestarch CPU_TYPE_I386 CPU_SUBTYPE_PENT (Fat32 [])"
  by (rule nx_agrees_with_libstuff) simp

lemma no_750_in_mask: "x AND CPU_SUBTYPE_MASK \<noteq> CPU_SUBTYPE_POWERPC_750"
proof
  assume "x AND CPU_SUBTYPE_MASK = CPU_SUBTYPE_POWERPC_750"
  then have "bit (x AND CPU_SUBTYPE_MASK) 0" by simp
  then show False by (simp add: bit_and_iff)
qed

text \<open>
  A PowerPC 750 slice is never picked by \<open>internal_NXFindBestFatArch\<close> for another
  PowerPC subtype: a table that holds nothing else gives -1, although
  \<open>internal_cpusubtype_findbestarch\<close> picks it for every later subtype. The scan for the 750 masks
  the subtype with \<open>CPU_SUBTYPE_MASK\<close> where the other scans mask with its complement.
\<close>

theorem nx_750_never_found:
  assumes "\<forall>s \<in> set (slices t). fst s = CPU_TYPE_POWERPC
      \<and> subtype_base (snd s) = CPU_SUBTYPE_POWERPC_750"
    and "slices t \<noteq> []"
    and "subtype_base cs \<in> {CPU_SUBTYPE_POWERPC_970, CPU_SUBTYPE_POWERPC_7450, CPU_SUBTYPE_POWERPC_7400}"
  shows "internal_NXFindBestFatArch CPU_TYPE_POWERPC cs t = None
    \<and> internal_cpusubtype_findbestarch CPU_TYPE_POWERPC cs t = Some 0"
proof
  have "\<not> list_ex (\<lambda>P. P s) (nx_tests CPU_TYPE_POWERPC cs)" if "s \<in> set (slices t)" for s
    using assms(1,3) that no_750_in_mask [of "snd s"]
    by (auto simp: nx_tests_def nx_ppc_tests_def nx_ppc_from_750_def same_arch_def
        nx_750_test_def nx_603ev_test_def base_test_def Let_def)
  then have "nx_rank CPU_TYPE_POWERPC cs s = None" if "s \<in> set (slices t)" for s
    using that tests_rank_SomeD [of "nx_tests CPU_TYPE_POWERPC cs" s]
    by (cases "tests_rank (nx_tests CPU_TYPE_POWERPC cs) s")
      (auto simp: nx_rank_def then_rank_def nx_last_rank_def)
  then show "internal_NXFindBestFatArch CPU_TYPE_POWERPC cs t = None"
    unfolding internal_NXFindBestFatArch_def
    by (intro is_best_unique [OF nx_findbest_best]) (simp add: is_best_None)
next
  from assms(2) obtain s ss where ss: "slices t = s # ss" by (cases "slices t") auto
  with assms(1) have s: "fst s = CPU_TYPE_POWERPC" "subtype_base (snd s) = CPU_SUBTYPE_POWERPC_750"
    and rest: "\<And>x. x \<in> set ss \<Longrightarrow> subtype_base (snd x) = CPU_SUBTYPE_POWERPC_750" by auto
  have none: "first_index (base_test CPU_TYPE_POWERPC k) (s # ss) = None"
    if "k \<noteq> CPU_SUBTYPE_POWERPC_750" for k
    using that s rest by (auto simp: base_test_def)
  have exact: "first_index (same_arch CPU_TYPE_POWERPC cs) (s # ss) = None"
    using assms(3) s rest by (auto simp: same_arch_def)
  have found: "first_index (base_test CPU_TYPE_POWERPC CPU_SUBTYPE_POWERPC_750) (s # ss) = Some 0"
    using s by (simp add: first_index_Cons base_test_def)
  from assms(3) show "internal_cpusubtype_findbestarch CPU_TYPE_POWERPC cs t = Some 0"
    by (elim insertE emptyE)
      (simp_all add: internal_cpusubtype_findbestarch_def findbestarch_slices_def ss exact
        find_cputype_dependent_def ppc_order_def find_base_def none found del: first_index_None)
qed

theorem nx_750_never_found_witness:
  "internal_NXFindBestFatArch CPU_TYPE_POWERPC CPU_SUBTYPE_POWERPC_7400
     (Fat32 [\<lparr>fa_cputype = 18, fa_cpusubtype = 9, fa_offset = 0, fa_size = 0, fa_align = 0\<rparr>]) = None
   \<and> internal_cpusubtype_findbestarch CPU_TYPE_POWERPC CPU_SUBTYPE_POWERPC_7400
     (Fat32 [\<lparr>fa_cputype = 18, fa_cpusubtype = 9, fa_offset = 0, fa_size = 0, fa_align = 0\<rparr>]) = Some 0"
  by (rule nx_750_never_found) simp_all

text \<open>
  The selection for PowerPC can return a slice of another cpu type: the scan for
  the 603ev masks the cpu type of the slice, so a 64-bit PowerPC slice passes it.
\<close>

theorem nx_603ev_wrong_type:
  "internal_NXFindBestFatArch CPU_TYPE_POWERPC CPU_SUBTYPE_POWERPC_970
     (Fat32 [\<lparr>fa_cputype = CPU_TYPE_POWERPC64, fa_cpusubtype = CPU_SUBTYPE_POWERPC_603ev,
        fa_offset = 0, fa_size = 0, fa_align = 0\<rparr>]) = Some 0
   \<and> internal_cpusubtype_findbestarch CPU_TYPE_POWERPC CPU_SUBTYPE_POWERPC_970
     (Fat32 [\<lparr>fa_cputype = CPU_TYPE_POWERPC64, fa_cpusubtype = CPU_SUBTYPE_POWERPC_603ev,
        fa_offset = 0, fa_size = 0, fa_align = 0\<rparr>]) = None"
  by (simp add: internal_NXFindBestFatArch_def nx_findbest_slices_def nx_cputype_dependent_def
      nx_ppc_tests_def nx_ppc_from_750_def nx_750_test_def nx_603ev_test_def base_test_def
      same_arch_def first_index_Cons internal_cpusubtype_findbestarch_def findbestarch_slices_def
      find_cputype_dependent_def ppc_order_def find_base_def Let_def)

text \<open>
  Whatever \<open>internal_NXFindBestFatArch\<close> returns is inside the table, and of the cpu
  type asked for, except that PowerPC may get a type that differs in the high bits and ARM64
  may get ARM.
\<close>

theorem nx_findbest_type:
  assumes "internal_NXFindBestFatArch ct cs t = Some i"
  shows "i < length (slices t) \<and> nx_serves (fst (slices t ! i)) ct"
  using assms unfolding internal_NXFindBestFatArch_def by (rule libmacho.picked_type)

theorem nx_findbest_type_witness:
  "0 < length (slices (Fat32 [\<lparr>fa_cputype = CPU_TYPE_POWERPC64, fa_cpusubtype = 5,
        fa_offset = 0, fa_size = 0, fa_align = 0\<rparr>]))
   \<and> nx_serves (fst (slices (Fat32 [\<lparr>fa_cputype = CPU_TYPE_POWERPC64, fa_cpusubtype = 5,
        fa_offset = 0, fa_size = 0, fa_align = 0\<rparr>]) ! 0)) CPU_TYPE_POWERPC"
  by (rule nx_findbest_type [of _ CPU_SUBTYPE_POWERPC_970])
    (simp add: internal_NXFindBestFatArch_def nx_findbest_slices_def nx_cputype_dependent_def
      nx_ppc_tests_def nx_ppc_from_750_def nx_750_test_def nx_603ev_test_def base_test_def
      same_arch_def first_index_Cons Let_def)

text \<open>
  For ARM without an exact match, \<open>internal_NXFindBestFatArch\<close> returns the highest of
  the ARM slices whose subtype is not above the one asked for, and fails only when every ARM
  slice is above it.
\<close>

theorem nx_arm_highest_below:
  assumes "first_index (same_arch CPU_TYPE_ARM cs) (slices t) = None"
  shows "case internal_NXFindBestFatArch CPU_TYPE_ARM cs t of
      Some i \<Rightarrow> fst (slices t ! i) = CPU_TYPE_ARM \<and> sint (snd (slices t ! i)) \<le> sint cs
        \<and> (\<forall>s \<in> set (slices t). fst s = CPU_TYPE_ARM \<and> sint (snd s) \<le> sint cs
             \<longrightarrow> sint (snd s) \<le> sint (snd (slices t ! i)))
    | None \<Rightarrow> \<forall>s \<in> set (slices t). fst s = CPU_TYPE_ARM \<longrightarrow> sint cs < sint (snd s)"
proof -
  let ?P = "\<lambda>s. fst s = CPU_TYPE_ARM \<and> \<not> word_sless cs (snd s)"
  have "internal_NXFindBestFatArch CPU_TYPE_ARM cs t
      = map_option fst (highest_subtype ?P 0 (slices t) None)"
    using assms by (simp add: internal_NXFindBestFatArch_def nx_findbest_slices_def
        nx_cputype_dependent_def nx_arm_or_else del: first_index_None)
  then have best: "is_best (measure_rank ?P sub_key) (slices t) (internal_NXFindBestFatArch CPU_TYPE_ARM cs t)"
    using highest_subtype_is_best [of ?P "slices t"] by simp
  have less: "word_sless x y \<longleftrightarrow> sint x < sint y" for x y :: u32 by (rule word_sless_alt)
  show ?thesis
  proof (cases "internal_NXFindBestFatArch CPU_TYPE_ARM cs t")
    case None
    with best show ?thesis by (auto simp: is_best_None measure_rank_def less split: if_splits)
  next
    case (Some i)
    with best have i: "?P (slices t ! i)" and le: "\<And>j. j < length (slices t) \<Longrightarrow> ?P (slices t ! j)
        \<Longrightarrow> \<not> sub_key (slices t ! j) < sub_key (slices t ! i)"
      by (auto simp: is_best_Some measure_rank_def split: if_splits)
    have "sint (snd s) \<le> sint (snd (slices t ! i))"
      if "s \<in> set (slices t)" "fst s = CPU_TYPE_ARM" "sint (snd s) \<le> sint cs" for s
      using that le by (auto simp: in_set_conv_nth sub_key_less less not_less)
    with i Some show ?thesis by (auto simp: less not_less)
  qed
qed

theorem nx_arm_highest_below_witness:
  "case internal_NXFindBestFatArch CPU_TYPE_ARM CPU_SUBTYPE_ARM_V7S
      (Fat32 [\<lparr>fa_cputype = 12, fa_cpusubtype = 6, fa_offset = 0, fa_size = 0, fa_align = 0\<rparr>]) of
      Some i \<Rightarrow> fst (slices (Fat32 [\<lparr>fa_cputype = 12, fa_cpusubtype = 6, fa_offset = 0, fa_size = 0,
          fa_align = 0\<rparr>]) ! i) = CPU_TYPE_ARM
    | None \<Rightarrow> True"
  using nx_arm_highest_below [of CPU_SUBTYPE_ARM_V7S
      "Fat32 [\<lparr>fa_cputype = 12, fa_cpusubtype = 6, fa_offset = 0, fa_size = 0, fa_align = 0\<rparr>]"]
  by (auto simp: same_arch_def split: option.splits)

lemma nx_combine_eq:
  "nx_combine_m68k = combine_m68k" "nx_combine_ppc = combine_ppc" "nx_combine_m88k = combine_m88k"
  "nx_combine_i860 = combine_i860" "nx_combine_hppa = combine_hppa" "nx_combine_arm = combine_arm"
  unfolding combine_defs nx_combine_m68k_def nx_combine_ppc_def nx_combine_m88k_def
    nx_combine_i860_def nx_combine_hppa_def nx_combine_arm_def by (rule refl)+

text \<open>
  \<open>NXCombineCpuSubtypes\<close> of the library and \<open>cpusubtype_combine\<close> of the tools give
  the same subtype for every cpu type but 64-bit PowerPC and VEO, which the library's version
  does not know: there it can only combine subtypes that are equal.
\<close>

theorem nx_combine_agrees:
  "NXCombineCpuSubtypes ct s1 s2 =
     (if ct \<in> {CPU_TYPE_POWERPC64, CPU_TYPE_VEO}
      then (if subtype_base s1 = subtype_base s2 then s1 else - 1)
      else cpusubtype_combine ct s1 s2)"
  unfolding NXCombineCpuSubtypes_def cpusubtype_combine_def nx_combine_eq by simp

end
