(* ===== verification/Byte_Order.thy ===== *)
theory Byte_Order
  imports Prelude
begin

text \<open>
  Bytes in memory and the swapping primitives of \<open>include/stuff/bytesex.h\<close> and
  \<open>libstuff/bytesex.c\<close>. A structure is described by its layout: the list of its fields, each with
  its width. The memory image of a structure in a byte sex is the bytes of its fields in order.
  The locale \<open>byte_swapper\<close> is the contract of a swapping routine: the swapped structure has, in
  the other byte sex, the image the structure had.
\<close>

datatype byte_sex = UNKNOWN_BYTE_SEX | BIG_ENDIAN_BYTE_SEX | LITTLE_ENDIAN_BYTE_SEX

section \<open>Words as bytes\<close>

definition le_bytes :: "nat \<Rightarrow> 'a::len word \<Rightarrow> u8 list" where
  "le_bytes n w = map (\<lambda>i. ucast (drop_bit (8 * i) w)) [0..<n]"

text \<open>The characters before the first null of a 16-character array.\<close>

definition name16 :: "128 word \<Rightarrow> string" where
  "name16 w = map (\<lambda>b. char_of (unat b)) (takeWhile (\<lambda>b. b \<noteq> 0) (le_bytes 16 w))"

primrec of_le_bytes :: "u8 list \<Rightarrow> 'a::len word" where
  "of_le_bytes [] = 0"
| "of_le_bytes (b # bs) = ucast b OR push_bit 8 (of_le_bytes bs)"

lemma length_le_bytes [simp]: "length (le_bytes n w) = n"
  by (simp add: le_bytes_def)

lemma le_bytes_0 [codec_simps]: "le_bytes 0 w = []"
  by (simp add: le_bytes_def)

lemma le_bytes_Suc [codec_simps]: "le_bytes (Suc n) w = ucast w # le_bytes n (drop_bit 8 w)"
  by (simp add: le_bytes_def upt_conv_Cons map_Suc_upt [symmetric] o_def add.commute del: upt_Suc)

lemma bit_of_le_bytes:
  "bit (of_le_bytes bs :: 'a::len word) k \<longleftrightarrow>
     k < LENGTH('a) \<and> k div 8 < length bs \<and> bit (bs ! (k div 8)) (k mod 8)"
proof (induction bs arbitrary: k)
  case Nil
  then show ?case by simp
next
  case (Cons b bs)
  show ?case
  proof (cases "k < 8")
    case True
    then show ?thesis by (auto simp: bit_or_iff bit_push_bit_iff bit_ucast_iff)
  next
    case False
    then have "k div 8 = Suc ((k - 8) div 8)" "k mod 8 = (k - 8) mod 8"
      by (simp_all add: div_if mod_if)
    moreover have "\<not> bit b k" using False bit_imp_le_length [of b k] by auto
    ultimately show ?thesis
      using False by (auto simp: bit_or_iff bit_push_bit_iff bit_ucast_iff Cons.IH)
  qed
qed

lemma nth_le_bytes: "i < n \<Longrightarrow> le_bytes n w ! i = ucast (drop_bit (8 * i) w)"
  by (simp add: le_bytes_def)

lemma of_le_bytes_le_bytes:
  "LENGTH('a) = 8 * n \<Longrightarrow> of_le_bytes (le_bytes n w) = (w :: 'a::len word)"
proof (rule bit_word_eqI)
  fix k
  assume len: "LENGTH('a) = 8 * n" and k: "k < LENGTH('a)"
  then have "k div 8 < n" by simp
  then show "bit (of_le_bytes (le_bytes n w) :: 'a word) k = bit w k"
    using k by (simp add: bit_of_le_bytes nth_le_bytes bit_ucast_iff bit_drop_bit_eq)
qed

lemma le_bytes_of_le_bytes:
  "8 * length bs \<le> LENGTH('a) \<Longrightarrow> le_bytes (length bs) (of_le_bytes bs :: 'a::len word) = bs"
proof (rule nth_equalityI)
  fix i
  assume len: "8 * length bs \<le> LENGTH('a)" and "i < length (le_bytes (length bs) (of_le_bytes bs :: 'a word))"
  then have i: "i < length bs" by simp
  show "le_bytes (length bs) (of_le_bytes bs :: 'a word) ! i = bs ! i"
  proof (rule bit_word_eqI)
    fix k assume "k < LENGTH(8)"
    then have k: "k < 8" by simp
    then have "(8 * i + k) div 8 = i" "(8 * i + k) mod 8 = k" "8 * i + k < LENGTH('a)"
      using i len by auto
    then show "bit (le_bytes (length bs) (of_le_bytes bs :: 'a word) ! i) k = bit (bs ! i) k"
      using i k by (simp add: nth_le_bytes bit_ucast_iff bit_drop_bit_eq bit_of_le_bytes)
  qed
qed simp

lemma le_bytes_inj:
  "LENGTH('a) = 8 * n \<Longrightarrow> le_bytes n v = le_bytes n w \<Longrightarrow> v = (w :: 'a::len word)"
  by (metis of_le_bytes_le_bytes)

section \<open>The swapping primitives\<close>

definition SWAP_SHORT :: "u16 \<Rightarrow> u16" where
  "SWAP_SHORT a = push_bit 8 (a AND 0xff) OR drop_bit 8 a"

definition SWAP_INT :: "u32 \<Rightarrow> u32" where
  "SWAP_INT a = push_bit 24 a OR (push_bit 8 a AND 0x00ff0000) OR (drop_bit 8 a AND 0x0000ff00)
     OR drop_bit 24 a"

definition SWAP_LONG_LONG :: "u64 \<Rightarrow> u64" where
  "SWAP_LONG_LONG ll = of_le_bytes (rev (le_bytes 8 ll))"

lemma le_bytes_SWAP_LONG_LONG: "le_bytes 8 (SWAP_LONG_LONG w) = rev (le_bytes 8 w)"
  using le_bytes_of_le_bytes [of "rev (le_bytes 8 w)", where 'a = 64] by (simp add: SWAP_LONG_LONG_def)

text \<open>The masks of the macros, and the bytes of what they compute.\<close>

lemma byte_masks:
  "(0xff :: u16) = mask 8" "(0x00ff0000 :: u32) = push_bit 16 (mask 8)"
  "(0x0000ff00 :: u32) = push_bit 8 (mask 8)"
  by (simp_all add: mask_eq_exp_minus_1)

lemma le_bytes_SWAP_SHORT: "le_bytes 2 (SWAP_SHORT w) = rev (le_bytes 2 w)"
proof -
  have "ucast (SWAP_SHORT w) = (ucast (drop_bit 8 w) :: u8)"
    "ucast (drop_bit 8 (SWAP_SHORT w)) = (ucast w :: u8)"
    by (rule bit_word_eqI; auto simp: SWAP_SHORT_def byte_masks bit_simps)+
  then show ?thesis by (simp add: codec_simps numeral_2_eq_2)
qed

lemma le_bytes_SWAP_INT: "le_bytes 4 (SWAP_INT w) = rev (le_bytes 4 w)"
proof -
  have "ucast (SWAP_INT w) = (ucast (drop_bit 24 w) :: u8)"
    "ucast (drop_bit 8 (SWAP_INT w)) = (ucast (drop_bit 16 w) :: u8)"
    "ucast (drop_bit 16 (SWAP_INT w)) = (ucast (drop_bit 8 w) :: u8)"
    "ucast (drop_bit 24 (SWAP_INT w)) = (ucast w :: u8)"
    by (rule bit_word_eqI; auto simp: SWAP_INT_def byte_masks bit_simps)+
  then show ?thesis by (simp add: codec_simps eval_nat_numeral)
qed

lemma SWAP_SWAP [simp]:
  "SWAP_SHORT (SWAP_SHORT a) = a" "SWAP_INT (SWAP_INT b) = b"
  "SWAP_LONG_LONG (SWAP_LONG_LONG c) = c"
  by (rule le_bytes_inj [of 2] le_bytes_inj [of 4] le_bytes_inj [of 8];
      simp add: le_bytes_SWAP_SHORT le_bytes_SWAP_INT le_bytes_SWAP_LONG_LONG)+

section \<open>Layouts\<close>

text \<open>
  The fields of a structure: integers of one, two, four and eight bytes, and arrays of sixteen
  characters, which are one 128-bit word with the first character lowest.
\<close>

type_synonym char16 = "128 word"

datatype field = F8 u8 | F16 u16 | F32 u32 | F64 u64 | Chars char16

fun enc_field :: "byte_sex \<Rightarrow> field \<Rightarrow> u8 list" where
  "enc_field s (F8 w) = [w]"
| "enc_field s (F16 w) = (if s = BIG_ENDIAN_BYTE_SEX then rev (le_bytes 2 w) else le_bytes 2 w)"
| "enc_field s (F32 w) = (if s = BIG_ENDIAN_BYTE_SEX then rev (le_bytes 4 w) else le_bytes 4 w)"
| "enc_field s (F64 w) = (if s = BIG_ENDIAN_BYTE_SEX then rev (le_bytes 8 w) else le_bytes 8 w)"
| "enc_field s (Chars w) = le_bytes 16 w"

fun swap_field :: "field \<Rightarrow> field" where
  "swap_field (F8 w) = F8 w"
| "swap_field (F16 w) = F16 (SWAP_SHORT w)"
| "swap_field (F32 w) = F32 (SWAP_INT w)"
| "swap_field (F64 w) = F64 (SWAP_LONG_LONG w)"
| "swap_field (Chars w) = Chars w"

text \<open>The size in bytes and the kind of a field; fields of one kind have one size.\<close>

fun field_size :: "field \<Rightarrow> nat" where
  "field_size (F8 w) = 1"
| "field_size (F16 w) = 2"
| "field_size (F32 w) = 4"
| "field_size (F64 w) = 8"
| "field_size (Chars w) = 16"

definition other_sex :: "byte_sex \<Rightarrow> byte_sex" where
  "other_sex s = (if s = BIG_ENDIAN_BYTE_SEX then LITTLE_ENDIAN_BYTE_SEX else BIG_ENDIAN_BYTE_SEX)"

definition image :: "byte_sex \<Rightarrow> field list \<Rightarrow> u8 list" where
  "image s fs = concat (map (enc_field s) fs)"

lemma swap_field_swap [simp]: "swap_field (swap_field f) = f"
  by (cases f) simp_all

lemma field_size_swap [simp]: "field_size (swap_field f) = field_size f"
  by (cases f) simp_all

lemma length_enc_field [simp]: "length (enc_field s f) = field_size f"
  by (cases f) simp_all

lemma enc_field_swap: "enc_field (other_sex s) (swap_field f) = enc_field s f"
  by (cases f) (simp_all add: other_sex_def le_bytes_SWAP_SHORT le_bytes_SWAP_INT
      le_bytes_SWAP_LONG_LONG)

lemma enc_field_inj:
  assumes "enc_field s f = enc_field s g" and "field_size f = field_size g"
  shows "f = g"
  using assms by (cases f; cases g) (auto split: if_splits intro: le_bytes_inj [of 2]
      le_bytes_inj [of 4] le_bytes_inj [of 8] le_bytes_inj [of 16])

lemma image_swap: "image (other_sex s) (map swap_field fs) = image s fs"
  by (simp add: image_def o_def enc_field_swap)

lemma image_inj:
  "image s fs = image s gs \<Longrightarrow> map field_size fs = map field_size gs \<Longrightarrow> fs = gs"
proof (induction fs arbitrary: gs)
  case (Cons f fs)
  from Cons.prems(2) obtain g gs' where gs: "gs = g # gs'" "field_size f = field_size g"
    "map field_size fs = map field_size gs'" by auto
  with Cons.prems(1) have "enc_field s f = enc_field s g" "image s fs = image s gs'"
    by (simp_all add: image_def)
  with gs Cons.IH [of gs'] enc_field_inj [of s f g] show ?case by simp
qed simp

lemma length_image: "length (image s fs) = sum_list (map field_size fs)"
  by (simp add: image_def length_concat o_def)

section \<open>Swapping an array\<close>

text \<open>The loop over the first \<open>n\<close> elements of an array.\<close>

definition swap_array :: "('a \<Rightarrow> 'a) \<Rightarrow> 'a list \<Rightarrow> nat \<Rightarrow> 'a list" where
  "swap_array f xs n = map f (take n xs) @ drop n xs"

lemma swap_array_all: "n = length xs \<Longrightarrow> swap_array f xs n = map f xs"
  by (simp add: swap_array_def)

lemma length_swap_array [simp]: "length (swap_array f xs n) = length xs"
  by (simp add: swap_array_def)

section \<open>The contract of a swapping routine\<close>

locale byte_swapper =
  fixes layout :: "'a \<Rightarrow> field list" and swap :: "'a \<Rightarrow> 'a" and sizes :: "nat list"
  assumes layout_swap: "layout (swap x) = map swap_field (layout x)"
    and layout_inj: "layout x = layout y \<Longrightarrow> x = y"
    and layout_sizes: "map field_size (layout x) = sizes"
begin

lemma image_swapped: "image (other_sex s) (layout (swap x)) = image s (layout x)"
  by (simp add: layout_swap image_swap)

lemma swap_swap: "swap (swap x) = x"
  by (rule layout_inj) (simp add: layout_swap o_def)

lemma image_layout_inj: "image s (layout x) = image s (layout y) \<Longrightarrow> x = y"
  by (intro layout_inj image_inj) (simp_all add: layout_sizes)

text \<open>
  What was read in the wrong byte sex and then swapped is what the right byte sex reads.
\<close>

lemma swap_reads:
  assumes "image (other_sex s) (layout y) = image s (layout x)"
  shows "swap y = x"
proof -
  have "image (other_sex s) (layout (swap x)) = image (other_sex s) (layout y)"
    using assms by (simp add: image_swapped)
  then have "swap x = y" by (rule image_layout_inj)
  then show ?thesis using swap_swap by auto
qed

lemma layout_length: "length (image s (layout x)) = sum_list sizes"
  by (simp add: length_image layout_sizes)

lemma array_swapped:
  "concat (map (\<lambda>x. image (other_sex s) (layout x)) (swap_array swap xs (length xs)))
    = concat (map (\<lambda>x. image s (layout x)) xs)"
  by (simp add: swap_array_all o_def image_swapped)

lemma array_swap_swap: "swap_array swap (swap_array swap xs n) n = xs"
  by (simp add: swap_array_def o_def swap_swap min_def)

end

end
