(* ===== verification/Arch_Flags.thy ===== *)
theory Arch_Flags
  imports Arch_Info Byte_Order
begin

text \<open>
  \<open>libstuff/arch.c\<close> and \<open>libstuff/set_arch_flag_name.c\<close>: the table of architecture flags of the
  tools, its lookups, and the properties of an architecture that the tools take from its cpu
  type. A null name is \<open>None\<close>; the entry with a null name that ends the C table is the end of
  the list. \<open>sprintf\<close> into a buffer that \<open>savestr\<close> has allocated is the string it prints; that it
  fits the buffer is a property. This is the build without \<open>RLD\<close>.
\<close>

record arch_flag =
  af_name :: "string option"
  af_cputype :: cpu_type
  af_cpusubtype :: cpu_subtype

abbreviation (input) known_flag :: "string \<Rightarrow> cpu_type \<Rightarrow> cpu_subtype \<Rightarrow> arch_flag" where
  "known_flag n ct cs \<equiv> \<lparr>af_name = Some n, af_cputype = ct, af_cpusubtype = cs\<rparr>"

definition arch_flags :: "arch_flag list" where
  "arch_flags =
    [known_flag ''any'' CPU_TYPE_ANY CPU_SUBTYPE_MULTIPLE,
     known_flag ''little'' CPU_TYPE_ANY CPU_SUBTYPE_LITTLE_ENDIAN,
     known_flag ''big'' CPU_TYPE_ANY CPU_SUBTYPE_BIG_ENDIAN,
     known_flag ''ppc64'' CPU_TYPE_POWERPC64 CPU_SUBTYPE_POWERPC_ALL,
     known_flag ''x86_64'' CPU_TYPE_X86_64 CPU_SUBTYPE_X86_64_ALL,
     known_flag ''x86_64h'' CPU_TYPE_X86_64 CPU_SUBTYPE_X86_64_H,
     known_flag ''arm64'' CPU_TYPE_ARM64 CPU_SUBTYPE_ARM64_ALL,
     known_flag ''ppc970-64'' CPU_TYPE_POWERPC64 CPU_SUBTYPE_POWERPC_970,
     known_flag ''ppc'' CPU_TYPE_POWERPC CPU_SUBTYPE_POWERPC_ALL,
     known_flag ''i386'' CPU_TYPE_I386 CPU_SUBTYPE_I386_ALL,
     known_flag ''m68k'' CPU_TYPE_MC680x0 CPU_SUBTYPE_MC680x0_ALL,
     known_flag ''hppa'' CPU_TYPE_HPPA CPU_SUBTYPE_HPPA_ALL,
     known_flag ''sparc'' CPU_TYPE_SPARC CPU_SUBTYPE_SPARC_ALL,
     known_flag ''m88k'' CPU_TYPE_MC88000 CPU_SUBTYPE_MC88000_ALL,
     known_flag ''i860'' CPU_TYPE_I860 CPU_SUBTYPE_I860_ALL,
     known_flag ''veo'' CPU_TYPE_VEO CPU_SUBTYPE_VEO_ALL,
     known_flag ''arm'' CPU_TYPE_ARM CPU_SUBTYPE_ARM_ALL,
     known_flag ''ppc601'' CPU_TYPE_POWERPC CPU_SUBTYPE_POWERPC_601,
     known_flag ''ppc603'' CPU_TYPE_POWERPC CPU_SUBTYPE_POWERPC_603,
     known_flag ''ppc603e'' CPU_TYPE_POWERPC CPU_SUBTYPE_POWERPC_603e,
     known_flag ''ppc603ev'' CPU_TYPE_POWERPC CPU_SUBTYPE_POWERPC_603ev,
     known_flag ''ppc604'' CPU_TYPE_POWERPC CPU_SUBTYPE_POWERPC_604,
     known_flag ''ppc604e'' CPU_TYPE_POWERPC CPU_SUBTYPE_POWERPC_604e,
     known_flag ''ppc750'' CPU_TYPE_POWERPC CPU_SUBTYPE_POWERPC_750,
     known_flag ''ppc7400'' CPU_TYPE_POWERPC CPU_SUBTYPE_POWERPC_7400,
     known_flag ''ppc7450'' CPU_TYPE_POWERPC CPU_SUBTYPE_POWERPC_7450,
     known_flag ''ppc970'' CPU_TYPE_POWERPC CPU_SUBTYPE_POWERPC_970,
     known_flag ''i486'' CPU_TYPE_I386 CPU_SUBTYPE_486,
     known_flag ''i486SX'' CPU_TYPE_I386 CPU_SUBTYPE_486SX,
     known_flag ''pentium'' CPU_TYPE_I386 CPU_SUBTYPE_PENT,
     known_flag ''i586'' CPU_TYPE_I386 CPU_SUBTYPE_586,
     known_flag ''pentpro'' CPU_TYPE_I386 CPU_SUBTYPE_PENTPRO,
     known_flag ''i686'' CPU_TYPE_I386 CPU_SUBTYPE_PENTPRO,
     known_flag ''pentIIm3'' CPU_TYPE_I386 CPU_SUBTYPE_PENTII_M3,
     known_flag ''pentIIm5'' CPU_TYPE_I386 CPU_SUBTYPE_PENTII_M5,
     known_flag ''pentium4'' CPU_TYPE_I386 CPU_SUBTYPE_PENTIUM_4,
     known_flag ''m68030'' CPU_TYPE_MC680x0 CPU_SUBTYPE_MC68030_ONLY,
     known_flag ''m68040'' CPU_TYPE_MC680x0 CPU_SUBTYPE_MC68040,
     known_flag ''hppa7100LC'' CPU_TYPE_HPPA CPU_SUBTYPE_HPPA_7100LC,
     known_flag ''veo1'' CPU_TYPE_VEO CPU_SUBTYPE_VEO_1,
     known_flag ''veo2'' CPU_TYPE_VEO CPU_SUBTYPE_VEO_2,
     known_flag ''veo3'' CPU_TYPE_VEO CPU_SUBTYPE_VEO_3,
     known_flag ''veo4'' CPU_TYPE_VEO CPU_SUBTYPE_VEO_4,
     known_flag ''armv4t'' CPU_TYPE_ARM CPU_SUBTYPE_ARM_V4T,
     known_flag ''armv5'' CPU_TYPE_ARM CPU_SUBTYPE_ARM_V5TEJ,
     known_flag ''xscale'' CPU_TYPE_ARM CPU_SUBTYPE_ARM_XSCALE,
     known_flag ''armv6'' CPU_TYPE_ARM CPU_SUBTYPE_ARM_V6,
     known_flag ''armv6m'' CPU_TYPE_ARM CPU_SUBTYPE_ARM_V6M,
     known_flag ''armv7'' CPU_TYPE_ARM CPU_SUBTYPE_ARM_V7,
     known_flag ''armv7f'' CPU_TYPE_ARM CPU_SUBTYPE_ARM_V7F,
     known_flag ''armv7s'' CPU_TYPE_ARM CPU_SUBTYPE_ARM_V7S,
     known_flag ''armv7k'' CPU_TYPE_ARM CPU_SUBTYPE_ARM_V7K,
     known_flag ''armv7m'' CPU_TYPE_ARM CPU_SUBTYPE_ARM_V7M,
     known_flag ''armv7em'' CPU_TYPE_ARM CPU_SUBTYPE_ARM_V7EM,
     known_flag ''arm64v8'' CPU_TYPE_ARM64 CPU_SUBTYPE_ARM64_V8]"

text \<open>The result and what \<open>*arch_flag\<close> is set to.\<close>

definition get_arch_from_flag :: "string \<Rightarrow> nat \<times> arch_flag" where
  "get_arch_from_flag name =
     (case find (\<lambda>af. af_name af = Some name) arch_flags of
        Some af \<Rightarrow> (1, af)
      | None \<Rightarrow> (0, \<lparr>af_name = None, af_cputype = 0, af_cpusubtype = 0\<rparr>))"

definition get_arch_flags :: "arch_flag list" where
  "get_arch_flags = arch_flags"

definition unknown_name :: "cpu_type \<Rightarrow> cpu_subtype \<Rightarrow> string" where
  "unknown_name ct cs = ''cputype '' @ show_nat (unat ct) @ '' cpusubtype ''
     @ show_nat (unat (subtype_base cs))"

definition flag_match :: "cpu_type \<Rightarrow> cpu_subtype \<Rightarrow> arch_flag \<Rightarrow> bool" where
  "flag_match ct cs af \<longleftrightarrow>
     af_cputype af = ct \<and> subtype_base (af_cpusubtype af) = subtype_base cs"

definition get_arch_name_from_types :: "cpu_type \<Rightarrow> cpu_subtype \<Rightarrow> string" where
  "get_arch_name_from_types ct cs =
     (case find (flag_match ct cs) arch_flags of
        Some af \<Rightarrow> the (af_name af)
      | None \<Rightarrow> unknown_name ct cs)"

definition get_arch_family_from_cputype :: "cpu_type \<Rightarrow> arch_flag option" where
  "get_arch_family_from_cputype ct = find (\<lambda>af. af_cputype af = ct) arch_flags"

definition get_byte_sex_from_flag :: "arch_flag \<Rightarrow> byte_sex" where
  "get_byte_sex_from_flag flag =
     (if af_cputype flag \<in> {CPU_TYPE_MC680x0, CPU_TYPE_MC88000, CPU_TYPE_POWERPC,
        CPU_TYPE_POWERPC64, CPU_TYPE_HPPA, CPU_TYPE_SPARC, CPU_TYPE_I860, CPU_TYPE_VEO}
      then BIG_ENDIAN_BYTE_SEX
      else if af_cputype flag \<in> {CPU_TYPE_I386, CPU_TYPE_X86_64, CPU_TYPE_ARM64, CPU_TYPE_ARM}
      then LITTLE_ENDIAN_BYTE_SEX
      else UNKNOWN_BYTE_SEX)"

definition get_stack_direction_from_flag :: "arch_flag \<Rightarrow> int" where
  "get_stack_direction_from_flag flag =
     (if af_cputype flag \<in> {CPU_TYPE_MC680x0, CPU_TYPE_MC88000, CPU_TYPE_POWERPC, CPU_TYPE_I386,
        CPU_TYPE_SPARC, CPU_TYPE_I860, CPU_TYPE_VEO, CPU_TYPE_ARM} then - 1
      else if af_cputype flag = CPU_TYPE_HPPA then 1
      else 0)"

definition get_stack_addr_from_flag :: "arch_flag \<Rightarrow> u64" where
  "get_stack_addr_from_flag flag =
     (let ct = af_cputype flag in
      if ct = CPU_TYPE_MC680x0 then 0x04000000
      else if ct = CPU_TYPE_MC88000 then 0xffffe000
      else if ct = CPU_TYPE_POWERPC \<or> ct = CPU_TYPE_VEO \<or> ct = CPU_TYPE_I386 then 0xc0000000
      else if ct = CPU_TYPE_ARM then 0x30000000
      else if ct = CPU_TYPE_SPARC then 0xf0000000
      else if ct = CPU_TYPE_I860 then 0
      else if ct = CPU_TYPE_HPPA then 0xc0000000 - 0x04000000
      else if ct = CPU_TYPE_POWERPC64 then 0x7ffff00000000
      else if ct = CPU_TYPE_X86_64 then 0x7fff5fc00000
      else 0)"

definition get_stack_size_from_flag :: "arch_flag \<Rightarrow> u32" where
  "get_stack_size_from_flag flag = 64 * 1024 * 1024"

definition get_segalign_from_flag :: "arch_flag \<Rightarrow> u32" where
  "get_segalign_from_flag flag =
     (if af_cputype flag \<in> {CPU_TYPE_ARM, CPU_TYPE_ARM64} then 0x4000
      else if af_cputype flag \<in> {CPU_TYPE_POWERPC, CPU_TYPE_POWERPC64, CPU_TYPE_VEO, CPU_TYPE_I386,
        CPU_TYPE_X86_64} then 0x1000
      else 0x2000)"

abbreviation (input) "VM_PROT_READ \<equiv> (1 :: u32)"
abbreviation (input) "VM_PROT_WRITE \<equiv> (2 :: u32)"
abbreviation (input) "VM_PROT_EXECUTE \<equiv> (4 :: u32)"

definition get_segprot_from_flag :: "arch_flag \<Rightarrow> u32" where
  "get_segprot_from_flag flag =
     (if af_cputype flag = CPU_TYPE_I386 then VM_PROT_READ OR VM_PROT_WRITE
      else VM_PROT_READ OR VM_PROT_WRITE OR VM_PROT_EXECUTE)"

definition get_shared_region_size_from_flag :: "arch_flag \<Rightarrow> u32" where
  "get_shared_region_size_from_flag flag =
     (if af_cputype flag = CPU_TYPE_ARM then 0x08000000 else 0x10000000)"

definition force_cpusubtype_ALL_for_cputype :: "cpu_type \<Rightarrow> bool" where
  "force_cpusubtype_ALL_for_cputype ct \<longleftrightarrow> ct = CPU_TYPE_I386"

text \<open>\<open>%d\<close> of \<open>printf\<close>, and \<open>set_arch_flag_name\<close>.\<close>

definition show_int :: "int \<Rightarrow> string" where
  "show_int i = (if i < 0 then CHR ''-'' # show_nat (nat (- i)) else show_nat (nat i))"

definition unknown_signed_name :: "cpu_type \<Rightarrow> cpu_subtype \<Rightarrow> string" where
  "unknown_signed_name ct cs =
     ''cputype ('' @ show_int (sint ct) @ '') cpusubtype ('' @ show_int (sint cs) @ '')''"

definition set_arch_flag_name :: "arch_flag \<Rightarrow> arch_flag" where
  "set_arch_flag_name p =
     (let p' = (case find (flag_match (af_cputype p) (af_cpusubtype p)) arch_flags of
          Some af \<Rightarrow> p\<lparr>af_name := af_name af\<rparr> | None \<Rightarrow> p)
      in if af_name p' = None
         then p'\<lparr>af_name := Some (unknown_signed_name (af_cputype p') (af_cpusubtype p'))\<rparr>
         else p')"

section \<open>Properties\<close>

lemma arch_flags_named: "af \<in> set arch_flags \<Longrightarrow> af_name af \<noteq> None"
  by (auto simp: arch_flags_def)

text \<open>Every entry is what its name finds: the names are distinct.\<close>

lemma arch_flags_by_name:
  "list_all (\<lambda>af. get_arch_from_flag (the (af_name af)) = (1, af)) arch_flags"
  by code_simp

text \<open>
  Looking up the name that \<open>get_arch_name_from_types\<close> gives for known types finds
  an architecture with these types: the two lookups of the tools agree.
\<close>

theorem types_to_name_to_types:
  assumes "af \<in> set arch_flags" and "flag_match ct cs af"
  shows "\<exists>af'. get_arch_from_flag (get_arch_name_from_types ct cs) = (1, af') \<and> flag_match ct cs af'"
proof -
  from find_found [of af arch_flags "flag_match ct cs"] assms
  obtain af' where af': "find (flag_match ct cs) arch_flags = Some af'" by blast
  note found = find_SomeD [OF this]
  with arch_flags_by_name have "get_arch_from_flag (the (af_name af')) = (1, af')"
    by (simp add: list_all_iff)
  with af' found show ?thesis by (simp add: get_arch_name_from_types_def)
qed

theorem types_to_name_to_types_witness:
  "\<exists>af'. get_arch_from_flag (get_arch_name_from_types CPU_TYPE_I386 CPU_SUBTYPE_586) = (1, af')
    \<and> flag_match CPU_TYPE_I386 CPU_SUBTYPE_586 af'"
  by (rule types_to_name_to_types [of "known_flag ''i586'' CPU_TYPE_I386 CPU_SUBTYPE_586"])
    (simp_all add: arch_flags_def flag_match_def)

text \<open>
  The tables of the library and of the tools agree: an architecture name that both
  know stands for the same types in both, and a known cpu type has the same family name.
\<close>

theorem tables_agree:
  "list_all (\<lambda>af. case NXGetArchInfoFromName (the (af_name af)) of
      Some ai \<Rightarrow> ai_cputype ai = af_cputype af \<and> ai_cpusubtype ai = af_cpusubtype af
    | None \<Rightarrow> True) arch_flags
   \<and> list_all (\<lambda>af. map_option af_name (get_arch_family_from_cputype (af_cputype af))
       = map_option (\<lambda>ai. Some (ai_name ai))
           (NXGetArchInfoFromCpuType False (af_cputype af) CPU_SUBTYPE_MULTIPLE)) arch_flags"
  by (rule conjI; code_simp)

text \<open>
  The byte sex the tools assume for an architecture is the byte order its entry in
  the library's table has, for every entry of a real cpu type.
\<close>

theorem byte_sex_agrees:
  "list_all (\<lambda>ai. ai_cputype ai = CPU_TYPE_ANY
      \<or> get_byte_sex_from_flag (known_flag (ai_name ai) (ai_cputype ai) (ai_cpusubtype ai))
        = (case ai_byteorder ai of NX_BigEndian \<Rightarrow> BIG_ENDIAN_BYTE_SEX
           | NX_LittleEndian \<Rightarrow> LITTLE_ENDIAN_BYTE_SEX | NX_UnknownByteOrder \<Rightarrow> UNKNOWN_BYTE_SEX))
     ArchInfoTable"
  by code_simp

lemma unsigned_name_fits:
  "length (unknown_name ct cs) \<le> length ''cputype 1234567890 cpusubtype 1234567890''"
proof -
  have "length (show_nat (unat w)) \<le> 10" for w :: u32
    using show_nat_length [of "unat w" 9] unat_less_numeral [of w] by simp
  from add_mono [OF this [of ct] this [of "subtype_base cs"]] show ?thesis
    by (simp add: unknown_name_def)
qed

text \<open>
  The buffer of \<open>get_arch_name_from_types\<close> holds the name of every unknown
  architecture, but that of \<open>set_arch_flag_name\<close>, which prints the same values signed, is
  overrun by two characters for a cpu type and subtype with eleven characters each.
\<close>

theorem unknown_names_and_buffers:
  "length (unknown_name ct cs) \<le> length ''cputype 1234567890 cpusubtype 1234567890''
   \<and> length (the (af_name (set_arch_flag_name
        \<lparr>af_name = None, af_cputype = 0x80000000, af_cpusubtype = 0x80000000\<rparr>)))
     = length ''cputype (1234567890) cpusubtype (1234567890)'' + 2"
proof
  show "length (the (af_name (set_arch_flag_name
        \<lparr>af_name = None, af_cputype = 0x80000000, af_cpusubtype = 0x80000000\<rparr>)))
     = length ''cputype (1234567890) cpusubtype (1234567890)'' + 2"
    by (simp add: set_arch_flag_name_def flag_match_def arch_flags_def unknown_signed_name_def
        show_int_def show_nat.simps)
qed (rule unsigned_name_fits)

end
