(* ===== verification/Macho_Structs.thy ===== *)
theory Macho_Structs
  imports Fat Byte_Order
begin

text \<open>
  The structures of Mach-O files that the tools swap (\<open>include/mach-o/loader.h\<close>, \<open>nlist.h\<close>,
  \<open>ranlib.h\<close>, \<open>fat.h\<close> and \<open>include/xar/xar.h\<close>), with their layouts. A nested structure or union
  is flattened (\<open>dylib.name.offset\<close> is \<open>dl_dylib_name_offset\<close>); of the unions with a pointer
  only the integer member, which is what a file holds, is a field.
\<close>

definition layout_fat_header :: "fat_header \<Rightarrow> field list" where
  "layout_fat_header x =
    [F32 (fh_magic x), F32 (fh_nfat_arch x)]"

definition layout_fat_arch :: "fat_arch \<Rightarrow> field list" where
  "layout_fat_arch x =
    [F32 (fa_cputype x), F32 (fa_cpusubtype x), F32 (fa_offset x), F32 (fa_size x), F32
     (fa_align x)]"

definition layout_fat_arch_64 :: "fat_arch_64 \<Rightarrow> field list" where
  "layout_fat_arch_64 x =
    [F32 (fa64_cputype x), F32 (fa64_cpusubtype x), F64 (fa64_offset x), F64 (fa64_size x),
     F32 (fa64_align x), F32 (fa64_reserved x)]"

record mach_header =
  mh_magic :: u32
  mh_cputype :: cpu_type
  mh_cpusubtype :: cpu_subtype
  mh_filetype :: u32
  mh_ncmds :: u32
  mh_sizeofcmds :: u32
  mh_flags :: u32

definition layout_mach_header :: "mach_header \<Rightarrow> field list" where
  "layout_mach_header x =
    [F32 (mh_magic x), F32 (mh_cputype x), F32 (mh_cpusubtype x), F32 (mh_filetype x), F32
     (mh_ncmds x), F32 (mh_sizeofcmds x), F32 (mh_flags x)]"

record mach_header_64 =
  mh64_magic :: u32
  mh64_cputype :: cpu_type
  mh64_cpusubtype :: cpu_subtype
  mh64_filetype :: u32
  mh64_ncmds :: u32
  mh64_sizeofcmds :: u32
  mh64_flags :: u32
  mh64_reserved :: u32

definition layout_mach_header_64 :: "mach_header_64 \<Rightarrow> field list" where
  "layout_mach_header_64 x =
    [F32 (mh64_magic x), F32 (mh64_cputype x), F32 (mh64_cpusubtype x), F32 (mh64_filetype
     x), F32 (mh64_ncmds x), F32 (mh64_sizeofcmds x), F32 (mh64_flags x), F32 (mh64_reserved
     x)]"

record load_command =
  lc_cmd :: u32
  lc_cmdsize :: u32

definition layout_load_command :: "load_command \<Rightarrow> field list" where
  "layout_load_command x =
    [F32 (lc_cmd x), F32 (lc_cmdsize x)]"

record segment_command =
  sg_cmd :: u32
  sg_cmdsize :: u32
  sg_segname :: char16
  sg_vmaddr :: u32
  sg_vmsize :: u32
  sg_fileoff :: u32
  sg_filesize :: u32
  sg_maxprot :: u32
  sg_initprot :: u32
  sg_nsects :: u32
  sg_flags :: u32

definition layout_segment_command :: "segment_command \<Rightarrow> field list" where
  "layout_segment_command x =
    [F32 (sg_cmd x), F32 (sg_cmdsize x), Chars (sg_segname x), F32 (sg_vmaddr x), F32
     (sg_vmsize x), F32 (sg_fileoff x), F32 (sg_filesize x), F32 (sg_maxprot x), F32
     (sg_initprot x), F32 (sg_nsects x), F32 (sg_flags x)]"

record segment_command_64 =
  sg64_cmd :: u32
  sg64_cmdsize :: u32
  sg64_segname :: char16
  sg64_vmaddr :: u64
  sg64_vmsize :: u64
  sg64_fileoff :: u64
  sg64_filesize :: u64
  sg64_maxprot :: u32
  sg64_initprot :: u32
  sg64_nsects :: u32
  sg64_flags :: u32

definition layout_segment_command_64 :: "segment_command_64 \<Rightarrow> field list" where
  "layout_segment_command_64 x =
    [F32 (sg64_cmd x), F32 (sg64_cmdsize x), Chars (sg64_segname x), F64 (sg64_vmaddr x), F64
     (sg64_vmsize x), F64 (sg64_fileoff x), F64 (sg64_filesize x), F32 (sg64_maxprot x), F32
     (sg64_initprot x), F32 (sg64_nsects x), F32 (sg64_flags x)]"

record macho_section =
  s_sectname :: char16
  s_segname :: char16
  s_addr :: u32
  s_size :: u32
  s_offset :: u32
  s_align :: u32
  s_reloff :: u32
  s_nreloc :: u32
  s_flags :: u32
  s_reserved1 :: u32
  s_reserved2 :: u32

definition layout_section :: "macho_section \<Rightarrow> field list" where
  "layout_section x =
    [Chars (s_sectname x), Chars (s_segname x), F32 (s_addr x), F32 (s_size x), F32 (s_offset
     x), F32 (s_align x), F32 (s_reloff x), F32 (s_nreloc x), F32 (s_flags x), F32
     (s_reserved1 x), F32 (s_reserved2 x)]"

record macho_section_64 =
  s64_sectname :: char16
  s64_segname :: char16
  s64_addr :: u64
  s64_size :: u64
  s64_offset :: u32
  s64_align :: u32
  s64_reloff :: u32
  s64_nreloc :: u32
  s64_flags :: u32
  s64_reserved1 :: u32
  s64_reserved2 :: u32
  s64_reserved3 :: u32

definition layout_section_64 :: "macho_section_64 \<Rightarrow> field list" where
  "layout_section_64 x =
    [Chars (s64_sectname x), Chars (s64_segname x), F64 (s64_addr x), F64 (s64_size x), F32
     (s64_offset x), F32 (s64_align x), F32 (s64_reloff x), F32 (s64_nreloc x), F32
     (s64_flags x), F32 (s64_reserved1 x), F32 (s64_reserved2 x), F32 (s64_reserved3 x)]"

record symtab_command =
  st_cmd :: u32
  st_cmdsize :: u32
  st_symoff :: u32
  st_nsyms :: u32
  st_stroff :: u32
  st_strsize :: u32

definition layout_symtab_command :: "symtab_command \<Rightarrow> field list" where
  "layout_symtab_command x =
    [F32 (st_cmd x), F32 (st_cmdsize x), F32 (st_symoff x), F32 (st_nsyms x), F32 (st_stroff
     x), F32 (st_strsize x)]"

record dysymtab_command =
  dyst_cmd :: u32
  dyst_cmdsize :: u32
  dyst_ilocalsym :: u32
  dyst_nlocalsym :: u32
  dyst_iextdefsym :: u32
  dyst_nextdefsym :: u32
  dyst_iundefsym :: u32
  dyst_nundefsym :: u32
  dyst_tocoff :: u32
  dyst_ntoc :: u32
  dyst_modtaboff :: u32
  dyst_nmodtab :: u32
  dyst_extrefsymoff :: u32
  dyst_nextrefsyms :: u32
  dyst_indirectsymoff :: u32
  dyst_nindirectsyms :: u32
  dyst_extreloff :: u32
  dyst_nextrel :: u32
  dyst_locreloff :: u32
  dyst_nlocrel :: u32

definition layout_dysymtab_command :: "dysymtab_command \<Rightarrow> field list" where
  "layout_dysymtab_command x =
    [F32 (dyst_cmd x), F32 (dyst_cmdsize x), F32 (dyst_ilocalsym x), F32 (dyst_nlocalsym x),
     F32 (dyst_iextdefsym x), F32 (dyst_nextdefsym x), F32 (dyst_iundefsym x), F32
     (dyst_nundefsym x), F32 (dyst_tocoff x), F32 (dyst_ntoc x), F32 (dyst_modtaboff x), F32
     (dyst_nmodtab x), F32 (dyst_extrefsymoff x), F32 (dyst_nextrefsyms x), F32
     (dyst_indirectsymoff x), F32 (dyst_nindirectsyms x), F32 (dyst_extreloff x), F32
     (dyst_nextrel x), F32 (dyst_locreloff x), F32 (dyst_nlocrel x)]"

record symseg_command =
  ss_cmd :: u32
  ss_cmdsize :: u32
  ss_offset :: u32
  ss_size :: u32

definition layout_symseg_command :: "symseg_command \<Rightarrow> field list" where
  "layout_symseg_command x =
    [F32 (ss_cmd x), F32 (ss_cmdsize x), F32 (ss_offset x), F32 (ss_size x)]"

record fvmlib_command =
  fl_cmd :: u32
  fl_cmdsize :: u32
  fl_fvmlib_name_offset :: u32
  fl_fvmlib_minor_version :: u32
  fl_fvmlib_header_addr :: u32

definition layout_fvmlib_command :: "fvmlib_command \<Rightarrow> field list" where
  "layout_fvmlib_command x =
    [F32 (fl_cmd x), F32 (fl_cmdsize x), F32 (fl_fvmlib_name_offset x), F32
     (fl_fvmlib_minor_version x), F32 (fl_fvmlib_header_addr x)]"

record dylib_command =
  dl_cmd :: u32
  dl_cmdsize :: u32
  dl_dylib_name_offset :: u32
  dl_dylib_timestamp :: u32
  dl_dylib_current_version :: u32
  dl_dylib_compatibility_version :: u32

definition layout_dylib_command :: "dylib_command \<Rightarrow> field list" where
  "layout_dylib_command x =
    [F32 (dl_cmd x), F32 (dl_cmdsize x), F32 (dl_dylib_name_offset x), F32
     (dl_dylib_timestamp x), F32 (dl_dylib_current_version x), F32
     (dl_dylib_compatibility_version x)]"

record sub_framework_command =
  sub_cmd :: u32
  sub_cmdsize :: u32
  sub_umbrella_offset :: u32

definition layout_sub_framework_command :: "sub_framework_command \<Rightarrow> field list" where
  "layout_sub_framework_command x =
    [F32 (sub_cmd x), F32 (sub_cmdsize x), F32 (sub_umbrella_offset x)]"

record sub_umbrella_command =
  usub_cmd :: u32
  usub_cmdsize :: u32
  usub_sub_umbrella_offset :: u32

definition layout_sub_umbrella_command :: "sub_umbrella_command \<Rightarrow> field list" where
  "layout_sub_umbrella_command x =
    [F32 (usub_cmd x), F32 (usub_cmdsize x), F32 (usub_sub_umbrella_offset x)]"

record sub_library_command =
  lsub_cmd :: u32
  lsub_cmdsize :: u32
  lsub_sub_library_offset :: u32

definition layout_sub_library_command :: "sub_library_command \<Rightarrow> field list" where
  "layout_sub_library_command x =
    [F32 (lsub_cmd x), F32 (lsub_cmdsize x), F32 (lsub_sub_library_offset x)]"

record sub_client_command =
  csub_cmd :: u32
  csub_cmdsize :: u32
  csub_client_offset :: u32

definition layout_sub_client_command :: "sub_client_command \<Rightarrow> field list" where
  "layout_sub_client_command x =
    [F32 (csub_cmd x), F32 (csub_cmdsize x), F32 (csub_client_offset x)]"

record prebound_dylib_command =
  pbdylib_cmd :: u32
  pbdylib_cmdsize :: u32
  pbdylib_name_offset :: u32
  pbdylib_nmodules :: u32
  pbdylib_linked_modules_offset :: u32

definition layout_prebound_dylib_command :: "prebound_dylib_command \<Rightarrow> field list" where
  "layout_prebound_dylib_command x =
    [F32 (pbdylib_cmd x), F32 (pbdylib_cmdsize x), F32 (pbdylib_name_offset x), F32
     (pbdylib_nmodules x), F32 (pbdylib_linked_modules_offset x)]"

record dylinker_command =
  dyld_cmd :: u32
  dyld_cmdsize :: u32
  dyld_name_offset :: u32

definition layout_dylinker_command :: "dylinker_command \<Rightarrow> field list" where
  "layout_dylinker_command x =
    [F32 (dyld_cmd x), F32 (dyld_cmdsize x), F32 (dyld_name_offset x)]"

record fvmfile_command =
  ff_cmd :: u32
  ff_cmdsize :: u32
  ff_name_offset :: u32
  ff_header_addr :: u32

definition layout_fvmfile_command :: "fvmfile_command \<Rightarrow> field list" where
  "layout_fvmfile_command x =
    [F32 (ff_cmd x), F32 (ff_cmdsize x), F32 (ff_name_offset x), F32 (ff_header_addr x)]"

record thread_command =
  ut_cmd :: u32
  ut_cmdsize :: u32

definition layout_thread_command :: "thread_command \<Rightarrow> field list" where
  "layout_thread_command x =
    [F32 (ut_cmd x), F32 (ut_cmdsize x)]"

record ident_command =
  id_cmd :: u32
  id_cmdsize :: u32

definition layout_ident_command :: "ident_command \<Rightarrow> field list" where
  "layout_ident_command x =
    [F32 (id_cmd x), F32 (id_cmdsize x)]"

record routines_command =
  rc_cmd :: u32
  rc_cmdsize :: u32
  rc_init_address :: u32
  rc_init_module :: u32
  rc_reserved1 :: u32
  rc_reserved2 :: u32
  rc_reserved3 :: u32
  rc_reserved4 :: u32
  rc_reserved5 :: u32
  rc_reserved6 :: u32

definition layout_routines_command :: "routines_command \<Rightarrow> field list" where
  "layout_routines_command x =
    [F32 (rc_cmd x), F32 (rc_cmdsize x), F32 (rc_init_address x), F32 (rc_init_module x), F32
     (rc_reserved1 x), F32 (rc_reserved2 x), F32 (rc_reserved3 x), F32 (rc_reserved4 x), F32
     (rc_reserved5 x), F32 (rc_reserved6 x)]"

record routines_command_64 =
  rc64_cmd :: u32
  rc64_cmdsize :: u32
  rc64_init_address :: u64
  rc64_init_module :: u64
  rc64_reserved1 :: u64
  rc64_reserved2 :: u64
  rc64_reserved3 :: u64
  rc64_reserved4 :: u64
  rc64_reserved5 :: u64
  rc64_reserved6 :: u64

definition layout_routines_command_64 :: "routines_command_64 \<Rightarrow> field list" where
  "layout_routines_command_64 x =
    [F32 (rc64_cmd x), F32 (rc64_cmdsize x), F64 (rc64_init_address x), F64 (rc64_init_module
     x), F64 (rc64_reserved1 x), F64 (rc64_reserved2 x), F64 (rc64_reserved3 x), F64
     (rc64_reserved4 x), F64 (rc64_reserved5 x), F64 (rc64_reserved6 x)]"

record twolevel_hints_command =
  hints_cmd :: u32
  hints_cmdsize :: u32
  hints_offset :: u32
  hints_nhints :: u32

definition layout_twolevel_hints_command :: "twolevel_hints_command \<Rightarrow> field list" where
  "layout_twolevel_hints_command x =
    [F32 (hints_cmd x), F32 (hints_cmdsize x), F32 (hints_offset x), F32 (hints_nhints x)]"

record data_in_code_entry =
  dice_offset :: u32
  dice_length :: u16
  dice_kind :: u16

definition layout_data_in_code_entry :: "data_in_code_entry \<Rightarrow> field list" where
  "layout_data_in_code_entry x =
    [F32 (dice_offset x), F16 (dice_length x), F16 (dice_kind x)]"

record prebind_cksum_command =
  cksum_cmd :: u32
  cksum_cmdsize :: u32
  cksum_cksum :: u32

definition layout_prebind_cksum_command :: "prebind_cksum_command \<Rightarrow> field list" where
  "layout_prebind_cksum_command x =
    [F32 (cksum_cmd x), F32 (cksum_cmdsize x), F32 (cksum_cksum x)]"

record uuid_command =
  uuid_cmd :: u32
  uuid_cmdsize :: u32
  uuid_uuid :: char16

definition layout_uuid_command :: "uuid_command \<Rightarrow> field list" where
  "layout_uuid_command x =
    [F32 (uuid_cmd x), F32 (uuid_cmdsize x), Chars (uuid_uuid x)]"

record linkedit_data_command =
  ld_cmd :: u32
  ld_cmdsize :: u32
  ld_dataoff :: u32
  ld_datasize :: u32

definition layout_linkedit_data_command :: "linkedit_data_command \<Rightarrow> field list" where
  "layout_linkedit_data_command x =
    [F32 (ld_cmd x), F32 (ld_cmdsize x), F32 (ld_dataoff x), F32 (ld_datasize x)]"

record version_min_command =
  ver_cmd :: u32
  ver_cmdsize :: u32
  ver_version :: u32
  ver_sdk :: u32

definition layout_version_min_command :: "version_min_command \<Rightarrow> field list" where
  "layout_version_min_command x =
    [F32 (ver_cmd x), F32 (ver_cmdsize x), F32 (ver_version x), F32 (ver_sdk x)]"

record rpath_command =
  rpath_cmd :: u32
  rpath_cmdsize :: u32
  rpath_path_offset :: u32

definition layout_rpath_command :: "rpath_command \<Rightarrow> field list" where
  "layout_rpath_command x =
    [F32 (rpath_cmd x), F32 (rpath_cmdsize x), F32 (rpath_path_offset x)]"

record encryption_info_command =
  ec_cmd :: u32
  ec_cmdsize :: u32
  ec_cryptoff :: u32
  ec_cryptsize :: u32
  ec_cryptid :: u32

definition layout_encryption_info_command :: "encryption_info_command \<Rightarrow> field list" where
  "layout_encryption_info_command x =
    [F32 (ec_cmd x), F32 (ec_cmdsize x), F32 (ec_cryptoff x), F32 (ec_cryptsize x), F32
     (ec_cryptid x)]"

record encryption_info_command_64 =
  ec64_cmd :: u32
  ec64_cmdsize :: u32
  ec64_cryptoff :: u32
  ec64_cryptsize :: u32
  ec64_cryptid :: u32
  ec64_pad :: u32

definition layout_encryption_info_command_64 :: "encryption_info_command_64 \<Rightarrow> field list" where
  "layout_encryption_info_command_64 x =
    [F32 (ec64_cmd x), F32 (ec64_cmdsize x), F32 (ec64_cryptoff x), F32 (ec64_cryptsize x),
     F32 (ec64_cryptid x), F32 (ec64_pad x)]"

record linker_option_command =
  lo_cmd :: u32
  lo_cmdsize :: u32
  lo_count :: u32

definition layout_linker_option_command :: "linker_option_command \<Rightarrow> field list" where
  "layout_linker_option_command x =
    [F32 (lo_cmd x), F32 (lo_cmdsize x), F32 (lo_count x)]"

record dyld_info_command =
  ed_cmd :: u32
  ed_cmdsize :: u32
  ed_rebase_off :: u32
  ed_rebase_size :: u32
  ed_bind_off :: u32
  ed_bind_size :: u32
  ed_weak_bind_off :: u32
  ed_weak_bind_size :: u32
  ed_lazy_bind_off :: u32
  ed_lazy_bind_size :: u32
  ed_export_off :: u32
  ed_export_size :: u32

definition layout_dyld_info_command :: "dyld_info_command \<Rightarrow> field list" where
  "layout_dyld_info_command x =
    [F32 (ed_cmd x), F32 (ed_cmdsize x), F32 (ed_rebase_off x), F32 (ed_rebase_size x), F32
     (ed_bind_off x), F32 (ed_bind_size x), F32 (ed_weak_bind_off x), F32 (ed_weak_bind_size
     x), F32 (ed_lazy_bind_off x), F32 (ed_lazy_bind_size x), F32 (ed_export_off x), F32
     (ed_export_size x)]"

record entry_point_command =
  ep_cmd :: u32
  ep_cmdsize :: u32
  ep_entryoff :: u64
  ep_stacksize :: u64

definition layout_entry_point_command :: "entry_point_command \<Rightarrow> field list" where
  "layout_entry_point_command x =
    [F32 (ep_cmd x), F32 (ep_cmdsize x), F64 (ep_entryoff x), F64 (ep_stacksize x)]"

record source_version_command =
  sv_cmd :: u32
  sv_cmdsize :: u32
  sv_version :: u64

definition layout_source_version_command :: "source_version_command \<Rightarrow> field list" where
  "layout_source_version_command x =
    [F32 (sv_cmd x), F32 (sv_cmdsize x), F64 (sv_version x)]"

record nlist =
  nl_strx :: u32
  nl_type :: u8
  nl_sect :: u8
  nl_desc :: u16
  nl_value :: u32

definition layout_nlist :: "nlist \<Rightarrow> field list" where
  "layout_nlist x =
    [F32 (nl_strx x), F8 (nl_type x), F8 (nl_sect x), F16 (nl_desc x), F32 (nl_value x)]"

record nlist_64 =
  nl64_strx :: u32
  nl64_type :: u8
  nl64_sect :: u8
  nl64_desc :: u16
  nl64_value :: u64

definition layout_nlist_64 :: "nlist_64 \<Rightarrow> field list" where
  "layout_nlist_64 x =
    [F32 (nl64_strx x), F8 (nl64_type x), F8 (nl64_sect x), F16 (nl64_desc x), F64
     (nl64_value x)]"

record ranlib =
  ran_strx :: u32
  ran_off :: u32

definition layout_ranlib :: "ranlib \<Rightarrow> field list" where
  "layout_ranlib x =
    [F32 (ran_strx x), F32 (ran_off x)]"

record ranlib_64 =
  ran64_strx :: u64
  ran64_off :: u64

definition layout_ranlib_64 :: "ranlib_64 \<Rightarrow> field list" where
  "layout_ranlib_64 x =
    [F64 (ran64_strx x), F64 (ran64_off x)]"

record dylib_module =
  mod_module_name :: u32
  mod_iextdefsym :: u32
  mod_nextdefsym :: u32
  mod_irefsym :: u32
  mod_nrefsym :: u32
  mod_ilocalsym :: u32
  mod_nlocalsym :: u32
  mod_iextrel :: u32
  mod_nextrel :: u32
  mod_iinit_iterm :: u32
  mod_ninit_nterm :: u32
  mod_objc_module_info_addr :: u32
  mod_objc_module_info_size :: u32

definition layout_dylib_module :: "dylib_module \<Rightarrow> field list" where
  "layout_dylib_module x =
    [F32 (mod_module_name x), F32 (mod_iextdefsym x), F32 (mod_nextdefsym x), F32
     (mod_irefsym x), F32 (mod_nrefsym x), F32 (mod_ilocalsym x), F32 (mod_nlocalsym x), F32
     (mod_iextrel x), F32 (mod_nextrel x), F32 (mod_iinit_iterm x), F32 (mod_ninit_nterm x),
     F32 (mod_objc_module_info_addr x), F32 (mod_objc_module_info_size x)]"

record dylib_module_64 =
  mod64_module_name :: u32
  mod64_iextdefsym :: u32
  mod64_nextdefsym :: u32
  mod64_irefsym :: u32
  mod64_nrefsym :: u32
  mod64_ilocalsym :: u32
  mod64_nlocalsym :: u32
  mod64_iextrel :: u32
  mod64_nextrel :: u32
  mod64_iinit_iterm :: u32
  mod64_ninit_nterm :: u32
  mod64_objc_module_info_size :: u32
  mod64_objc_module_info_addr :: u64

definition layout_dylib_module_64 :: "dylib_module_64 \<Rightarrow> field list" where
  "layout_dylib_module_64 x =
    [F32 (mod64_module_name x), F32 (mod64_iextdefsym x), F32 (mod64_nextdefsym x), F32
     (mod64_irefsym x), F32 (mod64_nrefsym x), F32 (mod64_ilocalsym x), F32 (mod64_nlocalsym
     x), F32 (mod64_iextrel x), F32 (mod64_nextrel x), F32 (mod64_iinit_iterm x), F32
     (mod64_ninit_nterm x), F32 (mod64_objc_module_info_size x), F64
     (mod64_objc_module_info_addr x)]"

record dylib_table_of_contents =
  toc_symbol_index :: u32
  toc_module_index :: u32

definition layout_dylib_table_of_contents :: "dylib_table_of_contents \<Rightarrow> field list" where
  "layout_dylib_table_of_contents x =
    [F32 (toc_symbol_index x), F32 (toc_module_index x)]"

record xar_header =
  xar_magic :: u32
  xar_size :: u16
  xar_version :: u16
  xar_toc_length_compressed :: u64
  xar_toc_length_uncompressed :: u64
  xar_cksum_alg :: u32

definition layout_xar_header :: "xar_header \<Rightarrow> field list" where
  "layout_xar_header x =
    [F32 (xar_magic x), F16 (xar_size x), F16 (xar_version x), F64 (xar_toc_length_compressed
     x), F64 (xar_toc_length_uncompressed x), F32 (xar_cksum_alg x)]"

end
