(* ===== verification/Macho_Swap.thy ===== *)
theory Macho_Swap
  imports Macho_Structs
begin

text \<open>
  The swapping routines of \<open>libstuff/bytesex.c\<close> for the headers, the load commands, the symbols
  and the tables of Mach-O files. The assignments of a routine are the updates of one record
  expression, in their order. The parameter \<open>target_byte_sex\<close>, which these routines do not use,
  is left out. A routine for an array is \<open>swap_array\<close> of its loop body.
\<close>

section \<open>The routines\<close>

definition swap_fat_header :: "fat_header \<Rightarrow> fat_header" where
  "swap_fat_header x = x\<lparr>
     fh_magic := SWAP_INT (fh_magic x),
     fh_nfat_arch := SWAP_INT (fh_nfat_arch x)\<rparr>"

definition swap_fat_arch_1 :: "fat_arch \<Rightarrow> fat_arch" where
  "swap_fat_arch_1 x = x\<lparr>
     fa_cputype := SWAP_INT (fa_cputype x),
     fa_cpusubtype := SWAP_INT (fa_cpusubtype x),
     fa_offset := SWAP_INT (fa_offset x),
     fa_size := SWAP_INT (fa_size x),
     fa_align := SWAP_INT (fa_align x)\<rparr>"

definition swap_fat_arch :: "fat_arch list \<Rightarrow> nat \<Rightarrow> fat_arch list" where
  "swap_fat_arch xs n = swap_array swap_fat_arch_1 xs n"

definition swap_fat_arch_64_1 :: "fat_arch_64 \<Rightarrow> fat_arch_64" where
  "swap_fat_arch_64_1 x = x\<lparr>
     fa64_cputype := SWAP_INT (fa64_cputype x),
     fa64_cpusubtype := SWAP_INT (fa64_cpusubtype x),
     fa64_offset := SWAP_LONG_LONG (fa64_offset x),
     fa64_size := SWAP_LONG_LONG (fa64_size x),
     fa64_align := SWAP_INT (fa64_align x),
     fa64_reserved := SWAP_INT (fa64_reserved x)\<rparr>"

definition swap_fat_arch_64 :: "fat_arch_64 list \<Rightarrow> nat \<Rightarrow> fat_arch_64 list" where
  "swap_fat_arch_64 xs n = swap_array swap_fat_arch_64_1 xs n"

definition swap_mach_header :: "mach_header \<Rightarrow> mach_header" where
  "swap_mach_header x = x\<lparr>
     mh_magic := SWAP_INT (mh_magic x),
     mh_cputype := SWAP_INT (mh_cputype x),
     mh_cpusubtype := SWAP_INT (mh_cpusubtype x),
     mh_filetype := SWAP_INT (mh_filetype x),
     mh_ncmds := SWAP_INT (mh_ncmds x),
     mh_sizeofcmds := SWAP_INT (mh_sizeofcmds x),
     mh_flags := SWAP_INT (mh_flags x)\<rparr>"

definition swap_mach_header_64 :: "mach_header_64 \<Rightarrow> mach_header_64" where
  "swap_mach_header_64 x = x\<lparr>
     mh64_magic := SWAP_INT (mh64_magic x),
     mh64_cputype := SWAP_INT (mh64_cputype x),
     mh64_cpusubtype := SWAP_INT (mh64_cpusubtype x),
     mh64_filetype := SWAP_INT (mh64_filetype x),
     mh64_ncmds := SWAP_INT (mh64_ncmds x),
     mh64_sizeofcmds := SWAP_INT (mh64_sizeofcmds x),
     mh64_flags := SWAP_INT (mh64_flags x),
     mh64_reserved := SWAP_INT (mh64_reserved x)\<rparr>"

definition swap_load_command :: "load_command \<Rightarrow> load_command" where
  "swap_load_command x = x\<lparr>
     lc_cmd := SWAP_INT (lc_cmd x),
     lc_cmdsize := SWAP_INT (lc_cmdsize x)\<rparr>"

definition swap_segment_command :: "segment_command \<Rightarrow> segment_command" where
  "swap_segment_command x = x\<lparr>
     sg_cmd := SWAP_INT (sg_cmd x),
     sg_cmdsize := SWAP_INT (sg_cmdsize x),
     sg_vmaddr := SWAP_INT (sg_vmaddr x),
     sg_vmsize := SWAP_INT (sg_vmsize x),
     sg_fileoff := SWAP_INT (sg_fileoff x),
     sg_filesize := SWAP_INT (sg_filesize x),
     sg_maxprot := SWAP_INT (sg_maxprot x),
     sg_initprot := SWAP_INT (sg_initprot x),
     sg_nsects := SWAP_INT (sg_nsects x),
     sg_flags := SWAP_INT (sg_flags x)\<rparr>"

definition swap_segment_command_64 :: "segment_command_64 \<Rightarrow> segment_command_64" where
  "swap_segment_command_64 x = x\<lparr>
     sg64_cmd := SWAP_INT (sg64_cmd x),
     sg64_cmdsize := SWAP_INT (sg64_cmdsize x),
     sg64_vmaddr := SWAP_LONG_LONG (sg64_vmaddr x),
     sg64_vmsize := SWAP_LONG_LONG (sg64_vmsize x),
     sg64_fileoff := SWAP_LONG_LONG (sg64_fileoff x),
     sg64_filesize := SWAP_LONG_LONG (sg64_filesize x),
     sg64_maxprot := SWAP_INT (sg64_maxprot x),
     sg64_initprot := SWAP_INT (sg64_initprot x),
     sg64_nsects := SWAP_INT (sg64_nsects x),
     sg64_flags := SWAP_INT (sg64_flags x)\<rparr>"

definition swap_section_1 :: "macho_section \<Rightarrow> macho_section" where
  "swap_section_1 x = x\<lparr>
     s_addr := SWAP_INT (s_addr x),
     s_size := SWAP_INT (s_size x),
     s_offset := SWAP_INT (s_offset x),
     s_align := SWAP_INT (s_align x),
     s_reloff := SWAP_INT (s_reloff x),
     s_nreloc := SWAP_INT (s_nreloc x),
     s_flags := SWAP_INT (s_flags x),
     s_reserved1 := SWAP_INT (s_reserved1 x),
     s_reserved2 := SWAP_INT (s_reserved2 x)\<rparr>"

definition swap_section :: "macho_section list \<Rightarrow> nat \<Rightarrow> macho_section list" where
  "swap_section xs n = swap_array swap_section_1 xs n"

definition swap_section_64_1 :: "macho_section_64 \<Rightarrow> macho_section_64" where
  "swap_section_64_1 x = x\<lparr>
     s64_addr := SWAP_LONG_LONG (s64_addr x),
     s64_size := SWAP_LONG_LONG (s64_size x),
     s64_offset := SWAP_INT (s64_offset x),
     s64_align := SWAP_INT (s64_align x),
     s64_reloff := SWAP_INT (s64_reloff x),
     s64_nreloc := SWAP_INT (s64_nreloc x),
     s64_flags := SWAP_INT (s64_flags x),
     s64_reserved1 := SWAP_INT (s64_reserved1 x),
     s64_reserved2 := SWAP_INT (s64_reserved2 x)\<rparr>"

definition swap_section_64 :: "macho_section_64 list \<Rightarrow> nat \<Rightarrow> macho_section_64 list" where
  "swap_section_64 xs n = swap_array swap_section_64_1 xs n"

definition swap_symtab_command :: "symtab_command \<Rightarrow> symtab_command" where
  "swap_symtab_command x = x\<lparr>
     st_cmd := SWAP_INT (st_cmd x),
     st_cmdsize := SWAP_INT (st_cmdsize x),
     st_symoff := SWAP_INT (st_symoff x),
     st_nsyms := SWAP_INT (st_nsyms x),
     st_stroff := SWAP_INT (st_stroff x),
     st_strsize := SWAP_INT (st_strsize x)\<rparr>"

definition swap_dysymtab_command :: "dysymtab_command \<Rightarrow> dysymtab_command" where
  "swap_dysymtab_command x = x\<lparr>
     dyst_cmd := SWAP_INT (dyst_cmd x),
     dyst_cmdsize := SWAP_INT (dyst_cmdsize x),
     dyst_ilocalsym := SWAP_INT (dyst_ilocalsym x),
     dyst_nlocalsym := SWAP_INT (dyst_nlocalsym x),
     dyst_iextdefsym := SWAP_INT (dyst_iextdefsym x),
     dyst_nextdefsym := SWAP_INT (dyst_nextdefsym x),
     dyst_iundefsym := SWAP_INT (dyst_iundefsym x),
     dyst_nundefsym := SWAP_INT (dyst_nundefsym x),
     dyst_tocoff := SWAP_INT (dyst_tocoff x),
     dyst_ntoc := SWAP_INT (dyst_ntoc x),
     dyst_modtaboff := SWAP_INT (dyst_modtaboff x),
     dyst_nmodtab := SWAP_INT (dyst_nmodtab x),
     dyst_extrefsymoff := SWAP_INT (dyst_extrefsymoff x),
     dyst_nextrefsyms := SWAP_INT (dyst_nextrefsyms x),
     dyst_indirectsymoff := SWAP_INT (dyst_indirectsymoff x),
     dyst_nindirectsyms := SWAP_INT (dyst_nindirectsyms x),
     dyst_extreloff := SWAP_INT (dyst_extreloff x),
     dyst_nextrel := SWAP_INT (dyst_nextrel x),
     dyst_locreloff := SWAP_INT (dyst_locreloff x),
     dyst_nlocrel := SWAP_INT (dyst_nlocrel x)\<rparr>"

definition swap_symseg_command :: "symseg_command \<Rightarrow> symseg_command" where
  "swap_symseg_command x = x\<lparr>
     ss_cmd := SWAP_INT (ss_cmd x),
     ss_cmdsize := SWAP_INT (ss_cmdsize x),
     ss_offset := SWAP_INT (ss_offset x),
     ss_size := SWAP_INT (ss_size x)\<rparr>"

definition swap_fvmlib_command :: "fvmlib_command \<Rightarrow> fvmlib_command" where
  "swap_fvmlib_command x = x\<lparr>
     fl_cmd := SWAP_INT (fl_cmd x),
     fl_cmdsize := SWAP_INT (fl_cmdsize x),
     fl_fvmlib_name_offset := SWAP_INT (fl_fvmlib_name_offset x),
     fl_fvmlib_minor_version := SWAP_INT (fl_fvmlib_minor_version x),
     fl_fvmlib_header_addr := SWAP_INT (fl_fvmlib_header_addr x)\<rparr>"

definition swap_dylib_command :: "dylib_command \<Rightarrow> dylib_command" where
  "swap_dylib_command x = x\<lparr>
     dl_cmd := SWAP_INT (dl_cmd x),
     dl_cmdsize := SWAP_INT (dl_cmdsize x),
     dl_dylib_name_offset := SWAP_INT (dl_dylib_name_offset x),
     dl_dylib_timestamp := SWAP_INT (dl_dylib_timestamp x),
     dl_dylib_current_version := SWAP_INT (dl_dylib_current_version x),
     dl_dylib_compatibility_version := SWAP_INT (dl_dylib_compatibility_version x)\<rparr>"

definition swap_sub_framework_command :: "sub_framework_command \<Rightarrow> sub_framework_command" where
  "swap_sub_framework_command x = x\<lparr>
     sub_cmd := SWAP_INT (sub_cmd x),
     sub_cmdsize := SWAP_INT (sub_cmdsize x),
     sub_umbrella_offset := SWAP_INT (sub_umbrella_offset x)\<rparr>"

definition swap_sub_umbrella_command :: "sub_umbrella_command \<Rightarrow> sub_umbrella_command" where
  "swap_sub_umbrella_command x = x\<lparr>
     usub_cmd := SWAP_INT (usub_cmd x),
     usub_cmdsize := SWAP_INT (usub_cmdsize x),
     usub_sub_umbrella_offset := SWAP_INT (usub_sub_umbrella_offset x)\<rparr>"

definition swap_sub_library_command :: "sub_library_command \<Rightarrow> sub_library_command" where
  "swap_sub_library_command x = x\<lparr>
     lsub_cmd := SWAP_INT (lsub_cmd x),
     lsub_cmdsize := SWAP_INT (lsub_cmdsize x),
     lsub_sub_library_offset := SWAP_INT (lsub_sub_library_offset x)\<rparr>"

definition swap_sub_client_command :: "sub_client_command \<Rightarrow> sub_client_command" where
  "swap_sub_client_command x = x\<lparr>
     csub_cmd := SWAP_INT (csub_cmd x),
     csub_cmdsize := SWAP_INT (csub_cmdsize x),
     csub_client_offset := SWAP_INT (csub_client_offset x)\<rparr>"

definition swap_prebound_dylib_command :: "prebound_dylib_command \<Rightarrow> prebound_dylib_command" where
  "swap_prebound_dylib_command x = x\<lparr>
     pbdylib_cmd := SWAP_INT (pbdylib_cmd x),
     pbdylib_cmdsize := SWAP_INT (pbdylib_cmdsize x),
     pbdylib_name_offset := SWAP_INT (pbdylib_name_offset x),
     pbdylib_nmodules := SWAP_INT (pbdylib_nmodules x),
     pbdylib_linked_modules_offset := SWAP_INT (pbdylib_linked_modules_offset x)\<rparr>"

definition swap_dylinker_command :: "dylinker_command \<Rightarrow> dylinker_command" where
  "swap_dylinker_command x = x\<lparr>
     dyld_cmd := SWAP_INT (dyld_cmd x),
     dyld_cmdsize := SWAP_INT (dyld_cmdsize x),
     dyld_name_offset := SWAP_INT (dyld_name_offset x)\<rparr>"

definition swap_fvmfile_command :: "fvmfile_command \<Rightarrow> fvmfile_command" where
  "swap_fvmfile_command x = x\<lparr>
     ff_cmd := SWAP_INT (ff_cmd x),
     ff_cmdsize := SWAP_INT (ff_cmdsize x),
     ff_name_offset := SWAP_INT (ff_name_offset x),
     ff_header_addr := SWAP_INT (ff_header_addr x)\<rparr>"

definition swap_thread_command :: "thread_command \<Rightarrow> thread_command" where
  "swap_thread_command x = x\<lparr>
     ut_cmd := SWAP_INT (ut_cmd x),
     ut_cmdsize := SWAP_INT (ut_cmdsize x)\<rparr>"

definition swap_ident_command :: "ident_command \<Rightarrow> ident_command" where
  "swap_ident_command x = x\<lparr>
     id_cmd := SWAP_INT (id_cmd x),
     id_cmdsize := SWAP_INT (id_cmdsize x)\<rparr>"

definition swap_routines_command :: "routines_command \<Rightarrow> routines_command" where
  "swap_routines_command x = x\<lparr>
     rc_cmd := SWAP_INT (rc_cmd x),
     rc_cmdsize := SWAP_INT (rc_cmdsize x),
     rc_init_address := SWAP_INT (rc_init_address x),
     rc_init_module := SWAP_INT (rc_init_module x),
     rc_reserved1 := SWAP_INT (rc_reserved1 x),
     rc_reserved2 := SWAP_INT (rc_reserved2 x),
     rc_reserved3 := SWAP_INT (rc_reserved3 x),
     rc_reserved4 := SWAP_INT (rc_reserved4 x),
     rc_reserved5 := SWAP_INT (rc_reserved5 x),
     rc_reserved6 := SWAP_INT (rc_reserved6 x)\<rparr>"

definition swap_routines_command_64 :: "routines_command_64 \<Rightarrow> routines_command_64" where
  "swap_routines_command_64 x = x\<lparr>
     rc64_cmd := SWAP_INT (rc64_cmd x),
     rc64_cmdsize := SWAP_INT (rc64_cmdsize x),
     rc64_init_address := SWAP_LONG_LONG (rc64_init_address x),
     rc64_init_module := SWAP_LONG_LONG (rc64_init_module x),
     rc64_reserved1 := SWAP_LONG_LONG (rc64_reserved1 x),
     rc64_reserved2 := SWAP_LONG_LONG (rc64_reserved2 x),
     rc64_reserved3 := SWAP_LONG_LONG (rc64_reserved3 x),
     rc64_reserved4 := SWAP_LONG_LONG (rc64_reserved4 x),
     rc64_reserved5 := SWAP_LONG_LONG (rc64_reserved5 x),
     rc64_reserved6 := SWAP_LONG_LONG (rc64_reserved6 x)\<rparr>"

definition swap_twolevel_hints_command :: "twolevel_hints_command \<Rightarrow> twolevel_hints_command" where
  "swap_twolevel_hints_command x = x\<lparr>
     hints_cmd := SWAP_INT (hints_cmd x),
     hints_cmdsize := SWAP_INT (hints_cmdsize x),
     hints_offset := SWAP_INT (hints_offset x),
     hints_nhints := SWAP_INT (hints_nhints x)\<rparr>"

definition swap_data_in_code_entry_1 :: "data_in_code_entry \<Rightarrow> data_in_code_entry" where
  "swap_data_in_code_entry_1 x = x\<lparr>
     dice_offset := SWAP_INT (dice_offset x),
     dice_length := ucast (SWAP_INT (ucast (dice_length x))),
     dice_kind := ucast (SWAP_INT (ucast (dice_kind x)))\<rparr>"

definition swap_data_in_code_entry :: "data_in_code_entry list \<Rightarrow> nat \<Rightarrow> data_in_code_entry list" where
  "swap_data_in_code_entry xs n = swap_array swap_data_in_code_entry_1 xs n"

definition swap_prebind_cksum_command :: "prebind_cksum_command \<Rightarrow> prebind_cksum_command" where
  "swap_prebind_cksum_command x = x\<lparr>
     cksum_cmd := SWAP_INT (cksum_cmd x),
     cksum_cmdsize := SWAP_INT (cksum_cmdsize x),
     cksum_cksum := SWAP_INT (cksum_cksum x)\<rparr>"

definition swap_uuid_command :: "uuid_command \<Rightarrow> uuid_command" where
  "swap_uuid_command x = x\<lparr>
     uuid_cmd := SWAP_INT (uuid_cmd x),
     uuid_cmdsize := SWAP_INT (uuid_cmdsize x)\<rparr>"

definition swap_linkedit_data_command :: "linkedit_data_command \<Rightarrow> linkedit_data_command" where
  "swap_linkedit_data_command x = x\<lparr>
     ld_cmd := SWAP_INT (ld_cmd x),
     ld_cmdsize := SWAP_INT (ld_cmdsize x),
     ld_dataoff := SWAP_INT (ld_dataoff x),
     ld_datasize := SWAP_INT (ld_datasize x)\<rparr>"

definition swap_version_min_command :: "version_min_command \<Rightarrow> version_min_command" where
  "swap_version_min_command x = x\<lparr>
     ver_cmd := SWAP_INT (ver_cmd x),
     ver_cmdsize := SWAP_INT (ver_cmdsize x),
     ver_version := SWAP_INT (ver_version x)\<rparr>"

definition swap_rpath_command :: "rpath_command \<Rightarrow> rpath_command" where
  "swap_rpath_command x = x\<lparr>
     rpath_cmd := SWAP_INT (rpath_cmd x),
     rpath_cmdsize := SWAP_INT (rpath_cmdsize x),
     rpath_path_offset := SWAP_INT (rpath_path_offset x)\<rparr>"

definition swap_encryption_command :: "encryption_info_command \<Rightarrow> encryption_info_command" where
  "swap_encryption_command x = x\<lparr>
     ec_cmd := SWAP_INT (ec_cmd x),
     ec_cmdsize := SWAP_INT (ec_cmdsize x),
     ec_cryptoff := SWAP_INT (ec_cryptoff x),
     ec_cryptsize := SWAP_INT (ec_cryptsize x),
     ec_cryptid := SWAP_INT (ec_cryptid x)\<rparr>"

definition swap_encryption_command_64 :: "encryption_info_command_64 \<Rightarrow> encryption_info_command_64" where
  "swap_encryption_command_64 x = x\<lparr>
     ec64_cmd := SWAP_INT (ec64_cmd x),
     ec64_cmdsize := SWAP_INT (ec64_cmdsize x),
     ec64_cryptoff := SWAP_INT (ec64_cryptoff x),
     ec64_cryptsize := SWAP_INT (ec64_cryptsize x),
     ec64_cryptid := SWAP_INT (ec64_cryptid x),
     ec64_cryptid := SWAP_INT (ec64_pad x)\<rparr>"

definition swap_linker_option_command :: "linker_option_command \<Rightarrow> linker_option_command" where
  "swap_linker_option_command x = x\<lparr>
     lo_cmd := SWAP_INT (lo_cmd x),
     lo_cmdsize := SWAP_INT (lo_cmdsize x),
     lo_count := SWAP_INT (lo_count x)\<rparr>"

definition swap_dyld_info_command :: "dyld_info_command \<Rightarrow> dyld_info_command" where
  "swap_dyld_info_command x = x\<lparr>
     ed_cmd := SWAP_INT (ed_cmd x),
     ed_cmdsize := SWAP_INT (ed_cmdsize x),
     ed_rebase_off := SWAP_INT (ed_rebase_off x),
     ed_rebase_size := SWAP_INT (ed_rebase_size x),
     ed_bind_off := SWAP_INT (ed_bind_off x),
     ed_bind_size := SWAP_INT (ed_bind_size x),
     ed_weak_bind_off := SWAP_INT (ed_weak_bind_off x),
     ed_weak_bind_size := SWAP_INT (ed_weak_bind_size x),
     ed_lazy_bind_off := SWAP_INT (ed_lazy_bind_off x),
     ed_lazy_bind_size := SWAP_INT (ed_lazy_bind_size x),
     ed_export_off := SWAP_INT (ed_export_off x),
     ed_export_size := SWAP_INT (ed_export_size x)\<rparr>"

definition swap_entry_point_command :: "entry_point_command \<Rightarrow> entry_point_command" where
  "swap_entry_point_command x = x\<lparr>
     ep_cmd := SWAP_INT (ep_cmd x),
     ep_cmdsize := SWAP_INT (ep_cmdsize x),
     ep_entryoff := SWAP_LONG_LONG (ep_entryoff x),
     ep_stacksize := SWAP_LONG_LONG (ep_stacksize x)\<rparr>"

definition swap_source_version_command :: "source_version_command \<Rightarrow> source_version_command" where
  "swap_source_version_command x = x\<lparr>
     sv_cmd := SWAP_INT (sv_cmd x),
     sv_cmdsize := SWAP_INT (sv_cmdsize x),
     sv_version := SWAP_LONG_LONG (sv_version x)\<rparr>"

definition swap_nlist_1 :: "nlist \<Rightarrow> nlist" where
  "swap_nlist_1 x = x\<lparr>
     nl_strx := SWAP_INT (nl_strx x),
     nl_desc := SWAP_SHORT (nl_desc x),
     nl_value := SWAP_INT (nl_value x)\<rparr>"

definition swap_nlist :: "nlist list \<Rightarrow> nat \<Rightarrow> nlist list" where
  "swap_nlist xs n = swap_array swap_nlist_1 xs n"

definition swap_nlist_64_1 :: "nlist_64 \<Rightarrow> nlist_64" where
  "swap_nlist_64_1 x = x\<lparr>
     nl64_strx := SWAP_INT (nl64_strx x),
     nl64_desc := SWAP_SHORT (nl64_desc x),
     nl64_value := SWAP_LONG_LONG (nl64_value x)\<rparr>"

definition swap_nlist_64 :: "nlist_64 list \<Rightarrow> nat \<Rightarrow> nlist_64 list" where
  "swap_nlist_64 xs n = swap_array swap_nlist_64_1 xs n"

definition swap_ranlib_1 :: "ranlib \<Rightarrow> ranlib" where
  "swap_ranlib_1 x = x\<lparr>
     ran_strx := SWAP_INT (ran_strx x),
     ran_off := SWAP_INT (ran_off x)\<rparr>"

definition swap_ranlib :: "ranlib list \<Rightarrow> nat \<Rightarrow> ranlib list" where
  "swap_ranlib xs n = swap_array swap_ranlib_1 xs n"

definition swap_ranlib_64_1 :: "ranlib_64 \<Rightarrow> ranlib_64" where
  "swap_ranlib_64_1 x = x\<lparr>
     ran64_strx := SWAP_LONG_LONG (ran64_strx x),
     ran64_off := SWAP_LONG_LONG (ran64_off x)\<rparr>"

definition swap_ranlib_64 :: "ranlib_64 list \<Rightarrow> nat \<Rightarrow> ranlib_64 list" where
  "swap_ranlib_64 xs n = swap_array swap_ranlib_64_1 xs n"

definition swap_dylib_module_1 :: "dylib_module \<Rightarrow> dylib_module" where
  "swap_dylib_module_1 x = x\<lparr>
     mod_module_name := SWAP_INT (mod_module_name x),
     mod_iextdefsym := SWAP_INT (mod_iextdefsym x),
     mod_nextdefsym := SWAP_INT (mod_nextdefsym x),
     mod_irefsym := SWAP_INT (mod_irefsym x),
     mod_nrefsym := SWAP_INT (mod_nrefsym x),
     mod_ilocalsym := SWAP_INT (mod_ilocalsym x),
     mod_nlocalsym := SWAP_INT (mod_nlocalsym x),
     mod_iextrel := SWAP_INT (mod_iextrel x),
     mod_nextrel := SWAP_INT (mod_nextrel x),
     mod_iinit_iterm := SWAP_INT (mod_iinit_iterm x),
     mod_ninit_nterm := SWAP_INT (mod_ninit_nterm x),
     mod_objc_module_info_addr := SWAP_INT (mod_objc_module_info_addr x),
     mod_objc_module_info_size := SWAP_INT (mod_objc_module_info_size x)\<rparr>"

definition swap_dylib_module :: "dylib_module list \<Rightarrow> nat \<Rightarrow> dylib_module list" where
  "swap_dylib_module xs n = swap_array swap_dylib_module_1 xs n"

definition swap_dylib_module_64_1 :: "dylib_module_64 \<Rightarrow> dylib_module_64" where
  "swap_dylib_module_64_1 x = x\<lparr>
     mod64_module_name := SWAP_INT (mod64_module_name x),
     mod64_iextdefsym := SWAP_INT (mod64_iextdefsym x),
     mod64_nextdefsym := SWAP_INT (mod64_nextdefsym x),
     mod64_irefsym := SWAP_INT (mod64_irefsym x),
     mod64_nrefsym := SWAP_INT (mod64_nrefsym x),
     mod64_ilocalsym := SWAP_INT (mod64_ilocalsym x),
     mod64_nlocalsym := SWAP_INT (mod64_nlocalsym x),
     mod64_iextrel := SWAP_INT (mod64_iextrel x),
     mod64_nextrel := SWAP_INT (mod64_nextrel x),
     mod64_iinit_iterm := SWAP_INT (mod64_iinit_iterm x),
     mod64_ninit_nterm := SWAP_INT (mod64_ninit_nterm x),
     mod64_objc_module_info_addr := SWAP_LONG_LONG (mod64_objc_module_info_addr x),
     mod64_objc_module_info_size := ucast (SWAP_LONG_LONG (ucast (mod64_objc_module_info_size x)))\<rparr>"

definition swap_dylib_module_64 :: "dylib_module_64 list \<Rightarrow> nat \<Rightarrow> dylib_module_64 list" where
  "swap_dylib_module_64 xs n = swap_array swap_dylib_module_64_1 xs n"

definition swap_dylib_table_of_contents_1 :: "dylib_table_of_contents \<Rightarrow> dylib_table_of_contents" where
  "swap_dylib_table_of_contents_1 x = x\<lparr>
     toc_symbol_index := SWAP_INT (toc_symbol_index x),
     toc_module_index := SWAP_INT (toc_module_index x)\<rparr>"

definition swap_dylib_table_of_contents :: "dylib_table_of_contents list \<Rightarrow> nat \<Rightarrow> dylib_table_of_contents list" where
  "swap_dylib_table_of_contents xs n = swap_array swap_dylib_table_of_contents_1 xs n"

definition swap_xar_header :: "xar_header \<Rightarrow> xar_header" where
  "swap_xar_header x = x\<lparr>
     xar_magic := SWAP_INT (xar_magic x),
     xar_size := SWAP_SHORT (xar_size x),
     xar_version := SWAP_SHORT (xar_version x),
     xar_toc_length_compressed := SWAP_LONG_LONG (xar_toc_length_compressed x),
     xar_toc_length_uncompressed := SWAP_LONG_LONG (xar_toc_length_uncompressed x),
     xar_cksum_alg := SWAP_INT (xar_cksum_alg x)\<rparr>"

definition swap_indirect_symbols :: "u32 list \<Rightarrow> nat \<Rightarrow> u32 list" where
  "swap_indirect_symbols xs n = swap_array SWAP_INT xs n"

section \<open>The routines that fulfil the contract\<close>

interpretation sw_fat_header: byte_swapper layout_fat_header swap_fat_header "[4, 4]"
  by unfold_locales (auto simp: layout_fat_header_def swap_fat_header_def)

interpretation sw_fat_arch: byte_swapper layout_fat_arch swap_fat_arch_1 "[4, 4, 4, 4, 4]"
  by unfold_locales (auto simp: layout_fat_arch_def swap_fat_arch_1_def)

interpretation sw_fat_arch_64: byte_swapper layout_fat_arch_64 swap_fat_arch_64_1 "[4, 4, 8, 8, 4, 4]"
  by unfold_locales (auto simp: layout_fat_arch_64_def swap_fat_arch_64_1_def)

interpretation sw_mach_header: byte_swapper layout_mach_header swap_mach_header "[4, 4, 4, 4, 4, 4, 4]"
  by unfold_locales (auto simp: layout_mach_header_def swap_mach_header_def)

interpretation sw_mach_header_64: byte_swapper layout_mach_header_64 swap_mach_header_64 "[4, 4, 4, 4, 4, 4, 4, 4]"
  by unfold_locales (auto simp: layout_mach_header_64_def swap_mach_header_64_def)

interpretation sw_load_command: byte_swapper layout_load_command swap_load_command "[4, 4]"
  by unfold_locales (auto simp: layout_load_command_def swap_load_command_def)

interpretation sw_segment_command: byte_swapper layout_segment_command swap_segment_command "[4, 4, 16, 4, 4, 4, 4, 4, 4, 4, 4]"
  by unfold_locales (auto simp: layout_segment_command_def swap_segment_command_def)

interpretation sw_segment_command_64: byte_swapper layout_segment_command_64 swap_segment_command_64 "[4, 4, 16, 8, 8, 8, 8, 4, 4, 4, 4]"
  by unfold_locales (auto simp: layout_segment_command_64_def swap_segment_command_64_def)

interpretation sw_section: byte_swapper layout_section swap_section_1 "[16, 16, 4, 4, 4, 4, 4, 4, 4, 4, 4]"
  by unfold_locales (auto simp: layout_section_def swap_section_1_def)

interpretation sw_symtab_command: byte_swapper layout_symtab_command swap_symtab_command "[4, 4, 4, 4, 4, 4]"
  by unfold_locales (auto simp: layout_symtab_command_def swap_symtab_command_def)

interpretation sw_dysymtab_command: byte_swapper layout_dysymtab_command swap_dysymtab_command "[4, 4, 4, 4, 4, 4, 4, 4, 4, 4, 4, 4, 4, 4, 4, 4, 4, 4, 4, 4]"
  by unfold_locales (auto simp: layout_dysymtab_command_def swap_dysymtab_command_def)

interpretation sw_symseg_command: byte_swapper layout_symseg_command swap_symseg_command "[4, 4, 4, 4]"
  by unfold_locales (auto simp: layout_symseg_command_def swap_symseg_command_def)

interpretation sw_fvmlib_command: byte_swapper layout_fvmlib_command swap_fvmlib_command "[4, 4, 4, 4, 4]"
  by unfold_locales (auto simp: layout_fvmlib_command_def swap_fvmlib_command_def)

interpretation sw_dylib_command: byte_swapper layout_dylib_command swap_dylib_command "[4, 4, 4, 4, 4, 4]"
  by unfold_locales (auto simp: layout_dylib_command_def swap_dylib_command_def)

interpretation sw_sub_framework_command: byte_swapper layout_sub_framework_command swap_sub_framework_command "[4, 4, 4]"
  by unfold_locales (auto simp: layout_sub_framework_command_def swap_sub_framework_command_def)

interpretation sw_sub_umbrella_command: byte_swapper layout_sub_umbrella_command swap_sub_umbrella_command "[4, 4, 4]"
  by unfold_locales (auto simp: layout_sub_umbrella_command_def swap_sub_umbrella_command_def)

interpretation sw_sub_library_command: byte_swapper layout_sub_library_command swap_sub_library_command "[4, 4, 4]"
  by unfold_locales (auto simp: layout_sub_library_command_def swap_sub_library_command_def)

interpretation sw_sub_client_command: byte_swapper layout_sub_client_command swap_sub_client_command "[4, 4, 4]"
  by unfold_locales (auto simp: layout_sub_client_command_def swap_sub_client_command_def)

interpretation sw_prebound_dylib_command: byte_swapper layout_prebound_dylib_command swap_prebound_dylib_command "[4, 4, 4, 4, 4]"
  by unfold_locales (auto simp: layout_prebound_dylib_command_def swap_prebound_dylib_command_def)

interpretation sw_dylinker_command: byte_swapper layout_dylinker_command swap_dylinker_command "[4, 4, 4]"
  by unfold_locales (auto simp: layout_dylinker_command_def swap_dylinker_command_def)

interpretation sw_fvmfile_command: byte_swapper layout_fvmfile_command swap_fvmfile_command "[4, 4, 4, 4]"
  by unfold_locales (auto simp: layout_fvmfile_command_def swap_fvmfile_command_def)

interpretation sw_thread_command: byte_swapper layout_thread_command swap_thread_command "[4, 4]"
  by unfold_locales (auto simp: layout_thread_command_def swap_thread_command_def)

interpretation sw_ident_command: byte_swapper layout_ident_command swap_ident_command "[4, 4]"
  by unfold_locales (auto simp: layout_ident_command_def swap_ident_command_def)

interpretation sw_routines_command: byte_swapper layout_routines_command swap_routines_command "[4, 4, 4, 4, 4, 4, 4, 4, 4, 4]"
  by unfold_locales (auto simp: layout_routines_command_def swap_routines_command_def)

interpretation sw_routines_command_64: byte_swapper layout_routines_command_64 swap_routines_command_64 "[4, 4, 8, 8, 8, 8, 8, 8, 8, 8]"
  by unfold_locales (auto simp: layout_routines_command_64_def swap_routines_command_64_def)

interpretation sw_twolevel_hints_command: byte_swapper layout_twolevel_hints_command swap_twolevel_hints_command "[4, 4, 4, 4]"
  by unfold_locales (auto simp: layout_twolevel_hints_command_def swap_twolevel_hints_command_def)

interpretation sw_prebind_cksum_command: byte_swapper layout_prebind_cksum_command swap_prebind_cksum_command "[4, 4, 4]"
  by unfold_locales (auto simp: layout_prebind_cksum_command_def swap_prebind_cksum_command_def)

interpretation sw_uuid_command: byte_swapper layout_uuid_command swap_uuid_command "[4, 4, 16]"
  by unfold_locales (auto simp: layout_uuid_command_def swap_uuid_command_def)

interpretation sw_linkedit_data_command: byte_swapper layout_linkedit_data_command swap_linkedit_data_command "[4, 4, 4, 4]"
  by unfold_locales (auto simp: layout_linkedit_data_command_def swap_linkedit_data_command_def)

interpretation sw_rpath_command: byte_swapper layout_rpath_command swap_rpath_command "[4, 4, 4]"
  by unfold_locales (auto simp: layout_rpath_command_def swap_rpath_command_def)

interpretation sw_encryption_info_command: byte_swapper layout_encryption_info_command swap_encryption_command "[4, 4, 4, 4, 4]"
  by unfold_locales (auto simp: layout_encryption_info_command_def swap_encryption_command_def)

interpretation sw_linker_option_command: byte_swapper layout_linker_option_command swap_linker_option_command "[4, 4, 4]"
  by unfold_locales (auto simp: layout_linker_option_command_def swap_linker_option_command_def)

interpretation sw_dyld_info_command: byte_swapper layout_dyld_info_command swap_dyld_info_command "[4, 4, 4, 4, 4, 4, 4, 4, 4, 4, 4, 4]"
  by unfold_locales (auto simp: layout_dyld_info_command_def swap_dyld_info_command_def)

interpretation sw_entry_point_command: byte_swapper layout_entry_point_command swap_entry_point_command "[4, 4, 8, 8]"
  by unfold_locales (auto simp: layout_entry_point_command_def swap_entry_point_command_def)

interpretation sw_source_version_command: byte_swapper layout_source_version_command swap_source_version_command "[4, 4, 8]"
  by unfold_locales (auto simp: layout_source_version_command_def swap_source_version_command_def)

interpretation sw_nlist: byte_swapper layout_nlist swap_nlist_1 "[4, 1, 1, 2, 4]"
  by unfold_locales (auto simp: layout_nlist_def swap_nlist_1_def)

interpretation sw_nlist_64: byte_swapper layout_nlist_64 swap_nlist_64_1 "[4, 1, 1, 2, 8]"
  by unfold_locales (auto simp: layout_nlist_64_def swap_nlist_64_1_def)

interpretation sw_ranlib: byte_swapper layout_ranlib swap_ranlib_1 "[4, 4]"
  by unfold_locales (auto simp: layout_ranlib_def swap_ranlib_1_def)

interpretation sw_ranlib_64: byte_swapper layout_ranlib_64 swap_ranlib_64_1 "[8, 8]"
  by unfold_locales (auto simp: layout_ranlib_64_def swap_ranlib_64_1_def)

interpretation sw_dylib_module: byte_swapper layout_dylib_module swap_dylib_module_1 "[4, 4, 4, 4, 4, 4, 4, 4, 4, 4, 4, 4, 4]"
  by unfold_locales (auto simp: layout_dylib_module_def swap_dylib_module_1_def)

interpretation sw_dylib_table_of_contents: byte_swapper layout_dylib_table_of_contents swap_dylib_table_of_contents_1 "[4, 4]"
  by unfold_locales (auto simp: layout_dylib_table_of_contents_def swap_dylib_table_of_contents_1_def)

interpretation sw_xar_header: byte_swapper layout_xar_header swap_xar_header "[4, 2, 2, 8, 8, 4]"
  by unfold_locales (auto simp: layout_xar_header_def swap_xar_header_def)

section \<open>Properties\<close>

text \<open>
  Property C22. Swapping is correct for every structure but five: the bytes of the swapped
  structure in the other byte sex are the bytes of the structure, for both byte sexes.
\<close>

theorem swap_preserves_image:
  "image (other_sex s) (layout_fat_header (swap_fat_header x_fh)) = image s (layout_fat_header x_fh)
   \<and> image (other_sex s) (layout_fat_arch (swap_fat_arch_1 x_fa)) = image s (layout_fat_arch x_fa)
   \<and> image (other_sex s) (layout_fat_arch_64 (swap_fat_arch_64_1 x_fa64)) = image s (layout_fat_arch_64 x_fa64)
   \<and> image (other_sex s) (layout_mach_header (swap_mach_header x_mh)) = image s (layout_mach_header x_mh)
   \<and> image (other_sex s) (layout_mach_header_64 (swap_mach_header_64 x_mh64)) = image s (layout_mach_header_64 x_mh64)
   \<and> image (other_sex s) (layout_load_command (swap_load_command x_lc)) = image s (layout_load_command x_lc)
   \<and> image (other_sex s) (layout_segment_command (swap_segment_command x_sg)) = image s (layout_segment_command x_sg)
   \<and> image (other_sex s) (layout_segment_command_64 (swap_segment_command_64 x_sg64)) = image s (layout_segment_command_64 x_sg64)
   \<and> image (other_sex s) (layout_section (swap_section_1 x_s)) = image s (layout_section x_s)
   \<and> image (other_sex s) (layout_symtab_command (swap_symtab_command x_st)) = image s (layout_symtab_command x_st)
   \<and> image (other_sex s) (layout_dysymtab_command (swap_dysymtab_command x_dyst)) = image s (layout_dysymtab_command x_dyst)
   \<and> image (other_sex s) (layout_symseg_command (swap_symseg_command x_ss)) = image s (layout_symseg_command x_ss)
   \<and> image (other_sex s) (layout_fvmlib_command (swap_fvmlib_command x_fl)) = image s (layout_fvmlib_command x_fl)
   \<and> image (other_sex s) (layout_dylib_command (swap_dylib_command x_dl)) = image s (layout_dylib_command x_dl)
   \<and> image (other_sex s) (layout_sub_framework_command (swap_sub_framework_command x_sub)) = image s (layout_sub_framework_command x_sub)
   \<and> image (other_sex s) (layout_sub_umbrella_command (swap_sub_umbrella_command x_usub)) = image s (layout_sub_umbrella_command x_usub)
   \<and> image (other_sex s) (layout_sub_library_command (swap_sub_library_command x_lsub)) = image s (layout_sub_library_command x_lsub)
   \<and> image (other_sex s) (layout_sub_client_command (swap_sub_client_command x_csub)) = image s (layout_sub_client_command x_csub)
   \<and> image (other_sex s) (layout_prebound_dylib_command (swap_prebound_dylib_command x_pbdylib)) = image s (layout_prebound_dylib_command x_pbdylib)
   \<and> image (other_sex s) (layout_dylinker_command (swap_dylinker_command x_dyld)) = image s (layout_dylinker_command x_dyld)
   \<and> image (other_sex s) (layout_fvmfile_command (swap_fvmfile_command x_ff)) = image s (layout_fvmfile_command x_ff)
   \<and> image (other_sex s) (layout_thread_command (swap_thread_command x_ut)) = image s (layout_thread_command x_ut)
   \<and> image (other_sex s) (layout_ident_command (swap_ident_command x_id)) = image s (layout_ident_command x_id)
   \<and> image (other_sex s) (layout_routines_command (swap_routines_command x_rc)) = image s (layout_routines_command x_rc)
   \<and> image (other_sex s) (layout_routines_command_64 (swap_routines_command_64 x_rc64)) = image s (layout_routines_command_64 x_rc64)
   \<and> image (other_sex s) (layout_twolevel_hints_command (swap_twolevel_hints_command x_hints)) = image s (layout_twolevel_hints_command x_hints)
   \<and> image (other_sex s) (layout_prebind_cksum_command (swap_prebind_cksum_command x_cksum)) = image s (layout_prebind_cksum_command x_cksum)
   \<and> image (other_sex s) (layout_uuid_command (swap_uuid_command x_uuid)) = image s (layout_uuid_command x_uuid)
   \<and> image (other_sex s) (layout_linkedit_data_command (swap_linkedit_data_command x_ld)) = image s (layout_linkedit_data_command x_ld)
   \<and> image (other_sex s) (layout_rpath_command (swap_rpath_command x_rpath)) = image s (layout_rpath_command x_rpath)
   \<and> image (other_sex s) (layout_encryption_info_command (swap_encryption_command x_ec)) = image s (layout_encryption_info_command x_ec)
   \<and> image (other_sex s) (layout_linker_option_command (swap_linker_option_command x_lo)) = image s (layout_linker_option_command x_lo)
   \<and> image (other_sex s) (layout_dyld_info_command (swap_dyld_info_command x_ed)) = image s (layout_dyld_info_command x_ed)
   \<and> image (other_sex s) (layout_entry_point_command (swap_entry_point_command x_ep)) = image s (layout_entry_point_command x_ep)
   \<and> image (other_sex s) (layout_source_version_command (swap_source_version_command x_sv)) = image s (layout_source_version_command x_sv)
   \<and> image (other_sex s) (layout_nlist (swap_nlist_1 x_nl)) = image s (layout_nlist x_nl)
   \<and> image (other_sex s) (layout_nlist_64 (swap_nlist_64_1 x_nl64)) = image s (layout_nlist_64 x_nl64)
   \<and> image (other_sex s) (layout_ranlib (swap_ranlib_1 x_ran)) = image s (layout_ranlib x_ran)
   \<and> image (other_sex s) (layout_ranlib_64 (swap_ranlib_64_1 x_ran64)) = image s (layout_ranlib_64 x_ran64)
   \<and> image (other_sex s) (layout_dylib_module (swap_dylib_module_1 x_mod)) = image s (layout_dylib_module x_mod)
   \<and> image (other_sex s) (layout_dylib_table_of_contents (swap_dylib_table_of_contents_1 x_toc)) = image s (layout_dylib_table_of_contents x_toc)
   \<and> image (other_sex s) (layout_xar_header (swap_xar_header x_xar)) = image s (layout_xar_header x_xar)"
  by (intro conjI sw_fat_header.image_swapped sw_fat_arch.image_swapped sw_fat_arch_64.image_swapped
      sw_mach_header.image_swapped sw_mach_header_64.image_swapped
      sw_load_command.image_swapped sw_segment_command.image_swapped
      sw_segment_command_64.image_swapped sw_section.image_swapped
      sw_symtab_command.image_swapped sw_dysymtab_command.image_swapped
      sw_symseg_command.image_swapped sw_fvmlib_command.image_swapped
      sw_dylib_command.image_swapped sw_sub_framework_command.image_swapped
      sw_sub_umbrella_command.image_swapped sw_sub_library_command.image_swapped
      sw_sub_client_command.image_swapped sw_prebound_dylib_command.image_swapped
      sw_dylinker_command.image_swapped sw_fvmfile_command.image_swapped
      sw_thread_command.image_swapped sw_ident_command.image_swapped
      sw_routines_command.image_swapped sw_routines_command_64.image_swapped
      sw_twolevel_hints_command.image_swapped sw_prebind_cksum_command.image_swapped
      sw_uuid_command.image_swapped sw_linkedit_data_command.image_swapped
      sw_rpath_command.image_swapped sw_encryption_info_command.image_swapped
      sw_linker_option_command.image_swapped sw_dyld_info_command.image_swapped
      sw_entry_point_command.image_swapped sw_source_version_command.image_swapped
      sw_nlist.image_swapped sw_nlist_64.image_swapped sw_ranlib.image_swapped
      sw_ranlib_64.image_swapped sw_dylib_module.image_swapped
      sw_dylib_table_of_contents.image_swapped sw_xar_header.image_swapped)

text \<open>
  Swapping twice gives the structure back.
\<close>

theorem swap_twice:
  "swap_fat_header (swap_fat_header x_fh) = x_fh
   \<and> swap_fat_arch_1 (swap_fat_arch_1 x_fa) = x_fa
   \<and> swap_fat_arch_64_1 (swap_fat_arch_64_1 x_fa64) = x_fa64
   \<and> swap_mach_header (swap_mach_header x_mh) = x_mh
   \<and> swap_mach_header_64 (swap_mach_header_64 x_mh64) = x_mh64
   \<and> swap_load_command (swap_load_command x_lc) = x_lc
   \<and> swap_segment_command (swap_segment_command x_sg) = x_sg
   \<and> swap_segment_command_64 (swap_segment_command_64 x_sg64) = x_sg64
   \<and> swap_section_1 (swap_section_1 x_s) = x_s
   \<and> swap_symtab_command (swap_symtab_command x_st) = x_st
   \<and> swap_dysymtab_command (swap_dysymtab_command x_dyst) = x_dyst
   \<and> swap_symseg_command (swap_symseg_command x_ss) = x_ss
   \<and> swap_fvmlib_command (swap_fvmlib_command x_fl) = x_fl
   \<and> swap_dylib_command (swap_dylib_command x_dl) = x_dl
   \<and> swap_sub_framework_command (swap_sub_framework_command x_sub) = x_sub
   \<and> swap_sub_umbrella_command (swap_sub_umbrella_command x_usub) = x_usub
   \<and> swap_sub_library_command (swap_sub_library_command x_lsub) = x_lsub
   \<and> swap_sub_client_command (swap_sub_client_command x_csub) = x_csub
   \<and> swap_prebound_dylib_command (swap_prebound_dylib_command x_pbdylib) = x_pbdylib
   \<and> swap_dylinker_command (swap_dylinker_command x_dyld) = x_dyld
   \<and> swap_fvmfile_command (swap_fvmfile_command x_ff) = x_ff
   \<and> swap_thread_command (swap_thread_command x_ut) = x_ut
   \<and> swap_ident_command (swap_ident_command x_id) = x_id
   \<and> swap_routines_command (swap_routines_command x_rc) = x_rc
   \<and> swap_routines_command_64 (swap_routines_command_64 x_rc64) = x_rc64
   \<and> swap_twolevel_hints_command (swap_twolevel_hints_command x_hints) = x_hints
   \<and> swap_prebind_cksum_command (swap_prebind_cksum_command x_cksum) = x_cksum
   \<and> swap_uuid_command (swap_uuid_command x_uuid) = x_uuid
   \<and> swap_linkedit_data_command (swap_linkedit_data_command x_ld) = x_ld
   \<and> swap_rpath_command (swap_rpath_command x_rpath) = x_rpath
   \<and> swap_encryption_command (swap_encryption_command x_ec) = x_ec
   \<and> swap_linker_option_command (swap_linker_option_command x_lo) = x_lo
   \<and> swap_dyld_info_command (swap_dyld_info_command x_ed) = x_ed
   \<and> swap_entry_point_command (swap_entry_point_command x_ep) = x_ep
   \<and> swap_source_version_command (swap_source_version_command x_sv) = x_sv
   \<and> swap_nlist_1 (swap_nlist_1 x_nl) = x_nl
   \<and> swap_nlist_64_1 (swap_nlist_64_1 x_nl64) = x_nl64
   \<and> swap_ranlib_1 (swap_ranlib_1 x_ran) = x_ran
   \<and> swap_ranlib_64_1 (swap_ranlib_64_1 x_ran64) = x_ran64
   \<and> swap_dylib_module_1 (swap_dylib_module_1 x_mod) = x_mod
   \<and> swap_dylib_table_of_contents_1 (swap_dylib_table_of_contents_1 x_toc) = x_toc
   \<and> swap_xar_header (swap_xar_header x_xar) = x_xar"
  by (intro conjI sw_fat_header.swap_swap sw_fat_arch.swap_swap sw_fat_arch_64.swap_swap
      sw_mach_header.swap_swap sw_mach_header_64.swap_swap sw_load_command.swap_swap
      sw_segment_command.swap_swap sw_segment_command_64.swap_swap sw_section.swap_swap
      sw_symtab_command.swap_swap sw_dysymtab_command.swap_swap sw_symseg_command.swap_swap
      sw_fvmlib_command.swap_swap sw_dylib_command.swap_swap
      sw_sub_framework_command.swap_swap sw_sub_umbrella_command.swap_swap
      sw_sub_library_command.swap_swap sw_sub_client_command.swap_swap
      sw_prebound_dylib_command.swap_swap sw_dylinker_command.swap_swap
      sw_fvmfile_command.swap_swap sw_thread_command.swap_swap sw_ident_command.swap_swap
      sw_routines_command.swap_swap sw_routines_command_64.swap_swap
      sw_twolevel_hints_command.swap_swap sw_prebind_cksum_command.swap_swap
      sw_uuid_command.swap_swap sw_linkedit_data_command.swap_swap
      sw_rpath_command.swap_swap sw_encryption_info_command.swap_swap
      sw_linker_option_command.swap_swap sw_dyld_info_command.swap_swap
      sw_entry_point_command.swap_swap sw_source_version_command.swap_swap
      sw_nlist.swap_swap sw_nlist_64.swap_swap sw_ranlib.swap_swap sw_ranlib_64.swap_swap
      sw_dylib_module.swap_swap sw_dylib_table_of_contents.swap_swap sw_xar_header.swap_swap)

text \<open>
  A Mach-O header read from a file of the other byte sex, as the bytes say, and
  then swapped is the header that the file means.
\<close>

theorem mach_header_read:
  assumes "image (other_sex s) (layout_mach_header y) = image s (layout_mach_header x)"
  shows "swap_mach_header y = x"
  using assms by (rule sw_mach_header.swap_reads)

theorem mach_header_read_witness:
  "swap_mach_header \<lparr>mh_magic = 0xcefaedfe, mh_cputype = 0x12000000, mh_cpusubtype = 0,
      mh_filetype = 0x01000000, mh_ncmds = 0x04000000, mh_sizeofcmds = 0x70020000, mh_flags = 0\<rparr>
   = \<lparr>mh_magic = 0xfeedface, mh_cputype = 0x12, mh_cpusubtype = 0,
      mh_filetype = 1, mh_ncmds = 4, mh_sizeofcmds = 0x270, mh_flags = 0\<rparr>"
  by (rule mach_header_read [of BIG_ENDIAN_BYTE_SEX],
      unfold image_swap [of BIG_ENDIAN_BYTE_SEX, symmetric])
    (rule arg_cong [where f = "image _"], simp add: layout_mach_header_def SWAP_INT_def)

text \<open>
  Swapping the sections of a segment, in either direction, keeps what the other
  byte sex reads: the whole array has the bytes it had.
\<close>

theorem swap_section_array:
  "concat (map (\<lambda>x. image (other_sex s) (layout_section x)) (swap_section xs (length xs)))
     = concat (map (\<lambda>x. image s (layout_section x)) xs)
   \<and> swap_section (swap_section xs n) n = xs"
  unfolding swap_section_def
  by (intro conjI sw_section.array_swapped sw_section.array_swap_swap)

lemma half_of_SWAP_INT: "ucast (SWAP_INT (ucast (w :: u16))) = (0 :: u16)"
  by (rule bit_word_eqI) (auto simp: SWAP_INT_def byte_masks bit_simps dest: bit_imp_le_length)

lemma half_of_SWAP_LONG_LONG: "ucast (SWAP_LONG_LONG (ucast (w :: u32))) = (0 :: u32)"
proof (rule bit_word_eqI)
  fix k
  assume "k < LENGTH(32)"
  then have k: "k < 32" by simp
  have "\<not> bit (rev (le_bytes 8 (ucast w :: u64)) ! (k div 8)) (k mod 8)"
  proof -
    have "4 \<le> 7 - k div 8" "7 - k div 8 < 8" using k by auto
    then show ?thesis
      using k by (auto simp: rev_nth nth_le_bytes bit_simps dest: bit_imp_le_length)
  qed
  with k show "bit (ucast (SWAP_LONG_LONG (ucast w)) :: u32) k = bit (0 :: u32) k"
    by (simp add: SWAP_LONG_LONG_def bit_simps bit_of_le_bytes)
qed

text \<open>
  Swapping a data-in-code entry loses its length and its kind: both are set to
  zero, since these 16-bit fields are swapped with the macro for 32 bits and truncated.
\<close>

theorem swap_data_in_code_zeroes:
  "dice_length (swap_data_in_code_entry_1 x) = 0 \<and> dice_kind (swap_data_in_code_entry_1 x) = 0
   \<and> dice_offset (swap_data_in_code_entry_1 x) = SWAP_INT (dice_offset x)"
  by (simp add: swap_data_in_code_entry_1_def half_of_SWAP_INT)

text \<open>
  Swapping a 64-bit module table entry sets the size of its Objective-C module
  information to zero: that 32-bit field is swapped as a 64-bit one and truncated.
\<close>

theorem swap_dylib_module_64_zeroes:
  "mod64_objc_module_info_size (swap_dylib_module_64_1 x) = 0
   \<and> mod64_objc_module_info_addr (swap_dylib_module_64_1 x)
       = SWAP_LONG_LONG (mod64_objc_module_info_addr x)"
  by (simp add: swap_dylib_module_64_1_def half_of_SWAP_LONG_LONG)

text \<open>
  Swapping a 64-bit encryption command loses its \<open>cryptid\<close>, which becomes the
  swapped padding; the padding is not swapped. Commands that differ only in \<open>cryptid\<close> become
  equal.
\<close>

theorem swap_encryption_64_loses_cryptid:
  "ec64_cryptid (swap_encryption_command_64 x) = SWAP_INT (ec64_pad x)
   \<and> ec64_pad (swap_encryption_command_64 x) = ec64_pad x
   \<and> swap_encryption_command_64 (x\<lparr>ec64_cryptid := a\<rparr>)
       = swap_encryption_command_64 (x\<lparr>ec64_cryptid := b\<rparr>)"
  by (simp add: swap_encryption_command_64_def)

lemma image_eq_layout:
  "image s fs = image s gs \<longleftrightarrow> fs = gs" if "map field_size fs = map field_size gs"
  using that image_inj by blast

text \<open>
  The SDK version of a version command and the third reserved word of a 64-bit
  section are not swapped: the swapped structure has the right bytes in the other byte sex only
  if that field reads the same in both.
\<close>

theorem swap_forgets_sdk:
  "(image (other_sex s) (layout_version_min_command (swap_version_min_command v))
      = image s (layout_version_min_command v) \<longleftrightarrow> SWAP_INT (ver_sdk v) = ver_sdk v)
   \<and> (image (other_sex s) (layout_section_64 (swap_section_64_1 x))
      = image s (layout_section_64 x) \<longleftrightarrow> SWAP_INT (s64_reserved3 x) = s64_reserved3 x)"
proof
  show "image (other_sex s) (layout_version_min_command (swap_version_min_command v))
      = image s (layout_version_min_command v) \<longleftrightarrow> SWAP_INT (ver_sdk v) = ver_sdk v"
    unfolding image_swap [of s "layout_version_min_command v", symmetric]
    by (subst image_eq_layout)
      (auto simp: layout_version_min_command_def swap_version_min_command_def)
  show "image (other_sex s) (layout_section_64 (swap_section_64_1 x))
      = image s (layout_section_64 x) \<longleftrightarrow> SWAP_INT (s64_reserved3 x) = s64_reserved3 x"
    unfolding image_swap [of s "layout_section_64 x", symmetric]
    by (subst image_eq_layout) (auto simp: layout_section_64_def swap_section_64_1_def)
qed

lemma SWAP_inj:
  "SWAP_SHORT a = SWAP_SHORT b \<longleftrightarrow> a = b" "SWAP_INT c = SWAP_INT d \<longleftrightarrow> c = d"
  by (metis SWAP_SWAP)+

lemma SWAP_eq_0: "0 = SWAP_SHORT a \<longleftrightarrow> a = 0" "0 = SWAP_INT c \<longleftrightarrow> c = 0"
proof -
  have "SWAP_SHORT 0 = 0" "SWAP_INT 0 = 0" by (simp_all add: SWAP_SHORT_def SWAP_INT_def)
  then show "0 = SWAP_SHORT a \<longleftrightarrow> a = 0" "0 = SWAP_INT c \<longleftrightarrow> c = 0"
    by (metis SWAP_SWAP)+
qed

lemma data_in_code_kept:
  "image (other_sex s) (layout_data_in_code_entry (swap_data_in_code_entry_1 d))
     = image s (layout_data_in_code_entry d) \<longleftrightarrow> dice_length d = 0 \<and> dice_kind d = 0"
  unfolding image_swap [of s "layout_data_in_code_entry d", symmetric]
  by (subst image_eq_layout)
    (auto simp: layout_data_in_code_entry_def swap_data_in_code_entry_1_def half_of_SWAP_INT SWAP_eq_0)

lemma dylib_module_64_kept:
  "image (other_sex s) (layout_dylib_module_64 (swap_dylib_module_64_1 m))
     = image s (layout_dylib_module_64 m) \<longleftrightarrow> mod64_objc_module_info_size m = 0"
  unfolding image_swap [of s "layout_dylib_module_64 m", symmetric]
  by (subst image_eq_layout)
    (auto simp: layout_dylib_module_64_def swap_dylib_module_64_1_def half_of_SWAP_LONG_LONG SWAP_eq_0)

lemma encryption_64_kept:
  "image (other_sex s) (layout_encryption_info_command_64 (swap_encryption_command_64 e))
     = image s (layout_encryption_info_command_64 e)
   \<longleftrightarrow> ec64_cryptid e = ec64_pad e \<and> SWAP_INT (ec64_pad e) = ec64_pad e"
  unfolding image_swap [of s "layout_encryption_info_command_64 e", symmetric]
  by (subst image_eq_layout)
    (auto simp: layout_encryption_info_command_64_def swap_encryption_command_64_def SWAP_inj)

text \<open>
  Property C36. Five structures lose information when they are swapped. The swapped structure has,
  in the other byte sex, the bytes that the original had exactly in these cases: a data-in-code
  entry with length and kind zero, a 64-bit module entry without Objective-C information, a 64-bit
  encryption command whose \<open>cryptid\<close> is its padding and reads the same in both byte sexes, a
  version command whose \<open>sdk\<close> and a 64-bit section whose last reserved word reads the same in both.
\<close>

theorem swap_lossy_structures:
  "(image (other_sex s) (layout_data_in_code_entry (swap_data_in_code_entry_1 d))
      = image s (layout_data_in_code_entry d) \<longleftrightarrow> dice_length d = 0 \<and> dice_kind d = 0)
   \<and> (image (other_sex s) (layout_dylib_module_64 (swap_dylib_module_64_1 m))
      = image s (layout_dylib_module_64 m) \<longleftrightarrow> mod64_objc_module_info_size m = 0)
   \<and> (image (other_sex s) (layout_encryption_info_command_64 (swap_encryption_command_64 e))
      = image s (layout_encryption_info_command_64 e)
      \<longleftrightarrow> ec64_cryptid e = ec64_pad e \<and> SWAP_INT (ec64_pad e) = ec64_pad e)
   \<and> (image (other_sex s) (layout_version_min_command (swap_version_min_command v))
      = image s (layout_version_min_command v) \<longleftrightarrow> SWAP_INT (ver_sdk v) = ver_sdk v)
   \<and> (image (other_sex s) (layout_section_64 (swap_section_64_1 x))
      = image s (layout_section_64 x) \<longleftrightarrow> SWAP_INT (s64_reserved3 x) = s64_reserved3 x)"
  using data_in_code_kept dylib_module_64_kept encryption_64_kept swap_forgets_sdk by blast

end
