(* ===== verification/Bitfield_Swap.thy ===== *)
theory Bitfield_Swap
  imports Byte_Order
begin

text \<open>
  The swapping routines of \<open>libstuff/bytesex.c\<close> for structures with bit fields (relocation
  entries, references of a module, two-level namespace hints), and \<open>get_host_byte_sex\<close>. A
  compiler for a little-endian host allocates bit fields from the low end of a word, one for a
  big-endian host from the high end; the routines rely on that. The host is a parameter, and an
  entry is the 32-bit words the host reads from memory.
\<close>

section \<open>Bit fields\<close>

text \<open>The position of a field of some width before which a number of bits are declared.\<close>

definition field_pos :: "byte_sex \<Rightarrow> nat \<Rightarrow> nat \<Rightarrow> nat" where
  "field_pos h off width = (if h = BIG_ENDIAN_BYTE_SEX then 32 - off - width else off)"

definition get_bits :: "byte_sex \<Rightarrow> nat \<Rightarrow> nat \<Rightarrow> u32 \<Rightarrow> u32" where
  "get_bits h off width w = take_bit width (drop_bit (field_pos h off width) w)"

definition set_bits_at :: "nat \<Rightarrow> nat \<Rightarrow> u32 \<Rightarrow> u32 \<Rightarrow> u32" where
  "set_bits_at p width v w = (w AND NOT (push_bit p (mask width))) OR push_bit p (take_bit width v)"

definition set_bits :: "byte_sex \<Rightarrow> nat \<Rightarrow> nat \<Rightarrow> u32 \<Rightarrow> u32 \<Rightarrow> u32" where
  "set_bits h off width v w = set_bits_at (field_pos h off width) width v w"

definition get_host_byte_sex :: "byte_sex \<Rightarrow> byte_sex" where
  "get_host_byte_sex h =
     (let s = push_bit 24 1 OR 2; c = hd (enc_field h (F32 s))
      in if c = 1 then BIG_ENDIAN_BYTE_SEX else if c = 2 then LITTLE_ENDIAN_BYTE_SEX
         else UNKNOWN_BYTE_SEX)"

section \<open>Relocation entries\<close>

text \<open>
  The fields of \<open>struct relocation_info\<close>: the bits declared before each, and its width. In
  \<open>struct swapped_relocation_info\<close> they are declared in the opposite order.
\<close>

record relocation_info =
  r_address :: u32
  r_word :: u32

definition r_symbolnum :: "byte_sex \<Rightarrow> u32 \<Rightarrow> u32" where "r_symbolnum h w = get_bits h 0 24 w"
definition r_pcrel :: "byte_sex \<Rightarrow> u32 \<Rightarrow> u32" where "r_pcrel h w = get_bits h 24 1 w"
definition r_length :: "byte_sex \<Rightarrow> u32 \<Rightarrow> u32" where "r_length h w = get_bits h 25 2 w"
definition r_extern :: "byte_sex \<Rightarrow> u32 \<Rightarrow> u32" where "r_extern h w = get_bits h 27 1 w"
definition r_type :: "byte_sex \<Rightarrow> u32 \<Rightarrow> u32" where "r_type h w = get_bits h 28 4 w"

abbreviation (input) "R_SCATTERED \<equiv> (0x80000000 :: u32)"

definition set_relocation_fields :: "byte_sex \<Rightarrow> u32 \<Rightarrow> u32 \<Rightarrow> u32" where
  "set_relocation_fields h sw w =
     (let w = set_bits h 0 24 (get_bits h 8 24 sw) w;
          w = set_bits h 24 1 (get_bits h 7 1 sw) w;
          w = set_bits h 25 2 (get_bits h 5 2 sw) w;
          w = set_bits h 27 1 (get_bits h 4 1 sw) w
      in set_bits h 28 4 (get_bits h 0 4 sw) w)"

definition set_swapped_fields :: "byte_sex \<Rightarrow> u32 \<Rightarrow> u32 \<Rightarrow> u32" where
  "set_swapped_fields h w sw =
     (let sw = set_bits h 8 24 (r_symbolnum h w) sw;
          sw = set_bits h 5 2 (r_length h w) sw;
          sw = set_bits h 7 1 (r_pcrel h w) sw;
          sw = set_bits h 4 1 (r_extern h w) sw
      in set_bits h 0 4 (r_type h w) sw)"

text \<open>
  The loop body of \<open>swap_relocation_info\<close>. The buffer \<open>sr\<close>, whose fields cover its word, starts
  out with the word \<open>junk\<close>.
\<close>

definition swap_relocation_info_1 ::
    "byte_sex \<Rightarrow> byte_sex \<Rightarrow> u32 \<Rightarrow> relocation_info \<Rightarrow> relocation_info" where
  "swap_relocation_info_1 h target junk r =
     (let to_host = (target = h);
          scattered = ((if to_host then SWAP_INT (r_address r) else r_address r)
            AND R_SCATTERED \<noteq> 0)
      in if \<not> scattered then
           (if to_host
            then \<lparr>r_address = SWAP_INT (r_address r),
                  r_word = set_relocation_fields h (SWAP_INT (r_word r)) (r_word r)\<rparr>
            else \<lparr>r_address = SWAP_INT (r_address r),
                  r_word = SWAP_INT (set_swapped_fields h (r_word r) junk)\<rparr>)
         else \<lparr>r_address = SWAP_INT (r_address r), r_word = SWAP_INT (r_word r)\<rparr>)"

definition swap_relocation_info ::
    "byte_sex \<Rightarrow> byte_sex \<Rightarrow> u32 \<Rightarrow> relocation_info list \<Rightarrow> nat \<Rightarrow> relocation_info list" where
  "swap_relocation_info h target junk rs n = swap_array (swap_relocation_info_1 h target junk) rs n"

section \<open>References and hints\<close>

text \<open>\<open>struct dylib_reference\<close>: \<open>isym\<close>, then \<open>flags\<close>.\<close>

definition swap_dylib_reference_1 :: "byte_sex \<Rightarrow> byte_sex \<Rightarrow> u32 \<Rightarrow> u32 \<Rightarrow> u32" where
  "swap_dylib_reference_1 h target junk w =
     (if target = h
      then (let sw = SWAP_INT w; w = set_bits h 24 8 (get_bits h 0 8 sw) w
            in set_bits h 0 24 (get_bits h 8 24 sw) w)
      else (let sw = set_bits h 8 24 (get_bits h 0 24 w) junk;
                sw = set_bits h 0 8 (get_bits h 24 8 w) sw
            in SWAP_INT sw))"

definition swap_dylib_reference ::
    "byte_sex \<Rightarrow> byte_sex \<Rightarrow> u32 \<Rightarrow> u32 list \<Rightarrow> nat \<Rightarrow> u32 list" where
  "swap_dylib_reference h target junk ws n = swap_array (swap_dylib_reference_1 h target junk) ws n"

text \<open>\<open>struct twolevel_hint\<close>: \<open>isub_image\<close>, then \<open>itoc\<close>.\<close>

definition swap_twolevel_hint_1 :: "byte_sex \<Rightarrow> byte_sex \<Rightarrow> u32 \<Rightarrow> u32 \<Rightarrow> u32" where
  "swap_twolevel_hint_1 h target junk w =
     (if target = h
      then (let sw = SWAP_INT w; w = set_bits h 8 24 (get_bits h 0 24 sw) w
            in set_bits h 0 8 (get_bits h 24 8 sw) w)
      else (let sw = set_bits h 24 8 (get_bits h 0 8 w) junk;
                sw = set_bits h 0 24 (get_bits h 8 24 w) sw
            in SWAP_INT sw))"

definition swap_twolevel_hint ::
    "byte_sex \<Rightarrow> byte_sex \<Rightarrow> u32 \<Rightarrow> u32 list \<Rightarrow> nat \<Rightarrow> u32 list" where
  "swap_twolevel_hint h target junk ws n = swap_array (swap_twolevel_hint_1 h target junk) ws n"

section \<open>Reading back bit fields\<close>

lemma get_set_bits_at:
  "p + width \<le> 32 \<Longrightarrow> take_bit width (drop_bit p (set_bits_at p width v w)) = take_bit width v"
  by (rule bit_word_eqI) (auto simp: set_bits_at_def bit_simps)

lemma get_set_bits_at_other:
  "p + width \<le> q \<or> q + n \<le> p \<Longrightarrow>
     take_bit n (drop_bit q (set_bits_at p width v w)) = take_bit n (drop_bit q w)"
  by (rule bit_word_eqI) (auto simp: set_bits_at_def bit_simps dest: bit_imp_le_length)

lemma field_pos_simps:
  "h \<noteq> BIG_ENDIAN_BYTE_SEX \<Longrightarrow> field_pos h off width = off"
  "field_pos BIG_ENDIAN_BYTE_SEX off width = 32 - off - width"
  by (simp_all add: field_pos_def)

lemma get_set_bits:
  "off + width \<le> 32 \<Longrightarrow> get_bits h off width (set_bits h off width v w) = take_bit width v"
  unfolding get_bits_def set_bits_def by (rule get_set_bits_at) (simp add: field_pos_def)

lemma get_set_bits_other:
  "off + width \<le> 32 \<Longrightarrow> off' + n \<le> 32 \<Longrightarrow> off + width \<le> off' \<or> off' + n \<le> off \<Longrightarrow>
     get_bits h off' n (set_bits h off width v w) = get_bits h off' n w"
  unfolding get_bits_def set_bits_def
  by (rule get_set_bits_at_other) (auto simp: field_pos_def)

lemma take_bit_get_bits [simp]: "take_bit width (get_bits h off width w) = get_bits h off width w"
  by (simp add: get_bits_def)

lemma bit_get_bits:
  "j < width \<Longrightarrow> bit (get_bits h off width w) j = bit w (field_pos h off width + j)"
  by (auto simp: get_bits_def bit_simps dest: bit_imp_le_length)

text \<open>A range of bits that agrees in two words.\<close>

lemma get_bits_eqD:
  assumes "get_bits h off width v = get_bits h off width w"
    and "field_pos h off width \<le> k" and "k < field_pos h off width + width"
  shows "bit v k = bit w k"
proof -
  from assms(2,3) have "k - field_pos h off width < width" by simp
  from bit_get_bits [OF this, of h off v] bit_get_bits [OF this, of h off w] assms
  show ?thesis by simp
qed

lemma get_bits_other_sex:
  "h \<noteq> UNKNOWN_BYTE_SEX \<Longrightarrow> off + width \<le> 32 \<Longrightarrow>
     get_bits (other_sex h) off width w = get_bits h (32 - off - width) width w"
  by (cases h) (simp_all add: get_bits_def field_pos_def other_sex_def)

lemmas get_set_simps = get_set_bits get_set_bits_other

text \<open>A word is its fields, in either order of declaration.\<close>

lemma fields_cover:
  assumes "\<And>k. k < 32 \<Longrightarrow> \<exists>(off, width) \<in> set fs.
      field_pos h off width \<le> k \<and> k < field_pos h off width + width"
    and "\<And>off width. (off, width) \<in> set fs \<Longrightarrow> get_bits h off width v = get_bits h off width w"
  shows "v = w"
proof (rule bit_word_eqI)
  fix k
  assume "k < LENGTH(32)"
  then have "k < 32" by simp
  from assms(1) [OF this] obtain off width where "(off, width) \<in> set fs"
    "field_pos h off width \<le> k" "k < field_pos h off width + width" by blast
  with assms(2) [OF this(1)] show "bit v k = bit w k" by (intro get_bits_eqD)
qed

lemma relocation_word_eqI:
  assumes "get_bits h 0 24 v = get_bits h 0 24 w" "get_bits h 24 1 v = get_bits h 24 1 w"
    "get_bits h 25 2 v = get_bits h 25 2 w" "get_bits h 27 1 v = get_bits h 27 1 w"
    "get_bits h 28 4 v = get_bits h 28 4 w"
  shows "v = w"
  by (rule fields_cover [of "[(0, 24), (24, 1), (25, 2), (27, 1), (28, 4)]" h])
    (use assms in \<open>auto simp: field_pos_def\<close>)

lemma swapped_word_eqI:
  assumes "get_bits h 8 24 v = get_bits h 8 24 w" "get_bits h 7 1 v = get_bits h 7 1 w"
    "get_bits h 5 2 v = get_bits h 5 2 w" "get_bits h 4 1 v = get_bits h 4 1 w"
    "get_bits h 0 4 v = get_bits h 0 4 w"
  shows "v = w"
  by (rule fields_cover [of "[(8, 24), (7, 1), (5, 2), (4, 1), (0, 4)]" h])
    (use assms in \<open>auto simp: field_pos_def\<close>)

lemma reference_word_eqI:
  assumes "get_bits h 0 24 v = get_bits h 0 24 w" "get_bits h 24 8 v = get_bits h 24 8 w"
  shows "v = w"
  by (rule fields_cover [of "[(0, 24), (24, 8)]" h]) (use assms in \<open>auto simp: field_pos_def\<close>)

lemma hint_word_eqI:
  assumes "get_bits h 0 8 v = get_bits h 0 8 w" "get_bits h 8 24 v = get_bits h 8 24 w"
  shows "v = w"
  by (rule fields_cover [of "[(0, 8), (8, 24)]" h]) (use assms in \<open>auto simp: field_pos_def\<close>)

lemma set_relocation_fields_simps:
  "get_bits h 0 24 (set_relocation_fields h sw w) = get_bits h 8 24 sw"
  "get_bits h 24 1 (set_relocation_fields h sw w) = get_bits h 7 1 sw"
  "get_bits h 25 2 (set_relocation_fields h sw w) = get_bits h 5 2 sw"
  "get_bits h 27 1 (set_relocation_fields h sw w) = get_bits h 4 1 sw"
  "get_bits h 28 4 (set_relocation_fields h sw w) = get_bits h 0 4 sw"
  by (simp_all add: set_relocation_fields_def get_set_simps Let_def del: One_nat_def)

lemma set_swapped_fields_simps:
  "get_bits h 8 24 (set_swapped_fields h w sw) = get_bits h 0 24 w"
  "get_bits h 7 1 (set_swapped_fields h w sw) = get_bits h 24 1 w"
  "get_bits h 5 2 (set_swapped_fields h w sw) = get_bits h 25 2 w"
  "get_bits h 4 1 (set_swapped_fields h w sw) = get_bits h 27 1 w"
  "get_bits h 0 4 (set_swapped_fields h w sw) = get_bits h 28 4 w"
  by (simp_all add: set_swapped_fields_def r_symbolnum_def r_pcrel_def r_length_def
      r_extern_def r_type_def get_set_simps Let_def del: One_nat_def)

lemma relocation_there_and_back:
  "set_relocation_fields h (set_swapped_fields h w junk) w' = w"
  "set_swapped_fields h (set_relocation_fields h sw w') junk = sw"
proof -
  show "set_relocation_fields h (set_swapped_fields h w junk) w' = w"
    by (rule relocation_word_eqI [of h])
      (simp_all add: set_relocation_fields_simps set_swapped_fields_simps del: One_nat_def)
  show "set_swapped_fields h (set_relocation_fields h sw w') junk = sw"
    by (rule swapped_word_eqI [of h])
      (simp_all add: set_relocation_fields_simps set_swapped_fields_simps del: One_nat_def)
qed

section \<open>Properties\<close>

text \<open>
  \<open>get_host_byte_sex\<close> is right: on a host of either byte sex it returns that byte
  sex.
\<close>

theorem get_host_byte_sex_right:
  assumes "h \<noteq> UNKNOWN_BYTE_SEX"
  shows "get_host_byte_sex h = h"
proof -
  have "le_bytes 4 (push_bit 24 1 OR 2 :: u32) = [2, 0, 0, 1]"
    by (simp add: le_bytes_def upt_rec)
  with assms show ?thesis by (cases h) (simp_all add: get_host_byte_sex_def)
qed

theorem get_host_byte_sex_right_witness:
  "get_host_byte_sex LITTLE_ENDIAN_BYTE_SEX = LITTLE_ENDIAN_BYTE_SEX"
  by (rule get_host_byte_sex_right) simp

text \<open>
  Property C25. A relocation entry that is not scattered, read by a host from a file of the other
  byte sex and swapped to the host's, has the address and the fields that a host of the file's
  byte sex reads from the same bytes.
\<close>

theorem swap_relocation_reads:
  assumes "h \<noteq> UNKNOWN_BYTE_SEX" and "SWAP_INT (r_address r) AND R_SCATTERED = 0"
  shows "let r' = swap_relocation_info_1 h h junk r; o' = other_sex h; w = SWAP_INT (r_word r) in
    r_address r' = SWAP_INT (r_address r)
    \<and> r_symbolnum h (r_word r') = r_symbolnum o' w \<and> r_pcrel h (r_word r') = r_pcrel o' w
    \<and> r_length h (r_word r') = r_length o' w \<and> r_extern h (r_word r') = r_extern o' w
    \<and> r_type h (r_word r') = r_type o' w"
  using assms by (simp add: swap_relocation_info_1_def r_symbolnum_def r_pcrel_def r_length_def
      r_extern_def r_type_def set_relocation_fields_simps get_bits_other_sex Let_def
      del: One_nat_def)

theorem swap_relocation_reads_witness:
  "r_type LITTLE_ENDIAN_BYTE_SEX (r_word (swap_relocation_info_1 LITTLE_ENDIAN_BYTE_SEX
      LITTLE_ENDIAN_BYTE_SEX 0 \<lparr>r_address = 0x10000000, r_word = 0x4A030000\<rparr>))
   = r_type BIG_ENDIAN_BYTE_SEX (SWAP_INT 0x4A030000)"
  using swap_relocation_reads [of LITTLE_ENDIAN_BYTE_SEX
      "\<lparr>r_address = 0x10000000, r_word = 0x4A030000\<rparr>" 0]
  by (simp add: Let_def other_sex_def SWAP_INT_def)

text \<open>
  Swapping relocation entries to a target and back to the host, or the other way
  round, gives them back, whether scattered or not and whatever the buffer held before.
\<close>

theorem swap_relocation_roundtrip:
  assumes "t \<noteq> h"
  shows "swap_relocation_info_1 h h junk' (swap_relocation_info_1 h t junk r) = r
    \<and> swap_relocation_info_1 h t junk' (swap_relocation_info_1 h h junk r) = r"
  using assms
  by (cases r) (simp add: swap_relocation_info_1_def relocation_there_and_back Let_def)

theorem swap_relocation_roundtrip_witness:
  "swap_relocation_info_1 LITTLE_ENDIAN_BYTE_SEX LITTLE_ENDIAN_BYTE_SEX 0
     (swap_relocation_info_1 LITTLE_ENDIAN_BYTE_SEX BIG_ENDIAN_BYTE_SEX 0
        \<lparr>r_address = 16, r_word = 0x34\<rparr>) = \<lparr>r_address = 16, r_word = 0x34\<rparr>"
  using swap_relocation_roundtrip [of BIG_ENDIAN_BYTE_SEX LITTLE_ENDIAN_BYTE_SEX 0 0
      "\<lparr>r_address = 16, r_word = 0x34\<rparr>"] by simp

lemma reference_there_and_back:
  "set_bits h 0 24 (get_bits h 0 24 w) (set_bits h 24 8 (get_bits h 24 8 w) x) = w"
  "set_bits h 0 8 (get_bits h 0 8 w) (set_bits h 8 24 (get_bits h 8 24 w) x) = w"
proof -
  show "set_bits h 0 24 (get_bits h 0 24 w) (set_bits h 24 8 (get_bits h 24 8 w) x) = w"
    by (rule reference_word_eqI [of h]) (simp_all add: get_set_simps)
  show "set_bits h 0 8 (get_bits h 0 8 w) (set_bits h 8 24 (get_bits h 8 24 w) x) = w"
    by (rule hint_word_eqI [of h]) (simp_all add: get_set_simps)
qed

text \<open>
  The references of a module and the two-level namespace hints survive a swap to a
  target and back, in both directions.
\<close>

theorem swap_reference_roundtrip:
  assumes "t \<noteq> h"
  shows "swap_dylib_reference_1 h h j' (swap_dylib_reference_1 h t j w) = w
    \<and> swap_dylib_reference_1 h t j' (swap_dylib_reference_1 h h j w) = w
    \<and> swap_twolevel_hint_1 h h j' (swap_twolevel_hint_1 h t j w) = w
    \<and> swap_twolevel_hint_1 h t j' (swap_twolevel_hint_1 h h j w) = w"
proof -
  have inj: "SWAP_INT v = w \<longleftrightarrow> v = SWAP_INT w" for v w by auto
  show ?thesis
    using assms unfolding swap_dylib_reference_1_def swap_twolevel_hint_1_def Let_def
    by (simp add: inj reference_there_and_back get_set_simps)
qed

theorem swap_reference_roundtrip_witness:
  "swap_dylib_reference_1 LITTLE_ENDIAN_BYTE_SEX LITTLE_ENDIAN_BYTE_SEX 0
     (swap_dylib_reference_1 LITTLE_ENDIAN_BYTE_SEX BIG_ENDIAN_BYTE_SEX 0 0x1234) = 0x1234"
  using swap_reference_roundtrip [of BIG_ENDIAN_BYTE_SEX LITTLE_ENDIAN_BYTE_SEX 0 0 "0x1234"]
  by simp

end
