(* ===== verification/Checkout.thy ===== *)
theory Checkout
  imports Macho_Structs
begin

text \<open>
  \<open>libstuff/checkout.c\<close>: whether the symbolic information of an object file is in an order that
  the tools can rewrite. \<open>check_object\<close> collects the load commands into the object,
  \<open>dyld_order\<close> checks that the tables of the link edit segment follow one another and fill the
  file, \<open>symbol_string_at_end\<close> that the symbol and string tables end it. A call of \<open>fatal_arch\<close>,
  which does not return, is an error value; reading a field through a null pointer is the error
  \<open>Null_dereference\<close>. Integers have the widths of an LP64 host: a sum of \<open>uint32_t\<close> wraps, a
  product with \<open>sizeof\<close> is 64 bits wide and is truncated when it is stored.
\<close>

section \<open>Errors\<close>

datatype check_error =
    Malformed string
  | Not_processable string
  | Out_of_place string
  | Null_dereference

type_synonym 'a checked = "check_error + 'a"

definition and_then :: "'a checked \<Rightarrow> ('a \<Rightarrow> 'b checked) \<Rightarrow> 'b checked" where
  "and_then r f = (case r of Inl e \<Rightarrow> Inl e | Inr x \<Rightarrow> f x)"

definition fatal_if :: "bool \<Rightarrow> check_error \<Rightarrow> unit checked" where
  "fatal_if b e = (if b then Inl e else Inr ())"

definition deref :: "'a option \<Rightarrow> 'a checked" where
  "deref p = (case p of None \<Rightarrow> Inl Null_dereference | Some x \<Rightarrow> Inr x)"

lemma and_then_simps [simp]: "and_then (Inr x) f = f x" "and_then (Inl e) f = Inl e"
  by (simp_all add: and_then_def)

lemma and_then_eq_Inr: "and_then r f = Inr y \<longleftrightarrow> (\<exists>x. r = Inr x \<and> f x = Inr y)"
  by (cases r) simp_all

lemma fatal_if_eq_Inr [simp]: "fatal_if b e = Inr u \<longleftrightarrow> \<not> b"
  by (simp add: fatal_if_def)

lemma deref_eq_Inr [simp]: "deref p = Inr x \<longleftrightarrow> p = Some x"
  by (cases p) (auto simp: deref_def)

section \<open>Objects\<close>

text \<open>A load command, as the tests of \<open>lc->cmd\<close> tell what it is.\<close>

datatype command =
    LC_SYMTAB symtab_command
  | LC_DYSYMTAB dysymtab_command
  | LC_TWOLEVEL_HINTS twolevel_hints_command
  | LC_CODE_SIGNATURE linkedit_data_command
  | LC_SEGMENT_SPLIT_INFO linkedit_data_command
  | LC_FUNCTION_STARTS linkedit_data_command
  | LC_DATA_IN_CODE linkedit_data_command
  | LC_DYLIB_CODE_SIGN_DRS linkedit_data_command
  | LC_LINKER_OPTIMIZATION_HINT linkedit_data_command
  | LC_DYLD_INFO dyld_info_command
  | LC_SEGMENT segment_command
  | LC_SEGMENT_64 segment_command_64
  | LC_ID_DYLIB dylib_command
  | LC_OTHER load_command

text \<open>The fields of \<open>struct object\<close> that the checks read or set.\<close>

record object =
  ob_size :: u32
  ob_mh :: "mach_header option"
  ob_mh64 :: "mach_header_64 option"
  ob_filetype :: u32
  ob_load_commands :: "command list"
  ob_st :: "symtab_command option"
  ob_dyst :: "dysymtab_command option"
  ob_hints_cmd :: "twolevel_hints_command option"
  ob_seg_bitcode :: "segment_command option"
  ob_seg_bitcode64 :: "segment_command_64 option"
  ob_seg_linkedit :: "segment_command option"
  ob_seg_linkedit64 :: "segment_command_64 option"
  ob_code_sig_cmd :: "linkedit_data_command option"
  ob_split_info_cmd :: "linkedit_data_command option"
  ob_func_starts_info_cmd :: "linkedit_data_command option"
  ob_data_in_code_cmd :: "linkedit_data_command option"
  ob_code_sign_drs_cmd :: "linkedit_data_command option"
  ob_link_opt_hint_cmd :: "linkedit_data_command option"
  ob_dyld_info :: "dyld_info_command option"
  ob_indirectsym_pad :: u32

abbreviation (input) "MH_DYLIB \<equiv> (6 :: u32)"
abbreviation (input) "MH_DYLIB_STUB \<equiv> (9 :: u32)"
abbreviation (input) "MH_DYLDLINK \<equiv> (4 :: u32)"
abbreviation (input) "SG_FVMLIB \<equiv> (2 :: u32)"

text \<open>\<open>rnd\<close> of \<open>libstuff/rnd.c\<close>, and its result stored in a \<open>uint32_t\<close>.\<close>

definition rnd :: "u64 \<Rightarrow> u64 \<Rightarrow> u64" where
  "rnd v r = (v + (r - 1)) AND NOT (r - 1)"

definition rnd32 :: "u32 \<Rightarrow> u64 \<Rightarrow> u32" where
  "rnd32 v r = ucast (rnd (ucast v) r)"

section \<open>Collecting the load commands\<close>

abbreviation (input) more_than_one :: "string \<Rightarrow> check_error" where
  "more_than_one s \<equiv> Malformed (''more than one '' @ s)"

definition scan_segment :: "segment_command \<Rightarrow> object \<Rightarrow> object checked" where
  "scan_segment sg ob =
     (if name16 (sg_segname sg) = ''__LINKEDIT''
      then and_then (fatal_if (ob_seg_linkedit ob \<noteq> None) (more_than_one ''__LINKEDIT segment''))
        (\<lambda>_. Inr (ob\<lparr>ob_seg_linkedit := Some sg\<rparr>))
      else if name16 (sg_segname sg) = ''__LLVM''
      then and_then (fatal_if (ob_seg_bitcode ob \<noteq> None) (more_than_one ''__LLVM segment''))
        (\<lambda>_. Inr (ob\<lparr>ob_seg_bitcode := Some sg\<rparr>))
      else Inr ob)"

definition scan_segment_64 :: "segment_command_64 \<Rightarrow> object \<Rightarrow> object checked" where
  "scan_segment_64 sg ob =
     (if name16 (sg64_segname sg) = ''__LINKEDIT''
      then and_then (fatal_if (ob_seg_linkedit64 ob \<noteq> None) (more_than_one ''__LINKEDIT segment''))
        (\<lambda>_. Inr (ob\<lparr>ob_seg_linkedit64 := Some sg\<rparr>))
      else if name16 (sg64_segname sg) = ''__LLVM''
      then and_then (fatal_if (ob_seg_bitcode64 ob \<noteq> None) (more_than_one ''__LLVM segment''))
        (\<lambda>_. Inr (ob\<lparr>ob_seg_bitcode64 := Some sg\<rparr>))
      else Inr ob)"

fun scan_command ::
    "command \<Rightarrow> object \<times> dylib_command option \<Rightarrow> (object \<times> dylib_command option) checked" where
  "scan_command (LC_SYMTAB c) (ob, dl) =
     and_then (fatal_if (ob_st ob \<noteq> None) (more_than_one ''LC_SYMTAB''))
       (\<lambda>_. Inr (ob\<lparr>ob_st := Some c\<rparr>, dl))"
| "scan_command (LC_DYSYMTAB c) (ob, dl) =
     and_then (fatal_if (ob_dyst ob \<noteq> None) (more_than_one ''LC_DYSYMTAB''))
       (\<lambda>_. Inr (ob\<lparr>ob_dyst := Some c\<rparr>, dl))"
| "scan_command (LC_TWOLEVEL_HINTS c) (ob, dl) =
     and_then (fatal_if (ob_hints_cmd ob \<noteq> None) (more_than_one ''LC_TWOLEVEL_HINTS''))
       (\<lambda>_. Inr (ob\<lparr>ob_hints_cmd := Some c\<rparr>, dl))"
| "scan_command (LC_CODE_SIGNATURE c) (ob, dl) =
     and_then (fatal_if (ob_code_sig_cmd ob \<noteq> None) (more_than_one ''LC_CODE_SIGNATURE''))
       (\<lambda>_. Inr (ob\<lparr>ob_code_sig_cmd := Some c\<rparr>, dl))"
| "scan_command (LC_SEGMENT_SPLIT_INFO c) (ob, dl) =
     and_then (fatal_if (ob_split_info_cmd ob \<noteq> None) (more_than_one ''LC_SEGMENT_SPLIT_INFO''))
       (\<lambda>_. Inr (ob\<lparr>ob_split_info_cmd := Some c\<rparr>, dl))"
| "scan_command (LC_FUNCTION_STARTS c) (ob, dl) =
     and_then (fatal_if (ob_func_starts_info_cmd ob \<noteq> None) (more_than_one ''LC_FUNCTION_STARTS''))
       (\<lambda>_. Inr (ob\<lparr>ob_func_starts_info_cmd := Some c\<rparr>, dl))"
| "scan_command (LC_DATA_IN_CODE c) (ob, dl) =
     and_then (fatal_if (ob_data_in_code_cmd ob \<noteq> None) (more_than_one ''LC_DATA_IN_CODE''))
       (\<lambda>_. Inr (ob\<lparr>ob_data_in_code_cmd := Some c\<rparr>, dl))"
| "scan_command (LC_DYLIB_CODE_SIGN_DRS c) (ob, dl) =
     and_then (fatal_if (ob_code_sign_drs_cmd ob \<noteq> None) (more_than_one ''LC_DYLIB_CODE_SIGN_DRS''))
       (\<lambda>_. Inr (ob\<lparr>ob_code_sign_drs_cmd := Some c\<rparr>, dl))"
| "scan_command (LC_LINKER_OPTIMIZATION_HINT c) (ob, dl) =
     and_then (fatal_if (ob_link_opt_hint_cmd ob \<noteq> None)
         (more_than_one ''LC_LINKER_OPTIMIZATION_HINT''))
       (\<lambda>_. Inr (ob\<lparr>ob_link_opt_hint_cmd := Some c\<rparr>, dl))"
| "scan_command (LC_DYLD_INFO c) (ob, dl) =
     and_then (fatal_if (ob_dyld_info ob \<noteq> None) (more_than_one ''LC_DYLD_INFO''))
       (\<lambda>_. Inr (ob\<lparr>ob_dyld_info := Some c\<rparr>, dl))"
| "scan_command (LC_SEGMENT c) (ob, dl) =
     and_then (scan_segment c ob) (\<lambda>ob. Inr (ob, dl))"
| "scan_command (LC_SEGMENT_64 c) (ob, dl) =
     and_then (scan_segment_64 c ob) (\<lambda>ob. Inr (ob, dl))"
| "scan_command (LC_ID_DYLIB c) (ob, dl) =
     and_then (fatal_if (dl \<noteq> None) (more_than_one ''LC_ID_DYLIB'')) (\<lambda>_.
     and_then (fatal_if (dl_dylib_name_offset c \<ge> dl_cmdsize c)
         (Malformed ''name.offset extends past the end of the load command''))
       (\<lambda>_. Inr (ob, Some c)))"
| "scan_command (LC_OTHER c) (ob, dl) = Inr (ob, dl)"

primrec scan_commands ::
    "command list \<Rightarrow> object \<times> dylib_command option \<Rightarrow> (object \<times> dylib_command option) checked" where
  "scan_commands [] s = Inr s"
| "scan_commands (c # cs) s = and_then (scan_command c s) (scan_commands cs)"

section \<open>Files for the dynamic linker\<close>

text \<open>The start of the link edit segment, with the checks of the segments at the end.\<close>

abbreviation (input) "sizeof_xar_header \<equiv> 28"

definition linkedit_start_32 :: "object \<Rightarrow> u32 checked" where
  "linkedit_start_32 ob =
     (case ob_seg_linkedit ob of
        None \<Rightarrow> Inl (Malformed ''no __LINKEDIT segment'')
      | Some sg \<Rightarrow>
          and_then (fatal_if (sg_filesize sg \<noteq> 0 \<and> sg_fileoff sg + sg_filesize sg \<noteq> ob_size ob)
            (Not_processable ''__LINKEDIT does not cover the end of the file'')) (\<lambda>_.
          case ob_seg_bitcode ob of
            None \<Rightarrow> Inr (sg_fileoff sg)
          | Some bc \<Rightarrow>
              and_then (fatal_if (sg_filesize bc < sizeof_xar_header)
                (Not_processable ''__LLVM segment too small'')) (\<lambda>_.
              and_then (fatal_if (sg_fileoff bc + sg_filesize bc \<noteq> sg_fileoff sg)
                (Not_processable ''__LLVM segment not directly before __LINKEDIT'')) (\<lambda>_.
              and_then (fatal_if (sg_vmaddr bc + sg_vmsize bc \<noteq> sg_vmaddr sg)
                (Not_processable ''__LLVM vmaddr not directly before __LINKEDIT''))
              (\<lambda>_. Inr (sg_fileoff sg))))))"

definition linkedit_start_64 :: "object \<Rightarrow> u32 checked" where
  "linkedit_start_64 ob =
     (case ob_seg_linkedit64 ob of
        None \<Rightarrow> Inl (Malformed ''no __LINKEDIT segment'')
      | Some sg \<Rightarrow>
          and_then (fatal_if (sg64_filesize sg \<noteq> 0
              \<and> sg64_fileoff sg + sg64_filesize sg \<noteq> ucast (ob_size ob))
            (Not_processable ''__LINKEDIT does not cover the end of the file'')) (\<lambda>_.
          let offset = ucast (sg64_fileoff sg) :: u32 in
          case ob_seg_bitcode64 ob of
            None \<Rightarrow> Inr offset
          | Some bc \<Rightarrow>
              and_then (fatal_if (sg64_filesize bc < sizeof_xar_header)
                (Not_processable ''__LLVM segment too small'')) (\<lambda>_.
              and_then (fatal_if (sg64_fileoff bc + sg64_filesize bc \<noteq> ucast offset)
                (Not_processable ''__LLVM segment not directly before __LINKEDIT'')) (\<lambda>_.
              and_then (fatal_if (sg64_vmaddr bc + sg64_vmsize bc \<noteq> sg64_vmaddr sg)
                (Not_processable ''__LLVM vmaddr not directly before __LINKEDIT''))
              (\<lambda>_. Inr offset)))))"

definition linkedit_start :: "object \<Rightarrow> u32 checked" where
  "linkedit_start ob = (if ob_mh ob \<noteq> None then linkedit_start_32 ob else linkedit_start_64 ob)"

definition after_dyld_info :: "object \<Rightarrow> u32 \<Rightarrow> u32 checked" where
  "after_dyld_info ob offset =
     (case ob_dyld_info ob of
        None \<Rightarrow> Inr offset
      | Some ed \<Rightarrow>
          and_then
            (fatal_if
               (if ed_rebase_off ed \<noteq> 0 then ed_rebase_off ed \<noteq> offset
                else if ed_bind_off ed \<noteq> 0 then ed_bind_off ed \<noteq> offset
                else if ed_export_off ed \<noteq> 0
                then ed_export_off ed \<noteq> offset \<and> ed_weak_bind_size ed \<noteq> 0
                  \<and> ed_lazy_bind_size ed \<noteq> 0
                else False)
               (Out_of_place ''dyld_info'')) (\<lambda>_.
          Inr
            (if ed_export_size ed \<noteq> 0 then ed_export_off ed + ed_export_size ed
             else if ed_lazy_bind_size ed \<noteq> 0 then ed_lazy_bind_off ed + ed_lazy_bind_size ed
             else if ed_weak_bind_size ed \<noteq> 0 then ed_weak_bind_off ed + ed_weak_bind_size ed
             else if ed_bind_size ed \<noteq> 0 then ed_bind_off ed + ed_bind_size ed
             else if ed_rebase_size ed \<noteq> 0 then ed_rebase_off ed + ed_rebase_size ed
             else offset)))"

text \<open>A table of \<open>n\<close> entries of some size, which is checked when it has entries.\<close>

definition place_table :: "string \<Rightarrow> u32 \<Rightarrow> u32 \<Rightarrow> u32 \<Rightarrow> u32 \<Rightarrow> u32 checked" where
  "place_table reason n toff bytes offset =
     (if n \<noteq> 0
      then and_then (fatal_if (toff \<noteq> offset) (Out_of_place reason)) (\<lambda>_. Inr (offset + n * bytes))
      else Inr offset)"

text \<open>The data of a \<open>linkedit_data_command\<close>, which is checked when it has an offset.\<close>

definition place_data ::
    "string \<Rightarrow> linkedit_data_command option \<Rightarrow> u32 \<Rightarrow> u32 checked" where
  "place_data reason cmd offset =
     (case cmd of
        None \<Rightarrow> Inr offset
      | Some ld \<Rightarrow>
          and_then (fatal_if (ld_dataoff ld \<noteq> 0 \<and> ld_dataoff ld \<noteq> offset) (Out_of_place reason))
            (\<lambda>_. Inr (offset + ld_datasize ld)))"

definition place_linkedit_data :: "object \<Rightarrow> u32 \<Rightarrow> u32 checked" where
  "place_linkedit_data ob offset =
     and_then (place_data ''split info data'' (ob_split_info_cmd ob) offset) (\<lambda>offset.
     and_then (place_data ''function starts data'' (ob_func_starts_info_cmd ob) offset) (\<lambda>offset.
     and_then (place_data ''data in code info'' (ob_data_in_code_cmd ob) offset) (\<lambda>offset.
     and_then (place_data ''code signing DRs info'' (ob_code_sign_drs_cmd ob) offset) (\<lambda>offset.
     place_data ''linker optimization hint info'' (ob_link_opt_hint_cmd ob) offset))))"

definition sizeof_nlist :: "object \<Rightarrow> u32" where
  "sizeof_nlist ob = (if ob_mh ob \<noteq> None then 12 else 16)"

definition place_symbols :: "object \<Rightarrow> u32 \<Rightarrow> u32 checked" where
  "place_symbols ob offset =
     and_then (deref (ob_st ob)) (\<lambda>st.
     place_table ''symbol table'' (st_nsyms st) (st_symoff st) (sizeof_nlist ob) offset)"

definition check_symbol_groups :: "dysymtab_command \<Rightarrow> unit checked" where
  "check_symbol_groups dyst =
     and_then (place_table ''local symbols'' (dyst_nlocalsym dyst) (dyst_ilocalsym dyst) 1 0) (\<lambda>isym.
     and_then (place_table ''externally defined symbols'' (dyst_nextdefsym dyst)
       (dyst_iextdefsym dyst) 1 isym) (\<lambda>isym.
     and_then (place_table ''undefined symbols'' (dyst_nundefsym dyst) (dyst_iundefsym dyst) 1 isym)
       (\<lambda>_. Inr ())))"

definition place_hints :: "object \<Rightarrow> u32 \<Rightarrow> u32 checked" where
  "place_hints ob offset =
     (case ob_hints_cmd ob of
        None \<Rightarrow> Inr offset
      | Some hc \<Rightarrow> place_table ''hints table'' (hints_nhints hc) (hints_offset hc) 4 offset)"

text \<open>
  A table after the indirect symbol table, which may begin at the offset or at the rounded
  offset. The state is \<open>offset\<close>, \<open>rounded_offset\<close> and \<open>input_indirectsym_pad\<close>.
\<close>

type_synonym tail_state = "u32 \<times> u32 \<times> u32"

fun place_padded :: "string \<Rightarrow> u32 \<Rightarrow> u32 \<Rightarrow> u32 \<Rightarrow> tail_state \<Rightarrow> tail_state checked" where
  "place_padded reason n toff bytes (offset, rounded, pad) =
     (if n \<noteq> 0
      then and_then (fatal_if (toff \<noteq> offset \<and> toff \<noteq> rounded) (Out_of_place reason)) (\<lambda>_.
        Inr (if toff = offset then (offset + n * bytes, offset + n * bytes, pad)
             else if toff = rounded
             then (rounded + n * bytes, rounded + n * bytes, rounded - offset)
             else (offset, rounded, pad)))
      else Inr (offset, rounded, pad))"

fun place_modules :: "object \<Rightarrow> dysymtab_command \<Rightarrow> tail_state \<Rightarrow> tail_state checked" where
  "place_modules ob dyst (offset, rounded, pad) =
     (if dyst_nmodtab dyst \<noteq> 0 \<and> ob_mh ob \<noteq> None
      then and_then (fatal_if (dyst_modtaboff dyst \<noteq> offset \<and> dyst_modtaboff dyst \<noteq> rounded)
          (Out_of_place ''module table'')) (\<lambda>_.
        Inr (offset + dyst_nmodtab dyst * 52, offset + dyst_nmodtab dyst * 52, pad))
      else place_padded ''module table'' (dyst_nmodtab dyst) (dyst_modtaboff dyst) 56
        (offset, rounded, pad))"

definition rounded_after_indirect :: "object \<Rightarrow> dysymtab_command \<Rightarrow> u32 \<Rightarrow> u32" where
  "rounded_after_indirect ob dyst offset =
     (if ob_mh64 ob \<noteq> None \<and> dyst_nindirectsyms dyst mod 2 \<noteq> 0 then rnd32 offset 8 else offset)"

definition place_tail ::
    "object \<Rightarrow> symtab_command \<Rightarrow> dysymtab_command \<Rightarrow> u32 \<Rightarrow> tail_state checked" where
  "place_tail ob st dyst offset =
     and_then (place_padded ''table of contents'' (dyst_ntoc dyst) (dyst_tocoff dyst) 8
       (offset, rounded_after_indirect ob dyst offset, 0)) (\<lambda>s.
     and_then (place_modules ob dyst s) (\<lambda>s.
     and_then (place_padded ''reference table'' (dyst_nextrefsyms dyst) (dyst_extrefsymoff dyst) 4 s)
     (\<lambda>s.
     place_padded ''string table'' (st_strsize st) (st_stroff st) 1 s)))"

fun place_code_signature :: "object \<Rightarrow> tail_state \<Rightarrow> tail_state checked" where
  "place_code_signature ob (offset, rounded, pad) =
     (case ob_code_sig_cmd ob of
        None \<Rightarrow> Inr (offset, rounded, pad)
      | Some cs \<Rightarrow>
          let rounded = rnd32 rounded 16 in
          and_then (fatal_if (ld_dataoff cs \<noteq> rounded) (Out_of_place ''code signature data''))
            (\<lambda>_. Inr (rounded + ld_datasize cs, rounded + ld_datasize cs, pad)))"

definition dyld_order :: "object \<Rightarrow> object checked" where
  "dyld_order ob =
     and_then (linkedit_start ob) (\<lambda>offset.
     and_then (after_dyld_info ob offset) (\<lambda>offset.
     and_then (deref (ob_dyst ob)) (\<lambda>dyst.
     and_then (place_table ''local relocation entries'' (dyst_nlocrel dyst) (dyst_locreloff dyst) 8
       offset) (\<lambda>offset.
     and_then (place_linkedit_data ob offset) (\<lambda>offset.
     and_then (place_symbols ob offset) (\<lambda>offset.
     and_then (check_symbol_groups dyst) (\<lambda>_.
     and_then (place_hints ob offset) (\<lambda>offset.
     and_then (place_table ''external relocation entries'' (dyst_nextrel dyst)
       (dyst_extreloff dyst) 8 offset) (\<lambda>offset.
     and_then (place_table ''indirect symbol table'' (dyst_nindirectsyms dyst)
       (dyst_indirectsymoff dyst) 4 offset) (\<lambda>offset.
     and_then (deref (ob_st ob)) (\<lambda>st.
     and_then (place_tail ob st dyst offset) (\<lambda>s.
     and_then (place_code_signature ob s) (\<lambda>(offset, rounded, pad).
     and_then (fatal_if (offset \<noteq> ob_size ob \<and> rounded \<noteq> ob_size ob)
       (Out_of_place ''link edit information does not fill the segment''))
     (\<lambda>_. Inr (ob\<lparr>ob_indirectsym_pad := pad\<rparr>)))))))))))))))"

section \<open>Files with their symbols at the end\<close>

text \<open>Where the string table, or what follows the symbol table, has to end.\<close>

definition end_before_signature :: "object \<Rightarrow> symtab_command \<Rightarrow> u32 checked" where
  "end_before_signature ob st =
     (case ob_code_sig_cmd ob of
        None \<Rightarrow> Inr (ob_size ob)
      | Some cs \<Rightarrow>
          and_then (fatal_if (ld_dataoff cs + ld_datasize cs \<noteq> ob_size ob)
            (Not_processable ''code signature not at the end of the file'')) (\<lambda>_.
          Inr (if st_strsize st \<noteq> 0 \<and> ld_dataoff cs = rnd32 (st_stroff st + st_strsize st) 16
               then st_stroff st + st_strsize st else ld_dataoff cs)))"

text \<open>The new \<open>object_size\<close> and \<open>end\<close>.\<close>

definition strings_at_end :: "object \<Rightarrow> symtab_command \<Rightarrow> u32 \<Rightarrow> (u32 \<times> u32) checked" where
  "strings_at_end ob st e =
     (if st_strsize st \<noteq> 0
      then let strend = st_stroff st + st_strsize st; rounded_strend = rnd32 strend 8 in
        and_then (fatal_if (strend \<noteq> e \<and> rounded_strend \<noteq> e)
          (Not_processable ''string table not at the end of the file'')) (\<lambda>_.
        Inr (if rounded_strend \<noteq> strend \<and> ob_code_sig_cmd ob = None then strend else ob_size ob,
             st_stroff st))
      else Inr (ob_size ob, e))"

text \<open>The end of the symbol table, as the code computes it: a 64-bit sum.\<close>

definition symbols_end :: "object \<Rightarrow> symtab_command \<Rightarrow> u64" where
  "symbols_end ob st = ucast (st_symoff st) + ucast (st_nsyms st) * ucast (sizeof_nlist ob)"

definition indirect_before_strings ::
    "object \<Rightarrow> dysymtab_command \<Rightarrow> u32 \<Rightarrow> u32 checked" where
  "indirect_before_strings ob dyst e =
     (let indirectend = dyst_indirectsymoff dyst + dyst_nindirectsyms dyst * 4;
          rounded = rounded_after_indirect ob dyst indirectend
      in and_then (fatal_if (indirectend \<noteq> e \<and> rounded \<noteq> e)
           (Not_processable ''indirect symbol table does not directly preceed the string table''))
         (\<lambda>_. Inr (e - indirectend)))"

definition linkedit_covers :: "object \<Rightarrow> unit checked" where
  "linkedit_covers ob =
     (case ob_seg_linkedit ob of
        None \<Rightarrow> Inr ()
      | Some sg \<Rightarrow>
          fatal_if (sg_flags sg AND SG_FVMLIB \<noteq> SG_FVMLIB \<and> sg_filesize sg \<noteq> 0
              \<and> sg_fileoff sg + sg_filesize sg \<noteq> ob_size ob)
            (Not_processable ''__LINKEDIT does not cover the symbol and string table''))"

text \<open>Whether the indirect symbol table lies behind the symbol table.\<close>

definition indirect_behind_symbols :: "object \<Rightarrow> symtab_command \<Rightarrow> bool" where
  "indirect_behind_symbols ob st \<longleftrightarrow> (case ob_dyst ob of None \<Rightarrow> False
     | Some dyst \<Rightarrow> dyst_nindirectsyms dyst \<noteq> 0 \<and> st_nsyms st \<noteq> 0
         \<and> st_symoff st < dyst_indirectsymoff dyst)"

definition symbol_string_at_end :: "object \<Rightarrow> object checked" where
  "symbol_string_at_end ob =
     (case ob_st ob of
        None \<Rightarrow> Inr ob
      | Some st \<Rightarrow>
          if st_nsyms st = 0 then Inr ob
          else
            and_then (end_before_signature ob st) (\<lambda>e.
            and_then (strings_at_end ob st e) (\<lambda>(new_size, e).
            let ob = ob\<lparr>ob_size := new_size\<rparr> in
            if indirect_behind_symbols ob st
            then and_then (deref (ob_dyst ob)) (\<lambda>dyst.
              and_then (indirect_before_strings ob dyst e) (\<lambda>pad.
              let ob = ob\<lparr>ob_indirectsym_pad := pad\<rparr> in
              and_then (fatal_if (symbols_end ob st \<noteq> ucast (dyst_indirectsymoff dyst))
                (Not_processable ''symbol table does not directly preceed the indirect symbol table''))
              (\<lambda>_. and_then (linkedit_covers ob) (\<lambda>_. Inr ob))))
            else and_then (fatal_if (symbols_end ob st \<noteq> ucast e)
                (Not_processable ''symbol table and string table not at the end of the file''))
              (\<lambda>_. and_then (linkedit_covers ob) (\<lambda>_. Inr ob)))))"

section \<open>Checking an object and a list of architectures\<close>

definition check_hints :: "object \<Rightarrow> unit checked" where
  "check_hints ob =
     (case ob_hints_cmd ob of
        None \<Rightarrow> Inr ()
      | Some hc \<Rightarrow>
          and_then (fatal_if (ob_dyst ob = None \<and> hints_nhints hc \<noteq> 0)
            (Malformed ''LC_TWOLEVEL_HINTS without an LC_DYSYMTAB'')) (\<lambda>_.
          if hints_nhints hc = 0 then Inr ()
          else and_then (deref (ob_dyst ob)) (\<lambda>dyst.
            fatal_if (hints_nhints hc \<noteq> dyst_nundefsym dyst)
              (Malformed ''nhints does not match nundefsym''))))"

text \<open>The number of commands and the flags, from whichever header there is.\<close>

definition header_ncmds_flags :: "object \<Rightarrow> (u32 \<times> u32) checked" where
  "header_ncmds_flags ob =
     (case ob_mh ob of
        Some mh \<Rightarrow> Inr (mh_ncmds mh, mh_flags mh)
      | None \<Rightarrow> and_then (deref (ob_mh64 ob)) (\<lambda>mh. Inr (mh64_ncmds mh, mh64_flags mh)))"

definition reset_object :: "object \<Rightarrow> object" where
  "reset_object ob = ob\<lparr>ob_st := None, ob_dyst := None, ob_hints_cmd := None,
     ob_seg_bitcode := None, ob_seg_bitcode64 := None, ob_seg_linkedit := None,
     ob_seg_linkedit64 := None, ob_code_sig_cmd := None\<rparr>"

definition check_object :: "object \<Rightarrow> object checked" where
  "check_object ob =
     (let ob = reset_object ob in
      and_then (header_ncmds_flags ob) (\<lambda>(ncmds, flags).
      and_then (scan_commands (take (unat ncmds) (ob_load_commands ob)) (ob, None)) (\<lambda>(ob, dl_id).
      and_then (fatal_if ((ob_filetype ob = MH_DYLIB \<or> (ob_filetype ob = MH_DYLIB_STUB \<and> ncmds > 0))
          \<and> dl_id = None) (Malformed ''no LC_ID_DYLIB load command'')) (\<lambda>_.
      and_then (check_hints ob) (\<lambda>_.
      if ob_dyst ob = None then symbol_string_at_end ob
      else if ob_filetype ob = MH_DYLIB then dyld_order ob
      else if flags AND MH_DYLDLINK \<noteq> 0 then dyld_order ob
      else symbol_string_at_end ob)))))"

datatype member = Member_Mach_O object | Member_other
datatype arch = Arch_archive "member list" | Arch_Mach_O object | Arch_other

primrec check_members :: "member list \<Rightarrow> member list checked" where
  "check_members [] = Inr []"
| "check_members (m # ms) =
     and_then (case m of Member_Mach_O ob \<Rightarrow> and_then (check_object ob) (\<lambda>ob. Inr (Member_Mach_O ob))
         | Member_other \<Rightarrow> Inr Member_other) (\<lambda>m.
     and_then (check_members ms) (\<lambda>ms. Inr (m # ms)))"

primrec checkout :: "arch list \<Rightarrow> arch list checked" where
  "checkout [] = Inr []"
| "checkout (a # as) =
     and_then (case a of
         Arch_archive ms \<Rightarrow> and_then (check_members ms) (\<lambda>ms. Inr (Arch_archive ms))
       | Arch_Mach_O ob \<Rightarrow> and_then (check_object ob) (\<lambda>ob. Inr (Arch_Mach_O ob))
       | Arch_other \<Rightarrow> Inr Arch_other) (\<lambda>a.
     and_then (checkout as) (\<lambda>as. Inr (a # as)))"

end
