(* ===== verification/Checkout_Layout.thy ===== *)
theory Checkout_Layout
  imports Checkout
begin

text \<open>
  What \<open>checkout\<close> promises. The abstract specification of an accepted file for the dynamic
  linker is a layout: the tables of the link edit segment follow one another in a fixed order,
  without gaps except one to a multiple of 8 before the tables behind the indirect symbols and
  one to a multiple of 16 before the code signature, and end with the file.
\<close>

section \<open>Layouts of tables\<close>

text \<open>A table: whether it has to be at the current offset, its offset, its size in bytes.\<close>

type_synonym table = "bool \<times> u32 \<times> u32"

fun laid_out :: "u32 \<Rightarrow> table list \<Rightarrow> u32 \<Rightarrow> bool" where
  "laid_out a [] b \<longleftrightarrow> a = b"
| "laid_out a ((chk, off, bytes) # ts) b \<longleftrightarrow> (chk \<longrightarrow> off = a) \<and> laid_out (a + bytes) ts b"

lemma laid_out_append: "laid_out a (xs @ ys) c \<longleftrightarrow> (\<exists>b. laid_out a xs b \<and> laid_out b ys c)"
  by (induction a xs c rule: laid_out.induct) auto

definition entries :: "u32 \<Rightarrow> u32 \<Rightarrow> u32 \<Rightarrow> table" where
  "entries n off bytes = (n \<noteq> 0, off, n * bytes)"

definition data_entry :: "linkedit_data_command option \<Rightarrow> table" where
  "data_entry cmd = (case cmd of None \<Rightarrow> (False, 0, 0)
     | Some ld \<Rightarrow> (ld_dataoff ld \<noteq> 0, ld_dataoff ld, ld_datasize ld))"

definition hints_entry :: "twolevel_hints_command option \<Rightarrow> table" where
  "hints_entry cmd = (case cmd of None \<Rightarrow> (False, 0, 0)
     | Some hc \<Rightarrow> entries (hints_nhints hc) (hints_offset hc) 4)"

definition front_tables :: "object \<Rightarrow> symtab_command \<Rightarrow> dysymtab_command \<Rightarrow> table list" where
  "front_tables ob st dyst =
     [entries (dyst_nlocrel dyst) (dyst_locreloff dyst) 8,
      data_entry (ob_split_info_cmd ob), data_entry (ob_func_starts_info_cmd ob),
      data_entry (ob_data_in_code_cmd ob), data_entry (ob_code_sign_drs_cmd ob),
      data_entry (ob_link_opt_hint_cmd ob),
      entries (st_nsyms st) (st_symoff st) (sizeof_nlist ob),
      hints_entry (ob_hints_cmd ob),
      entries (dyst_nextrel dyst) (dyst_extreloff dyst) 8,
      entries (dyst_nindirectsyms dyst) (dyst_indirectsymoff dyst) 4]"

definition sizeof_module :: "object \<Rightarrow> u32" where
  "sizeof_module ob = (if ob_mh ob \<noteq> None then 52 else 56)"

definition back_tables :: "object \<Rightarrow> symtab_command \<Rightarrow> dysymtab_command \<Rightarrow> table list" where
  "back_tables ob st dyst =
     [entries (dyst_ntoc dyst) (dyst_tocoff dyst) 8,
      entries (dyst_nmodtab dyst) (dyst_modtaboff dyst) (sizeof_module ob),
      entries (dyst_nextrefsyms dyst) (dyst_extrefsymoff dyst) 4,
      entries (st_strsize st) (st_stroff st) 1]"

text \<open>The symbols by kind, counted in symbols.\<close>

definition symbol_groups :: "dysymtab_command \<Rightarrow> table list" where
  "symbol_groups dyst =
     [entries (dyst_nlocalsym dyst) (dyst_ilocalsym dyst) 1,
      entries (dyst_nextdefsym dyst) (dyst_iextdefsym dyst) 1,
      entries (dyst_nundefsym dyst) (dyst_iundefsym dyst) 1]"

definition ends_file :: "object \<Rightarrow> u32 \<Rightarrow> bool" where
  "ends_file ob e \<longleftrightarrow> (case ob_code_sig_cmd ob of
       None \<Rightarrow> e = ob_size ob
     | Some cs \<Rightarrow> ld_dataoff cs = rnd32 e 16 \<and> ld_dataoff cs + ld_datasize cs = ob_size ob)"

definition dyld_layout :: "object \<Rightarrow> bool" where
  "dyld_layout ob \<longleftrightarrow> (\<exists>start front st dyst a e.
     linkedit_start ob = Inr start \<and> after_dyld_info ob start = Inr front
     \<and> ob_st ob = Some st \<and> ob_dyst ob = Some dyst
     \<and> laid_out front (front_tables ob st dyst) a
     \<and> (\<exists>k. laid_out 0 (symbol_groups dyst) k)
     \<and> (laid_out a (back_tables ob st dyst) e
        \<or> laid_out (rounded_after_indirect ob dyst a) (back_tables ob st dyst) e)
     \<and> ends_file ob e)"

section \<open>The steps of the check\<close>

lemma place_table_Inr: "place_table r n off bytes a = Inr b \<longleftrightarrow> laid_out a [entries n off bytes] b"
  by (auto simp: place_table_def entries_def and_then_eq_Inr)

lemma place_data_Inr: "place_data r cmd a = Inr b \<longleftrightarrow> laid_out a [data_entry cmd] b"
  by (auto simp: place_data_def data_entry_def and_then_eq_Inr split: option.split)

lemma place_hints_Inr: "place_hints ob a = Inr b \<longleftrightarrow> laid_out a [hints_entry (ob_hints_cmd ob)] b"
  by (auto simp: place_hints_def hints_entry_def place_table_Inr split: option.split)

lemma laid_out_Cons: "laid_out a (t # ts) c \<longleftrightarrow> (\<exists>b. laid_out a [t] b \<and> laid_out b ts c)"
  using laid_out_append [of a "[t]" ts c] by simp

lemma laid_out_split:
  "laid_out a (t # u # ts) c \<longleftrightarrow> (\<exists>b. laid_out a [t] b \<and> laid_out b (u # ts) c)"
  by (rule laid_out_Cons)

lemma laid_out_entries:
  "laid_out a (entries n off bytes # ts) c \<longleftrightarrow> (n \<noteq> 0 \<longrightarrow> off = a) \<and> laid_out (a + n * bytes) ts c"
  by (simp add: entries_def)

lemma entries_0 [simp]: "entries 0 off bytes = (False, off, 0)"
  by (simp add: entries_def)

lemma place_linkedit_data_Inr:
  "place_linkedit_data ob a = Inr b \<longleftrightarrow> laid_out a [data_entry (ob_split_info_cmd ob),
     data_entry (ob_func_starts_info_cmd ob), data_entry (ob_data_in_code_cmd ob),
     data_entry (ob_code_sign_drs_cmd ob), data_entry (ob_link_opt_hint_cmd ob)] b"
  unfolding place_linkedit_data_def and_then_eq_Inr place_data_Inr laid_out_split by blast

lemma check_symbol_groups_Inr:
  "check_symbol_groups dyst = Inr () \<longleftrightarrow> (\<exists>k. laid_out 0 (symbol_groups dyst) k)"
  unfolding check_symbol_groups_def symbol_groups_def and_then_eq_Inr place_table_Inr laid_out_split
  by blast

section \<open>The tables that may be padded\<close>

text \<open>
  A list of tables placed from the offset or from the rounded offset: unless all are empty, the
  first that is not decides which.
\<close>

fun place_list :: "(string \<times> u32 \<times> u32 \<times> u32) list \<Rightarrow> tail_state \<Rightarrow> tail_state checked" where
  "place_list [] s = Inr s"
| "place_list ((r, n, off, bytes) # ts) s = and_then (place_padded r n off bytes s) (place_list ts)"

abbreviation (input) table_of :: "string \<times> u32 \<times> u32 \<times> u32 \<Rightarrow> table" where
  "table_of t \<equiv> (case t of (r, n, off, bytes) \<Rightarrow> entries n off bytes)"

abbreviation (input) empty_table :: "string \<times> u32 \<times> u32 \<times> u32 \<Rightarrow> bool" where
  "empty_table t \<equiv> (case t of (r, n, off, bytes) \<Rightarrow> n = 0)"

lemma place_list_same:
  "place_list ts (a, a, pad) = Inr s \<longleftrightarrow> (\<exists>e. laid_out a (map table_of ts) e \<and> s = (e, e, pad))"
proof (induction ts arbitrary: a)
  case (Cons t ts)
  obtain r n off bytes where t: "t = (r, n, off, bytes)" by (cases t) auto
  show ?case by (auto simp: t laid_out_entries and_then_eq_Inr Cons.IH)
qed auto

lemma place_list_Inr:
  "(\<exists>pad'. place_list ts (a, q, pad) = Inr (o', q', pad')) \<longleftrightarrow>
     (if list_all empty_table ts then o' = a \<and> q' = q
      else o' = q' \<and> (laid_out a (map table_of ts) o' \<or> laid_out q (map table_of ts) o'))"
proof (induction ts)
  case Nil
  then show ?case by auto
next
  case (Cons t ts)
  obtain r n off bytes where t: "t = (r, n, off, bytes)" by (cases t) auto
  show ?case
  proof (cases "n = 0")
    case True
    with Cons.IH show ?thesis by (simp add: t)
  next
    case False
    then show ?thesis
      by (auto simp: t laid_out_entries and_then_eq_Inr place_list_same)
  qed
qed

definition tail_list :: "object \<Rightarrow> symtab_command \<Rightarrow> dysymtab_command \<Rightarrow>
    (string \<times> u32 \<times> u32 \<times> u32) list" where
  "tail_list ob st dyst =
     [(''table of contents'', dyst_ntoc dyst, dyst_tocoff dyst, 8),
      (''module table'', dyst_nmodtab dyst, dyst_modtaboff dyst, sizeof_module ob),
      (''reference table'', dyst_nextrefsyms dyst, dyst_extrefsymoff dyst, 4),
      (''string table'', st_strsize st, st_stroff st, 1)]"

lemma map_tail_list: "map table_of (tail_list ob st dyst) = back_tables ob st dyst"
  by (simp add: tail_list_def back_tables_def)

text \<open>An object has one header.\<close>

definition one_header :: "object \<Rightarrow> bool" where
  "one_header ob \<longleftrightarrow> (ob_mh ob = None) \<noteq> (ob_mh64 ob = None)"

lemma place_modules_eq:
  "ob_mh ob = None \<or> a = q \<Longrightarrow> place_modules ob dyst (a, q, pad)
     = place_padded ''module table'' (dyst_nmodtab dyst) (dyst_modtaboff dyst) (sizeof_module ob)
         (a, q, pad)"
  by (auto simp: sizeof_module_def and_then_def fatal_if_def split: sum.split)

lemma place_padded_same:
  "place_padded r n off bytes (a, a, pad) = Inr s \<Longrightarrow> \<exists>b. s = (b, b, pad)"
  by (auto simp: and_then_eq_Inr split: if_splits)

lemma place_list_unfold:
  "place_list [] = Inr"
  "place_list ((r, n, off, bytes) # ts) = (\<lambda>s. and_then (place_padded r n off bytes s) (place_list ts))"
  by (auto simp: fun_eq_iff)

lemma and_then_Inr_right: "and_then r Inr = r"
  by (cases r) simp_all

lemma and_then_cong: "(\<And>x. r = Inr x \<Longrightarrow> f x = g x) \<Longrightarrow> and_then r f = and_then r g"
  by (cases r) simp_all

lemma place_tail_eq:
  assumes "one_header ob"
  shows "place_tail ob st dyst a
    = place_list (tail_list ob st dyst) (a, rounded_after_indirect ob dyst a, 0)"
proof -
  have "place_modules ob dyst s = place_padded ''module table'' (dyst_nmodtab dyst)
      (dyst_modtaboff dyst) (sizeof_module ob) s"
    if "place_padded ''table of contents'' n off b (a, rounded_after_indirect ob dyst a, 0) = Inr s"
    for s n off b
  proof (cases "ob_mh ob = None")
    case True
    then show ?thesis
      by (cases s) (simp add: place_modules_eq del: place_modules.simps place_padded.simps)
  next
    case False
    with assms have "rounded_after_indirect ob dyst a = a"
      by (simp add: one_header_def rounded_after_indirect_def)
    with that obtain c where "s = (c, c, 0)" by (metis place_padded_same)
    then show ?thesis by (simp add: place_modules_eq del: place_modules.simps place_padded.simps)
  qed
  then show ?thesis
    unfolding place_tail_def tail_list_def place_list_unfold and_then_Inr_right
    by (intro and_then_cong) simp
qed

section \<open>Rounding\<close>

lemma rnd_8_16:
  "rnd v 8 = push_bit 3 (drop_bit 3 (v + 7))" "rnd v 16 = push_bit 4 (drop_bit 4 (v + 15))"
  using and_not_mask_shift [of "v + 7" 3] and_not_mask_shift [of "v + 15" 4]
  by (simp_all add: rnd_def mask_eq_exp_minus_1)

lemma unat_rnd32:
  "unat (rnd32 a 8) = ((unat a + 7) div 8 * 8) mod 2 ^ 32"
  "unat (rnd32 a 16) = ((unat a + 15) div 16 * 16) mod 2 ^ 32"
proof -
  have "unat (ucast a + k :: u64) = unat a + unat k" if "unat k < 2 ^ 32" for k :: u64
    using that unat_less_numeral [of a]
    by (subst word_add_no_wrap) (simp_all add: unsigned_ucast_eq take_bit_nat_eq_self)
  from this [of 7] this [of 15] have "unat (ucast a + 7 :: u64) = unat a + 7"
    "unat (ucast a + 15 :: u64) = unat a + 15" by simp_all
  then show "unat (rnd32 a 8) = ((unat a + 7) div 8 * 8) mod 2 ^ 32"
    "unat (rnd32 a 16) = ((unat a + 15) div 16 * 16) mod 2 ^ 32"
    by (simp_all add: rnd32_def unsigned_ucast_eq rnd_8_16 unat_shift_down_up take_bit_eq_mod)
qed

lemma round_8_16: "((n + 7) div 8 * 8 + 15) div 16 = (n + 15) div 16" for n :: nat
proof -
  have "(n + 15) div 16 = (n + 15) div 8 div 2" by (simp add: div_mult2_eq [symmetric])
  also have "(n + 15) div 8 = (n + 7) div 8 + 1" by simp
  also have "((n + 7) div 8 + 1) div 2 = ((n + 7) div 8 * 8 + 15) div 8 div 2" by simp
  also have "\<dots> = ((n + 7) div 8 * 8 + 15) div 16" by (simp add: div_mult2_eq [symmetric])
  finally show ?thesis by simp
qed

lemma rnd32_8_16: "rnd32 (rnd32 a 8) 16 = rnd32 a 16"
proof -
  let ?c = "(unat a + 7) div 8 * 8"
  have a: "unat a < 2 ^ 32" using unat_less_numeral [of a] by simp
  have "((?c mod 2 ^ 32 + 15) div 16 * 16) mod 2 ^ 32 = ((unat a + 15) div 16 * 16) mod 2 ^ 32"
  proof (cases "?c < 2 ^ 32")
    case True
    then show ?thesis by (simp only: mod_less round_8_16)
  next
    case False
    with a have "(unat a + 7) div 8 = 2 ^ 29" by simp
    then have c: "?c = 2 ^ 32" by simp
    with round_8_16 [of "unat a"] have "(unat a + 15) div 16 = 2 ^ 28" by simp
    with c show ?thesis by simp
  qed
  then have "unat (rnd32 (rnd32 a 8) 16) = unat (rnd32 a 16)" by (simp only: unat_rnd32)
  then show ?thesis by (rule unsigned_word_eqI)
qed

lemma rnd32_rounded_after_indirect:
  "rnd32 (rounded_after_indirect ob dyst a) 16 = rnd32 a 16"
  by (simp add: rounded_after_indirect_def rnd32_8_16)

section \<open>The layout is what is accepted\<close>

text \<open>The end of the check, from the state after the tables behind the indirect symbols.\<close>

definition finish :: "object \<Rightarrow> tail_state \<Rightarrow> object checked" where
  "finish ob s =
     and_then (place_code_signature ob s) (\<lambda>(offset, rounded, pad).
     and_then (fatal_if (offset \<noteq> ob_size ob \<and> rounded \<noteq> ob_size ob)
       (Out_of_place ''link edit information does not fill the segment''))
     (\<lambda>_. Inr (ob\<lparr>ob_indirectsym_pad := pad\<rparr>)))"

lemma finish_Inr:
  "(\<exists>ob'. finish ob (o', q', pad) = Inr ob') \<longleftrightarrow> (case ob_code_sig_cmd ob of
       None \<Rightarrow> o' = ob_size ob \<or> q' = ob_size ob | Some cs \<Rightarrow> ends_file ob q')"
  by (auto simp: finish_def ends_file_def and_then_eq_Inr Let_def split: option.split)

lemma laid_out_empty_tail:
  assumes "list_all empty_table ts"
  shows "laid_out a (map table_of ts) e \<longleftrightarrow> e = a"
  using assms by (induction ts) (auto split: prod.splits)

lemma tail_accepted:
  assumes "one_header ob"
  shows "(\<exists>s ob'. place_tail ob st dyst a = Inr s \<and> finish ob s = Inr ob') \<longleftrightarrow>
    (\<exists>e. (laid_out a (back_tables ob st dyst) e
        \<or> laid_out (rounded_after_indirect ob dyst a) (back_tables ob st dyst) e) \<and> ends_file ob e)"
proof -
  let ?ts = "tail_list ob st dyst" and ?q = "rounded_after_indirect ob dyst a"
  let ?ok = "\<lambda>o' q'. case ob_code_sig_cmd ob of
       None \<Rightarrow> o' = ob_size ob \<or> q' = ob_size ob | Some cs \<Rightarrow> ends_file ob q'"
  have "(\<exists>s ob'. place_tail ob st dyst a = Inr s \<and> finish ob s = Inr ob')
      \<longleftrightarrow> (\<exists>o' q'. (\<exists>pad'. place_list ?ts (a, ?q, 0) = Inr (o', q', pad')) \<and> ?ok o' q')"
  proof -
    have "(\<exists>s ob'. place_tail ob st dyst a = Inr s \<and> finish ob s = Inr ob')
      \<longleftrightarrow> (\<exists>o' q' pad'. place_list ?ts (a, ?q, 0) = Inr (o', q', pad')
          \<and> (\<exists>ob'. finish ob (o', q', pad') = Inr ob'))"
      unfolding place_tail_eq [OF assms] by auto
    then show ?thesis unfolding finish_Inr by blast
  qed
  also have "\<dots> \<longleftrightarrow> (\<exists>e. (laid_out a (back_tables ob st dyst) e
      \<or> laid_out ?q (back_tables ob st dyst) e) \<and> ends_file ob e)"
  proof (cases "list_all empty_table ?ts")
    case True
    show ?thesis
      unfolding map_tail_list [symmetric] laid_out_empty_tail [OF True] place_list_Inr
      by (simp only: True if_True)
        (auto simp: ends_file_def rnd32_rounded_after_indirect split: option.split)
  next
    case False
    then show ?thesis
      unfolding map_tail_list [symmetric] place_list_Inr
      by (simp only: False if_False) (auto simp: ends_file_def split: option.split)
  qed
  finally show ?thesis .
qed

lemma ex_unit: "(\<exists>u :: unit. P u) \<longleftrightarrow> P ()"
  by (metis (full_types) old.unit.exhaust)

lemma dyld_order_finish:
  "dyld_order ob =
     and_then (linkedit_start ob) (\<lambda>offset.
     and_then (after_dyld_info ob offset) (\<lambda>offset.
     and_then (deref (ob_dyst ob)) (\<lambda>dyst.
     and_then (place_table ''local relocation entries'' (dyst_nlocrel dyst) (dyst_locreloff dyst) 8
       offset) (\<lambda>offset.
     and_then (place_linkedit_data ob offset) (\<lambda>offset.
     and_then (place_symbols ob offset) (\<lambda>offset.
     and_then (check_symbol_groups dyst) (\<lambda>_.
     and_then (place_hints ob offset) (\<lambda>offset.
     and_then (place_table ''external relocation entries'' (dyst_nextrel dyst)
       (dyst_extreloff dyst) 8 offset) (\<lambda>offset.
     and_then (place_table ''indirect symbol table'' (dyst_nindirectsyms dyst)
       (dyst_indirectsymoff dyst) 4 offset) (\<lambda>offset.
     and_then (deref (ob_st ob)) (\<lambda>st.
     and_then (place_tail ob st dyst offset) (finish ob))))))))))))"
  by (simp only: dyld_order_def finish_def [abs_def])

lemma place_symbols_Inr:
  "ob_st ob = Some st \<Longrightarrow> place_symbols ob a = Inr b \<longleftrightarrow>
     laid_out a [entries (st_nsyms st) (st_symoff st) (sizeof_nlist ob)] b"
  by (simp add: place_symbols_def deref_def place_table_Inr)

lemma dyld_order_layout:
  assumes "one_header ob"
  shows "(\<exists>ob'. dyld_order ob = Inr ob') \<longleftrightarrow> dyld_layout ob"
proof (cases "ob_st ob = None \<or> ob_dyst ob = None")
  case True
  then show ?thesis
    by (auto simp: dyld_order_def dyld_layout_def and_then_eq_Inr place_symbols_def)
next
  case False
  then obtain st dyst where st: "ob_st ob = Some st" and dyst: "ob_dyst ob = Some dyst" by auto
  have front: "laid_out f (front_tables ob st dyst) a \<longleftrightarrow>
      (\<exists>b c d e g. laid_out f [entries (dyst_nlocrel dyst) (dyst_locreloff dyst) 8] b
        \<and> place_linkedit_data ob b = Inr c \<and> place_symbols ob c = Inr d
        \<and> place_hints ob d = Inr e
        \<and> laid_out e [entries (dyst_nextrel dyst) (dyst_extreloff dyst) 8] g
        \<and> laid_out g [entries (dyst_nindirectsyms dyst) (dyst_indirectsymoff dyst) 4] a)" for f a
    unfolding front_tables_def laid_out_split place_linkedit_data_Inr place_symbols_Inr [OF st]
      place_hints_Inr by blast
  show ?thesis
  proof
    assume "\<exists>ob'. dyld_order ob = Inr ob'"
    then obtain f0 f1 a where "linkedit_start ob = Inr f0" "after_dyld_info ob f0 = Inr f1"
      and "laid_out f1 (front_tables ob st dyst) a" "check_symbol_groups dyst = Inr ()"
      and "\<exists>s ob'. place_tail ob st dyst a = Inr s \<and> finish ob s = Inr ob'"
      unfolding dyld_order_finish front and_then_eq_Inr place_table_Inr deref_eq_Inr
      st dyst option.inject ex_unit by blast
    then show "dyld_layout ob"
      unfolding tail_accepted [OF assms] check_symbol_groups_Inr dyld_layout_def
      using st dyst by blast
  next
    assume "dyld_layout ob"
    then obtain f0 f1 a where "linkedit_start ob = Inr f0" "after_dyld_info ob f0 = Inr f1"
      "laid_out f1 (front_tables ob st dyst) a" "check_symbol_groups dyst = Inr ()"
      "\<exists>s ob'. place_tail ob st dyst a = Inr s \<and> finish ob s = Inr ob'"
      unfolding tail_accepted [OF assms] check_symbol_groups_Inr dyld_layout_def
      st dyst option.inject by blast
    then show "\<exists>ob'. dyld_order ob = Inr ob'"
      unfolding dyld_order_finish front and_then_eq_Inr place_table_Inr deref_eq_Inr
      st dyst option.inject ex_unit by blast
  qed
qed

section \<open>Positions of the tables\<close>

definition bytes_of :: "table list \<Rightarrow> nat" where
  "bytes_of ts = sum_list (map (\<lambda>(chk, off, bytes). unat bytes) ts)"

lemma bytes_of_simps [simp]:
  "bytes_of [] = 0" "bytes_of ((chk, off, bytes) # ts) = unat bytes + bytes_of ts"
  "bytes_of (xs @ ys) = bytes_of xs + bytes_of ys"
  by (simp_all add: bytes_of_def)

lemma laid_out_end:
  assumes "laid_out a ts b" and "unat a + bytes_of ts < 2 ^ 32"
  shows "unat b = unat a + bytes_of ts"
  using assms
proof (induction a ts b rule: laid_out.induct)
  case (2 a chk off bytes ts b)
  then have "unat (a + bytes) = unat a + unat bytes" by (intro word_add_no_wrap) simp
  with 2 show ?case by simp
qed simp

text \<open>A table that is checked lies between what is before it and what is behind it.\<close>

lemma laid_out_inside:
  assumes "laid_out a (xs @ (True, off, bytes) # ys) b"
    and "unat a + bytes_of (xs @ (True, off, bytes) # ys) < 2 ^ 32"
  shows "unat off = unat a + bytes_of xs" and "unat off + unat bytes + bytes_of ys = unat b"
proof -
  from assms(1) obtain c where c: "laid_out a xs c" "off = c" "laid_out (c + bytes) ys b"
    by (auto simp: laid_out_append)
  from laid_out_end [OF c(1)] assms(2) have off: "unat off = unat a + bytes_of xs"
    by (simp add: c(2))
  then show "unat off = unat a + bytes_of xs" .
  from off assms(2) have "unat (c + bytes) = unat off + unat bytes"
    unfolding c(2) by (intro word_add_no_wrap) simp
  with laid_out_end [OF c(3)] off assms(2) c(2)
  show "unat off + unat bytes + bytes_of ys = unat b" by simp
qed

lemma rnd32_ge:
  "unat a + 16 < 2 ^ 32 \<Longrightarrow> unat a \<le> unat (rnd32 a 8) \<and> unat (rnd32 a 8) < unat a + 8"
  "unat a + 16 < 2 ^ 32 \<Longrightarrow> unat a \<le> unat (rnd32 a 16) \<and> unat (rnd32 a 16) < unat a + 16"
proof -
  assume a: "unat a + 16 < 2 ^ 32"
  have "(unat a + 7) div 8 * 8 \<le> unat a + 7" "unat a \<le> (unat a + 7) div 8 * 8" by linarith+
  with a show "unat a \<le> unat (rnd32 a 8) \<and> unat (rnd32 a 8) < unat a + 8"
    by (simp add: unat_rnd32)
next
  assume a: "unat a + 16 < 2 ^ 32"
  have "(unat a + 15) div 16 * 16 \<le> unat a + 15" "unat a \<le> (unat a + 15) div 16 * 16" by linarith+
  with a show "unat a \<le> unat (rnd32 a 16) \<and> unat (rnd32 a 16) < unat a + 16"
    by (simp add: unat_rnd32)
qed

section \<open>Properties\<close>


text \<open>
  In an accepted file for the dynamic linker the symbol table, the indirect symbols and the
  string table, when not empty, do not overlap, come in this order, and end inside the file,
  provided the sizes of the tables do not wrap around 32 bits.
\<close>

theorem dyld_tables_ordered:
  assumes "one_header ob" and "dyld_order ob = Inr ob'"
    and "ob_st ob = Some st" and "ob_dyst ob = Some dyst"
    and "linkedit_start ob = Inr start" and "after_dyld_info ob start = Inr front"
    and wrap: "unat front + bytes_of (front_tables ob st dyst) + bytes_of (back_tables ob st dyst)
      + 32 < 2 ^ 32"
    and "st_nsyms st \<noteq> 0" and "dyst_nindirectsyms dyst \<noteq> 0" and "st_strsize st \<noteq> 0"
  shows "unat (st_symoff st) + unat (st_nsyms st * sizeof_nlist ob) \<le> unat (dyst_indirectsymoff dyst)
    \<and> unat (dyst_indirectsymoff dyst) + unat (dyst_nindirectsyms dyst * 4) \<le> unat (st_stroff st)
    \<and> unat (st_stroff st) + unat (st_strsize st)
        \<le> unat (case ob_code_sig_cmd ob of None \<Rightarrow> ob_size ob | Some cs \<Rightarrow> ld_dataoff cs)"
proof -
  let ?F = "front_tables ob st dyst" and ?B = "back_tables ob st dyst"
  from dyld_order_layout [OF assms(1)] assms(2-6) obtain a g e where
    front: "laid_out front ?F a" and g: "g = a \<or> g = rounded_after_indirect ob dyst a"
    and behind: "laid_out g ?B e" and ends: "ends_file ob e"
    unfolding dyld_layout_def by (metis option.inject sum.inject(2))
  obtain xs where F1: "?F = xs @ (True, st_symoff st, st_nsyms st * sizeof_nlist ob) #
      [hints_entry (ob_hints_cmd ob), entries (dyst_nextrel dyst) (dyst_extreloff dyst) 8,
       (True, dyst_indirectsymoff dyst, dyst_nindirectsyms dyst * 4)]"
    using assms(8,9) by (simp add: front_tables_def entries_def [of "st_nsyms st"]
        entries_def [of "dyst_nindirectsyms dyst"])
  then obtain ys where F2: "?F = ys @ [(True, dyst_indirectsymoff dyst, dyst_nindirectsyms dyst * 4)]"
    by simp
  obtain zs where B: "?B = zs @ [(True, st_stroff st, st_strsize st)]"
    using assms(10) by (simp add: back_tables_def entries_def [of "st_strsize st"])
  have a: "unat a = unat front + bytes_of ?F" using laid_out_end [OF front] wrap by simp
  have sym: "unat (st_symoff st) + unat (st_nsyms st * sizeof_nlist ob)
      + bytes_of [hints_entry (ob_hints_cmd ob), entries (dyst_nextrel dyst) (dyst_extreloff dyst) 8,
       (True, dyst_indirectsymoff dyst, dyst_nindirectsyms dyst * 4)] = unat a"
    using laid_out_inside(2) [OF front [unfolded F1]] wrap F1 by simp
  have ind: "unat (dyst_indirectsymoff dyst) + unat (dyst_nindirectsyms dyst * 4) = unat a"
    using laid_out_inside(2) [OF front [unfolded F2]] wrap F2 by simp
  have "unat a \<le> unat g" "unat g < unat a + 8"
    using g a wrap rnd32_ge(1) [of a] by (auto simp: rounded_after_indirect_def)
  with wrap a have bwrap: "unat g + bytes_of ?B < 2 ^ 32 - 16" by simp
  have str: "unat (st_stroff st) = unat g + bytes_of zs"
    "unat (st_stroff st) + unat (st_strsize st) = unat e"
    using laid_out_inside [OF behind [unfolded B]] bwrap B by simp_all
  have "unat e + 16 < 2 ^ 32" using laid_out_end [OF behind] bwrap by simp
  with ends rnd32_ge(2) [of e]
  have "unat e \<le> unat (case ob_code_sig_cmd ob of None \<Rightarrow> ob_size ob | Some cs \<Rightarrow> ld_dataoff cs)"
    by (auto simp: ends_file_def split: option.splits)
  with sym ind str \<open>unat a \<le> unat g\<close> show ?thesis
    by (cases "hints_entry (ob_hints_cmd ob)"; cases "entries (dyst_nextrel dyst) (dyst_extreloff dyst) 8")
      simp
qed

text \<open>
  A file with one symbol, one indirect symbol and four bytes of strings, whose link edit
  segment begins at 100: the tables are at 100, 112 and 116.
\<close>

definition small_st :: symtab_command where
  "small_st = \<lparr>st_cmd = 2, st_cmdsize = 24, st_symoff = 100, st_nsyms = 1, st_stroff = 116,
     st_strsize = 4\<rparr>"

definition small_dyst :: dysymtab_command where
  "small_dyst = \<lparr>dyst_cmd = 11, dyst_cmdsize = 80, dyst_ilocalsym = 0, dyst_nlocalsym = 0,
     dyst_iextdefsym = 0, dyst_nextdefsym = 1, dyst_iundefsym = 1, dyst_nundefsym = 0,
     dyst_tocoff = 0, dyst_ntoc = 0, dyst_modtaboff = 0, dyst_nmodtab = 0, dyst_extrefsymoff = 0,
     dyst_nextrefsyms = 0, dyst_indirectsymoff = 112, dyst_nindirectsyms = 1, dyst_extreloff = 0,
     dyst_nextrel = 0, dyst_locreloff = 0, dyst_nlocrel = 0\<rparr>"

definition small_linkedit :: segment_command where
  "small_linkedit = \<lparr>sg_cmd = 1, sg_cmdsize = 56, sg_segname = 0, sg_vmaddr = 0x1000,
     sg_vmsize = 0x1000, sg_fileoff = 100, sg_filesize = 20, sg_maxprot = 7, sg_initprot = 1,
     sg_nsects = 0, sg_flags = 0\<rparr>"

definition small_header :: mach_header where
  "small_header = \<lparr>mh_magic = 0xfeedface, mh_cputype = 7, mh_cpusubtype = 3, mh_filetype = 6,
     mh_ncmds = 3, mh_sizeofcmds = 160, mh_flags = 4\<rparr>"

definition small_object :: object where
  "small_object = \<lparr>ob_size = 120, ob_mh = Some small_header, ob_mh64 = None, ob_filetype = 6,
     ob_load_commands = [], ob_st = Some small_st, ob_dyst = Some small_dyst, ob_hints_cmd = None,
     ob_seg_bitcode = None, ob_seg_bitcode64 = None, ob_seg_linkedit = Some small_linkedit,
     ob_seg_linkedit64 = None, ob_code_sig_cmd = None, ob_split_info_cmd = None,
     ob_func_starts_info_cmd = None, ob_data_in_code_cmd = None, ob_code_sign_drs_cmd = None,
     ob_link_opt_hint_cmd = None, ob_dyld_info = None, ob_indirectsym_pad = 0\<rparr>"

lemma small_object_facts:
  "one_header small_object" "linkedit_start small_object = Inr 100"
  "after_dyld_info small_object 100 = Inr 100"
  "ob_st small_object = Some small_st" "ob_dyst small_object = Some small_dyst"
  "bytes_of (front_tables small_object small_st small_dyst) = 16"
  "bytes_of (back_tables small_object small_st small_dyst) = 4"
  by (simp_all add: one_header_def small_object_def linkedit_start_def linkedit_start_32_def
      small_linkedit_def after_dyld_info_def fatal_if_def front_tables_def back_tables_def
      small_st_def small_dyst_def entries_def data_entry_def hints_entry_def sizeof_nlist_def)

lemma small_layout:
  "laid_out 100 (front_tables small_object small_st small_dyst) 116"
  "laid_out 116 (back_tables small_object small_st small_dyst) 120"
  "laid_out 0 (symbol_groups small_dyst) 1" "ends_file small_object 120"
  by (simp_all add: small_object_def front_tables_def back_tables_def symbol_groups_def
      small_st_def small_dyst_def entries_def data_entry_def hints_entry_def sizeof_nlist_def
      ends_file_def)

lemma small_object_layout: "dyld_layout small_object"
  unfolding dyld_layout_def using small_object_facts small_layout by blast


theorem dyld_tables_ordered_witness:
  "unat (st_stroff small_st) + unat (st_strsize small_st) \<le> unat (ob_size small_object)"
proof -
  obtain ob' where "dyld_order small_object = Inr ob'"
    using dyld_order_layout [OF small_object_facts(1)] small_object_layout by auto
  from dyld_tables_ordered [OF small_object_facts(1) this small_object_facts(4,5,2,3)] show ?thesis
    by (simp add: small_object_facts) (simp add: small_st_def small_dyst_def small_object_def)
qed

end
