(* ===== verification/Checkout_Object.thy ===== *)
theory Checkout_Object
  imports Checkout_Layout
begin

text \<open>
  \<open>check_object\<close> as a whole: what it collects from the load commands, when it dereferences a
  null pointer, what it does when it is called again, and what it accepts for files with their
  symbols at the end.
\<close>

section \<open>Errors of the steps\<close>

named_theorems null_simps \<open>steps that do not dereference a null pointer\<close>

lemma and_then_eq_Inl:
  "and_then r f = Inl e \<longleftrightarrow> r = Inl e \<or> (\<exists>x. r = Inr x \<and> f x = Inl e)"
  by (cases r) auto

lemma fatal_if_null [null_simps]: "e \<noteq> Null_dereference \<Longrightarrow> fatal_if b e \<noteq> Inl Null_dereference"
  by (simp add: fatal_if_def)

lemma fatal_if_eq_Inl: "fatal_if b e = Inl e' \<longleftrightarrow> b \<and> e = e'"
  by (auto simp: fatal_if_def)

lemma deref_eq_Inl [simp]: "deref p = Inl e \<longleftrightarrow> p = None \<and> e = Null_dereference"
  by (cases p) (auto simp: deref_def)

lemma scan_command_null: "scan_command c s \<noteq> Inl Null_dereference"
  by (cases s; cases c)
    (auto simp: and_then_eq_Inl fatal_if_eq_Inl scan_segment_def scan_segment_64_def)

lemma scan_commands_null: "scan_commands cs s \<noteq> Inl Null_dereference"
  by (induction cs arbitrary: s) (auto simp: and_then_eq_Inl scan_command_null)

lemma place_null [null_simps]:
  "place_table r n off b a \<noteq> Inl Null_dereference"
  "place_data r cmd a \<noteq> Inl Null_dereference"
  by (auto simp: place_table_def place_data_def and_then_eq_Inl fatal_if_eq_Inl split: option.split)

lemma place_padded_null [null_simps]: "place_padded r n off b s \<noteq> Inl Null_dereference"
  by (cases s) (auto simp: and_then_eq_Inl fatal_if_eq_Inl)

lemma place_modules_null [null_simps]: "place_modules ob dyst s \<noteq> Inl Null_dereference"
  by (cases s) (auto simp: and_then_eq_Inl fatal_if_eq_Inl place_padded_null simp del: place_padded.simps)

lemma dyld_steps_null [null_simps]:
  "linkedit_start ob \<noteq> Inl Null_dereference"
  "after_dyld_info ob a \<noteq> Inl Null_dereference"
  "place_linkedit_data ob a \<noteq> Inl Null_dereference"
  "check_symbol_groups dyst \<noteq> Inl Null_dereference"
  "place_hints ob a \<noteq> Inl Null_dereference"
  "place_tail ob st dyst a \<noteq> Inl Null_dereference"
  "finish ob s \<noteq> Inl Null_dereference"
proof -
  show "linkedit_start ob \<noteq> Inl Null_dereference"
    by (auto simp: linkedit_start_def linkedit_start_32_def linkedit_start_64_def Let_def
        and_then_eq_Inl fatal_if_eq_Inl split: option.split)
  show "after_dyld_info ob a \<noteq> Inl Null_dereference"
    by (auto simp: after_dyld_info_def and_then_eq_Inl fatal_if_eq_Inl split: option.split)
  show "place_linkedit_data ob a \<noteq> Inl Null_dereference"
    by (auto simp: place_linkedit_data_def and_then_eq_Inl place_null)
  show "check_symbol_groups dyst \<noteq> Inl Null_dereference"
    by (auto simp: check_symbol_groups_def and_then_eq_Inl place_null)
  show "place_hints ob a \<noteq> Inl Null_dereference"
    by (auto simp: place_hints_def place_null split: option.split)
  show "place_tail ob st dyst a \<noteq> Inl Null_dereference"
    by (auto simp: place_tail_def and_then_eq_Inl place_padded_null place_modules_null
        simp del: place_padded.simps place_modules.simps)
  show "finish ob s \<noteq> Inl Null_dereference"
    by (cases s) (auto simp: finish_def and_then_eq_Inl fatal_if_eq_Inl Let_def split: option.split)
qed

lemma dyld_order_null:
  "ob_dyst ob \<noteq> None \<Longrightarrow> dyld_order ob = Inl Null_dereference \<Longrightarrow> ob_st ob = None"
  unfolding dyld_order_finish place_symbols_def and_then_eq_Inl deref_eq_Inl
  by (auto simp: null_simps)

lemma symbol_string_at_end_null: "symbol_string_at_end ob \<noteq> Inl Null_dereference"
  unfolding symbol_string_at_end_def
  by (auto simp: and_then_eq_Inl fatal_if_eq_Inl end_before_signature_def strings_at_end_def
      indirect_before_strings_def linkedit_covers_def indirect_behind_symbols_def Let_def
      split: option.splits if_splits)

section \<open>Collecting the load commands\<close>

text \<open>What a scan adds to a field, as a set with at most one element.\<close>

lemma scan_command_fields:
  assumes "scan_command c (ob, dl) = Inr (ob', dl')"
  shows "set_option (ob_st ob') = set_option (ob_st ob) \<union> {x. c = LC_SYMTAB x}"
    and "set_option (ob_dyst ob') = set_option (ob_dyst ob) \<union> {x. c = LC_DYSYMTAB x}"
    and "set_option (ob_data_in_code_cmd ob') = set_option (ob_data_in_code_cmd ob) \<union> {x. c = LC_DATA_IN_CODE x}"
    and "set_option (ob_code_sig_cmd ob') = set_option (ob_code_sig_cmd ob) \<union> {x. c = LC_CODE_SIGNATURE x}"
    and "ob_mh ob' = ob_mh ob \<and> ob_mh64 ob' = ob_mh64 ob
      \<and> ob_load_commands ob' = ob_load_commands ob \<and> ob_size ob' = ob_size ob
      \<and> ob_filetype ob' = ob_filetype ob"
  using assms
  by (cases c; auto simp: and_then_eq_Inr scan_segment_def scan_segment_64_def split: if_splits)+

lemma scan_commands_fields:
  assumes "scan_commands cs (ob, dl) = Inr (ob', dl')"
  shows "set_option (ob_st ob') = set_option (ob_st ob) \<union> {x. LC_SYMTAB x \<in> set cs}"
    and "set_option (ob_dyst ob') = set_option (ob_dyst ob) \<union> {x. LC_DYSYMTAB x \<in> set cs}"
    and "set_option (ob_data_in_code_cmd ob') = set_option (ob_data_in_code_cmd ob) \<union> {x. LC_DATA_IN_CODE x \<in> set cs}"
    and "set_option (ob_code_sig_cmd ob') = set_option (ob_code_sig_cmd ob) \<union> {x. LC_CODE_SIGNATURE x \<in> set cs}"
    and "ob_mh ob' = ob_mh ob \<and> ob_mh64 ob' = ob_mh64 ob
      \<and> ob_load_commands ob' = ob_load_commands ob \<and> ob_size ob' = ob_size ob
      \<and> ob_filetype ob' = ob_filetype ob"
proof -
  have "set_option (ob_st ob') = set_option (ob_st ob) \<union> {x. LC_SYMTAB x \<in> set cs}
    \<and> set_option (ob_dyst ob') = set_option (ob_dyst ob) \<union> {x. LC_DYSYMTAB x \<in> set cs}
    \<and> set_option (ob_data_in_code_cmd ob')
        = set_option (ob_data_in_code_cmd ob) \<union> {x. LC_DATA_IN_CODE x \<in> set cs}
    \<and> set_option (ob_code_sig_cmd ob')
        = set_option (ob_code_sig_cmd ob) \<union> {x. LC_CODE_SIGNATURE x \<in> set cs}
    \<and> ob_mh ob' = ob_mh ob \<and> ob_mh64 ob' = ob_mh64 ob
    \<and> ob_load_commands ob' = ob_load_commands ob \<and> ob_size ob' = ob_size ob
    \<and> ob_filetype ob' = ob_filetype ob"
    using assms
  proof (induction cs arbitrary: ob dl)
    case (Cons c cs)
    then obtain ob1 dl1 where 1: "scan_command c (ob, dl) = Inr (ob1, dl1)"
      and 2: "scan_commands cs (ob1, dl1) = Inr (ob', dl')" by (auto simp: and_then_eq_Inr)
    from Cons.IH [OF 2] scan_command_fields [OF 1] show ?case by auto
  qed simp
  then show "set_option (ob_st ob') = set_option (ob_st ob) \<union> {x. LC_SYMTAB x \<in> set cs}"
    "set_option (ob_dyst ob') = set_option (ob_dyst ob) \<union> {x. LC_DYSYMTAB x \<in> set cs}"
    "set_option (ob_data_in_code_cmd ob') = set_option (ob_data_in_code_cmd ob) \<union> {x. LC_DATA_IN_CODE x \<in> set cs}"
    "set_option (ob_code_sig_cmd ob') = set_option (ob_code_sig_cmd ob) \<union> {x. LC_CODE_SIGNATURE x \<in> set cs}"
    "ob_mh ob' = ob_mh ob \<and> ob_mh64 ob' = ob_mh64 ob
      \<and> ob_load_commands ob' = ob_load_commands ob \<and> ob_size ob' = ob_size ob
      \<and> ob_filetype ob' = ob_filetype ob" by blast+
qed

lemma scan_data_in_code_once:
  "scan_commands cs (ob, dl) = Inr s \<Longrightarrow> LC_DATA_IN_CODE x \<in> set cs \<Longrightarrow> ob_data_in_code_cmd ob = None"
proof (induction cs arbitrary: ob dl)
  case (Cons c cs)
  then obtain ob1 dl1 where 1: "scan_command c (ob, dl) = Inr (ob1, dl1)"
    and 2: "scan_commands cs (ob1, dl1) = Inr s" by (auto simp: and_then_eq_Inr)
  show ?case
  proof (cases "c = LC_DATA_IN_CODE x")
    case True
    with 1 show ?thesis by (auto simp: and_then_eq_Inr)
  next
    case False
    with Cons.prems(2) have "LC_DATA_IN_CODE x \<in> set cs" by simp
    from Cons.IH [OF 2 this] scan_command_fields(3) [OF 1] show ?thesis by auto
  qed
qed simp

text \<open>The commands that \<open>check_object\<close> walks over.\<close>

definition commands_of :: "object \<Rightarrow> command list" where
  "commands_of ob = (case header_ncmds_flags ob of
     Inr (ncmds, flags) \<Rightarrow> take (unat ncmds) (ob_load_commands ob) | Inl e \<Rightarrow> [])"

lemma reset_object_simps [simp]:
  "ob_st (reset_object ob) = None" "ob_dyst (reset_object ob) = None"
  "ob_code_sig_cmd (reset_object ob) = None"
  "ob_data_in_code_cmd (reset_object ob) = ob_data_in_code_cmd ob"
  "ob_mh (reset_object ob) = ob_mh ob" "ob_mh64 (reset_object ob) = ob_mh64 ob"
  "ob_load_commands (reset_object ob) = ob_load_commands ob"
  "ob_filetype (reset_object ob) = ob_filetype ob" "ob_size (reset_object ob) = ob_size ob"
  by (simp_all add: reset_object_def)

lemma header_reset [simp]: "header_ncmds_flags (reset_object ob) = header_ncmds_flags ob"
  by (simp add: header_ncmds_flags_def split: option.split)

lemma commands_of_cong:
  "ob_mh ob' = ob_mh ob \<Longrightarrow> ob_mh64 ob' = ob_mh64 ob \<Longrightarrow> ob_load_commands ob' = ob_load_commands ob
   \<Longrightarrow> commands_of ob' = commands_of ob"
  unfolding commands_of_def header_ncmds_flags_def by metis

text \<open>The fields the checks themselves leave alone.\<close>

definition same_commands :: "object \<Rightarrow> object \<Rightarrow> bool" where
  "same_commands ob ob' \<longleftrightarrow> ob_st ob' = ob_st ob \<and> ob_dyst ob' = ob_dyst ob
     \<and> ob_data_in_code_cmd ob' = ob_data_in_code_cmd ob \<and> ob_code_sig_cmd ob' = ob_code_sig_cmd ob
     \<and> ob_mh ob' = ob_mh ob \<and> ob_mh64 ob' = ob_mh64 ob
     \<and> ob_load_commands ob' = ob_load_commands ob"

lemma finish_same: "finish ob s = Inr ob' \<Longrightarrow> same_commands ob ob'"
  by (cases s) (auto simp: finish_def and_then_eq_Inr same_commands_def)

lemma dyld_order_same: "dyld_order ob = Inr ob' \<Longrightarrow> same_commands ob ob'"
  unfolding dyld_order_finish and_then_eq_Inr by (blast dest: finish_same)

lemma symbol_string_at_end_cases:
  assumes "symbol_string_at_end ob = Inr ob'"
  obtains (no_symbols) "ob' = ob" "\<And>st. ob_st ob = Some st \<Longrightarrow> st_nsyms st = 0"
  | (indirect) st dyst e n e' pad where "ob_st ob = Some st" "end_before_signature ob st = Inr e"
      "strings_at_end ob st e = Inr (n, e')" "indirect_behind_symbols ob st" "ob_dyst ob = Some dyst"
      "indirect_before_strings (ob\<lparr>ob_size := n\<rparr>) dyst e' = Inr pad"
      "symbols_end ob st = ucast (dyst_indirectsymoff dyst)"
      "ob' = ob\<lparr>ob_size := n, ob_indirectsym_pad := pad\<rparr>"
  | (last) st e n e' where "ob_st ob = Some st" "end_before_signature ob st = Inr e"
      "strings_at_end ob st e = Inr (n, e')" "\<not> indirect_behind_symbols ob st"
      "symbols_end ob st = ucast e'" "ob' = ob\<lparr>ob_size := n\<rparr>"
proof (cases "\<exists>st. ob_st ob = Some st \<and> st_nsyms st \<noteq> 0")
  case False
  have "ob' = ob" using assms False by (cases "ob_st ob") (simp_all add: symbol_string_at_end_def)
  with False show ?thesis by (auto intro: no_symbols)
next
  case True
  then obtain st where st: "ob_st ob = Some st" "st_nsyms st \<noteq> 0" by blast
  have upd [simp]: "indirect_behind_symbols (ob\<lparr>ob_size := n\<rparr>) st = indirect_behind_symbols ob st"
    "symbols_end (ob\<lparr>ob_size := n\<rparr>) st = symbols_end ob st"
    "symbols_end (ob\<lparr>ob_size := n, ob_indirectsym_pad := p\<rparr>) st = symbols_end ob st" for n p
    by (simp_all add: indirect_behind_symbols_def symbols_end_def sizeof_nlist_def)
  from assms st obtain e n e' where
    1: "end_before_signature ob st = Inr e" "strings_at_end ob st e = Inr (n, e')"
    by (auto simp: symbol_string_at_end_def and_then_eq_Inr)
  show ?thesis
  proof (cases "indirect_behind_symbols ob st")
    case True
    with assms st 1 obtain dyst pad where "ob_dyst ob = Some dyst"
      "indirect_before_strings (ob\<lparr>ob_size := n\<rparr>) dyst e' = Inr pad"
      "symbols_end ob st = ucast (dyst_indirectsymoff dyst)"
      "ob' = ob\<lparr>ob_size := n, ob_indirectsym_pad := pad\<rparr>"
      by (simp add: symbol_string_at_end_def and_then_eq_Inr Let_def) metis
    with True st 1 show ?thesis by (intro indirect)
  next
    case False
    with assms st 1 have "symbols_end ob st = ucast e'" "ob' = ob\<lparr>ob_size := n\<rparr>"
      by (simp_all add: symbol_string_at_end_def and_then_eq_Inr Let_def)
    with False st 1 show ?thesis by (intro last)
  qed
qed

lemma symbol_string_at_end_same: "symbol_string_at_end ob = Inr ob' \<Longrightarrow> same_commands ob ob'"
  by (erule symbol_string_at_end_cases) (simp_all add: same_commands_def)

lemma check_object_Inr:
  assumes "check_object ob = Inr ob'"
  obtains ncmds flags ob1 dl where "header_ncmds_flags ob = Inr (ncmds, flags)"
    and "scan_commands (commands_of ob) (reset_object ob, None) = Inr (ob1, dl)"
    and "same_commands ob1 ob'"
  using assms unfolding check_object_def
  by (auto simp: and_then_eq_Inr commands_of_def Let_def split: if_splits
      dest: dyld_order_same symbol_string_at_end_same)

lemma check_object_null:
  assumes "one_header ob" and "check_object ob = Inl Null_dereference"
  shows "(\<exists>d. LC_DYSYMTAB d \<in> set (commands_of ob)) \<and> \<not> (\<exists>c. LC_SYMTAB c \<in> set (commands_of ob))"
proof -
  from assms(1) obtain ncmds flags where hdr: "header_ncmds_flags ob = Inr (ncmds, flags)"
    by (cases "ob_mh ob"; cases "ob_mh64 ob") (simp_all add: one_header_def header_ncmds_flags_def deref_def)
  have hints: "check_hints o' \<noteq> Inl Null_dereference" for o'
    by (auto simp: check_hints_def and_then_eq_Inl fatal_if_eq_Inl split: option.split)
  from assms(2) hdr obtain ob1 dl where
    1: "scan_commands (commands_of ob) (reset_object ob, None) = Inr (ob1, dl)"
    and 2: "ob_dyst ob1 \<noteq> None" "dyld_order ob1 = Inl Null_dereference"
    unfolding check_object_def commands_of_def
    by (auto simp: and_then_eq_Inl fatal_if_eq_Inl scan_commands_null hints
        symbol_string_at_end_null Let_def split: if_splits)
  from dyld_order_null [OF 2] have "ob_st ob1 = None" .
  with scan_commands_fields(1,2) [OF 1] 2(1) show ?thesis by auto
qed

section \<open>Properties\<close>


text \<open>
  \<open>check_object\<close> does not dereference a null pointer on an object with one header, provided that
  a file with an \<open>LC_DYSYMTAB\<close> load command has an \<open>LC_SYMTAB\<close> load command, which \<open>check_Mach_O\<close>
  of \<open>ofile.c\<close> sees to.
\<close>

theorem check_object_no_null:
  assumes "one_header ob"
    and "(\<exists>d. LC_DYSYMTAB d \<in> set (commands_of ob)) \<Longrightarrow> (\<exists>c. LC_SYMTAB c \<in> set (commands_of ob))"
  shows "check_object ob \<noteq> Inl Null_dereference"
  using assms check_object_null by blast

text \<open>
  \<open>check_object\<close> cannot be run again on an object it accepted if the file has a data-in-code
  command: the field is not reset, so the command of the second run is taken for a second one.
\<close>

theorem check_object_not_repeatable:
  assumes "check_object ob = Inr ob'" and "LC_DATA_IN_CODE x \<in> set (commands_of ob)"
  shows "\<exists>e. check_object ob' = Inl e"
proof (rule ccontr)
  assume "\<not> (\<exists>e. check_object ob' = Inl e)"
  then obtain ob'' where again: "check_object ob' = Inr ob''" by (cases "check_object ob'") auto
  from assms(1) obtain n f ob1 dl where
    1: "scan_commands (commands_of ob) (reset_object ob, None) = Inr (ob1, dl)"
    and same: "same_commands ob1 ob'" by (rule check_object_Inr)
  from scan_commands_fields(3,5) [OF 1] assms(2) same
  have set: "ob_data_in_code_cmd ob' \<noteq> None" and cmds: "commands_of ob' = commands_of ob"
    by (auto simp: same_commands_def intro!: commands_of_cong)
  from again obtain n f ob2 dl2 where
    "scan_commands (commands_of ob') (reset_object ob', None) = Inr (ob2, dl2)"
    by (rule check_object_Inr)
  from scan_data_in_code_once [OF this] assms(2) cmds have "ob_data_in_code_cmd ob' = None" by simp
  with set show False by simp
qed

text \<open>
  For a file without code signature whose symbols are last, \<open>symbol_string_at_end\<close> accepts only
  a symbol table that ends where the string table begins and a string table that ends the file,
  up to the rounding of archive members to 8 bytes; it then sets the size of the object to the
  end of the strings.
\<close>

theorem symbols_and_strings_last:
  assumes "symbol_string_at_end ob = Inr ob'" and "ob_st ob = Some st"
    and "st_nsyms st \<noteq> 0" and "st_strsize st \<noteq> 0" and "ob_code_sig_cmd ob = None"
    and "\<not> indirect_behind_symbols ob st"
  shows "ucast (st_symoff st) + ucast (st_nsyms st) * ucast (sizeof_nlist ob) = (ucast (st_stroff st) :: u64)
    \<and> (st_stroff st + st_strsize st = ob_size ob \<or> rnd32 (st_stroff st + st_strsize st) 8 = ob_size ob)
    \<and> ob_size ob' = st_stroff st + st_strsize st"
  using assms(1)
proof (cases rule: symbol_string_at_end_cases)
  case (last st' e n e')
  with assms(2,5) have [simp]: "st' = st" "e = ob_size ob" by (simp_all add: end_before_signature_def)
  from last(3) assms(4,5) have "e' = st_stroff st \<and> n = st_stroff st + st_strsize st
    \<and> (st_stroff st + st_strsize st = ob_size ob \<or> rnd32 (st_stroff st + st_strsize st) 8 = ob_size ob)"
    by (auto simp: strings_at_end_def Let_def and_then_eq_Inr split: if_splits)
  with last(5,6) show ?thesis by (simp add: symbols_end_def)
qed (use assms in simp_all)

text \<open>
  With the indirect symbols behind the symbol table, the three tables are next to one another:
  symbols, indirect symbols (padded to 8 bytes or not) and strings.
\<close>

theorem indirect_symbols_between:
  assumes "symbol_string_at_end ob = Inr ob'" and "ob_st ob = Some st" and "ob_dyst ob = Some dyst"
    and "st_strsize st \<noteq> 0" and "ob_code_sig_cmd ob = None" and "indirect_behind_symbols ob st"
  shows "symbols_end ob st = ucast (dyst_indirectsymoff dyst)
    \<and> st_stroff st = dyst_indirectsymoff dyst + dyst_nindirectsyms dyst * 4 + ob_indirectsym_pad ob'
    \<and> (ob_indirectsym_pad ob' = 0 \<or> st_stroff st
        = rounded_after_indirect ob dyst (dyst_indirectsymoff dyst + dyst_nindirectsyms dyst * 4))"
  using assms(1)
proof (cases rule: symbol_string_at_end_cases)
  case (indirect st' dyst' e n e' pad)
  with assms(2,3) have [simp]: "st' = st" "dyst' = dyst" by simp_all
  from indirect(3) assms(4) have "e' = st_stroff st"
    by (auto simp: strings_at_end_def Let_def and_then_eq_Inr)
  moreover have "rounded_after_indirect (ob\<lparr>ob_size := n\<rparr>) dyst v = rounded_after_indirect ob dyst v" for v
    by (simp add: rounded_after_indirect_def)
  ultimately show ?thesis using indirect(6,7,8)
    by (auto simp: indirect_before_strings_def Let_def and_then_eq_Inr)
next
  case no_symbols
  with assms show ?thesis by (simp add: indirect_behind_symbols_def)
qed (use assms in simp_all)

text \<open>
  For dyld information that has an export table but no rebase and bind table the test of the
  offset is the wrong way round: an export table that follows a weak bind and a lazy bind table
  as it should is refused, and one without these two is accepted wherever it is.
\<close>

theorem dyld_info_export_check:
  assumes "ob_dyld_info ob = Some ed" and "ed_rebase_off ed = 0" and "ed_bind_off ed = 0"
    and "ed_export_off ed \<noteq> 0" and "ed_export_size ed \<noteq> 0" and "ed_export_off ed \<noteq> offset"
  shows "after_dyld_info ob offset =
    (if ed_weak_bind_size ed \<noteq> 0 \<and> ed_lazy_bind_size ed \<noteq> 0 then Inl (Out_of_place ''dyld_info'')
     else Inr (ed_export_off ed + ed_export_size ed))"
  using assms by (simp add: after_dyld_info_def fatal_if_def)

section \<open>Concrete objects\<close>

definition small_dylib :: dylib_command where
  "small_dylib = \<lparr>dl_cmd = 13, dl_cmdsize = 32, dl_dylib_name_offset = 24, dl_dylib_timestamp = 0,
     dl_dylib_current_version = 0, dl_dylib_compatibility_version = 0\<rparr>"

definition small_data :: linkedit_data_command where
  "small_data = \<lparr>ld_cmd = 0x29, ld_cmdsize = 16, ld_dataoff = 100, ld_datasize = 0\<rparr>"

text \<open>The small object with its load commands, as it is before the check.\<close>

definition loaded_object :: object where
  "loaded_object = small_object\<lparr>ob_mh := Some (small_header\<lparr>mh_ncmds := 5\<rparr>),
     ob_load_commands := [LC_SEGMENT (small_linkedit\<lparr>sg_segname := 0x544944454b4e494c5f5f\<rparr>),
       LC_ID_DYLIB small_dylib, LC_DATA_IN_CODE small_data, LC_SYMTAB small_st,
       LC_DYSYMTAB small_dyst], ob_st := None, ob_dyst := None, ob_seg_linkedit := None\<rparr>"

lemma linkedit_name: "name16 0x544944454b4e494c5f5f = ''__LINKEDIT''"
  by code_simp

lemma loaded_scanned:
  "commands_of loaded_object = ob_load_commands loaded_object"
  "scan_commands (ob_load_commands loaded_object) (reset_object loaded_object, None) =
    Inr (small_object\<lparr>ob_mh := ob_mh loaded_object, ob_load_commands := ob_load_commands loaded_object,
      ob_seg_linkedit := Some (small_linkedit\<lparr>sg_segname := 0x544944454b4e494c5f5f\<rparr>),
      ob_data_in_code_cmd := Some small_data\<rparr>, Some small_dylib)"
  by (simp_all add: commands_of_def header_ncmds_flags_def loaded_object_def small_header_def
      reset_object_def small_object_def scan_segment_def linkedit_name fatal_if_def small_dylib_def)

lemma loaded_accepted: "\<not> isl (check_object loaded_object)"
  by code_simp

lemma loaded_commands:
  "commands_of loaded_object = [LC_SEGMENT (small_linkedit\<lparr>sg_segname := 0x544944454b4e494c5f5f\<rparr>),
       LC_ID_DYLIB small_dylib, LC_DATA_IN_CODE small_data, LC_SYMTAB small_st, LC_DYSYMTAB small_dyst]"
  by (simp add: commands_of_def header_ncmds_flags_def loaded_object_def small_header_def)

lemma loaded_result: obtains ob' where "check_object loaded_object = Inr ob'"
  using loaded_accepted by (cases "check_object loaded_object") auto


theorem check_object_no_null_witness: "check_object loaded_object \<noteq> Inl Null_dereference"
proof (rule check_object_no_null)
  show "one_header loaded_object" by (simp add: one_header_def loaded_object_def small_object_def)
qed (auto simp: loaded_commands)

theorem check_object_not_repeatable_witness:
  "\<exists>ob' e. check_object loaded_object = Inr ob' \<and> check_object ob' = Inl e"
proof -
  obtain ob' where 1: "check_object loaded_object = Inr ob'" by (rule loaded_result)
  from check_object_not_repeatable [OF 1, of small_data] 1 show ?thesis by (simp add: loaded_commands)
qed

text \<open>A file with one symbol at 100 and five bytes of strings, padded to 120 bytes.\<close>

definition padded_object :: object where
  "padded_object = small_object\<lparr>ob_st := Some (small_st\<lparr>st_stroff := 112, st_strsize := 5\<rparr>),
     ob_dyst := None, ob_seg_linkedit := None\<rparr>"

lemma at_end_accepted:
  "\<not> isl (symbol_string_at_end padded_object)" "\<not> isl (symbol_string_at_end small_object)"
  by code_simp+

theorem symbols_and_strings_last_witness:
  "\<exists>ob'. symbol_string_at_end padded_object = Inr ob' \<and> ob_size ob' = 117"
proof -
  obtain ob' where 1: "symbol_string_at_end padded_object = Inr ob'"
    using at_end_accepted by (cases "symbol_string_at_end padded_object") auto
  with symbols_and_strings_last [OF 1, of "small_st\<lparr>st_stroff := 112, st_strsize := 5\<rparr>"] show ?thesis
    by (simp add: padded_object_def small_object_def small_st_def indirect_behind_symbols_def)
qed

theorem indirect_symbols_between_witness:
  "\<exists>ob'. symbol_string_at_end small_object = Inr ob' \<and> ob_indirectsym_pad ob' = 0"
proof -
  obtain ob' where 1: "symbol_string_at_end small_object = Inr ob'"
    using at_end_accepted by (cases "symbol_string_at_end small_object") auto
  with indirect_symbols_between [OF 1, of small_st small_dyst] show ?thesis
    by (simp add: small_object_def small_st_def small_dyst_def indirect_behind_symbols_def)
qed

theorem dyld_info_export_check_witness:
  "after_dyld_info (small_object\<lparr>ob_dyld_info := Some \<lparr>ed_cmd = 0x22, ed_cmdsize = 48, ed_rebase_off = 0,
      ed_rebase_size = 0, ed_bind_off = 0, ed_bind_size = 0, ed_weak_bind_off = 100,
      ed_weak_bind_size = 8, ed_lazy_bind_off = 108, ed_lazy_bind_size = 8, ed_export_off = 116,
      ed_export_size = 4\<rparr>\<rparr>) 100 = Inl (Out_of_place ''dyld_info'')"
  by (subst dyld_info_export_check) (rule refl | simp)+

end
