(* ===== verification/Leb128.thy ===== *)
theory Leb128
  imports Prelude
begin

text \<open>
  Little endian base 128 numbers: the writers and size functions of the assembler
  (\<open>as/read.c\<close>) and the readers of \<open>otool/dyld_bind_info.c\<close>. A buffer is the list of bytes up to
  its end; what a writer stores and returns is the list it wrote and its length. A right shift of
  a signed number is arithmetic, and a shift by the width of the type or more, which C leaves
  undefined, is an error of the model.
\<close>

section \<open>Arithmetic shifts\<close>

lemma sint_signed_drop_bit_div:
  "sint (signed_drop_bit 7 v) = sint (v :: 'a::len word) div 128"
  by (simp add: sint_signed_drop_bit_eq drop_bit_eq_div)

definition sleb_measure :: "int \<Rightarrow> nat" where
  "sleb_measure i = nat (if i < 0 then - i - 1 else i)"

lemma sleb_measure_div: "i \<noteq> 0 \<Longrightarrow> i \<noteq> -1 \<Longrightarrow> sleb_measure (i div 128) < sleb_measure i"
  unfolding sleb_measure_def by (simp split: if_split) linarith

text \<open>The test that ends the signed loops, and what it says of the number.\<close>

definition sleb_last :: "'a::len word \<Rightarrow> bool" where
  "sleb_last v \<longleftrightarrow> (let byte = ucast (v AND 0x7f) :: u32; v' = signed_drop_bit 7 v in
     (v' = 0 \<and> byte AND 0x40 = 0) \<or> (v' = - 1 \<and> byte AND 0x40 \<noteq> 0))"

lemma and_0x40: "w AND 0x40 = (0 :: 'a::len word) \<longleftrightarrow> \<not> bit w 6"
proof -
  have "(0x40 :: 'a word) = 2 ^ 6" by simp
  then show ?thesis by (simp only: and_exp_eq_0_iff_not_bit)
qed

lemma word_eq_sint:
  fixes v :: "'a::len word"
  shows "v = 0 \<longleftrightarrow> sint v = 0" and "v = - 1 \<longleftrightarrow> sint v = - 1"
  by (metis signed_0 signed_word_eqI) (metis sint_n1 signed_word_eqI)

lemma bit_6_sint:
  assumes "8 \<le> LENGTH('a)"
  shows "bit v 6 \<longleftrightarrow> odd (sint (v :: 'a::len word) div 64)"
proof -
  from assms have "bit v 6 = bit (sint v) 6" by (simp add: bit_sint_iff)
  then show ?thesis by (simp add: bit_iff_odd)
qed

lemma bit_6_low: "8 \<le> LENGTH('a) \<Longrightarrow> bit (ucast (v AND 0x7f) :: u32) 6 = bit (v :: 'a::len word) 6"
  by (simp add: bit_simps)

lemma sleb_range:
  "(i div 128 = 0 \<and> even (i div 64) \<or> i div 128 = - 1 \<and> odd (i div 64)) \<longleftrightarrow> - 64 \<le> i \<and> i < 64"
  for i :: int
proof -
  have "i div 128 = i div 64 div 2" by (simp add: zdiv_zmult2_eq [symmetric])
  moreover have "(q div 2 = 0 \<and> even q \<or> q div 2 = - 1 \<and> odd q) \<longleftrightarrow> q = 0 \<or> q = - 1" for q :: int
    by presburger
  moreover have "i div 64 = 0 \<or> i div 64 = - 1 \<longleftrightarrow> - 64 \<le> i \<and> i < 64"
    by linarith
  ultimately show ?thesis by simp
qed

lemma sleb_last_iff:
  assumes "8 \<le> LENGTH('a)"
  shows "sleb_last v \<longleftrightarrow> - 64 \<le> sint (v :: 'a::len word) \<and> sint v < 64"
  unfolding sleb_last_def Let_def and_0x40 bit_6_low [OF assms] bit_6_sint [OF assms]
    word_eq_sint(1) [of "signed_drop_bit 7 v"] word_eq_sint(2) [of "signed_drop_bit 7 v"]
    sint_signed_drop_bit_div
  unfolding not_not by (rule sleb_range)

lemma sleb_step_less:
  "8 \<le> LENGTH('a) \<Longrightarrow> \<not> sleb_last v
    \<Longrightarrow> sleb_measure (sint (signed_drop_bit 7 v)) < sleb_measure (sint (v :: 'a::len word))"
  unfolding sint_signed_drop_bit_div by (intro sleb_measure_div) (auto simp: sleb_last_iff)

section \<open>Writing\<close>

text \<open>The size functions of the two configurations, for 32-bit and 64-bit targets.\<close>

function sizeof_sleb128_32 :: "u32 \<Rightarrow> nat" where
  "sizeof_sleb128_32 v = (if sleb_last v then 1 else Suc (sizeof_sleb128_32 (signed_drop_bit 7 v)))"
  by pat_completeness auto
termination
  by (relation "measure (\<lambda>v. sleb_measure (sint v))") (simp_all add: sleb_step_less)

function sizeof_sleb128_64 :: "u64 \<Rightarrow> nat" where
  "sizeof_sleb128_64 v = (if sleb_last v then 1 else Suc (sizeof_sleb128_64 (signed_drop_bit 7 v)))"
  by pat_completeness auto
termination
  by (relation "measure (\<lambda>v. sleb_measure (sint v))") (simp_all add: sleb_step_less)

lemma unat_drop_bit: "unat (drop_bit n (v :: 'a::len word)) = unat v div 2 ^ n"
proof -
  have "take_bit LENGTH('a) (unat v) = unat v"
    by (simp add: take_bit_nat_eq_self_iff unat_less_numeral)
  then have "unat (drop_bit n v) = drop_bit n (unat v)" by (simp only: unsigned_drop_bit_eq)
  then show ?thesis by (simp add: drop_bit_eq_div)
qed

lemma unat_drop_bit_7: "unat (drop_bit 7 (v :: 'a::len word)) = unat v div 128"
  using unat_drop_bit [of 7 v] by simp

lemma drop_bit_7_less: "drop_bit 7 v \<noteq> 0 \<Longrightarrow> unat (drop_bit 7 v) < unat (v :: 'a::len word)"
proof -
  assume "drop_bit 7 v \<noteq> 0"
  then have "unat (drop_bit 7 v) \<noteq> 0" by (simp add: unat_eq_0)
  then show ?thesis unfolding unat_drop_bit_7 by simp
qed

function sizeof_uleb128_32 :: "u32 \<Rightarrow> nat" where
  "sizeof_uleb128_32 v = (let v = drop_bit 7 v in if v \<noteq> 0 then Suc (sizeof_uleb128_32 v) else 1)"
  by pat_completeness auto
termination by (relation "measure unat") (simp_all add: drop_bit_7_less)

function sizeof_uleb128_64 :: "u64 \<Rightarrow> nat" where
  "sizeof_uleb128_64 v = (let v = drop_bit 7 v in if v \<noteq> 0 then Suc (sizeof_uleb128_64 v) else 1)"
  by pat_completeness auto
termination by (relation "measure unat") (simp_all add: drop_bit_7_less)

text \<open>
  The writers. \<open>output_sleb128\<close> works on an \<open>int64_t\<close> in both configurations; \<open>output_uleb128\<close>
  on the unsigned type of a target address.
\<close>

function output_sleb128 :: "u64 \<Rightarrow> u8 list" where
  "output_sleb128 sv =
     (let byte = ucast (sv AND 0x7f) in
      if sleb_last sv then [byte] else (byte OR 0x80) # output_sleb128 (signed_drop_bit 7 sv))"
  by pat_completeness auto
termination
  by (relation "measure (\<lambda>v. sleb_measure (sint v))") (simp_all add: sleb_step_less)

function output_uleb128 :: "'a::len word \<Rightarrow> u8 list" where
  "output_uleb128 uval =
     (let byte = ucast (uval AND 0x7f); uval = drop_bit 7 uval in
      if uval \<noteq> 0 then (byte OR 0x80) # output_uleb128 uval else [byte])"
  by pat_completeness auto
termination by (relation "measure unat") (simp_all add: drop_bit_7_less)

declare sizeof_sleb128_32.simps [simp del] sizeof_sleb128_64.simps [simp del]
  sizeof_uleb128_32.simps [simp del] sizeof_uleb128_64.simps [simp del]
  output_sleb128.simps [simp del] output_uleb128.simps [simp del]

definition sizeof_leb128_32 :: "u32 \<Rightarrow> bool \<Rightarrow> nat" where
  "sizeof_leb128_32 v sign = (if sign then sizeof_sleb128_32 v else sizeof_uleb128_32 v)"

definition sizeof_leb128_64 :: "u64 \<Rightarrow> bool \<Rightarrow> nat" where
  "sizeof_leb128_64 v sign = (if sign then sizeof_sleb128_64 v else sizeof_uleb128_64 v)"

definition output_leb128_32 :: "u32 \<Rightarrow> bool \<Rightarrow> u8 list" where
  "output_leb128_32 v sign = (if sign then output_sleb128 (scast v) else output_uleb128 v)"

definition output_leb128_64 :: "u64 \<Rightarrow> bool \<Rightarrow> u8 list" where
  "output_leb128_64 v sign = (if sign then output_sleb128 v else output_uleb128 v)"

section \<open>Reading\<close>

text \<open>
  Both readers return the number and the rest of the buffer. An encoding that is cut off or too
  big is the number 0; the rest then begins at the end or at the byte that does not fit.
\<close>

fun read_uleb128_from :: "u64 \<Rightarrow> nat \<Rightarrow> u8 list \<Rightarrow> u64 \<times> u8 list" where
  "read_uleb128_from result n [] = (0, [])"
| "read_uleb128_from result n (b # p) =
     (let slice = ucast (b AND 0x7f) in
      if 64 \<le> n \<or> drop_bit n (push_bit n slice) \<noteq> slice then (0, b # p)
      else let result = result OR push_bit n slice in
        if b AND 0x80 \<noteq> 0 then read_uleb128_from result (n + 7) p else (result, p))"

definition read_uleb128 :: "u8 list \<Rightarrow> u64 \<times> u8 list" where
  "read_uleb128 p = read_uleb128_from 0 0 p"

text \<open>\<open>None\<close> is an undefined shift.\<close>

fun read_sleb128_from :: "u64 \<Rightarrow> nat \<Rightarrow> u8 list \<Rightarrow> (u64 \<times> u8 list) option" where
  "read_sleb128_from result n [] = Some (0, [])"
| "read_sleb128_from result n (b # p) =
     (if 64 \<le> n then None
      else let result = result OR push_bit n (ucast (b AND 0x7f)); n = n + 7 in
        if b AND 0x80 \<noteq> 0 then read_sleb128_from result n p
        else if b AND 0x40 \<noteq> 0
        then (if 64 \<le> n then None else Some (result OR push_bit n (- 1), p))
        else Some (result, p))"

definition read_sleb128 :: "u8 list \<Rightarrow> (u64 \<times> u8 list) option" where
  "read_sleb128 p = read_sleb128_from 0 0 p"

section \<open>The encoding of a number\<close>

text \<open>What a number is encoded as, whatever the width of the variable that holds it.\<close>

fun uleb_bytes :: "nat \<Rightarrow> u8 list" where
  "uleb_bytes n = (if n < 128 then [of_nat n] else of_nat (128 + n mod 128) # uleb_bytes (n div 128))"

function sleb_bytes :: "int \<Rightarrow> u8 list" where
  "sleb_bytes i = (if - 64 \<le> i \<and> i < 64 then [of_int (i mod 128)]
     else of_int (128 + i mod 128) # sleb_bytes (i div 128))"
  by pat_completeness auto
termination
  by (relation "measure sleb_measure") (auto intro: sleb_measure_div)

declare uleb_bytes.simps [simp del] sleb_bytes.simps [simp del]

lemma and_0x7f: "v AND 0x7f = take_bit 7 (v :: 'a::len word)"
  by (simp add: take_bit_eq_mask mask_eq_exp_minus_1)

lemma low_byte: "(ucast (v AND 0x7f) :: u8) = of_nat (unat (v :: 'a::len word) mod 128)"
proof -
  have "unat (v AND 0x7f) = unat v mod 128"
    unfolding and_0x7f unsigned_take_bit_eq by (simp add: take_bit_eq_mod)
  then show ?thesis by (metis of_nat_unat)
qed

lemma continued_byte: "m < 128 \<Longrightarrow> (of_nat m :: u8) OR 0x80 = of_nat (128 + m)"
proof -
  assume m: "m < 128"
  have "(of_nat m :: u8) AND 0x80 = 0"
  proof (rule bit_eqI)
    fix i
    have "bit (of_nat m :: u8) 7 = False"
      using m unfolding bit_of_nat_iff by (simp add: bit_iff_odd)
    moreover have "bit (0x80 :: u8) i \<longleftrightarrow> i = 7"
      using bit_exp_iff [of 7 i, where 'a = u8] by auto
    ultimately show "bit ((of_nat m :: u8) AND 0x80) i = bit 0 i" by (auto simp: bit_and_iff)
  qed
  then have "(of_nat m :: u8) + 0x80 = of_nat m OR 0x80" by (rule disjunctive_add_eq_or)
  then show ?thesis by (simp add: add.commute)
qed

lemma output_uleb128_spec: "output_uleb128 v = uleb_bytes (unat v)"
proof (induction v rule: output_uleb128.induct)
  case (1 v)
  have zero: "drop_bit 7 v = 0 \<longleftrightarrow> unat v < 128"
    using unat_drop_bit_7 [of v] by (metis div_eq_0_iff unat_eq_zero zero_neq_numeral)
  show ?case
  proof (cases "drop_bit 7 v = 0")
    case True
    with zero show ?thesis
      by (simp add: output_uleb128.simps [of v] uleb_bytes.simps [of "unat v"] low_byte)
  next
    case False
    have "output_uleb128 v = (of_nat (unat v mod 128) OR 0x80) # output_uleb128 (drop_bit 7 v)"
      using False by (simp only: output_uleb128.simps [of v] low_byte Let_def if_True simp_thms)
    also have "\<dots> = of_nat (128 + unat v mod 128) # uleb_bytes (unat v div 128)"
      using 1 [OF refl refl False] continued_byte [of "unat v mod 128"] by (simp add: unat_drop_bit_7)
    finally show ?thesis using False zero by (simp add: uleb_bytes.simps [of "unat v"])
  qed
qed

lemma sizeof_uleb128_spec:
  "sizeof_uleb128_32 v = length (uleb_bytes (unat v))"
  "sizeof_uleb128_64 w = length (uleb_bytes (unat w))"
proof -
  have zero: "drop_bit 7 x = 0 \<longleftrightarrow> unat x < 128" for x :: "'b::len word"
    using unat_drop_bit_7 [of x] by (metis div_eq_0_iff unat_eq_zero zero_neq_numeral)
  show "sizeof_uleb128_32 v = length (uleb_bytes (unat v))"
  proof (induction v rule: sizeof_uleb128_32.induct)
    case (1 v)
    then show ?case using zero [of v]
      by (subst sizeof_uleb128_32.simps, subst uleb_bytes.simps)
        (auto simp: Let_def unat_drop_bit_7 simp del: drop_bit_eq_div)
  qed
  show "sizeof_uleb128_64 w = length (uleb_bytes (unat w))"
  proof (induction w rule: sizeof_uleb128_64.induct)
    case (1 v)
    then show ?case using zero [of v]
      by (subst sizeof_uleb128_64.simps, subst uleb_bytes.simps)
        (auto simp: Let_def unat_drop_bit_7)
  qed
qed

lemma low_byte_sint: "(ucast (v AND 0x7f) :: u8) = of_int (sint (v :: u64) mod 128)"
proof -
  have "(ucast (take_bit 7 v) :: u8) = of_int (take_bit 7 (sint v))"
    by (rule bit_eqI) (auto simp: bit_simps)
  then show ?thesis by (simp only: and_0x7f) (simp add: take_bit_eq_mod)
qed

lemma continued_byte_int: "0 \<le> m \<Longrightarrow> m < 128 \<Longrightarrow> (of_int m :: u8) OR 0x80 = of_int (128 + m)"
  using continued_byte [of "nat m"] by simp

lemma sleb_last_64: "sleb_last (v :: u64) \<longleftrightarrow> - 64 \<le> sint v \<and> sint v < 64"
  and sleb_last_32: "sleb_last (w :: u32) \<longleftrightarrow> - 64 \<le> sint w \<and> sint w < 64"
  by (simp_all add: sleb_last_iff)

lemma output_sleb128_spec: "output_sleb128 v = sleb_bytes (sint v)"
proof (induction v rule: output_sleb128.induct)
  case (1 v)
  show ?case
  proof (cases "sleb_last v")
    case True
    then show ?thesis
      by (simp add: output_sleb128.simps [of v] sleb_bytes.simps [of "sint v"] low_byte_sint sleb_last_64)
  next
    case False
    have "output_sleb128 v = (of_int (sint v mod 128) OR 0x80) # output_sleb128 (signed_drop_bit 7 v)"
      using False by (simp only: output_sleb128.simps [of v] low_byte_sint Let_def if_False)
    also have "\<dots> = of_int (128 + sint v mod 128) # sleb_bytes (sint v div 128)"
      using 1 [OF refl False] continued_byte_int [of "sint v mod 128"]
      by (simp add: sint_signed_drop_bit_div)
    finally show ?thesis using False by (simp add: sleb_bytes.simps [of "sint v"] sleb_last_64)
  qed
qed

lemma sizeof_sleb128_spec:
  "sizeof_sleb128_32 v = length (sleb_bytes (sint v))"
  "sizeof_sleb128_64 w = length (sleb_bytes (sint w))"
proof -
  show "sizeof_sleb128_32 v = length (sleb_bytes (sint v))"
  proof (induction v rule: sizeof_sleb128_32.induct)
    case (1 v)
    then show ?case
      by (subst sizeof_sleb128_32.simps, subst sleb_bytes.simps)
        (simp add: sleb_last_32 sint_signed_drop_bit_div)
  qed
  show "sizeof_sleb128_64 w = length (sleb_bytes (sint w))"
  proof (induction w rule: sizeof_sleb128_64.induct)
    case (1 v)
    then show ?case
      by (subst sizeof_sleb128_64.simps, subst sleb_bytes.simps)
        (simp add: sleb_last_64 sint_signed_drop_bit_div)
  qed
qed

section \<open>Reading what was written\<close>

lemma byte_low: "k < 256 \<Longrightarrow> (ucast ((of_nat k :: u8) AND 0x7f) :: u64) = of_nat (k mod 128)"
proof -
  assume "k < 256"
  have "(ucast ((of_nat k :: u8) AND 0x7f) :: u64) = of_nat (unat ((of_nat k :: u8) AND 0x7f))"
    by (metis of_nat_unat)
  also have "unat ((of_nat k :: u8) AND 0x7f) = k mod 128"
  proof -
    have "unat (of_nat k :: u8) = k" using \<open>k < 256\<close> by (simp add: unat_of_nat)
    then show ?thesis by (simp only: and_0x7f unsigned_take_bit_eq) (simp add: take_bit_eq_mod)
  qed
  finally show ?thesis .
qed

lemma byte_high: "k < 256 \<Longrightarrow> (of_nat k :: u8) AND 0x80 \<noteq> 0 \<longleftrightarrow> 128 \<le> k"
proof -
  assume k: "k < 256"
  have "(of_nat k :: u8) AND 2 ^ 7 = 0 \<longleftrightarrow> \<not> bit (of_nat k :: u8) 7"
    by (rule and_exp_eq_0_iff_not_bit)
  also have "bit (of_nat k :: u8) 7 \<longleftrightarrow> odd (k div 128)"
    unfolding bit_of_nat_iff by (simp add: bit_iff_odd)
  also have "\<dots> \<longleftrightarrow> 128 \<le> k"
  proof (cases "k < 128")
    case False
    with k have "k div 128 = 1" by linarith
    with False show ?thesis by simp
  qed simp
  finally show ?thesis by simp
qed

lemma push_bit_fits: "m * 2 ^ n < 2 ^ 64 \<Longrightarrow> drop_bit n (push_bit n (of_nat m :: u64)) = of_nat m"
proof -
  assume fits: "m * 2 ^ n < 2 ^ 64"
  have "m \<le> m * 2 ^ n" by simp
  with fits have m: "m < 2 ^ 64" by linarith
  have "push_bit n (of_nat m :: u64) = of_nat (m * 2 ^ n)" by (simp add: push_bit_eq_mult)
  moreover have "unat (of_nat (m * 2 ^ n) :: u64) = m * 2 ^ n"
    using fits by (simp add: unat_of_nat del: of_nat_mult)
  ultimately have "unat (push_bit n (of_nat m :: u64)) = m * 2 ^ n" by (simp only:)
  then have "unat (drop_bit n (push_bit n (of_nat m :: u64))) = m"
    unfolding unat_drop_bit by simp
  then show ?thesis using m by (simp add: word_unat_eq_iff unat_of_nat)
qed

lemma push_bit_split:
  "push_bit n (of_nat (k mod 128)) OR push_bit (n + 7) (of_nat (k div 128)) = push_bit n (of_nat k :: u64)"
proof (rule bit_eqI)
  fix i
  have low: "bit (k mod 128) j \<longleftrightarrow> j < 7 \<and> bit k j" for j
    using bit_take_bit_iff [of 7 k j] by (simp add: take_bit_eq_mod)
  have high: "bit (k div 128) j \<longleftrightarrow> bit k (7 + j)" for j
    using bit_drop_bit_eq [of 7 k] by (simp add: drop_bit_eq_div)
  show "bit (push_bit n (of_nat (k mod 128)) OR push_bit (n + 7) (of_nat (k div 128)) :: u64) i
    = bit (push_bit n (of_nat k :: u64)) i"
  proof (cases "i < n + 7")
    case True
    then show ?thesis by (auto simp: bit_simps low high)
  next
    case False
    then have "7 + (i - (n + 7)) = i - n" by simp
    with False show ?thesis by (auto simp: bit_simps low high)
  qed
qed

lemma read_uleb128_from_bytes:
  "k * 2 ^ n < 2 ^ 64 \<Longrightarrow> n < 64 \<Longrightarrow>
   read_uleb128_from r n (uleb_bytes k @ rest) = (r OR push_bit n (of_nat k), rest)"
proof (induction k arbitrary: r n rule: uleb_bytes.induct)
  case (1 k)
  show ?case
  proof (cases "k < 128")
    case True
    with 1(2,3) push_bit_fits [of k n] show ?thesis
      by (simp add: uleb_bytes.simps [of k] byte_low byte_high Let_def)
  next
    case False
    have "k mod 128 * 2 ^ n \<le> k * 2 ^ n" by simp
    with 1(2) have fits: "k mod 128 * 2 ^ n < 2 ^ 64" by linarith
    have "k div 128 * 2 ^ (n + 7) = (k div 128 * 128) * 2 ^ n" by (simp add: power_add)
    also have "\<dots> \<le> k * 2 ^ n" by simp
    finally have next_fits: "k div 128 * 2 ^ (n + 7) < 2 ^ 64" using 1(2) by linarith
    moreover have "(2::nat) ^ (n + 7) \<le> k div 128 * 2 ^ (n + 7)" using False by simp
    ultimately have "(2::nat) ^ (n + 7) < 2 ^ 64" by linarith
    then have "n + 7 < 64" by (rule power_less_imp_less_exp [rotated]) simp
    from 1(1) [OF False next_fits this]
    show ?thesis using False 1(3) push_bit_fits [OF fits]
      by (simp add: uleb_bytes.simps [of k] byte_low byte_high Let_def push_bit_split or.assoc
          mod_add_eq del: of_nat_add of_nat_mod)
  qed
qed

lemma sleb_last_bits:
  assumes "sleb_last (v :: u64)" and "6 \<le> i" and "i < 64"
  shows "bit v i = bit v 6"
proof -
  from assms(1) have "signed_take_bit 6 (sint v) = sint v"
    by (simp add: signed_take_bit_int_eq_self_iff sleb_last_64)
  then have "bit (sint v) i = bit (sint v) (min i 6)"
    using bit_signed_take_bit_iff [of 6 "sint v" i] by (simp add: min.commute)
  with assms(2,3) show ?thesis by (simp add: bit_sint_iff)
qed

lemma neg_iff_bit: "sint (v :: u64) < 0 \<longleftrightarrow> bit v 63"
  using bit_last_iff [of v] by simp

text \<open>The bits that the last byte and the sign extension give.\<close>

lemma sleb_last_result:
  assumes "sleb_last (signed_drop_bit n v)" and "n \<le> 63"
  shows "take_bit n v OR push_bit n (take_bit 7 (signed_drop_bit n v))
      = (if bit v 63 then take_bit (n + 7) v else v)"
    and "bit v 63 \<Longrightarrow> take_bit (n + 7) v OR push_bit (n + 7) (- 1) = (v :: u64)"
proof -
  have shift: "bit v m = bit (signed_drop_bit n v) (m - n)" if "n \<le> m" "m < 64" for m
  proof -
    have "\<not> 64 - n \<le> m - n" "n + (m - n) = m" using that by simp_all
    with that show ?thesis by (simp add: bit_signed_drop_bit_iff)
  qed
  have same: "bit v m = bit v 63" if "n + 6 \<le> m" "m < 64" for m
    using shift [of m] shift [of 63] sleb_last_bits [OF assms(1), of "m - n"]
      sleb_last_bits [OF assms(1), of "63 - n"] that by simp
  show "take_bit n v OR push_bit n (take_bit 7 (signed_drop_bit n v))
      = (if bit v 63 then take_bit (n + 7) v else v)"
  proof (rule bit_eqI)
    fix i
    assume "possible_bit TYPE(u64) i"
    then have "i < 64" by simp
    with same [of i] show "bit (take_bit n v OR push_bit n (take_bit 7 (signed_drop_bit n v))) i
      = bit (if bit v 63 then take_bit (n + 7) v else v) i"
      by (cases "i < n"; cases "i < n + 6"; cases "i = n + 6") (auto simp: bit_simps)
  qed
  show "take_bit (n + 7) v OR push_bit (n + 7) (- 1) = v" if "bit v 63"
  proof (rule bit_eqI)
    fix i
    assume "possible_bit TYPE(u64) i"
    then have "i < 64" by simp
    with same [of i] that show "bit (take_bit (n + 7) v OR push_bit (n + 7) (- 1)) i = bit v i"
      by (cases "i < n + 7") (auto simp: bit_simps)
  qed
qed

lemma byte_of_low: "(ucast ((ucast (v AND 0x7f) :: u8) AND 0x7f) :: u64) = take_bit 7 (v :: u64)"
  "(ucast (((ucast (v AND 0x7f) :: u8) OR 0x80) AND 0x7f) :: u64) = take_bit 7 (v :: u64)"
proof -
  show "(ucast ((ucast (v AND 0x7f) :: u8) AND 0x7f) :: u64) = take_bit 7 v"
    unfolding and_0x7f by (rule bit_eqI) (auto simp: bit_simps)
  show "(ucast (((ucast (v AND 0x7f) :: u8) OR 0x80) AND 0x7f) :: u64) = take_bit 7 v"
    unfolding and_0x7f by (rule bit_eqI) (auto simp: bit_simps)
qed

lemma byte_flags: "(ucast (v AND 0x7f) :: u8) AND 0x80 = 0"
  "((ucast (v AND 0x7f) :: u8) OR 0x80) AND 0x80 \<noteq> 0"
  "(ucast (v AND 0x7f) :: u8) AND 0x40 = 0 \<longleftrightarrow> \<not> bit (v :: u64) 6"
proof -
  have bit7: "w AND 0x80 = 0 \<longleftrightarrow> \<not> bit w 7" for w :: u8
    using and_exp_eq_0_iff_not_bit [of w 7] by simp
  show "(ucast (v AND 0x7f) :: u8) AND 0x80 = 0"
    "((ucast (v AND 0x7f) :: u8) OR 0x80) AND 0x80 \<noteq> 0"
    by (simp_all only: bit7) (simp_all add: bit_simps)
  show "(ucast (v AND 0x7f) :: u8) AND 0x40 = 0 \<longleftrightarrow> \<not> bit v 6"
    by (simp only: and_0x40) (simp add: bit_simps)
qed

lemma read_sleb128_continued:
  "n < 64 \<Longrightarrow> read_sleb128_from r n ((ucast (v AND 0x7f) OR 0x80) # p)
     = read_sleb128_from (r OR push_bit n (take_bit 7 v)) (n + 7) p" for v :: u64
  by (simp only: read_sleb128_from.simps byte_of_low byte_flags Let_def if_True simp_thms) simp

lemma sint_shifted: "sint (signed_drop_bit n (v :: u64)) = sint v div 2 ^ n"
  by (simp add: sint_signed_drop_bit_eq drop_bit_eq_div)

lemma read_sleb128_from_bytes:
  assumes "n = 7 * j" and "j \<le> 9"
    and "n = 63 \<Longrightarrow> sint v < - (2 ^ 62) \<or> 2 ^ 62 \<le> sint v"
  shows "read_sleb128_from (take_bit n v) n (output_sleb128 (signed_drop_bit n v) @ rest)
    = (if sint v < - (2 ^ 62) then None else Some (v, rest))"
  using assms
proof (induction "9 - j" arbitrary: n j)
  case 0
  then have n: "n = 63" by simp
  let ?s = "signed_drop_bit 63 v"
  have last: "sleb_last ?s"
    using sint_ge [of v] sint_lt [of v] by (simp add: sleb_last_64 sint_shifted) linarith
  have neg: "bit ?s 6 \<longleftrightarrow> sint v < - (2 ^ 62)"
    using 0(4) n by (auto simp: bit_signed_drop_bit_iff neg_iff_bit [symmetric])
  have pos: "\<not> sint v < - (2 ^ 62) \<Longrightarrow> \<not> bit v 63"
    using 0(4) n by (auto simp: neg_iff_bit [symmetric])
  show ?case unfolding n
    using last neg pos sleb_last_result(1) [OF last]
    by (simp add: output_sleb128.simps [of ?s] byte_of_low byte_flags)
next
  case (Suc k)
  then have j: "j \<le> 8" "n \<le> 56" by simp_all
  let ?s = "signed_drop_bit n v"
  show ?case
  proof (cases "sleb_last ?s")
    case True
    then have "- 64 \<le> sint v div 2 ^ n" by (simp add: sleb_last_64 sint_shifted)
    then have "- 64 * 2 ^ n \<le> sint v div 2 ^ n * 2 ^ n" by (intro mult_right_mono) simp_all
    also have "\<dots> \<le> sint v" by (simp add: minus_mod_eq_div_mult [symmetric])
    finally have "- 64 * 2 ^ n \<le> sint v" .
    moreover have "(64::int) * 2 ^ n \<le> 64 * 2 ^ 56"
      using j(2) by (intro mult_left_mono power_increasing) simp_all
    ultimately have no: "\<not> sint v < - (2 ^ 62)" by simp
    have six: "bit ?s 6 = bit v 63"
      using sleb_last_bits [OF True, of 63] j
      by (cases "n = 0") (auto simp: bit_signed_drop_bit_iff split: if_splits)
    show ?thesis
      using True no six j sleb_last_result [OF True]
      by (simp add: output_sleb128.simps [of ?s] byte_of_low byte_flags Let_def)
  next
    case False
    have "take_bit n v OR push_bit n (take_bit 7 ?s) = take_bit (n + 7) v"
      using j(2) by (intro bit_eqI) (auto simp: bit_simps bit_signed_drop_bit_iff)
    moreover have "read_sleb128_from (take_bit (n + 7) v) (n + 7)
        (output_sleb128 (signed_drop_bit (n + 7) v) @ rest)
      = (if sint v < - (2 ^ 62) then None else Some (v, rest))"
    proof (rule Suc.hyps(1))
      show "k = 9 - Suc j" "n + 7 = 7 * Suc j" "Suc j \<le> 9" using Suc.hyps(2) Suc.prems j by simp_all
      assume "n + 7 = 63"
      then have n: "n = 56" by simp
      show "sint v < - (2 ^ 62) \<or> 2 ^ 62 \<le> sint v"
        using False unfolding n sleb_last_64 sint_shifted by simp linarith
    qed
    ultimately show ?thesis
      using False j
      by (simp add: output_sleb128.simps [of ?s] read_sleb128_continued add.commute Let_def
          del: read_sleb128_from.simps)
  qed
qed

section \<open>Codecs\<close>

text \<open>
  What a reader and a writer promise to whoever stores several numbers one after the other:
  reading at the start of a number returns it and the rest, for the numbers that can be read.
\<close>

locale stream_codec =
  fixes write_one :: "'a \<Rightarrow> u8 list"
    and read_one :: "u8 list \<Rightarrow> ('b \<times> u8 list) option"
    and valid :: "'a \<Rightarrow> bool"
    and meaning :: "'a \<Rightarrow> 'b"
  assumes read_write: "valid v \<Longrightarrow> read_one (write_one v @ rest) = Some (meaning v, rest)"
    and meaning_inj: "meaning v = meaning w \<Longrightarrow> v = w"
begin

text \<open>No encoding is the beginning of another one.\<close>

lemma prefix_free:
  assumes "valid v" and "valid w" and "write_one v @ xs = write_one w @ ys"
  shows "v = w \<and> xs = ys"
  using read_write [OF assms(1), of xs] read_write [OF assms(2), of ys] assms(3) meaning_inj by auto

text \<open>A sequence of numbers is read back one by one.\<close>

primrec read_many :: "nat \<Rightarrow> u8 list \<Rightarrow> ('b list \<times> u8 list) option" where
  "read_many 0 p = Some ([], p)"
| "read_many (Suc n) p = (case read_one p of None \<Rightarrow> None
     | Some (v, p) \<Rightarrow> (case read_many n p of None \<Rightarrow> None | Some (vs, p) \<Rightarrow> Some (v # vs, p)))"

lemma read_many_write:
  "list_all valid vs \<Longrightarrow>
   read_many (length vs) (concat (map write_one vs) @ rest) = Some (map meaning vs, rest)"
  by (induction vs) (simp_all add: read_write)

end

lemma ucast_32_64_inj: "(ucast v :: u64) = ucast w \<Longrightarrow> v = (w :: u32)"
  by (drule arg_cong [of _ _ unat]) (simp add: unsigned_ucast_eq take_bit_nat_eq_self
      less_trans [OF unat_less_numeral] word_unat_eq_iff)

lemma read_uleb128_output:
  "read_uleb128 (output_uleb128 (v :: u64) @ rest) = (v, rest)"
  "read_uleb128 (output_uleb128 (w :: u32) @ rest) = (ucast w, rest)"
proof -
  show "read_uleb128 (output_uleb128 (v :: u64) @ rest) = (v, rest)"
    using read_uleb128_from_bytes [of "unat v" 0 0 rest] unat_less_numeral [of v]
    by (simp add: read_uleb128_def output_uleb128_spec)
  have "unat w < 2 ^ 64" using unat_less_numeral [of w] by simp
  then show "read_uleb128 (output_uleb128 (w :: u32) @ rest) = (ucast w, rest)"
    using read_uleb128_from_bytes [of "unat w" 0 0 rest]
    by (simp add: read_uleb128_def output_uleb128_spec)
qed

lemma read_sleb128_output:
  "read_sleb128 (output_sleb128 v @ rest) = (if sint v < - (2 ^ 62) then None else Some (v, rest))"
  using read_sleb128_from_bytes [of 0 0 v rest] by (simp add: read_sleb128_def)

interpretation uleb64: stream_codec "output_uleb128 :: u64 \<Rightarrow> u8 list" "\<lambda>p. Some (read_uleb128 p)"
    "\<lambda>v. True" "\<lambda>v. v"
  by unfold_locales (simp_all add: read_uleb128_output)

interpretation uleb32: stream_codec "output_uleb128 :: u32 \<Rightarrow> u8 list" "\<lambda>p. Some (read_uleb128 p)"
    "\<lambda>v. True" "ucast :: u32 \<Rightarrow> u64"
  by unfold_locales (simp_all add: read_uleb128_output ucast_32_64_inj)

interpretation sleb: stream_codec output_sleb128 read_sleb128 "\<lambda>v. - (2 ^ 62) \<le> sint v" "\<lambda>v. v"
  by unfold_locales (simp_all add: read_sleb128_output)

section \<open>Lengths\<close>

lemma uleb_bytes_length: "n < 128 ^ Suc k \<Longrightarrow> length (uleb_bytes n) \<le> Suc k"
proof (induction k arbitrary: n)
  case 0
  then show ?case by (simp add: uleb_bytes.simps [of n])
next
  case (Suc k)
  from Suc.prems have "n div 128 < 128 ^ Suc k" by (simp add: less_mult_imp_div_less mult.commute)
  from Suc.IH [OF this] show ?case by (simp add: uleb_bytes.simps [of n])
qed

lemma sleb_bytes_length:
  "- 64 * 128 ^ k \<le> i \<Longrightarrow> i < 64 * 128 ^ k \<Longrightarrow> length (sleb_bytes i) \<le> Suc k"
proof (induction k arbitrary: i)
  case 0
  then show ?case by (simp add: sleb_bytes.simps [of i])
next
  case (Suc k)
  from Suc.prems have "- 64 * 128 ^ k \<le> i div 128" "i div 128 < 64 * 128 ^ k" by simp_all
  from Suc.IH [OF this] show ?case by (simp add: sleb_bytes.simps [of i])
qed

lemma leb_bytes_not_empty: "1 \<le> length (uleb_bytes n)" "1 \<le> length (sleb_bytes i)"
  by (simp_all add: uleb_bytes.simps [of n] sleb_bytes.simps [of i])

lemma sint_scast_32: "sint (scast (w :: u32) :: u64) = sint w"
proof -
  have "signed_take_bit 63 (sint w) = sint w"
    using sint_ge [of w] sint_lt [of w] by (simp add: signed_take_bit_int_eq_self_iff)
  then show ?thesis by (simp add: signed_scast_eq)
qed

text \<open>What a number is that was read, and how many bytes that took at least.\<close>

lemma read_uleb128_from_64: "64 \<le> n \<Longrightarrow> fst (read_uleb128_from r n p) = 0"
  by (cases p) (simp_all add: Let_def)

lemma fits_push_bit:
  assumes "drop_bit n (push_bit n (of_nat m :: u64)) = of_nat m" and "m < 128" and "n < 64"
  shows "m * 2 ^ n < 2 ^ 64"
proof -
  have m: "unat (of_nat m :: u64) = m" using assms(2) by (simp add: unat_of_nat)
  have "unat (push_bit n (of_nat m :: u64)) div 2 ^ n = m"
    using arg_cong [OF assms(1), of unat] by (simp only: unat_drop_bit m)
  then have "m * 2 ^ n \<le> unat (push_bit n (of_nat m :: u64))"
    by (metis div_times_less_eq_dividend)
  with unat_less_numeral [of "push_bit n (of_nat m :: u64)"] show ?thesis by simp
qed

lemma read_uleb128_from_value:
  assumes "read_uleb128_from r n p = (v, rest)" and "v \<noteq> 0" and "n < 64"
  shows "\<exists>m q. p = q @ rest \<and> q \<noteq> [] \<and> v = r OR push_bit n (of_nat m) \<and> m * 2 ^ n < 2 ^ 64
    \<and> m < 128 ^ length q"
  using assms
proof (induction r n p rule: read_uleb128_from.induct)
  case (1 r n)
  then show ?case by simp
next
  case (2 r n b p)
  define m where "m = unat (b AND 0x7f)"
  have m: "m < 128"
  proof -
    have "b AND 0x7f \<le> 0x7f" by (rule word_and_le1)
    then show ?thesis by (simp add: m_def word_le_nat_alt)
  qed
  have slice: "(ucast (b AND 0x7f) :: u64) = of_nat m" by (metis m_def of_nat_unat)
  from 2(2,3) have ok: "drop_bit n (push_bit n (of_nat m :: u64)) = of_nat m"
    by (auto simp: slice Let_def split: if_splits)
  from fits_push_bit [OF ok m 2(4)] have fits: "m * 2 ^ n < 2 ^ 64" .
  show ?case
  proof (cases "b AND 0x80 = 0")
    case True
    with 2(2,4) ok have "v = r OR push_bit n (of_nat m)" "p = rest" by (simp_all add: slice Let_def)
    with fits m show ?thesis by (intro exI [of _ m] exI [of _ "[b]"]) simp
  next
    case False
    with 2(2,4) ok have rec: "read_uleb128_from (r OR push_bit n (of_nat m)) (n + 7) p = (v, rest)"
      by (simp add: slice Let_def)
    have n: "n + 7 < 64"
      using read_uleb128_from_64 [of "n + 7" _ p] rec 2(3) by (metis fst_conv not_less)
    have "\<exists>m' q. p = q @ rest \<and> q \<noteq> [] \<and> v = (r OR push_bit n (of_nat m)) OR push_bit (n + 7) (of_nat m')
      \<and> m' * 2 ^ (n + 7) < 2 ^ 64 \<and> m' < 128 ^ length q"
      by (rule 2(1) [OF refl _ refl False, unfolded slice, OF _ rec 2(3) n]) (use ok 2(4) in auto)
    then obtain m' q where q: "p = q @ rest" "q \<noteq> []"
      "v = (r OR push_bit n (of_nat m)) OR push_bit (n + 7) (of_nat m')"
      "m' * 2 ^ (n + 7) < 2 ^ 64" "m' < 128 ^ length q" by blast
    have "v = r OR push_bit n (of_nat (m + 128 * m'))"
      using q(3) push_bit_split [of n "m + 128 * m'"] m by (simp add: or.assoc)
    moreover have "(m + 128 * m') * 2 ^ n < 2 ^ 64"
    proof -
      have "m' * 2 ^ (n + 7) < 2 ^ (57 - n) * 2 ^ (n + 7)"
        using q(4) n by (simp flip: power_add)
      then have "m' + 1 \<le> 2 ^ (57 - n)" by simp
      then have "(m' + 1) * 2 ^ (n + 7) \<le> 2 ^ (57 - n) * 2 ^ (n + 7)" by (rule mult_le_mono1)
      moreover have "(2::nat) ^ (57 - n) * 2 ^ (n + 7) = 2 ^ 64" using n by (simp flip: power_add)
      moreover have "(m + 128 * m') * 2 ^ n < (m' + 1) * 2 ^ (n + 7)"
        using m by (simp add: power_add algebra_simps)
      ultimately show ?thesis by linarith
    qed
    moreover have "m + 128 * m' < 128 ^ length (b # q)"
    proof -
      have "m + 128 * m' < 128 * (m' + 1)" using m by simp
      also have "\<dots> \<le> 128 * 128 ^ length q" using q(5) by (intro mult_le_mono2) simp
      finally show ?thesis by simp
    qed
    ultimately show ?thesis using q(1) by (intro exI [of _ "m + 128 * m'"] exI [of _ "b # q"]) simp
  qed
qed

section \<open>Properties\<close>

text \<open>
  Property C24. What the assembler writes is what the readers read: an unsigned number of either width comes
  back, with the rest of the buffer, and so does a signed number down to \<open>-2^62\<close>. For a smaller
  one, which takes ten bytes, the reader shifts by 70 to extend the sign, which is undefined.
\<close>

theorem leb128_roundtrip:
  "read_uleb128 (output_leb128_64 v False @ rest) = (v, rest)
   \<and> read_uleb128 (output_leb128_32 w False @ rest) = (ucast w, rest)
   \<and> read_sleb128 (output_leb128_64 v True @ rest)
       = (if sint v < - (2 ^ 62) then None else Some (v, rest))
   \<and> read_sleb128 (output_leb128_32 w True @ rest) = Some (scast w, rest)"
proof -
  have "\<not> sint (scast w :: u64) < - (2 ^ 62)"
    using sint_ge [of w] by (simp add: sint_scast_32)
  then show ?thesis
    by (simp add: output_leb128_64_def output_leb128_32_def read_uleb128_output read_sleb128_output)
qed

text \<open>
  The size functions, which the relaxation of a section uses, give the number of bytes that the
  writers then store: at most 5 for a 32-bit target and at most 10 for a 64-bit target.
\<close>

theorem leb128_sizes:
  "sizeof_leb128_32 w sign = length (output_leb128_32 w sign)
   \<and> sizeof_leb128_64 v sign = length (output_leb128_64 v sign)
   \<and> sizeof_leb128_32 w sign \<in> {1..5} \<and> sizeof_leb128_64 v sign \<in> {1..10}"
proof -
  have u: "unat w < 128 ^ Suc 4" "unat v < 128 ^ Suc 9"
    using unat_less_numeral [of w] unat_less_numeral [of v] by simp_all
  have i: "- 64 * 128 ^ 4 \<le> sint w" "sint w < 64 * 128 ^ 4"
    "- 64 * 128 ^ 9 \<le> sint v" "sint v < 64 * 128 ^ 9"
    using sint_ge [of w] sint_lt [of w] sint_ge [of v] sint_lt [of v] by simp_all
  show ?thesis
    using uleb_bytes_length [OF u(1)] uleb_bytes_length [OF u(2)] sleb_bytes_length [OF i(1,2)]
      sleb_bytes_length [OF i(3,4)] leb_bytes_not_empty
    by (simp add: sizeof_leb128_32_def sizeof_leb128_64_def output_leb128_32_def output_leb128_64_def
        sizeof_uleb128_spec sizeof_sleb128_spec output_uleb128_spec output_sleb128_spec sint_scast_32)
qed

text \<open>
  The writer of unsigned numbers is optimal: no sequence of bytes that reads as a number is
  shorter than what the writer stores for it.
\<close>

theorem uleb128_shortest:
  assumes "read_uleb128 p = (v, rest)" and "v \<noteq> 0"
  shows "\<exists>q. p = q @ rest \<and> length (output_leb128_64 v False) \<le> length q"
proof -
  from read_uleb128_from_value [OF assms(1) [unfolded read_uleb128_def] assms(2)]
  obtain m q where q: "p = q @ rest" "q \<noteq> []" "v = of_nat m" "m < 2 ^ 64" "m < 128 ^ length q"
    by auto
  from q(3,4) have "unat v = m" by (simp add: unat_of_nat)
  with q(2,5) uleb_bytes_length [of m "length q - 1"] have "length (uleb_bytes (unat v)) \<le> length q"
    by simp
  with q(1) show ?thesis by (auto simp: output_leb128_64_def output_uleb128_spec)
qed

theorem uleb128_shortest_witness:
  "\<exists>q. [0x81, 0x80, 0, 7] = q @ [7] \<and> length (output_leb128_64 1 False) \<le> length (q :: u8 list)"
proof -
  have "read_uleb128 [0x81, 0x80, 0, 7] = (1, [7])"
    by (simp add: read_uleb128_def)
  from uleb128_shortest [OF this] show ?thesis by simp
qed

end
