(* ===== verification/Bind_Info.thy ===== *)
theory Bind_Info
  imports Macho_Structs Leb128
begin

text \<open>
  \<open>otool/dyld_bind_info.c\<close>: the opcodes of the dynamic linker's bind information. The code runs
  the opcodes twice, first to count the bindings, then to store them in an array of that size;
  \<open>bind_opcode\<close> is one turn of its loop, with the pass as a parameter. The buffer is the list of
  the bytes from the current position to the end. A segment is its load command with the sections
  behind it; C strings are lists of characters.
\<close>

section \<open>Names\<close>

type_synonym segment_32 = "segment_command \<times> macho_section list"
type_synonym segment_64 = "segment_command_64 \<times> macho_section_64 list"

text \<open>The inputs; a null pointer is \<open>None\<close>.\<close>

record bind_env =
  be_dylibs :: "string list"
  be_segs :: "segment_32 list option"
  be_segs64 :: "segment_64 list option"

definition bindTypeName :: "u8 \<Rightarrow> string" where
  "bindTypeName t = (if t = 1 then ''pointer'' else if t = 2 then ''text abs32''
     else if t = 3 then ''text rel32'' else ''!!unknown!!'')"

definition ordinalName :: "u32 \<Rightarrow> string list \<Rightarrow> string" where
  "ordinalName libraryOrdinal dylibs =
     (if libraryOrdinal = 0 then ''this-image''
      else if libraryOrdinal = - 1 then ''main-executable''
      else if libraryOrdinal = - 2 then ''flat-namespace''
      else if sint libraryOrdinal < - 2 then ''unknown special ordinal''
      else if unat libraryOrdinal > length dylibs then ''libraryOrdinal out of range''
      else dylibs ! (unat libraryOrdinal - 1))"

definition segStartAddress :: "bind_env \<Rightarrow> u8 \<Rightarrow> u64" where
  "segStartAddress env segIndex =
     (case be_segs env of
        Some segs \<Rightarrow> if unat segIndex \<ge> length segs then 0
          else ucast (sg_vmaddr (fst (segs ! unat segIndex)))
      | None \<Rightarrow>
          (case be_segs64 env of
             Some segs64 \<Rightarrow> if unat segIndex \<ge> length segs64 then 0
               else sg64_vmaddr (fst (segs64 ! unat segIndex))
           | None \<Rightarrow> 0))"

definition segmentName :: "bind_env \<Rightarrow> u8 \<Rightarrow> string" where
  "segmentName env segIndex =
     (case be_segs env of
        Some segs \<Rightarrow> if unat segIndex \<ge> length segs then ''??''
          else name16 (sg_segname (fst (segs ! unat segIndex)))
      | None \<Rightarrow>
          (case be_segs64 env of
             Some segs64 \<Rightarrow> if unat segIndex \<ge> length segs64 then ''??''
               else name16 (sg64_segname (fst (segs64 ! unat segIndex)))
           | None \<Rightarrow> ''??''))"

text \<open>The section of a segment that an address is in: the sum of two 32-bit fields wraps.\<close>

definition in_section :: "u64 \<Rightarrow> macho_section \<Rightarrow> bool" where
  "in_section address s \<longleftrightarrow> ucast (s_addr s) \<le> address \<and> address < ucast (s_addr s + s_size s)"

definition in_section_64 :: "u64 \<Rightarrow> macho_section_64 \<Rightarrow> bool" where
  "in_section_64 address s \<longleftrightarrow> s64_addr s \<le> address \<and> address < s64_addr s + s64_size s"

definition sectionName :: "bind_env \<Rightarrow> u8 \<Rightarrow> u64 \<Rightarrow> string" where
  "sectionName env segIndex address =
     (case be_segs env of
        Some segs \<Rightarrow>
          if unat segIndex \<ge> length segs then ''??''
          else let (sg, sects) = segs ! unat segIndex in
            (case find (in_section address) (take (unat (sg_nsects sg)) sects) of
               Some s \<Rightarrow> name16 (s_sectname s) | None \<Rightarrow> ''??'')
      | None \<Rightarrow>
          (case be_segs64 env of
             Some segs64 \<Rightarrow>
               if unat segIndex \<ge> length segs64 then ''??''
               else let (sg, sects) = segs64 ! unat segIndex in
                 (case find (in_section_64 address) (take (unat (sg64_nsects sg)) sects) of
                    Some s \<Rightarrow> name16 (s64_sectname s) | None \<Rightarrow> ''??'')
           | None \<Rightarrow> ''??''))"

section \<open>The state of the interpreter\<close>

record dyld_bind_info =
  dbi_segname :: string
  dbi_sectname :: string
  dbi_address :: u64
  dbi_bind_type :: u8
  dbi_addend :: u64
  dbi_dylibname :: string
  dbi_symbolname :: "string option"
  dbi_weak_import :: bool

text \<open>The locals of \<open>get_dyld_bind_info\<close>, and the array it allocates, with unset elements \<open>None\<close>.\<close>

record bind_state =
  bs_type :: u8
  bs_segIndex :: u8
  bs_segOffset :: u64
  bs_symbolName :: "string option"
  bs_fromDylib :: string
  bs_libraryOrdinal :: u32
  bs_addend :: u64
  bs_segStartAddr :: u64
  bs_segName :: string
  bs_typeName :: string
  bs_weak_import :: string
  bs_done :: bool
  bs_n :: nat
  bs_dbi :: "dyld_bind_info option list"

definition bind_start :: "dyld_bind_info option list \<Rightarrow> bind_state" where
  "bind_start dbi = \<lparr>bs_type = 0, bs_segIndex = 0, bs_segOffset = 0, bs_symbolName = None,
     bs_fromDylib = ''??'', bs_libraryOrdinal = 0, bs_addend = 0, bs_segStartAddr = 0,
     bs_segName = ''??'', bs_typeName = ''??'', bs_weak_import = '''', bs_done = False,
     bs_n = 0, bs_dbi = dbi\<rparr>"

text \<open>
  Why the interpreter stops: the early return for an unknown opcode, or something that C does not
  define: a read behind the end of the buffer, a shift that is too large, a write outside the array.
\<close>

datatype bind_stop = Bad_opcode | Past_end | Undefined_shift | Bad_write

type_synonym 'a bind_result = "bind_stop + 'a"

definition bind_then :: "'a bind_result \<Rightarrow> ('a \<Rightarrow> 'b bind_result) \<Rightarrow> 'b bind_result" where
  "bind_then r f = (case r of Inl e \<Rightarrow> Inl e | Inr x \<Rightarrow> f x)"

lemma bind_then_simps [simp]: "bind_then (Inr x) f = f x" "bind_then (Inl e) f = Inl e"
  by (simp_all add: bind_then_def)

lemma bind_then_Inr: "bind_then r f = Inr y \<longleftrightarrow> (\<exists>x. r = Inr x \<and> f x = Inr y)"
  by (cases r) simp_all

lemma bind_then_assoc: "bind_then (bind_then r f) g = bind_then r (\<lambda>x. bind_then (f x) g)"
  by (cases r) simp_all

definition sizeof_pointer :: "bind_env \<Rightarrow> u32" where
  "sizeof_pointer env = (if be_segs env \<noteq> None then 4 else 8)"

text \<open>The string at the current position and the bytes behind its null.\<close>

definition c_string :: "u8 list \<Rightarrow> (string \<times> u8 list) bind_result" where
  "c_string p =
     (let s = takeWhile (\<lambda>b. b \<noteq> 0) p; rest = dropWhile (\<lambda>b. b \<noteq> 0) p in
      if rest = [] then Inl Past_end else Inr (map (\<lambda>b. char_of (unat b)) s, tl rest))"

definition bind_entry :: "string \<Rightarrow> bind_state \<Rightarrow> dyld_bind_info" where
  "bind_entry sectName st = \<lparr>dbi_segname = bs_segName st, dbi_sectname = sectName,
     dbi_address = bs_segStartAddr st + bs_segOffset st, dbi_bind_type = bs_type st,
     dbi_addend = bs_addend st, dbi_dylibname = bs_fromDylib st,
     dbi_symbolname = bs_symbolName st, dbi_weak_import = (bs_weak_import st \<noteq> [])\<rparr>"

text \<open>The body of the four binding opcodes: store in the second pass, then count.\<close>

definition bind_store :: "nat \<Rightarrow> string \<Rightarrow> bind_state \<Rightarrow> bind_state bind_result" where
  "bind_store pass sectName st =
     (if pass = 2
      then (if bs_n st < length (bs_dbi st)
            then Inr (st\<lparr>bs_dbi := (bs_dbi st)[bs_n st := Some (bind_entry sectName st)],
                         bs_n := bs_n st + 1\<rparr>)
            else Inl Bad_write)
      else Inr (st\<lparr>bs_n := bs_n st + 1\<rparr>))"

definition advance :: "u64 \<Rightarrow> bind_state \<Rightarrow> bind_state" where
  "advance d st = st\<lparr>bs_segOffset := bs_segOffset st + d\<rparr>"

primrec bind_times :: "nat \<Rightarrow> nat \<Rightarrow> string \<Rightarrow> u64 \<Rightarrow> bind_state \<Rightarrow> bind_state bind_result" where
  "bind_times 0 pass sectName d st = Inr st"
| "bind_times (Suc k) pass sectName d st =
     bind_then (bind_store pass sectName st) (\<lambda>st. bind_times k pass sectName d (advance d st))"

definition set_ordinal :: "bind_env \<Rightarrow> u32 \<Rightarrow> bind_state \<Rightarrow> bind_state" where
  "set_ordinal env lo st = st\<lparr>bs_libraryOrdinal := lo, bs_fromDylib := ordinalName lo (be_dylibs env)\<rparr>"

definition here :: "bind_env \<Rightarrow> bind_state \<Rightarrow> string" where
  "here env st = sectionName env (bs_segIndex st) (bs_segStartAddr st + bs_segOffset st)"

section \<open>The loop\<close>

text \<open>One turn of the loop, for the byte \<open>b\<close> that was read and the bytes \<open>p\<close> behind it.\<close>

definition bind_opcode ::
    "nat \<Rightarrow> bind_env \<Rightarrow> u8 \<Rightarrow> u8 list \<Rightarrow> bind_state \<Rightarrow> (bind_state \<times> u8 list) bind_result" where
  "bind_opcode pass env b p st =
     (let immediate = b AND 0x0f; opcode = b AND 0xf0 in
      if opcode = 0x00 then Inr (st\<lparr>bs_done := True\<rparr>, p)
      else if opcode = 0x10 then Inr (set_ordinal env (ucast immediate) st, p)
      else if opcode = 0x20 then
        (let (lo, p) = read_uleb128 p in Inr (set_ordinal env (ucast lo) st, p))
      else if opcode = 0x30 then
        Inr (set_ordinal env
          (if immediate = 0 then 0 else scast ((0xf0 :: u8) OR immediate)) st, p)
      else if opcode = 0x40 then
        bind_then (c_string p) (\<lambda>(name, p).
          Inr (st\<lparr>bs_symbolName := Some name,
            bs_weak_import := (if immediate AND 1 \<noteq> 0 then '' (weak import)'' else '''')\<rparr>, p))
      else if opcode = 0x50 then
        Inr (st\<lparr>bs_type := immediate, bs_typeName := bindTypeName immediate\<rparr>, p)
      else if opcode = 0x60 then
        (case read_sleb128 p of None \<Rightarrow> Inl Undefined_shift
         | Some (addend, p) \<Rightarrow> Inr (st\<lparr>bs_addend := addend\<rparr>, p))
      else if opcode = 0x70 then
        (let (offset, p) = read_uleb128 p in
         Inr (st\<lparr>bs_segIndex := immediate, bs_segStartAddr := segStartAddress env immediate,
           bs_segName := segmentName env immediate, bs_segOffset := offset\<rparr>, p))
      else if opcode = 0x80 then
        (let (d, p) = read_uleb128 p in Inr (advance d st, p))
      else if opcode = 0x90 then
        bind_then (bind_store pass (here env st) st) (\<lambda>st.
          Inr (advance (ucast (sizeof_pointer env)) st, p))
      else if opcode = 0xa0 then
        bind_then (bind_store pass (here env st) st) (\<lambda>st.
          let (d, p) = read_uleb128 p in Inr (advance (d + ucast (sizeof_pointer env)) st, p))
      else if opcode = 0xb0 then
        bind_then (bind_store pass (here env st) st) (\<lambda>st.
          Inr (advance (ucast (ucast immediate * sizeof_pointer env + sizeof_pointer env)) st, p))
      else if opcode = 0xc0 then
        (let (count, p) = read_uleb128 p; (skip, p) = read_uleb128 p in
         bind_then (bind_times (unat (ucast count :: u32)) pass (here env st)
             (ucast (ucast skip + sizeof_pointer env)) st)
           (\<lambda>st. Inr (st, p)))
      else Inl Bad_opcode)"

lemma read_uleb128_from_length: "length (snd (read_uleb128_from r n p)) \<le> length p"
  by (induction r n p rule: read_uleb128_from.induct) (simp_all add: Let_def le_SucI)

lemma read_uleb128_length: "read_uleb128 p = (v, q) \<Longrightarrow> length q \<le> length p"
  using read_uleb128_from_length [of 0 0 p] by (simp add: read_uleb128_def)

lemma read_sleb128_from_length: "read_sleb128_from r n p = Some (v, q) \<Longrightarrow> length q \<le> length p"
  by (induction r n p rule: read_sleb128_from.induct) (auto simp: Let_def le_SucI split: if_splits)

lemma c_string_length: "c_string p = Inr (s, q) \<Longrightarrow> length q < length p"
  using length_dropWhile_le [of "\<lambda>b. b \<noteq> 0" p]
  by (cases "dropWhile (\<lambda>b. b \<noteq> 0) p") (auto simp: c_string_def Let_def)

lemma bind_opcode_length:
  assumes "bind_opcode pass env b p st = Inr (st', q)"
  shows "length q \<le> length p"
proof -
  have u: "length (snd (read_uleb128 x)) \<le> length x" for x
    using read_uleb128_length [of x] by (cases "read_uleb128 x") simp
  have uu: "length (snd (read_uleb128 (snd (read_uleb128 p)))) \<le> length p"
    using u [of "snd (read_uleb128 p)"] u [of p] by linarith
  from assms show ?thesis
    unfolding bind_opcode_def Let_def case_prod_beta
    using u [of p] uu
    by (auto simp: bind_then_Inr read_sleb128_def split: if_splits option.splits
        dest: c_string_length read_sleb128_from_length)
qed

function (sequential) bind_loop ::
    "nat \<Rightarrow> bind_env \<Rightarrow> bind_state \<Rightarrow> u8 list \<Rightarrow> bind_state bind_result" where
  "bind_loop pass env st [] = Inr st"
| "bind_loop pass env st (b # p) =
     (if bs_done st then Inr st
      else case bind_opcode pass env b p st of
        Inl e \<Rightarrow> Inl e
      | Inr (st, p) \<Rightarrow> bind_loop pass env st p)"
  by pat_completeness auto
termination
  by (relation "measure (\<lambda>(pass, env, st, p). length p)")
    (auto dest: bind_opcode_length)

text \<open>
  Both passes. An early return of the first pass leaves the outputs as the caller set them, of
  the second with what is stored so far.
\<close>

definition get_dyld_bind_info ::
    "bind_env \<Rightarrow> u8 list \<Rightarrow> (dyld_bind_info option list) bind_result" where
  "get_dyld_bind_info env p =
     bind_then (bind_loop 1 env (bind_start []) p) (\<lambda>st1.
     bind_then (bind_loop 2 env (bind_start (replicate (bs_n st1) None)) p) (\<lambda>st2.
     Inr (bs_dbi st2)))"

definition get_dyld_bind_info_symbolname :: "u64 \<Rightarrow> dyld_bind_info list \<Rightarrow> string option" where
  "get_dyld_bind_info_symbolname address dbi =
     (case find (\<lambda>d. dbi_address d = address) dbi of Some d \<Rightarrow> dbi_symbolname d | None \<Rightarrow> None)"

end
