(* ===== verification/Bind_Spec.thy ===== *)
theory Bind_Spec
  imports Bind_Info
begin

text \<open>
  What the opcodes of the bind information mean, stated apart from the loop of
  \<open>get_dyld_bind_info\<close>: bytes are decoded into instructions, an instruction changes the context
  that the next binding takes its values from and yields a list of bindings. The two passes over
  the opcodes with their counter and array implement it.
\<close>

section \<open>Instructions and contexts\<close>

datatype bind_instr =
    I_done
  | I_ordinal u32
  | I_symbol string bool
  | I_type u8
  | I_addend u64
  | I_segment u8 u64
  | I_advance u64
  | I_bind u64
  | I_times nat u64

text \<open>A segment or a library that was not set yet is \<open>None\<close>.\<close>

record bind_context =
  cx_type :: u8
  cx_segment :: "u8 option"
  cx_offset :: u64
  cx_symbol :: "string option"
  cx_ordinal :: "u32 option"
  cx_addend :: u64
  cx_weak :: bool
  cx_done :: bool

definition cx_start :: bind_context where
  "cx_start = \<lparr>cx_type = 0, cx_segment = None, cx_offset = 0, cx_symbol = None,
     cx_ordinal = None, cx_addend = 0, cx_weak = False, cx_done = False\<rparr>"

definition cx_address :: "bind_env \<Rightarrow> bind_context \<Rightarrow> u64" where
  "cx_address env cx =
     (case cx_segment cx of None \<Rightarrow> 0 | Some i \<Rightarrow> segStartAddress env i) + cx_offset cx"

definition cx_section :: "bind_env \<Rightarrow> bind_context \<Rightarrow> string" where
  "cx_section env cx = sectionName env (case cx_segment cx of None \<Rightarrow> 0 | Some i \<Rightarrow> i) (cx_address env cx)"

text \<open>The binding that a context describes, in a given section.\<close>

definition cx_binding :: "bind_env \<Rightarrow> string \<Rightarrow> bind_context \<Rightarrow> dyld_bind_info" where
  "cx_binding env sect cx =
     \<lparr>dbi_segname = (case cx_segment cx of None \<Rightarrow> ''??'' | Some i \<Rightarrow> segmentName env i),
      dbi_sectname = sect, dbi_address = cx_address env cx, dbi_bind_type = cx_type cx,
      dbi_addend = cx_addend cx,
      dbi_dylibname = (case cx_ordinal cx of None \<Rightarrow> ''??'' | Some lo \<Rightarrow> ordinalName lo (be_dylibs env)),
      dbi_symbolname = cx_symbol cx, dbi_weak_import = cx_weak cx\<rparr>"

definition cx_moved :: "u64 \<Rightarrow> bind_context \<Rightarrow> bind_context" where
  "cx_moved d cx = cx\<lparr>cx_offset := cx_offset cx + d\<rparr>"

text \<open>The decoder; every instruction knows by how much it advances.\<close>

definition decode :: "bind_env \<Rightarrow> u8 \<Rightarrow> u8 list \<Rightarrow> (bind_instr \<times> u8 list) bind_result" where
  "decode env b p =
     (let imm = b AND 0x0f; opcode = b AND 0xf0; ptr = sizeof_pointer env;
          (v, q) = read_uleb128 p; (w, r) = read_uleb128 q in
      if opcode = 0x00 then Inr (I_done, p)
      else if opcode = 0x10 then Inr (I_ordinal (ucast imm), p)
      else if opcode = 0x20 then Inr (I_ordinal (ucast v), q)
      else if opcode = 0x30 then
        Inr (I_ordinal (if imm = 0 then 0 else scast ((0xf0 :: u8) OR imm)), p)
      else if opcode = 0x40 then
        (case c_string p of Inl e \<Rightarrow> Inl e | Inr (name, p) \<Rightarrow> Inr (I_symbol name (imm AND 1 \<noteq> 0), p))
      else if opcode = 0x50 then Inr (I_type imm, p)
      else if opcode = 0x60 then
        (case read_sleb128 p of None \<Rightarrow> Inl Undefined_shift | Some (a, p) \<Rightarrow> Inr (I_addend a, p))
      else if opcode = 0x70 then Inr (I_segment imm v, q)
      else if opcode = 0x80 then Inr (I_advance v, q)
      else if opcode = 0x90 then Inr (I_bind (ucast ptr), p)
      else if opcode = 0xa0 then Inr (I_bind (v + ucast ptr), q)
      else if opcode = 0xb0 then Inr (I_bind (ucast (ucast imm * ptr + ptr)), p)
      else if opcode = 0xc0 then Inr (I_times (unat (ucast v :: u32)) (ucast (ucast w + ptr)), r)
      else Inl Bad_opcode)"

primrec next_context :: "bind_instr \<Rightarrow> bind_context \<Rightarrow> bind_context" where
  "next_context I_done cx = cx\<lparr>cx_done := True\<rparr>"
| "next_context (I_ordinal lo) cx = cx\<lparr>cx_ordinal := Some lo\<rparr>"
| "next_context (I_symbol s weak) cx = cx\<lparr>cx_symbol := Some s, cx_weak := weak\<rparr>"
| "next_context (I_type t) cx = cx\<lparr>cx_type := t\<rparr>"
| "next_context (I_addend a) cx = cx\<lparr>cx_addend := a\<rparr>"
| "next_context (I_segment i off) cx = cx\<lparr>cx_segment := Some i, cx_offset := off\<rparr>"
| "next_context (I_advance d) cx = cx_moved d cx"
| "next_context (I_bind d) cx = cx_moved d cx"
| "next_context (I_times k d) cx = cx_moved (of_nat k * d) cx"

text \<open>The bindings that an instruction yields, all with the section of the first one.\<close>

definition yields :: "bind_env \<Rightarrow> bind_instr \<Rightarrow> bind_context \<Rightarrow> dyld_bind_info list" where
  "yields env i cx = (case i of
       I_bind d \<Rightarrow> [cx_binding env (cx_section env cx) cx]
     | I_times k d \<Rightarrow>
         map (\<lambda>j. cx_binding env (cx_section env cx) (cx_moved (of_nat j * d) cx)) [0..<k]
     | _ \<Rightarrow> [])"

lemma decode_length: "decode env b p = Inr (i, q) \<Longrightarrow> length q \<le> length p"
proof -
  assume d: "decode env b p = Inr (i, q)"
  have u: "length (snd (read_uleb128 x)) \<le> length x" for x
    using read_uleb128_length [of x] by (cases "read_uleb128 x") simp
  have uu: "length (snd (read_uleb128 (snd (read_uleb128 p)))) \<le> length p"
    using u [of "snd (read_uleb128 p)"] u [of p] by linarith
  from d show ?thesis
    unfolding decode_def Let_def case_prod_beta
    using u [of p] uu
    by (auto simp: read_sleb128_def split: if_splits option.splits sum.splits
        dest: c_string_length read_sleb128_from_length)
qed

function (sequential) bindings ::
    "bind_env \<Rightarrow> bind_context \<Rightarrow> u8 list \<Rightarrow> dyld_bind_info list bind_result" where
  "bindings env cx [] = Inr []"
| "bindings env cx (b # p) =
     (if cx_done cx then Inr []
      else case decode env b p of
        Inl e \<Rightarrow> Inl e
      | Inr (i, q) \<Rightarrow>
          (case bindings env (next_context i cx) q of
             Inl e \<Rightarrow> Inl e | Inr es \<Rightarrow> Inr (yields env i cx @ es)))"
  by pat_completeness auto
termination
  by (relation "measure (\<lambda>(env, cx, p). length p)") (auto dest: decode_length)

section \<open>The loop implements the instructions\<close>

text \<open>One turn of the loop decodes an instruction and performs it on the state.\<close>

definition perform :: "nat \<Rightarrow> bind_env \<Rightarrow> bind_instr \<Rightarrow> bind_state \<Rightarrow> bind_state bind_result" where
  "perform pass env i st = (case i of
       I_done \<Rightarrow> Inr (st\<lparr>bs_done := True\<rparr>)
     | I_ordinal lo \<Rightarrow> Inr (set_ordinal env lo st)
     | I_symbol s weak \<Rightarrow> Inr (st\<lparr>bs_symbolName := Some s,
         bs_weak_import := (if weak then '' (weak import)'' else '''')\<rparr>)
     | I_type t \<Rightarrow> Inr (st\<lparr>bs_type := t, bs_typeName := bindTypeName t\<rparr>)
     | I_addend a \<Rightarrow> Inr (st\<lparr>bs_addend := a\<rparr>)
     | I_segment i off \<Rightarrow> Inr (st\<lparr>bs_segIndex := i, bs_segStartAddr := segStartAddress env i,
         bs_segName := segmentName env i, bs_segOffset := off\<rparr>)
     | I_advance d \<Rightarrow> Inr (advance d st)
     | I_bind d \<Rightarrow> bind_then (bind_store pass (here env st) st) (\<lambda>st. Inr (advance d st))
     | I_times k d \<Rightarrow> bind_times k pass (here env st) d st)"

lemma bind_opcode_perform:
  "bind_opcode pass env b p st = (case decode env b p of Inl e \<Rightarrow> Inl e
     | Inr (i, q) \<Rightarrow> bind_then (perform pass env i st) (\<lambda>st. Inr (st, q)))"
proof -
  obtain v q where v: "read_uleb128 p = (v, q)" by (cases "read_uleb128 p")
  obtain w r where w: "read_uleb128 q = (w, r)" by (cases "read_uleb128 q")
  show ?thesis
    unfolding bind_opcode_def decode_def Let_def v w prod.case
    by (cases "c_string p"; cases "projr (c_string p)"; cases "read_sleb128 p";
        cases "the (read_sleb128 p)") (simp_all add: perform_def bind_then_assoc split: if_split)
qed

text \<open>How a state represents a context.\<close>

definition represents :: "bind_env \<Rightarrow> bind_context \<Rightarrow> bind_state \<Rightarrow> bool" where
  "represents env cx st \<longleftrightarrow> bs_type st = cx_type cx \<and> bs_segOffset st = cx_offset cx
     \<and> bs_symbolName st = cx_symbol cx \<and> bs_addend st = cx_addend cx
     \<and> (bs_weak_import st \<noteq> []) = cx_weak cx \<and> bs_done st = cx_done cx
     \<and> bs_segIndex st = (case cx_segment cx of None \<Rightarrow> 0 | Some i \<Rightarrow> i)
     \<and> bs_segStartAddr st = (case cx_segment cx of None \<Rightarrow> 0 | Some i \<Rightarrow> segStartAddress env i)
     \<and> bs_segName st = (case cx_segment cx of None \<Rightarrow> ''??'' | Some i \<Rightarrow> segmentName env i)
     \<and> bs_fromDylib st = (case cx_ordinal cx of None \<Rightarrow> ''??''
         | Some lo \<Rightarrow> ordinalName lo (be_dylibs env))"

lemma represents_start: "represents env cx_start (bind_start dbi)"
  by (simp add: represents_def cx_start_def bind_start_def)

lemma represents_advance: "represents env cx st \<Longrightarrow> represents env (cx_moved d cx) (advance d st)"
  by (simp add: represents_def cx_moved_def advance_def)

lemma represents_entry:
  "represents env cx st \<Longrightarrow> bind_entry sect st = cx_binding env sect cx"
  "represents env cx st \<Longrightarrow> here env st = cx_section env cx"
  by (auto simp: represents_def bind_entry_def cx_binding_def here_def cx_section_def cx_address_def)

text \<open>The counter and the array after a list of bindings.\<close>

definition stored :: "nat \<Rightarrow> dyld_bind_info list \<Rightarrow> bind_state \<Rightarrow> bind_state \<Rightarrow> bool" where
  "stored pass es st st' \<longleftrightarrow> bs_n st' = bs_n st + length es \<and> bs_dbi st' = (if pass = 2
     then take (bs_n st) (bs_dbi st) @ map Some es @ drop (bs_n st + length es) (bs_dbi st)
     else bs_dbi st)"

definition room :: "nat \<Rightarrow> nat \<Rightarrow> bind_state \<Rightarrow> bool" where
  "room pass k st \<longleftrightarrow> pass = 2 \<longrightarrow> bs_n st + k \<le> length (bs_dbi st)"

lemma stored_append:
  "stored pass xs st st1 \<Longrightarrow> stored pass ys st1 st2 \<Longrightarrow> room pass (length xs) st
    \<Longrightarrow> stored pass (xs @ ys) st st2"
  by (auto simp: stored_def room_def min_absorb2 add.assoc add.commute [of "length ys"])

lemma room_stored: "room pass (j + k) st \<Longrightarrow> stored pass xs st st1 \<Longrightarrow> length xs = j \<Longrightarrow> room pass k st1"
  by (auto simp: stored_def room_def)

lemma bind_store_stored:
  assumes "represents env cx st" and "room pass 1 st"
  obtains st' where "bind_store pass sect st = Inr st'" and "represents env cx st'"
    and "stored pass [cx_binding env sect cx] st st'"
proof -
  let ?st' = "(if pass = 2 then st\<lparr>bs_dbi := (bs_dbi st)[bs_n st := Some (bind_entry sect st)],
    bs_n := bs_n st + 1\<rparr> else st\<lparr>bs_n := bs_n st + 1\<rparr>)"
  have "bind_store pass sect st = Inr ?st'"
    using assms(2) by (auto simp: bind_store_def room_def)
  moreover have "represents env cx ?st'" using assms(1) by (simp add: represents_def)
  moreover have "stored pass [cx_binding env sect cx] st ?st'"
    using assms by (auto simp: stored_def room_def represents_entry(1) upd_conv_take_nth_drop)
  ultimately show thesis by (rule that)
qed

lemma bind_times_stored:
  assumes "represents env cx st" and "room pass k st"
  obtains st' where "bind_times k pass sect d st = Inr st'"
    and "represents env (cx_moved (of_nat k * d) cx) st'"
    and "stored pass (map (\<lambda>j. cx_binding env sect (cx_moved (of_nat j * d) cx)) [0..<k]) st st'"
  using assms
proof (induction k arbitrary: cx st thesis)
  case 0
  have "cx_moved 0 cx = cx" by (simp add: cx_moved_def)
  with 0 show ?case by (simp add: stored_def)
next
  case (Suc k)
  from Suc.prems(3) have r: "room pass 1 st" by (auto simp: room_def)
  from bind_store_stored [OF Suc.prems(2) r] obtain st1 where
    1: "bind_store pass sect st = Inr st1" "represents env cx st1"
      "stored pass [cx_binding env sect cx] st st1" by blast
  from room_stored [of pass 1 k st, OF _ 1(3)] Suc.prems(3) have "room pass k st1" by simp
  then have "room pass k (advance d st1)" by (simp add: room_def advance_def)
  from Suc.IH [OF _ represents_advance [OF 1(2)] this] obtain st' where
    2: "bind_times k pass sect d (advance d st1) = Inr st'"
      "represents env (cx_moved (of_nat k * d) (cx_moved d cx)) st'"
      "stored pass (map (\<lambda>j. cx_binding env sect (cx_moved (of_nat j * d) (cx_moved d cx))) [0..<k])
        (advance d st1) st'" by blast
  have moved: "cx_moved (of_nat j * d) (cx_moved d cx) = cx_moved (of_nat (Suc j) * d) cx" for j
    by (simp add: cx_moved_def algebra_simps)
  have "stored pass [cx_binding env sect cx] st (advance d st1)"
    using 1(3) by (simp add: stored_def advance_def)
  from stored_append [OF this 2(3)] r have
    "stored pass (map (\<lambda>j. cx_binding env sect (cx_moved (of_nat j * d) cx)) (0 # map Suc [0..<k])) st st'"
    by (simp only: moved list.map(2) map_map o_def) (simp add: cx_moved_def)
  then have "stored pass (map (\<lambda>j. cx_binding env sect (cx_moved (of_nat j * d) cx)) [0..<Suc k]) st st'"
    by (simp only: map_Suc_upt upt_conv_Cons [of 0 "Suc k"] zero_less_Suc)
  with 1 2(1,2) show ?case unfolding moved by (intro Suc.prems(1)) simp_all
qed

lemma perform_stored:
  assumes "represents env cx st" and "room pass (length (yields env i cx)) st"
  obtains st' where "perform pass env i st = Inr st'" and "represents env (next_context i cx) st'"
    and "stored pass (yields env i cx) st st'"
proof -
  note go = that
  have none: thesis if "perform pass env i st = Inr st'" "represents env (next_context i cx) st'"
    "yields env i cx = []" "bs_n st' = bs_n st" "bs_dbi st' = bs_dbi st" for st'
    by (rule go [OF that(1,2)]) (use that(3-) in \<open>simp add: stored_def\<close>)
  show thesis
  proof (cases i)
    case (I_bind d)
    with assms(2) have "room pass 1 st" by (simp add: yields_def)
    from bind_store_stored [OF assms(1) this] obtain st1 where
      1: "bind_store pass (here env st) st = Inr st1" "represents env cx st1"
        "stored pass [cx_binding env (here env st) cx] st st1" by blast
    show thesis
    proof (rule that)
      show "perform pass env i st = Inr (advance d st1)" using 1(1) I_bind by (simp add: perform_def)
      show "represents env (next_context i cx) (advance d st1)"
        using represents_advance [OF 1(2)] I_bind by simp
      show "stored pass (yields env i cx) st (advance d st1)"
        using 1(3) I_bind assms(1) by (simp add: yields_def stored_def advance_def represents_entry(2))
    qed
  next
    case (I_times k d)
    with assms(2) have "room pass k st" by (simp add: yields_def)
    from bind_times_stored [OF assms(1) this] obtain st' where
      "bind_times k pass (here env st) d st = Inr st'"
      "represents env (cx_moved (of_nat k * d) cx) st'"
      "stored pass (map (\<lambda>j. cx_binding env (here env st) (cx_moved (of_nat j * d) cx)) [0..<k]) st st'"
      by blast
    with I_times assms(1) show thesis
      by (intro that) (simp_all add: perform_def yields_def represents_entry(2))
  next
    case (I_advance d)
    with assms(1) show thesis
      by (intro none [of "advance d st"])
        (simp_all add: perform_def yields_def represents_advance, simp_all add: advance_def)
  qed (use assms(1) in \<open>auto intro!: none simp: perform_def yields_def represents_def set_ordinal_def\<close>)
qed

lemma bind_loop_error:
  "represents env cx st \<Longrightarrow> bindings env cx p = Inl e \<Longrightarrow> bind_loop 1 env st p = Inl e"
proof (induction env cx p arbitrary: st rule: bindings.induct)
  case (2 env cx b p)
  then have nd: "\<not> cx_done cx" "\<not> bs_done st" by (auto simp: represents_def)
  show ?case
  proof (cases "decode env b p")
    case (Inl e')
    with 2 nd show ?thesis by (simp add: bind_opcode_perform)
  next
    case (Inr iq)
    obtain i q where iq: "iq = (i, q)" by (cases iq)
    have "room 1 (length (yields env i cx)) st" by (simp add: room_def)
    from perform_stored [OF 2(2) this] obtain st' where
      "perform 1 env i st = Inr st'" "represents env (next_context i cx) st'" by blast
    with 2(1) [OF nd(1) Inr iq [symmetric]] 2(3) nd Inr iq show ?thesis
      by (simp add: bind_opcode_perform split: sum.splits)
  qed
qed simp

lemma bind_loop_stored:
  assumes "represents env cx st" and "bindings env cx p = Inr es" and "room pass (length es) st"
  shows "\<exists>st'. bind_loop pass env st p = Inr st' \<and> stored pass es st st'"
  using assms
proof (induction env cx p arbitrary: st es rule: bindings.induct)
  case (1 env cx)
  then show ?case by (simp add: stored_def)
next
  case (2 env cx b p)
  show ?case
  proof (cases "cx_done cx")
    case True
    with 2 show ?thesis by (auto simp: represents_def stored_def)
  next
    case False
    with 2(2) have nd: "\<not> bs_done st" by (simp add: represents_def)
    from 2(3) False obtain i q es' where iq: "decode env b p = Inr (i, q)"
      "bindings env (next_context i cx) q = Inr es'" "es = yields env i cx @ es'"
      by (auto split: sum.splits)
    from 2(4) iq(3) have "room pass (length (yields env i cx)) st" by (auto simp: room_def)
    from perform_stored [OF 2(2) this] obtain st1 where
      1: "perform pass env i st = Inr st1" "represents env (next_context i cx) st1"
        "stored pass (yields env i cx) st st1" by blast
    from 2(4) iq(3) room_stored [OF _ 1(3) refl] have "room pass (length es') st1" by simp
    from 2(1) [OF False iq(1) refl 1(2) iq(2) this] obtain st' where
      "bind_loop pass env st1 q = Inr st'" "stored pass es' st1 st'" by blast
    with 1 iq nd stored_append [OF 1(3)] \<open>room pass (length (yields env i cx)) st\<close>
    show ?thesis by (simp add: bind_opcode_perform)
  qed
qed

section \<open>Properties\<close>

text \<open>
  Property C2. The two passes of \<open>get_dyld_bind_info\<close> agree: the second pass stores exactly the bindings that
  the first one counted, in order, without a write outside the array and without leaving an
  element unset; and they are the bindings that the opcodes mean. When the opcodes are bad, cut
  off or shift too far, the function stops for that reason, in the first pass.
\<close>

theorem get_dyld_bind_info_bindings:
  "get_dyld_bind_info env p = map_sum id (map Some) (bindings env cx_start p)"
proof (cases "bindings env cx_start p")
  case (Inl e)
  from bind_loop_error [OF represents_start this] Inl show ?thesis
    by (simp add: get_dyld_bind_info_def)
next
  case (Inr es)
  from bind_loop_stored [OF represents_start Inr, of 1 "[]"] obtain st1 where
    1: "bind_loop 1 env (bind_start []) p = Inr st1" "bs_n st1 = length es"
    by (auto simp: room_def stored_def bind_start_def)
  have "room 2 (length es) (bind_start (replicate (length es) None))"
    by (simp add: room_def bind_start_def)
  from bind_loop_stored [OF represents_start Inr this] obtain st2 where
    2: "bind_loop 2 env (bind_start (replicate (length es) None)) p = Inr st2" "bs_dbi st2 = map Some es"
    by (auto simp: stored_def bind_start_def)
  from 1 2 Inr show ?thesis by (simp add: get_dyld_bind_info_def)
qed

text \<open>
  The bindings of the opcode that repeats a binding lie at the addresses one expects, but all are
  reported in the section of the first one: the section of a later binding is right exactly if
  its address happens to lie in a section of the same name.
\<close>

theorem repeated_bindings_section:
  assumes "j < k" and "cx_segment cx = Some i"
  shows "dbi_address (yields env (I_times k d) cx ! j) = cx_address env cx + of_nat j * d
    \<and> (dbi_sectname (yields env (I_times k d) cx ! j)
         = sectionName env i (dbi_address (yields env (I_times k d) cx ! j))
       \<longleftrightarrow> sectionName env i (cx_address env cx) = sectionName env i (cx_address env cx + of_nat j * d))"
  using assms by (simp add: yields_def cx_binding_def cx_address_def cx_moved_def cx_section_def add.assoc)

text \<open>A segment with two sections of eight bytes, \<open>__a\<close> and \<open>__b\<close>.\<close>

definition two_sections :: bind_env where
  "two_sections = \<lparr>be_dylibs = [''libSystem''], be_segs = None, be_segs64 = Some
     [(\<lparr>sg64_cmd = 0x19, sg64_cmdsize = 232, sg64_segname = 0x415441445f5f, sg64_vmaddr = 0x1000,
        sg64_vmsize = 0x1000, sg64_fileoff = 0, sg64_filesize = 0x1000, sg64_maxprot = 3,
        sg64_initprot = 3, sg64_nsects = 2, sg64_flags = 0\<rparr>,
       [\<lparr>s64_sectname = 0x615f5f, s64_segname = 0x415441445f5f, s64_addr = 0x1000, s64_size = 8,
          s64_offset = 0, s64_align = 3, s64_reloff = 0, s64_nreloc = 0, s64_flags = 0,
          s64_reserved1 = 0, s64_reserved2 = 0, s64_reserved3 = 0\<rparr>,
        \<lparr>s64_sectname = 0x625f5f, s64_segname = 0x415441445f5f, s64_addr = 0x1008, s64_size = 8,
          s64_offset = 8, s64_align = 3, s64_reloff = 0, s64_nreloc = 0, s64_flags = 0,
          s64_reserved1 = 0, s64_reserved2 = 0, s64_reserved3 = 0\<rparr>])]\<rparr>"

lemma two_sections_names:
  "sectionName two_sections 0 0x1000 = ''__a''" "sectionName two_sections 0 0x1008 = ''__b''"
  by code_simp+

lemma two_sections_start: "segStartAddress two_sections 0 = 0x1000"
  by code_simp

theorem repeated_bindings_section_witness:
  "dbi_sectname (yields two_sections (I_times 2 8) (cx_start\<lparr>cx_segment := Some 0\<rparr>) ! 1) \<noteq> ''__b''"
proof -
  let ?cx = "cx_start\<lparr>cx_segment := Some 0\<rparr>"
  have a: "cx_address two_sections ?cx = 0x1000"
    by (simp add: cx_address_def cx_start_def two_sections_start)
  let ?x = "yields two_sections (I_times 2 8) ?cx ! 1"
  have r: "dbi_address ?x = cx_address two_sections ?cx + of_nat 1 * 8
    \<and> (dbi_sectname ?x = sectionName two_sections 0 (dbi_address ?x)
      \<longleftrightarrow> sectionName two_sections 0 (cx_address two_sections ?cx)
        = sectionName two_sections 0 (cx_address two_sections ?cx + of_nat 1 * 8))"
    by (rule repeated_bindings_section) simp_all
  then have at: "dbi_address ?x = 0x1008" by (simp add: a)
  from r have "dbi_sectname ?x = sectionName two_sections 0 0x1008
      \<longleftrightarrow> sectionName two_sections 0 0x1000 = sectionName two_sections 0 0x1008"
    unfolding at a by simp
  then show ?thesis by (simp add: two_sections_names)
qed

text \<open>The same, from the bytes of the opcodes.\<close>

lemma two_sections_run:
  "map_sum id (map (map_option (\<lambda>d. (dbi_address d, dbi_sectname d, dbi_symbolname d))))
     (get_dyld_bind_info two_sections [0x11, 0x40, 0x5f, 0x66, 0, 0x70, 0, 0xc0, 2, 0, 0])
   = Inr [Some (0x1000, ''__a'', Some ''_f''), Some (0x1008, ''__a'', Some ''_f'')]"
  by code_simp

end
