(* ===== verification/Line_Emit.thy ===== *)
theory Line_Emit
  imports Leb128
begin

text \<open>
  The line number program the assembler writes (\<open>as/dwarf2dbg.c\<close>): the size and the bytes of
  one step of line and address. An \<open>int\<close> of the code is a \<open>u32\<close> and an \<open>addressT\<close> a \<open>u64\<close>;
  \<open>arch64\<close> says which of the two configurations of the assembler it is, which fixes the type
  \<open>valueT\<close> the functions for base 128 numbers take.
\<close>

section \<open>Constants\<close>

text \<open>The standard and extended opcodes of \<open>dwarf2.h\<close>.\<close>

definition DW_LNS_extended_op :: u8 where "DW_LNS_extended_op = 0"
definition DW_LNS_copy :: u8 where "DW_LNS_copy = 1"
definition DW_LNS_advance_pc :: u8 where "DW_LNS_advance_pc = 2"
definition DW_LNS_advance_line :: u8 where "DW_LNS_advance_line = 3"
definition DW_LNS_set_file :: u8 where "DW_LNS_set_file = 4"
definition DW_LNS_set_column :: u8 where "DW_LNS_set_column = 5"
definition DW_LNS_negate_stmt :: u8 where "DW_LNS_negate_stmt = 6"
definition DW_LNS_set_basic_block :: u8 where "DW_LNS_set_basic_block = 7"
definition DW_LNS_const_add_pc :: u8 where "DW_LNS_const_add_pc = 8"
definition DW_LNS_fixed_advance_pc :: u8 where "DW_LNS_fixed_advance_pc = 9"
definition DW_LNS_set_prologue_end :: u8 where "DW_LNS_set_prologue_end = 10"
definition DW_LNS_set_epilogue_begin :: u8 where "DW_LNS_set_epilogue_begin = 11"
definition DW_LNS_set_isa :: u8 where "DW_LNS_set_isa = 12"
definition DW_LNE_end_sequence :: u8 where "DW_LNE_end_sequence = 1"
definition DW_LNE_set_address :: u8 where "DW_LNE_set_address = 2"
definition DW_LNE_define_file :: u8 where "DW_LNE_define_file = 3"

named_theorems dwarf_ops \<open>the numbers of the opcodes\<close>

declare DW_LNS_extended_op_def [dwarf_ops] DW_LNS_copy_def [dwarf_ops] DW_LNS_advance_pc_def [dwarf_ops]
  DW_LNS_advance_line_def [dwarf_ops] DW_LNS_set_file_def [dwarf_ops] DW_LNS_set_column_def [dwarf_ops]
  DW_LNS_negate_stmt_def [dwarf_ops] DW_LNS_set_basic_block_def [dwarf_ops]
  DW_LNS_const_add_pc_def [dwarf_ops] DW_LNS_fixed_advance_pc_def [dwarf_ops]
  DW_LNS_set_prologue_end_def [dwarf_ops] DW_LNS_set_epilogue_begin_def [dwarf_ops]
  DW_LNS_set_isa_def [dwarf_ops] DW_LNE_end_sequence_def [dwarf_ops]
  DW_LNE_set_address_def [dwarf_ops] DW_LNE_define_file_def [dwarf_ops]

text \<open>The parameters of the program, which the header of the table tells its reader.\<close>

definition DWARF2_LINE_OPCODE_BASE :: int where "DWARF2_LINE_OPCODE_BASE = 13"
definition DWARF2_LINE_BASE :: int where "DWARF2_LINE_BASE = - 5"
definition DWARF2_LINE_RANGE :: int where "DWARF2_LINE_RANGE = 14"
definition DWARF2_LINE_MIN_INSN_LENGTH :: int where "DWARF2_LINE_MIN_INSN_LENGTH = 1"
definition DWARF2_LINE_DEFAULT_IS_STMT :: int where "DWARF2_LINE_DEFAULT_IS_STMT = 1"

definition SPECIAL_LINE :: "int \<Rightarrow> int" where
  "SPECIAL_LINE op = (op - DWARF2_LINE_OPCODE_BASE) mod DWARF2_LINE_RANGE + DWARF2_LINE_BASE"

definition SPECIAL_ADDR :: "int \<Rightarrow> int" where
  "SPECIAL_ADDR op = (op - DWARF2_LINE_OPCODE_BASE) div DWARF2_LINE_RANGE"

definition MAX_SPECIAL_ADDR_DELTA :: int where "MAX_SPECIAL_ADDR_DELTA = SPECIAL_ADDR 255"

named_theorems line_params \<open>the parameters of the line number program\<close>

declare DWARF2_LINE_OPCODE_BASE_def [line_params] DWARF2_LINE_BASE_def [line_params]
  DWARF2_LINE_RANGE_def [line_params] DWARF2_LINE_MIN_INSN_LENGTH_def [line_params]
  DWARF2_LINE_DEFAULT_IS_STMT_def [line_params]

lemma max_special [line_params]: "MAX_SPECIAL_ADDR_DELTA = 17"
  by (simp add: MAX_SPECIAL_ADDR_DELTA_def SPECIAL_ADDR_def line_params)

text \<open>\<open>INT_MAX\<close> as the line step is the signal for the end of a sequence.\<close>

definition INT_MAX :: u32 where "INT_MAX = 0x7fffffff"

section \<open>Base 128 numbers\<close>

text \<open>The calls of \<open>sizeof_leb128\<close> and \<open>output_leb128\<close>, with the conversion to \<open>valueT\<close>.\<close>

definition sizeof_leb128 :: "bool \<Rightarrow> u64 \<Rightarrow> bool \<Rightarrow> nat" where
  "sizeof_leb128 arch64 v sign = (if arch64 then sizeof_leb128_64 v sign else sizeof_leb128_32 (ucast v) sign)"

definition output_leb128 :: "bool \<Rightarrow> u64 \<Rightarrow> bool \<Rightarrow> u8 list" where
  "output_leb128 arch64 v sign = (if arch64 then output_leb128_64 v sign else output_leb128_32 (ucast v) sign)"

text \<open>The addresses a configuration can hold.\<close>

definition addr_ok :: "bool \<Rightarrow> u64 \<Rightarrow> bool" where
  "addr_ok arch64 a \<longleftrightarrow> arch64 \<or> unat a < 2 ^ 32"

lemma length_output_leb128: "length (output_leb128 arch64 v sign) = sizeof_leb128 arch64 v sign"
  by (simp add: output_leb128_def sizeof_leb128_def sizeof_leb128_32_def sizeof_leb128_64_def
      output_leb128_32_def output_leb128_64_def sizeof_uleb128_spec sizeof_sleb128_spec
      output_uleb128_spec output_sleb128_spec sint_scast_32)

lemma output_leb128_address: "addr_ok arch64 a \<Longrightarrow> output_leb128 arch64 a False = uleb_bytes (unat a)"
  by (auto simp: addr_ok_def output_leb128_def output_leb128_64_def output_leb128_32_def
      output_uleb128_spec unsigned_ucast_eq take_bit_nat_eq_self)

lemma output_leb128_line: "output_leb128 arch64 (scast (l :: u32)) True = sleb_bytes (sint l)"
proof -
  have "(ucast (scast l :: u64) :: u32) = l" by (rule bit_word_eqI) (simp add: bit_simps)
  then show ?thesis
    by (simp add: output_leb128_def output_leb128_64_def output_leb128_32_def output_sleb128_spec
        sint_scast_32)
qed

section \<open>One step of line and address\<close>

definition size_inc_line_addr :: "bool \<Rightarrow> u32 \<Rightarrow> u64 \<Rightarrow> nat" where
  "size_inc_line_addr arch64 line_delta addr_delta =
     (if line_delta = INT_MAX
      then (if addr_delta = of_int MAX_SPECIAL_ADDR_DELTA then 1
            else 1 + sizeof_leb128 arch64 addr_delta False) + 3
      else
        let tmp = line_delta - of_int DWARF2_LINE_BASE;
            far = of_int DWARF2_LINE_RANGE \<le> tmp;
            len = (if far then 1 + sizeof_leb128 arch64 (scast line_delta) True else 0);
            tmp = (if far then 0 - of_int DWARF2_LINE_BASE else tmp);
            tmp = tmp + of_int DWARF2_LINE_OPCODE_BASE;
            near = addr_delta < 256 + of_int MAX_SPECIAL_ADDR_DELTA;
            opcode = (ucast (ucast tmp + addr_delta * of_int DWARF2_LINE_RANGE) :: u32);
            opcode2 = (ucast (ucast tmp + (addr_delta - of_int MAX_SPECIAL_ADDR_DELTA)
                                          * of_int DWARF2_LINE_RANGE) :: u32)
        in if near \<and> opcode \<le> 255 then len + 1
           else if near \<and> opcode2 \<le> 255 then len + 2
           else len + (1 + sizeof_leb128 arch64 addr_delta False) + 1)"

text \<open>
  What the writer stores. It stops at the assertion that the address does not go back, and
  with an internal error if the bytes it stored are not as many as it was told; all of the
  stores come before that test.
\<close>

datatype line_error = Assertion_failed | Not_at_end

definition inc_line_addr_bytes :: "bool \<Rightarrow> u32 \<Rightarrow> u64 \<Rightarrow> u8 list" where
  "inc_line_addr_bytes arch64 line_delta addr_delta =
     (if line_delta = INT_MAX
      then (if addr_delta = of_int MAX_SPECIAL_ADDR_DELTA then [DW_LNS_const_add_pc]
            else DW_LNS_advance_pc # output_leb128 arch64 addr_delta False)
           @ [DW_LNS_extended_op, 1, DW_LNE_end_sequence]
      else
        let tmp = line_delta - of_int DWARF2_LINE_BASE;
            need_copy = of_int DWARF2_LINE_RANGE \<le> tmp;
            p = (if need_copy then DW_LNS_advance_line # output_leb128 arch64 (scast line_delta) True else []);
            line_delta = (if need_copy then 0 else line_delta);
            tmp = (if need_copy then 0 - of_int DWARF2_LINE_BASE else tmp)
        in if line_delta = 0 \<and> addr_delta = 0 then p @ [DW_LNS_copy]
           else
             let tmp = tmp + of_int DWARF2_LINE_OPCODE_BASE;
                 near = addr_delta < 256 + of_int MAX_SPECIAL_ADDR_DELTA;
                 opcode = (ucast (ucast tmp + addr_delta * of_int DWARF2_LINE_RANGE) :: u32);
                 opcode2 = (ucast (ucast tmp + (addr_delta - of_int MAX_SPECIAL_ADDR_DELTA)
                                               * of_int DWARF2_LINE_RANGE) :: u32)
             in if near \<and> opcode \<le> 255 then p @ [ucast opcode]
                else if near \<and> opcode2 \<le> 255 then p @ [DW_LNS_const_add_pc, ucast opcode2]
                else p @ DW_LNS_advance_pc # output_leb128 arch64 addr_delta False
                       @ [if need_copy then DW_LNS_copy else ucast tmp])"

definition emit_inc_line_addr :: "bool \<Rightarrow> u32 \<Rightarrow> u64 \<Rightarrow> nat \<Rightarrow> line_error + u8 list" where
  "emit_inc_line_addr arch64 line_delta addr_delta len =
     (if sint addr_delta < 0 then Inl Assertion_failed
      else let p = inc_line_addr_bytes arch64 line_delta addr_delta in
        if length p \<noteq> len then Inl Not_at_end else Inr p)"

definition out_inc_line_addr :: "bool \<Rightarrow> u32 \<Rightarrow> u64 \<Rightarrow> line_error + u8 list" where
  "out_inc_line_addr arch64 line_delta addr_delta =
     emit_inc_line_addr arch64 line_delta addr_delta (size_inc_line_addr arch64 line_delta addr_delta)"

section \<open>What is written\<close>

text \<open>The line step that is left to the last opcode, and the opcodes before it.\<close>

definition line_prefix :: "u32 \<Rightarrow> u8 list" where
  "line_prefix l = (if - 5 \<le> sint l \<and> sint l < 9 then [] else DW_LNS_advance_line # sleb_bytes (sint l))"

definition line_rest :: "u32 \<Rightarrow> int" where
  "line_rest l = (if - 5 \<le> sint l \<and> sint l < 9 then sint l else 0)"

lemma line_rest_range: "- 5 \<le> line_rest l" "line_rest l < 9"
  by (simp_all add: line_rest_def)

lemma line_in_range: "(14 :: u32) \<le> l - of_int DWARF2_LINE_BASE \<longleftrightarrow> \<not> (- 5 \<le> sint l \<and> sint l < 9)"
proof -
  define x where "x = sint l"
  have x: "- (2 ^ 31) \<le> x" "x < 2 ^ 31"
    using sint_ge [of l] sint_lt [of l] by (simp_all add: x_def)
  have l: "l - of_int DWARF2_LINE_BASE = of_int (x + 5)"
    by (simp add: x_def line_params)
  have "uint (l - of_int DWARF2_LINE_BASE) = (x + 5) mod 2 ^ 32"
    unfolding l by (simp only: unsigned_of_int take_bit_eq_mod) simp
  moreover have "(x + 5) mod 2 ^ 32 = (if x < - 5 then x + 5 + 2 ^ 32 else x + 5)"
  proof (cases "x < - 5")
    case True
    then have "(x + 5 + 2 ^ 32) mod 2 ^ 32 = x + 5 + 2 ^ 32" using x by (intro mod_pos_pos_trivial) simp_all
    with True show ?thesis by (metis mod_add_self2)
  next
    case False
    with x show ?thesis by simp
  qed
  ultimately show ?thesis using x unfolding word_le_def by (auto simp: x_def)
qed

text \<open>The first byte of a special opcode, in the numbers it is made of.\<close>

definition special_opcode :: "int \<Rightarrow> nat \<Rightarrow> nat" where
  "special_opcode l a = nat (l + 18) + 14 * a"

lemma special_opcode_simps:
  assumes "- 5 \<le> l" and "l < 9" and "(tmp :: u32) = of_int (l + 18)"
  shows "unat a < 273 \<Longrightarrow>
      (ucast (ucast tmp + (a :: u64) * 14) :: u32) = of_nat (special_opcode l (unat a))"
    and "17 \<le> unat a \<Longrightarrow> unat a < 273 \<Longrightarrow>
      (ucast (ucast tmp + (a - 17) * 14) :: u32) = of_nat (special_opcode l (unat a - 17))"
proof -
  have tmp: "unat tmp = nat (l + 18)"
    using assms by (simp only: unat_eq_nat_uint unsigned_of_int take_bit_eq_mod) simp
  have u: "(ucast x :: u32) = of_nat (unat (x :: u64))" for x
    by (simp only: of_nat_unat)
  have sum: "(ucast (ucast tmp + b * 14) :: u32) = of_nat (special_opcode l (unat b))"
    if "unat b < 273" for b :: u64
  proof -
    have "ucast tmp + b * 14 = (of_nat (special_opcode l (unat b)) :: u64)"
      by (simp add: special_opcode_def tmp [symmetric] mult.commute)
    moreover have "unat (of_nat (special_opcode l (unat b)) :: u64) = special_opcode l (unat b)"
    proof -
      have "special_opcode l (unat b) < 2 ^ 64"
        using that assms(1,2) by (simp add: special_opcode_def)
      then show ?thesis by (subst unat_of_nat) simp
    qed
    ultimately show ?thesis by (simp only: u)
  qed
  show "unat a < 273 \<Longrightarrow> (ucast (ucast tmp + (a :: u64) * 14) :: u32) = of_nat (special_opcode l (unat a))"
    by (rule sum)
  assume a: "17 \<le> unat a" "unat a < 273"
  have "unat (a - 17) = unat a - 17" using a(1) by (simp add: unat_sub word_le_nat_alt)
  with sum [of "a - 17"] a show "(ucast (ucast tmp + (a - 17) * 14) :: u32) = of_nat (special_opcode l (unat a - 17))"
    by simp
qed

lemma special_le_255:
  "n < 5000 \<Longrightarrow> (of_nat n :: u32) \<le> 255 \<longleftrightarrow> n \<le> 255"
  "n \<le> 255 \<Longrightarrow> (ucast (of_nat n :: u32) :: u8) = of_nat n"
proof -
  assume "n < 5000"
  then have "unat (of_nat n :: u32) = n" by (simp add: unat_of_nat)
  then show "(of_nat n :: u32) \<le> 255 \<longleftrightarrow> n \<le> 255" by (simp add: word_le_nat_alt)
next
  assume "n \<le> 255"
  then have "unat (of_nat n :: u32) = n" by (simp add: unat_of_nat)
  then show "(ucast (of_nat n :: u32) :: u8) = of_nat n" by (metis of_nat_unat)
qed

lemma special_near: "- 5 \<le> l \<Longrightarrow> special_opcode l a \<le> 255 \<Longrightarrow> a < 18"
  "l < 9 \<Longrightarrow> a < 17 \<Longrightarrow> special_opcode l a \<le> 255"
  "l < 9 \<Longrightarrow> a < 273 \<Longrightarrow> special_opcode l a < 5000"
  by (simp_all add: special_opcode_def)

text \<open>
  The bytes after the prefix, in four cases: a copy, a special opcode, the constant step of
  the address and a special opcode, the step of the address and an opcode for the line.
\<close>

definition line_tail :: "bool \<Rightarrow> bool \<Rightarrow> int \<Rightarrow> nat \<Rightarrow> u8 list" where
  "line_tail arch64 copy l a =
     (if l = 0 \<and> a = 0 then [DW_LNS_copy]
      else if special_opcode l a \<le> 255 then [of_nat (special_opcode l a)]
      else if special_opcode l (a - 17) \<le> 255
      then [DW_LNS_const_add_pc, of_nat (special_opcode l (a - 17))]
      else DW_LNS_advance_pc # output_leb128 arch64 (of_nat a) False
           @ [if copy then DW_LNS_copy else of_nat (special_opcode l 0)])"

lemma line_tmp:
  "(if 14 \<le> l - of_int DWARF2_LINE_BASE then 0 - of_int DWARF2_LINE_BASE else l - of_int DWARF2_LINE_BASE)
    + of_int DWARF2_LINE_OPCODE_BASE = (of_int (line_rest l + 18) :: u32)"
  unfolding line_in_range line_rest_def by (auto simp: line_params)

lemma line_prefix_alt:
  "line_prefix l = (if 14 \<le> l - of_int DWARF2_LINE_BASE
     then DW_LNS_advance_line # output_leb128 arch64 (scast l) True else [])"
  unfolding line_in_range line_prefix_def by (simp add: output_leb128_line)

lemma near_iff: "(a :: u64) < 256 + of_int MAX_SPECIAL_ADDR_DELTA \<longleftrightarrow> unat a < 273"
  by (simp add: line_params word_less_nat_alt)

lemma near_special:
  assumes "- 5 \<le> l" and "l < 9" and "(tmp :: u32) = of_int (l + 18)"
  shows "unat a < 273 \<and> (ucast (ucast tmp + (a :: u64) * 14) :: u32) \<le> 255
      \<longleftrightarrow> special_opcode l (unat a) \<le> 255"
    and "\<not> special_opcode l (unat a) \<le> 255 \<Longrightarrow>
      unat a < 273 \<and> (ucast (ucast tmp + (a - 17) * 14) :: u32) \<le> 255
      \<longleftrightarrow> special_opcode l (unat a - 17) \<le> 255"
proof -
  show "unat a < 273 \<and> (ucast (ucast tmp + (a :: u64) * 14) :: u32) \<le> 255
      \<longleftrightarrow> special_opcode l (unat a) \<le> 255"
    using special_near(1) [OF assms(1), of "unat a"] special_near(3) [OF assms(2), of "unat a"]
      special_opcode_simps(1) [OF assms, of a] by (cases "unat a < 273") (auto simp: special_le_255)
  assume "\<not> special_opcode l (unat a) \<le> 255"
  then have a: "17 \<le> unat a" using special_near(2) [OF assms(2), of "unat a"] by linarith
  show "unat a < 273 \<and> (ucast (ucast tmp + (a - 17) * 14) :: u32) \<le> 255
      \<longleftrightarrow> special_opcode l (unat a - 17) \<le> 255"
    using special_near(1) [OF assms(1), of "unat a - 17"] special_near(3) [OF assms(2), of "unat a - 17"]
      special_opcode_simps(2) [OF assms a] by (cases "unat a < 273") (auto simp: special_le_255)
qed

lemma near_special_byte:
  assumes "- 5 \<le> l" and "l < 9" and "(tmp :: u32) = of_int (l + 18)"
  shows "special_opcode l (unat a) \<le> 255 \<Longrightarrow>
      (ucast (ucast (ucast tmp + (a :: u64) * 14) :: u32) :: u8) = of_nat (special_opcode l (unat a))"
    and "\<not> special_opcode l (unat a) \<le> 255 \<Longrightarrow> special_opcode l (unat a - 17) \<le> 255 \<Longrightarrow>
      (ucast (ucast (ucast tmp + (a - 17) * 14) :: u32) :: u8) = of_nat (special_opcode l (unat a - 17))"
proof -
  assume *: "special_opcode l (unat a) \<le> 255"
  then have "unat a < 273" using special_near(1) [OF assms(1), of "unat a"] by linarith
  from special_opcode_simps(1) [OF assms this] show
    "(ucast (ucast (ucast tmp + (a :: u64) * 14) :: u32) :: u8) = of_nat (special_opcode l (unat a))"
    by (simp only: special_le_255(2) [OF *])
next
  assume "\<not> special_opcode l (unat a) \<le> 255" and *: "special_opcode l (unat a - 17) \<le> 255"
  then have a: "17 \<le> unat a" "unat a < 273"
    using special_near(2) [OF assms(2), of "unat a"] special_near(1) [OF assms(1), of "unat a - 17"]
    by linarith+
  from special_opcode_simps(2) [OF assms a] show
    "(ucast (ucast (ucast tmp + (a - 17) * 14) :: u32) :: u8) = of_nat (special_opcode l (unat a - 17))"
    by (simp only: special_le_255(2) [OF *])
qed

lemma inc_line_addr_bytes_cases:
  "inc_line_addr_bytes arch64 l a =
     (if l = INT_MAX
      then (if a = 17 then [DW_LNS_const_add_pc]
            else DW_LNS_advance_pc # output_leb128 arch64 a False)
           @ [DW_LNS_extended_op, 1, DW_LNE_end_sequence]
      else line_prefix l @ line_tail arch64 (line_prefix l \<noteq> []) (line_rest l) (unat a))"
proof (cases "l = INT_MAX")
  case True
  then show ?thesis by (simp add: inc_line_addr_bytes_def line_params)
next
  case False
  define need where "need = ((14 :: u32) \<le> l - of_int DWARF2_LINE_BASE)"
  define tmp where "tmp = (if need then 0 - of_int DWARF2_LINE_BASE else l - of_int DWARF2_LINE_BASE)
    + (of_int DWARF2_LINE_OPCODE_BASE :: u32)"
  have tmp: "tmp = of_int (line_rest l + 18)" unfolding tmp_def need_def by (rule line_tmp)
  note r = line_rest_range [of l]
  have prefix: "line_prefix l = (if need
     then DW_LNS_advance_line # output_leb128 arch64 (scast l) True else [])"
    unfolding need_def by (rule line_prefix_alt)
  have zero: "(if need then 0 else l) = 0 \<longleftrightarrow> line_rest l = 0"
    unfolding need_def line_in_range by (auto simp: line_rest_def signed_eq_0_iff)
  have last: "(ucast tmp :: u8) = of_nat (special_opcode (line_rest l) 0)"
    using special_opcode_simps(1) [OF r tmp, of 0] special_le_255(2) [of "special_opcode (line_rest l) 0"] r
    by (simp add: special_opcode_def tmp)
  define opcode where "opcode = (ucast (ucast tmp + a * 14) :: u32)"
  define opcode2 where "opcode2 = (ucast (ucast tmp + (a - 17) * 14) :: u32)"
  have "inc_line_addr_bytes arch64 l a =
     (let p = line_prefix l; near = a < 256 + of_int MAX_SPECIAL_ADDR_DELTA
      in if line_rest l = 0 \<and> a = 0 then p @ [DW_LNS_copy]
         else if near \<and> opcode \<le> 255 then p @ [ucast opcode]
         else if near \<and> opcode2 \<le> 255 then p @ [DW_LNS_const_add_pc, ucast opcode2]
         else p @ DW_LNS_advance_pc # output_leb128 arch64 a False
                @ [if need then DW_LNS_copy else ucast tmp])"
    using False unfolding zero [symmetric] prefix
    by (simp add: inc_line_addr_bytes_def Let_def tmp_def need_def opcode_def opcode2_def max_special
        DWARF2_LINE_RANGE_def)
  moreover have "need \<longleftrightarrow> line_prefix l \<noteq> []" unfolding prefix by simp
  ultimately show ?thesis
    using False last near_special [OF r tmp, of a, folded opcode_def opcode2_def]
      near_special_byte [OF r tmp, of a, folded opcode_def opcode2_def]
    by (simp add: near_iff line_tail_def Let_def unat_eq_zero)
qed

lemma size_inc_line_addr_cases:
  "size_inc_line_addr arch64 l a =
     (if l = INT_MAX then (if a = 17 then 1 else 1 + sizeof_leb128 arch64 a False) + 3
      else length (line_prefix l)
        + (if special_opcode (line_rest l) (unat a) \<le> 255 then 1
           else if special_opcode (line_rest l) (unat a - 17) \<le> 255 then 2
           else 2 + sizeof_leb128 arch64 a False))"
proof (cases "l = INT_MAX")
  case True
  then show ?thesis by (simp add: size_inc_line_addr_def line_params)
next
  case False
  define need where "need = ((14 :: u32) \<le> l - of_int DWARF2_LINE_BASE)"
  define tmp where "tmp = (if need then 0 - of_int DWARF2_LINE_BASE else l - of_int DWARF2_LINE_BASE)
    + (of_int DWARF2_LINE_OPCODE_BASE :: u32)"
  have tmp: "tmp = of_int (line_rest l + 18)" unfolding tmp_def need_def by (rule line_tmp)
  have prefix: "length (line_prefix l) = (if need then 1 + sizeof_leb128 arch64 (scast l) True else 0)"
    unfolding need_def by (subst line_prefix_alt [of _ arch64]) (simp add: length_output_leb128)
  define opcode where "opcode = (ucast (ucast tmp + a * 14) :: u32)"
  define opcode2 where "opcode2 = (ucast (ucast tmp + (a - 17) * 14) :: u32)"
  have "size_inc_line_addr arch64 l a =
     (let len = length (line_prefix l); near = a < 256 + of_int MAX_SPECIAL_ADDR_DELTA
      in if near \<and> opcode \<le> 255 then len + 1 else if near \<and> opcode2 \<le> 255 then len + 2
         else len + (1 + sizeof_leb128 arch64 a False) + 1)"
    using False unfolding prefix
    by (simp add: size_inc_line_addr_def Let_def tmp_def need_def opcode_def opcode2_def max_special
        DWARF2_LINE_RANGE_def)
  then show ?thesis
    using False near_special [OF line_rest_range tmp, of a, folded opcode_def opcode2_def]
    by (simp add: near_iff Let_def)
qed

lemma size_inc_line_addr_length:
  "size_inc_line_addr arch64 l a = length (inc_line_addr_bytes arch64 l a)"
  unfolding size_inc_line_addr_cases inc_line_addr_bytes_cases line_tail_def
  by (auto simp: length_output_leb128 special_opcode_def)

section \<open>Steps whose addresses are not known yet\<close>

text \<open>
  A step between two fragments is a variable part (\<open>rs_dwarf2dbg\<close>) that keeps the line step,
  the room that was made for it and its length at present. The addresses are those of the
  two symbols of its expression.
\<close>

record line_frag =
  lf_max :: nat
  lf_line_delta :: u32
  lf_subtype :: nat

definition relax_inc_line_addr :: "bool \<Rightarrow> u32 \<Rightarrow> line_frag" where
  "relax_inc_line_addr arch64 line_delta =
     \<lparr>lf_max = size_inc_line_addr arch64 line_delta (- of_int DWARF2_LINE_MIN_INSN_LENGTH),
      lf_line_delta = line_delta, lf_subtype = 0\<rparr>"

definition dwarf2dbg_estimate_size_before_relax :: "bool \<Rightarrow> u64 \<Rightarrow> line_frag \<Rightarrow> nat \<times> line_frag" where
  "dwarf2dbg_estimate_size_before_relax arch64 addr_delta frag =
     (let sz = size_inc_line_addr arch64 (lf_line_delta frag) addr_delta in
      (sz, frag\<lparr>lf_subtype := sz\<rparr>))"

definition dwarf2dbg_relax_frag :: "bool \<Rightarrow> u64 \<Rightarrow> line_frag \<Rightarrow> int \<times> line_frag" where
  "dwarf2dbg_relax_frag arch64 addr_delta frag =
     (let old_size = lf_subtype frag;
          (new_size, frag) = dwarf2dbg_estimate_size_before_relax arch64 addr_delta frag
      in (int new_size - int old_size, frag))"

text \<open>Converting the fragment stops as well if there is not enough room.\<close>

definition dwarf2dbg_convert_frag :: "bool \<Rightarrow> u64 \<Rightarrow> line_frag \<Rightarrow> line_error + u8 list" where
  "dwarf2dbg_convert_frag arch64 addr_diff frag =
     (if lf_max frag < lf_subtype frag then Inl Assertion_failed
      else emit_inc_line_addr arch64 (lf_line_delta frag) addr_diff (lf_subtype frag))"

lemma sizeof_leb128_max: "sizeof_leb128 arch64 a False \<le> sizeof_leb128 arch64 (- 1) False"
proof -
  have "length (uleb_bytes (unat (w :: u32))) \<le> 5" "length (uleb_bytes (unat (v :: u64))) \<le> 10" for v w
    using uleb_bytes_length [of "unat w" 4] uleb_bytes_length [of "unat v" 9]
      unat_less_numeral [of w] unat_less_numeral [of v] by simp_all
  moreover have "sizeof_leb128 True (- 1) False = 10" "sizeof_leb128 False (- 1) False = 5"
    by code_simp+
  ultimately show ?thesis
    by (cases arch64) (simp_all add: sizeof_leb128_def sizeof_leb128_32_def sizeof_leb128_64_def
        sizeof_uleb128_spec)
qed

lemma size_inc_line_addr_max: "size_inc_line_addr arch64 l a \<le> size_inc_line_addr arch64 l (- 1)"
proof -
  have "unat (- 1 :: u64) = 2 ^ 64 - 1" by (simp add: unsigned_minus_1_eq_mask mask_eq_exp_minus_1)
  then have far: "\<not> special_opcode x (unat (- 1 :: u64)) \<le> 255" "\<not> special_opcode x (unat (- 1 :: u64) - 17) \<le> 255"
    for x by (simp_all only: special_opcode_def) simp_all
  have "(- 1 :: u64) \<noteq> 17" by simp
  moreover have "1 \<le> sizeof_leb128 arch64 a False" if "a \<noteq> 17" for a
    using leb_bytes_not_empty by (simp add: sizeof_leb128_def sizeof_leb128_32_def sizeof_leb128_64_def
        sizeof_uleb128_spec)
  ultimately show ?thesis
    using sizeof_leb128_max [of arch64 a] far by (cases "a = 17") (simp_all add: size_inc_line_addr_cases)
qed

section \<open>Properties\<close>

text \<open>
  Property C30. The size and the bytes of a step are in sync: when the address does not go back the writer
  stores exactly the bytes that were made room for, whatever the line step, so that its
  internal error never happens; and it fails only at the assertion on the address.
\<close>

theorem line_step_in_sync:
  "out_inc_line_addr arch64 l a =
     (if sint a < 0 then Inl Assertion_failed else Inr (inc_line_addr_bytes arch64 l a))
   \<and> size_inc_line_addr arch64 l a = length (inc_line_addr_bytes arch64 l a)"
  by (simp add: out_inc_line_addr_def emit_inc_line_addr_def size_inc_line_addr_length)

text \<open>
  A step between two fragments never outgrows the room made for it: after any number of
  relaxation passes over any addresses, the last one with the final address, the fragment
  converts to the bytes of the step, and fails only at the assertion on the address.
\<close>

theorem line_frag_fits:
  "let frag = snd (dwarf2dbg_relax_frag arch64 a
       (fold (\<lambda>b f. snd (dwarf2dbg_relax_frag arch64 b f)) bs (relax_inc_line_addr arch64 l)))
   in lf_subtype frag \<le> lf_max frag
      \<and> dwarf2dbg_convert_frag arch64 a frag =
          (if sint a < 0 then Inl Assertion_failed else Inr (inc_line_addr_bytes arch64 l a))"
proof -
  have relax: "snd (dwarf2dbg_relax_frag arch64 b f)
      = f\<lparr>lf_subtype := size_inc_line_addr arch64 (lf_line_delta f) b\<rparr>" for b f
    by (simp add: dwarf2dbg_relax_frag_def dwarf2dbg_estimate_size_before_relax_def Let_def)
  have kept: "lf_max (fold (\<lambda>b f. snd (dwarf2dbg_relax_frag arch64 b f)) bs f) = lf_max f
      \<and> lf_line_delta (fold (\<lambda>b f. snd (dwarf2dbg_relax_frag arch64 b f)) bs f) = lf_line_delta f" for f
    by (induction bs arbitrary: f) (simp_all add: relax)
  define frag where "frag = fold (\<lambda>b f. snd (dwarf2dbg_relax_frag arch64 b f)) bs (relax_inc_line_addr arch64 l)"
  have "lf_max frag = size_inc_line_addr arch64 l (- 1)" "lf_line_delta frag = l"
    using kept [of "relax_inc_line_addr arch64 l"]
    by (simp_all add: frag_def relax_inc_line_addr_def line_params)
  then show ?thesis
    using size_inc_line_addr_max [of arch64 l a] unfolding frag_def [symmetric]
    by (simp add: relax Let_def dwarf2dbg_convert_frag_def emit_inc_line_addr_def
        size_inc_line_addr_length)
qed

end
