(* ===== verification/Line_Reader.thy ===== *)
theory Line_Reader
  imports Line_Emit Byte_Order "HOL-Library.Monad_Syntax"
begin

text \<open>
  The reader of line number tables, \<open>ld/debugline.c\<close>. The section is a list of bytes and a
  pointer into it an offset; \<open>None\<close> is what C leaves undefined: reading outside of the section,
  and a division by zero. Memory is never short.
\<close>

section \<open>Memory\<close>

declare Option.bind_cong [fundef_cong]

definition fetch :: "u8 list \<Rightarrow> nat \<Rightarrow> u8 option" where
  "fetch buf i = (if i < length buf then Some (buf ! i) else None)"

definition fetch_bytes :: "u8 list \<Rightarrow> nat \<Rightarrow> nat \<Rightarrow> u8 list option" where
  "fetch_bytes buf i n = (if i + n \<le> length buf then Some (take n (drop i buf)) else None)"

text \<open>
  \<open>memchr\<close> looks at no byte after the first one it looks for. The inner option is its result,
  where \<open>None\<close> is the null pointer.
\<close>

definition memchr :: "u8 list \<Rightarrow> u8 \<Rightarrow> nat \<Rightarrow> nat \<Rightarrow> nat option option" where
  "memchr buf c p n =
     (let k = length (takeWhile (\<lambda>b. b \<noteq> c) (drop p buf)) in
      if k < n then (if p + k < length buf then Some (Some (p + k)) else None)
      else if p + n \<le> length buf then Some None else None)"

definition strlen :: "u8 list \<Rightarrow> nat \<Rightarrow> nat option" where
  "strlen buf p =
     (let k = length (takeWhile (\<lambda>b. b \<noteq> 0) (drop p buf)) in
      if p + k < length buf then Some k else None)"

text \<open>The difference of two pointers, as an unsigned number.\<close>

definition ptr_diff :: "nat \<Rightarrow> nat \<Rightarrow> u64" where
  "ptr_diff p q = of_nat p - of_nat q"

text \<open>
  The macros \<open>read_16\<close>, \<open>read_32\<close> and \<open>read_64\<close>. The first two have type \<open>int\<close>, so that
  \<open>read_32\<close> is negative for a word with its top bit set.
\<close>

definition read_word :: "bool \<Rightarrow> u8 list \<Rightarrow> 'a::len word" where
  "read_word le bs = of_le_bytes (if le then bs else rev bs)"

definition read_16 :: "bool \<Rightarrow> u8 list \<Rightarrow> nat \<Rightarrow> u16 option" where
  "read_16 le buf p = map_option (read_word le) (fetch_bytes buf p 2)"

definition read_32 :: "bool \<Rightarrow> u8 list \<Rightarrow> nat \<Rightarrow> u32 option" where
  "read_32 le buf p = map_option (read_word le) (fetch_bytes buf p 4)"

definition read_64 :: "bool \<Rightarrow> u8 list \<Rightarrow> nat \<Rightarrow> u64 option" where
  "read_64 le buf p = map_option (read_word le) (fetch_bytes buf p 8)"

lemma fetch_Some: "fetch buf i = Some b \<longleftrightarrow> i < length buf \<and> b = buf ! i"
  by (auto simp: fetch_def)

lemma memchr_Some: "memchr buf c p n = Some (Some q) \<Longrightarrow> p \<le> q \<and> q < length buf \<and> q < p + n"
  by (auto simp: memchr_def Let_def split: if_splits)

section \<open>The reader\<close>

record line_info =
  li_file :: u64
  li_line :: u64
  li_col :: u64
  li_pc :: u64
  end_of_sequence :: bool

record line_reader_data =
  little_endian :: bool
  minimum_instruction_length :: u8
  line_base :: u8
  line_range :: u8
  opcode_base :: u8
  standard_opcode_lengths :: nat
  numdir :: nat
  dirnames :: "nat list"
  numfile_orig :: nat
  numfile :: nat
  filenames :: "nat list"
  cpos :: nat
  lr_end :: nat
  lr_init :: nat
  cur :: line_info

function skip_leb128 :: "u8 list \<Rightarrow> nat \<Rightarrow> nat \<Rightarrow> nat option" where
  "skip_leb128 buf e c =
     (if c = e then Some c
      else do {
        b \<leftarrow> fetch buf c;
        if 0x80 \<le> b then skip_leb128 buf e (c + 1) else Some (c + 1)
      })"
  by pat_completeness auto
termination
  by (relation "measure (\<lambda>(buf, e, c). length buf - c)") (auto simp: fetch_Some)

function line_uleb128_from :: "u8 list \<Rightarrow> nat \<Rightarrow> u64 \<Rightarrow> nat \<Rightarrow> nat \<Rightarrow> (u64 \<times> nat) option" where
  "line_uleb128_from buf e result n c =
     (if c = e then Some (- 1, c)
      else do {
        byte \<leftarrow> fetch buf c;
        let b = (ucast (byte AND 0x7f) :: u64);
        let bad = (64 \<le> n \<or> drop_bit n (push_bit n b) \<noteq> b);
        let result = (if bad then - 1 else result OR push_bit n b);
        let n = (if bad then n else n + 7);
        if 0x80 \<le> byte then line_uleb128_from buf e result n (c + 1) else Some (result, c + 1)
      })"
  by pat_completeness auto
termination
  by (relation "measure (\<lambda>(buf, e, r, n, c). length buf - c)") (auto simp: fetch_Some)

declare skip_leb128.simps [simp del] line_uleb128_from.simps [simp del]

definition line_read_uleb128 :: "u8 list \<Rightarrow> nat \<Rightarrow> nat \<Rightarrow> (u64 \<times> nat) option" where
  "line_read_uleb128 buf e c = line_uleb128_from buf e 0 0 c"

definition line_read_sleb128 :: "u8 list \<Rightarrow> nat \<Rightarrow> nat \<Rightarrow> (u64 \<times> nat) option" where
  "line_read_sleb128 buf e c = do {
     (v, c') \<leftarrow> line_read_uleb128 buf e c;
     if 2 ^ 63 \<le> v then Some (0, c')
     else if 9 < c' - c then Some (v, c')
     else let signbit = push_bit ((c' - c) * 7 - 1) 1 in Some (v OR - (v AND signbit), c')
   }"

definition init_state :: line_info where
  "init_state = \<lparr>li_file = 1, li_line = 1, li_col = 0, li_pc = 0, end_of_sequence = False\<rparr>"

lemma skip_leb128_bounds: "skip_leb128 buf e c = Some c' \<Longrightarrow> c \<le> c' \<and> (c \<le> e \<longrightarrow> c' \<le> e)"
proof (induction buf e c rule: skip_leb128.induct)
  case (1 buf e c)
  show ?case
  proof (cases "c = e")
    case True
    with 1(2) show ?thesis by (simp add: skip_leb128.simps [of buf e e])
  next
    case False
    with 1(2) obtain b where b: "fetch buf c = Some b"
      "(if 0x80 \<le> b then skip_leb128 buf e (c + 1) else Some (c + 1)) = Some c'"
      by (auto simp: skip_leb128.simps [of _ _ c] bind_eq_Some_conv)
    with 1(1) [OF False b(1)] False show ?thesis by (cases "0x80 \<le> b") auto
  qed
qed

lemma line_uleb128_bounds:
  "line_uleb128_from buf e r n c = Some (v, c') \<Longrightarrow> c \<le> c' \<and> (c \<le> e \<longrightarrow> c' \<le> e)"
proof (induction buf e r n c rule: line_uleb128_from.induct)
  case (1 buf e r n c)
  show ?case
  proof (cases "c = e")
    case True
    with 1(2) show ?thesis by (simp add: line_uleb128_from.simps [of buf e r n e])
  next
    case False
    with 1(2) obtain b where b: "fetch buf c = Some b"
      by (auto simp: line_uleb128_from.simps [of _ _ _ _ c] bind_eq_Some_conv)
    with 1(2) False show ?thesis
      using 1(1) [OF False b refl refl refl refl]
      by (cases "0x80 \<le> b") (auto simp: line_uleb128_from.simps [of _ _ _ _ c] Let_def)
  qed
qed

section \<open>Opening a table\<close>

text \<open>
  The loops over the names of directories and files. The first loop of each pair counts them,
  with \<open>None\<close> inside for a name that is not terminated; the second one, on the same bytes,
  collects the pointers.
\<close>

function count_dirs :: "u8 list \<Rightarrow> nat \<Rightarrow> nat \<Rightarrow> nat \<Rightarrow> (nat \<times> nat) option option" where
  "count_dirs buf e c n =
     (if c = e then Some (Some (c, n))
      else do {
        b \<leftarrow> fetch buf c;
        if b = 0 then Some (Some (c, n))
        else do {
          r \<leftarrow> memchr buf 0 c (unat (ptr_diff e c));
          case r of None \<Rightarrow> Some None | Some q \<Rightarrow> count_dirs buf e (q + 1) (n + 1)
        }
      })"
  by pat_completeness auto
termination
  by (relation "measure (\<lambda>(buf, e, c, n). length buf - c)") (auto simp: fetch_Some dest: memchr_Some)

text \<open>The null pointer of \<open>memchr\<close> plus one would be read next: undefined.\<close>

function collect_dirs :: "u8 list \<Rightarrow> nat \<Rightarrow> nat list \<Rightarrow> nat \<Rightarrow> (nat \<times> nat list) option" where
  "collect_dirs buf e names c =
     do {
       b \<leftarrow> fetch buf c;
       if b = 0 then Some (c, names)
       else do {
         r \<leftarrow> memchr buf 0 c (unat (ptr_diff e c));
         q \<leftarrow> r;
         collect_dirs buf e (names @ [c]) (q + 1)
       }
     }"
  by pat_completeness auto
termination
  by (relation "measure (\<lambda>(buf, e, names, c). length buf - c)") (auto simp: fetch_Some dest: memchr_Some)

definition skip_entry :: "u8 list \<Rightarrow> nat \<Rightarrow> nat \<Rightarrow> nat option" where
  "skip_entry buf e q = do {
     c \<leftarrow> skip_leb128 buf e (q + 1);
     c \<leftarrow> skip_leb128 buf e c;
     skip_leb128 buf e c
   }"

lemma skip_entry_bounds: "skip_entry buf e q = Some c \<Longrightarrow> q < c \<and> (q < e \<longrightarrow> c \<le> e)"
  by (auto simp: skip_entry_def bind_eq_Some_conv dest!: skip_leb128_bounds)

function count_files :: "u8 list \<Rightarrow> nat \<Rightarrow> nat \<Rightarrow> nat \<Rightarrow> (nat \<times> nat) option option" where
  "count_files buf e c n =
     (if c = e then Some (Some (c, n))
      else do {
        b \<leftarrow> fetch buf c;
        if b = 0 then Some (Some (c, n))
        else do {
          r \<leftarrow> memchr buf 0 c (unat (ptr_diff e c));
          case r of None \<Rightarrow> Some None
          | Some q \<Rightarrow> do { c \<leftarrow> skip_entry buf e q; count_files buf e c (n + 1) }
        }
      })"
  by pat_completeness auto
termination
  by (relation "measure (\<lambda>(buf, e, c, n). length buf - c)")
    (auto simp: fetch_Some dest!: memchr_Some skip_entry_bounds)

function collect_files :: "u8 list \<Rightarrow> nat \<Rightarrow> nat list \<Rightarrow> nat \<Rightarrow> (nat \<times> nat list) option" where
  "collect_files buf e names c =
     do {
       b \<leftarrow> fetch buf c;
       if b = 0 then Some (c, names)
       else do {
         r \<leftarrow> memchr buf 0 c (unat (ptr_diff e c));
         q \<leftarrow> r;
         c' \<leftarrow> skip_entry buf e q;
         collect_files buf e (names @ [c]) c'
       }
     }"
  by pat_completeness auto
termination
  by (relation "measure (\<lambda>(buf, e, names, c). length buf - c)")
    (auto simp: fetch_Some dest!: memchr_Some skip_entry_bounds)

declare count_dirs.simps [simp del] collect_dirs.simps [simp del]
  count_files.simps [simp del] collect_files.simps [simp del]

text \<open>
  The part of \<open>line_open\<close> that reads the tables, from the byte \<open>c\<close> behind the standard opcode
  lengths on; \<open>e\<close> is the end of the header. The result has the directories, the files and the
  position.
\<close>

definition open_tables :: "u8 list \<Rightarrow> nat \<Rightarrow> nat \<Rightarrow> (nat list \<times> nat list) option option" where
  "open_tables buf e c = do {
     r \<leftarrow> count_dirs buf e c 0;
     case r of None \<Rightarrow> Some None
     | Some (c1, n) \<Rightarrow>
       if c1 = e then Some None
       else do {
         (c1, dirs) \<leftarrow> collect_dirs buf e [] c;
         let c1 = c1 + 1;
         r \<leftarrow> count_files buf e c1 0;
         case r of None \<Rightarrow> Some None
         | Some (c2, n) \<Rightarrow>
           if c2 = e then Some None
           else do {
             (c2, files) \<leftarrow> collect_files buf e [] c1;
             Some (Some (dirs, files))
           }
       }
   }"

text \<open>
  \<open>line_open\<close>. The lengths of the header are read as \<open>int\<close>s and converted to \<open>uint64_t\<close>, and
  the end of the header is a pointer that wraps around.
\<close>

definition line_open :: "u8 list \<Rightarrow> u64 \<Rightarrow> bool \<Rightarrow> line_reader_data option option" where
  "line_open debug_line debug_line_size le =
     (if debug_line_size < 12 then Some None
      else do {
        w \<leftarrow> read_32 le debug_line 0;
        let lnd_length = (scast w :: u64);
        let dwarf_size_64 = (lnd_length = 0xffffffff);
        lnd_length \<leftarrow> (if dwarf_size_64 then read_64 le debug_line 4 else Some lnd_length);
        let c = (if dwarf_size_64 then 12 else 4);
        if \<not> dwarf_size_64 \<and> 0xfffffff0 < lnd_length then Some None
        else if debug_line_size < lnd_length + (if dwarf_size_64 then 12 else 4)
              \<or> lnd_length < (if dwarf_size_64 then 15 else 11) then Some None
        else do {
          version \<leftarrow> read_16 le debug_line c;
          if version \<noteq> 2 then Some None
          else do {
            let c = c + 2;
            header_length \<leftarrow> (if dwarf_size_64 then read_64 le debug_line c
                             else map_option scast (read_32 le debug_line c));
            let c = c + (if dwarf_size_64 then 8 else 4);
            if lnd_length < header_length + of_nat c \<or> header_length < 7 then Some None
            else do {
              b0 \<leftarrow> fetch debug_line c;
              b2 \<leftarrow> fetch debug_line (c + 2);
              b3 \<leftarrow> fetch debug_line (c + 3);
              b4 \<leftarrow> fetch debug_line (c + 4);
              if b4 = 0 then Some None
              else if header_length < of_nat (5 + (unat b4 - 1)) then Some None
              else do {
                let e = unat (header_length + (if dwarf_size_64 then 22 else 10));
                r \<leftarrow> open_tables debug_line e (c + (5 + unat b4 - 1));
                case r of None \<Rightarrow> Some None
                | Some (dirs, files) \<Rightarrow> Some (Some
                  \<lparr>little_endian = le, minimum_instruction_length = b0, line_base = b2,
                   line_range = b3, opcode_base = b4, standard_opcode_lengths = c + 5,
                   numdir = length dirs, dirnames = dirs, numfile_orig = length files,
                   numfile = length files, filenames = files, cpos = e,
                   lr_end = unat (lnd_length + (if dwarf_size_64 then 12 else 4)), lr_init = e,
                   cur = init_state\<rparr>)
              }
            }
          }
        }
      })"

definition line_reset :: "line_reader_data \<Rightarrow> line_reader_data" where
  "line_reset lnd = lnd\<lparr>cpos := lr_init lnd, numfile := numfile_orig lnd, cur := init_state\<rparr>"

definition line_at_eof :: "line_reader_data \<Rightarrow> bool" where
  "line_at_eof lnd \<longleftrightarrow> cpos lnd = lr_end lnd"

text \<open>The path of a file, with its terminator left out; the inner \<open>None\<close> is the null pointer.\<close>

definition line_file :: "u8 list \<Rightarrow> line_reader_data \<Rightarrow> u64 \<Rightarrow> u8 list option option" where
  "line_file buf lnd n =
     (if n = 0 \<or> of_nat (numfile lnd) < n then Some None
      else do {
        let name = filenames lnd ! (unat n - 1);
        filelen \<leftarrow> strlen buf name;
        (dir, _) \<leftarrow> line_read_uleb128 buf (lr_end lnd) (name + filelen + 1);
        first \<leftarrow> fetch buf name;
        let file = take filelen (drop name buf);
        if dir = 0 \<or> first = 0x2f then Some (Some file)
        else if of_nat (numdir lnd) < dir then Some None
        else do {
          let d = dirnames lnd ! (unat dir - 1);
          dirlen \<leftarrow> strlen buf d;
          Some (Some (take dirlen (drop d buf) @ [0x2f] @ file))
        }
      })"

section \<open>Running the program\<close>

text \<open>
  One pass through the loop of \<open>next_state\<close>. The inner option is \<open>None\<close> when the loop goes on
  and otherwise what the function returns.
\<close>

definition special_op :: "u8 \<Rightarrow> line_reader_data \<Rightarrow> (bool option \<times> line_reader_data) option" where
  "special_op op lnd =
     (let op = op - opcode_base lnd; range = uint (line_range lnd) in
      if range = 0 then None
      else Some (Some True, lnd\<lparr>cur := (cur lnd)
        \<lparr>li_line := li_line (cur lnd) + of_int (uint op mod range + sint (line_base lnd)),
         li_pc := li_pc (cur lnd) + of_int (uint op div range * uint (minimum_instruction_length lnd))\<rparr>\<rparr>))"

definition extended_op :: "u8 list \<Rightarrow> line_reader_data \<Rightarrow> (bool option \<times> line_reader_data) option" where
  "extended_op buf lnd = do {
     (sz, op) \<leftarrow> line_read_uleb128 buf (lr_end lnd) (cpos lnd);
     if ptr_diff (lr_end lnd) op < sz \<or> sz = 0 then Some (Some False, lnd\<lparr>cpos := op\<rparr>)
     else do {
       let lnd = lnd\<lparr>cpos := op + unat sz\<rparr>;
       b \<leftarrow> fetch buf op;
       let op = op + 1;
       if b = DW_LNE_end_sequence
       then Some (Some True, lnd\<lparr>cur := (cur lnd)\<lparr>end_of_sequence := True\<rparr>\<rparr>)
       else if b = DW_LNE_set_address
       then (if sz = 9
             then do { a \<leftarrow> read_64 (little_endian lnd) buf op;
                       Some (None, lnd\<lparr>cur := (cur lnd)\<lparr>li_pc := a\<rparr>\<rparr>) }
             else if sz = 5
             then do { a \<leftarrow> read_32 (little_endian lnd) buf op;
                       Some (None, lnd\<lparr>cur := (cur lnd)\<lparr>li_pc := scast a\<rparr>\<rparr>) }
             else Some (Some False, lnd))
       else if b = DW_LNE_define_file
       then do {
         r \<leftarrow> memchr buf 0 op (unat (ptr_diff (cpos lnd) op));
         if r = None then Some (Some False, lnd)
         else Some (None, lnd\<lparr>filenames := take (numfile lnd) (filenames lnd) @ [op],
                              numfile := numfile lnd + 1\<rparr>)
       }
       else Some (None, lnd)
     }
   }"

primrec skip_operands :: "u8 list \<Rightarrow> nat \<Rightarrow> nat \<Rightarrow> nat \<Rightarrow> nat option" where
  "skip_operands buf e 0 c = Some c"
| "skip_operands buf e (Suc n) c = do { c \<leftarrow> skip_leb128 buf e c; skip_operands buf e n c }"

definition standard_op :: "u8 list \<Rightarrow> u8 \<Rightarrow> line_reader_data \<Rightarrow> (bool option \<times> line_reader_data) option" where
  "standard_op buf op lnd =
     (if op = DW_LNS_extended_op then extended_op buf lnd
      else if op = DW_LNS_copy then Some (Some True, lnd)
      else if op = DW_LNS_advance_pc
      then do {
        (tmp, c) \<leftarrow> line_read_uleb128 buf (lr_end lnd) (cpos lnd);
        if tmp = - 1 then Some (Some False, lnd\<lparr>cpos := c\<rparr>)
        else Some (None, lnd\<lparr>cpos := c, cur := (cur lnd)
          \<lparr>li_pc := li_pc (cur lnd) + tmp * ucast (minimum_instruction_length lnd)\<rparr>\<rparr>)
      }
      else if op = DW_LNS_advance_line
      then do {
        (tmp, c) \<leftarrow> line_read_sleb128 buf (lr_end lnd) (cpos lnd);
        Some (None, lnd\<lparr>cpos := c, cur := (cur lnd)\<lparr>li_line := li_line (cur lnd) + tmp\<rparr>\<rparr>)
      }
      else if op = DW_LNS_set_file
      then do {
        (tmp, c) \<leftarrow> line_read_uleb128 buf (lr_end lnd) (cpos lnd);
        Some (None, lnd\<lparr>cpos := c, cur := (cur lnd)\<lparr>li_file := tmp\<rparr>\<rparr>)
      }
      else if op = DW_LNS_set_column
      then do {
        (tmp, c) \<leftarrow> line_read_uleb128 buf (lr_end lnd) (cpos lnd);
        Some (None, lnd\<lparr>cpos := c, cur := (cur lnd)\<lparr>li_col := tmp\<rparr>\<rparr>)
      }
      else if op = DW_LNS_const_add_pc
      then (if line_range lnd = 0 then None
            else Some (None, lnd\<lparr>cur := (cur lnd)\<lparr>li_pc := li_pc (cur lnd)
              + of_int ((255 - uint (opcode_base lnd)) div uint (line_range lnd)
                        * uint (minimum_instruction_length lnd))\<rparr>\<rparr>))
      else if op = DW_LNS_fixed_advance_pc
      then (if int (lr_end lnd) - int (cpos lnd) < 2 then Some (Some False, lnd)
            else do {
              w \<leftarrow> read_16 (little_endian lnd) buf (cpos lnd);
              Some (None, lnd\<lparr>cpos := cpos lnd + 2,
                cur := (cur lnd)\<lparr>li_pc := li_pc (cur lnd) + ucast w\<rparr>\<rparr>)
            })
      else do {
        n \<leftarrow> fetch buf (standard_opcode_lengths lnd + (unat op - 1));
        c \<leftarrow> skip_operands buf (lr_end lnd) (unat n) (cpos lnd);
        Some (None, lnd\<lparr>cpos := c\<rparr>)
      })"

definition line_op :: "u8 list \<Rightarrow> line_reader_data \<Rightarrow> (bool option \<times> line_reader_data) option" where
  "line_op buf lnd =
     (if cpos lnd = lr_end lnd then Some (Some False, lnd)
      else do {
        op \<leftarrow> fetch buf (cpos lnd);
        let lnd = lnd\<lparr>cpos := cpos lnd + 1\<rparr>;
        if opcode_base lnd \<le> op then special_op op lnd else standard_op buf op lnd
      })"

text \<open>Every pass that does not return at once takes at least one byte.\<close>

lemma skip_operands_bounds:
  "skip_operands buf e n c = Some c' \<Longrightarrow> c \<le> c' \<and> (c \<le> e \<longrightarrow> c' \<le> e)"
proof (induction n arbitrary: c)
  case (Suc n)
  then obtain d where "skip_leb128 buf e c = Some d" "skip_operands buf e n d = Some c'"
    by (auto simp: bind_eq_Some_conv)
  with Suc.IH [of d] skip_leb128_bounds [of buf e c d] show ?case by auto
qed simp

lemma line_read_uleb128_bounds:
  "line_read_uleb128 buf e c = Some (v, c') \<Longrightarrow> c \<le> c' \<and> (c \<le> e \<longrightarrow> c' \<le> e)"
  unfolding line_read_uleb128_def by (rule line_uleb128_bounds)

lemma line_read_sleb128_bounds:
  "line_read_sleb128 buf e c = Some (v, c') \<Longrightarrow> c \<le> c' \<and> (c \<le> e \<longrightarrow> c' \<le> e)"
  by (auto simp: line_read_sleb128_def bind_eq_Some_conv Let_def split: if_splits prod.splits
      dest!: line_read_uleb128_bounds)

lemma extended_op_advances:
  "extended_op buf lnd = Some (r, lnd') \<Longrightarrow> cpos lnd \<le> cpos lnd'"
proof -
  assume r: "extended_op buf lnd = Some (r, lnd')"
  then obtain sz p where p: "line_read_uleb128 buf (lr_end lnd) (cpos lnd) = Some (sz, p)"
    unfolding extended_op_def by (auto simp: bind_eq_Some_conv)
  from line_read_uleb128_bounds [OF p] have "cpos lnd \<le> p" by simp
  moreover from r p have "cpos lnd' = p \<or> cpos lnd' = p + unat sz"
    unfolding extended_op_def
    by (cases "ptr_diff (lr_end lnd) p < sz \<or> sz = 0")
      (auto simp: bind_eq_Some_conv Let_def simp del: One_nat_def split: if_split_asm)
  ultimately show ?thesis by linarith
qed

lemma standard_op_advances:
  "standard_op buf op lnd = Some (r, lnd') \<Longrightarrow> cpos lnd \<le> cpos lnd'"
  by (simp only: standard_op_def split: if_split_asm)
    (auto simp: bind_eq_Some_conv split: if_splits
      dest: line_read_uleb128_bounds line_read_sleb128_bounds skip_operands_bounds extended_op_advances)

lemma line_op_advances:
  assumes "line_op buf lnd = Some (r, lnd')" and "r \<noteq> Some False"
  shows "cpos lnd < cpos lnd' \<and> cpos lnd < length buf"
proof (cases "cpos lnd = lr_end lnd")
  case True
  with assms show ?thesis by (simp add: line_op_def)
next
  case False
  with assms(1) obtain op where op: "fetch buf (cpos lnd) = Some op"
    by (auto simp: line_op_def bind_eq_Some_conv)
  with assms(1) False show ?thesis
    by (auto simp: line_op_def Let_def special_op_def fetch_Some split: if_splits
        dest!: standard_op_advances)
qed

function run_ops :: "u8 list \<Rightarrow> line_reader_data \<Rightarrow> (bool \<times> line_reader_data) option" where
  "run_ops buf lnd = do {
     (r, lnd') \<leftarrow> line_op buf lnd;
     case r of Some b \<Rightarrow> Some (b, lnd') | None \<Rightarrow> run_ops buf lnd'
   }"
  by pat_completeness auto
termination
  by (relation "measure (\<lambda>(buf, lnd). length buf - cpos lnd)") (auto dest!: line_op_advances)

declare run_ops.simps [simp del]

definition next_state :: "u8 list \<Rightarrow> line_reader_data \<Rightarrow> (bool \<times> line_reader_data) option" where
  "next_state buf lnd =
     run_ops buf (if end_of_sequence (cur lnd) then lnd\<lparr>cur := init_state\<rparr> else lnd)"

lemma run_ops_advances:
  "run_ops buf lnd = Some (True, lnd') \<Longrightarrow> cpos lnd < cpos lnd' \<and> cpos lnd < length buf"
proof (induction buf lnd rule: run_ops.induct)
  case (1 buf lnd)
  from 1(2) obtain r lnd1 where op: "line_op buf lnd = Some (r, lnd1)"
    "(case r of Some b \<Rightarrow> Some (b, lnd1) | None \<Rightarrow> run_ops buf lnd1) = Some (True, lnd')"
    by (subst (asm) run_ops.simps) (auto simp: bind_eq_Some_conv)
  show ?case
  proof (cases r)
    case None
    with 1(1) [OF op(1) refl] op line_op_advances [OF op(1)] show ?thesis by auto
  next
    case (Some b)
    with op line_op_advances [OF op(1)] show ?thesis by auto
  qed
qed

lemma next_state_advances:
  "next_state buf lnd = Some (True, lnd') \<Longrightarrow> cpos lnd < cpos lnd' \<and> cpos lnd < length buf"
  unfolding next_state_def by (drule run_ops_advances) (auto split: if_splits)

text \<open>The stop conditions of \<open>line_next\<close> are the bits of an enumeration.\<close>

definition line_stop_atend :: u32 where "line_stop_atend = 0"
definition line_stop_file :: u32 where "line_stop_file = 1"
definition line_stop_line :: u32 where "line_stop_line = 2"
definition line_stop_col :: u32 where "line_stop_col = 3"
definition line_stop_pos_mask :: u32 where "line_stop_pos_mask = 3"
definition line_stop_pc :: u32 where "line_stop_pc = 4"
definition line_stop_always :: u32 where "line_stop_always = 8"

definition stops :: "u32 \<Rightarrow> line_info \<Rightarrow> line_info \<Rightarrow> bool" where
  "stops stop prev now \<longleftrightarrow>
     end_of_sequence now \<or> stop = line_stop_always
     \<or> (stop AND line_stop_pc \<noteq> 0 \<and> li_pc now \<noteq> li_pc prev)
     \<or> (stop AND line_stop_pos_mask \<noteq> 0 \<and> li_file now \<noteq> li_file prev)
     \<or> (line_stop_line \<le> stop AND line_stop_pos_mask \<and> li_line now \<noteq> li_line prev)
     \<or> (line_stop_col \<le> stop AND line_stop_pos_mask \<and> li_col now \<noteq> li_col prev)"

function line_next :: "u8 list \<Rightarrow> u32 \<Rightarrow> line_reader_data \<Rightarrow> (line_info option \<times> line_reader_data) option" where
  "line_next buf stop lnd = do {
     (ok, lnd') \<leftarrow> next_state buf lnd;
     if \<not> ok then Some (None, lnd')
     else if stops stop (cur lnd) (cur lnd') then Some (Some (cur lnd'), lnd')
     else line_next buf stop lnd'
   }"
  by pat_completeness auto
termination
  by (relation "measure (\<lambda>(buf, stop, lnd). length buf - cpos lnd)") (auto dest!: next_state_advances)

declare line_next.simps [simp del]

text \<open>
  \<open>line_find_addr\<close> goes around the table until it is back where it started. The result is the
  two lines of the region, or that there is none: \<open>Inl True\<close> when all of the table was seen and
  \<open>Inl False\<close> after an error.
\<close>

definition wrap_at_end :: "line_reader_data \<Rightarrow> line_reader_data" where
  "wrap_at_end lnd = (if end_of_sequence (cur lnd) \<and> line_at_eof lnd then line_reset lnd else lnd)"

partial_function (option) find_addr_from ::
  "u8 list \<Rightarrow> u64 \<Rightarrow> nat \<Rightarrow> line_reader_data
    \<Rightarrow> ((bool + line_info \<times> line_info) \<times> line_reader_data) option" where
  [code]: "find_addr_from buf pc startpos lnd =
     (case next_state buf lnd of
        None \<Rightarrow> None
      | Some (ok, lnd') \<Rightarrow>
          if \<not> ok then Some (Inl False, lnd')
          else let prev = cur lnd; lnd' = wrap_at_end lnd' in
            if cpos lnd' = startpos then Some (Inl True, lnd')
            else if li_pc (cur lnd') \<le> pc \<or> pc < li_pc prev \<or> end_of_sequence prev
            then find_addr_from buf pc startpos lnd'
            else Some (Inr (prev, cur lnd'), lnd'))"

definition line_find_addr ::
  "u8 list \<Rightarrow> u64 \<Rightarrow> line_reader_data \<Rightarrow> ((bool + line_info \<times> line_info) \<times> line_reader_data) option" where
  "line_find_addr buf pc lnd = (let lnd = wrap_at_end lnd in find_addr_from buf pc (cpos lnd) lnd)"

end
