(* ===== verification/Line_Safety.thy ===== *)
theory Line_Safety
  imports Line_Reader
begin

text \<open>
  What the reader of line number tables keeps: its position stays within the program and it
  reads nothing outside of the section, whatever the program is, provided that the header has
  a line range; and the search around the table comes to an end.
\<close>

section \<open>The invariant\<close>

text \<open>The fields that no operation changes after \<open>line_open\<close>.\<close>

definition same_header :: "line_reader_data \<Rightarrow> line_reader_data \<Rightarrow> bool" where
  "same_header lnd lnd' \<longleftrightarrow>
     little_endian lnd' = little_endian lnd
     \<and> minimum_instruction_length lnd' = minimum_instruction_length lnd
     \<and> line_base lnd' = line_base lnd \<and> line_range lnd' = line_range lnd
     \<and> opcode_base lnd' = opcode_base lnd
     \<and> standard_opcode_lengths lnd' = standard_opcode_lengths lnd
     \<and> numdir lnd' = numdir lnd \<and> dirnames lnd' = dirnames lnd
     \<and> numfile_orig lnd' = numfile_orig lnd
     \<and> lr_end lnd' = lr_end lnd \<and> lr_init lnd' = lr_init lnd"

definition reader_ok :: "u8 list \<Rightarrow> line_reader_data \<Rightarrow> bool" where
  "reader_ok buf lnd \<longleftrightarrow>
     length buf < 2 ^ 63 \<and> line_range lnd \<noteq> 0 \<and> opcode_base lnd \<noteq> 0
     \<and> cpos lnd \<le> lr_end lnd \<and> lr_init lnd \<le> lr_end lnd \<and> lr_end lnd \<le> length buf
     \<and> standard_opcode_lengths lnd + unat (opcode_base lnd) \<le> Suc (length buf)
     \<and> numfile_orig lnd \<le> numfile lnd \<and> numfile lnd \<le> length (filenames lnd)"

lemma same_header_refl [simp]: "same_header lnd lnd"
  by (simp add: same_header_def)

lemma same_header_trans: "same_header a b \<Longrightarrow> same_header b c \<Longrightarrow> same_header a c"
  by (simp add: same_header_def)

lemma same_header_update [simp]:
  "same_header lnd (lnd'\<lparr>cpos := c\<rparr>) = same_header lnd lnd'"
  "same_header lnd (lnd'\<lparr>cur := s\<rparr>) = same_header lnd lnd'"
  "same_header lnd (lnd'\<lparr>numfile := n\<rparr>) = same_header lnd lnd'"
  "same_header lnd (lnd'\<lparr>filenames := fs\<rparr>) = same_header lnd lnd'"
  by (simp_all add: same_header_def)

lemma reader_ok_update [simp]:
  "reader_ok buf (lnd\<lparr>cur := s\<rparr>) = reader_ok buf lnd"
  "reader_ok buf lnd \<Longrightarrow> reader_ok buf (lnd\<lparr>cpos := c\<rparr>) = (c \<le> lr_end lnd)"
  by (auto simp: reader_ok_def)

section \<open>Reading within the section\<close>

lemma skip_leb128_safe:
  "c \<le> e \<Longrightarrow> e \<le> length buf \<Longrightarrow> \<exists>c'. skip_leb128 buf e c = Some c' \<and> c \<le> c' \<and> c' \<le> e"
proof (induction "e - c" arbitrary: c)
  case 0
  then show ?case by (simp add: skip_leb128.simps [of buf c c])
next
  case (Suc n)
  then have c: "c < e" "c < length buf" by simp_all
  have "\<exists>c'. skip_leb128 buf e (Suc c) = Some c' \<and> c \<le> c' \<and> c' \<le> e"
    using Suc(1) [of "Suc c"] Suc(2,4) c by fastforce
  with c show ?case by (simp add: skip_leb128.simps [of buf e c] fetch_def)
qed

lemma line_uleb128_safe:
  "c \<le> e \<Longrightarrow> e \<le> length buf \<Longrightarrow> \<exists>v c'. line_uleb128_from buf e r n c = Some (v, c') \<and> c \<le> c' \<and> c' \<le> e"
proof (induction "e - c" arbitrary: c r n)
  case 0
  then show ?case by (simp add: line_uleb128_from.simps [of buf c r n c])
next
  case (Suc k)
  then have c: "c < e" "c < length buf" by simp_all
  have "\<exists>v c'. line_uleb128_from buf e r' n' (Suc c) = Some (v, c') \<and> c \<le> c' \<and> c' \<le> e" for r' n'
    using Suc(1) [of "Suc c" r' n'] Suc(2,4) c by fastforce
  with c show ?case
    by (simp add: line_uleb128_from.simps [of buf e r n c] fetch_def Let_def)
qed

lemma skip_operands_safe:
  "c \<le> e \<Longrightarrow> e \<le> length buf \<Longrightarrow> \<exists>c'. skip_operands buf e n c = Some c' \<and> c \<le> c' \<and> c' \<le> e"
proof (induction n arbitrary: c)
  case (Suc n)
  from skip_leb128_safe [OF Suc.prems] obtain d where "skip_leb128 buf e c = Some d" "c \<le> d" "d \<le> e"
    by blast
  with Suc.IH [of d] Suc.prems(2) show ?case by fastforce
qed simp

text \<open>The reads in one form: an obtained value and a position in the program.\<close>

lemma reader_uleb128:
  assumes "reader_ok buf lnd"
  obtains v c where "line_read_uleb128 buf (lr_end lnd) (cpos lnd) = Some (v, c)"
    "cpos lnd \<le> c" "c \<le> lr_end lnd"
  using assms line_uleb128_safe [of "cpos lnd" "lr_end lnd" buf 0 0]
  by (auto simp: line_read_uleb128_def reader_ok_def)

lemma reader_sleb128:
  assumes "reader_ok buf lnd"
  obtains v c where "line_read_sleb128 buf (lr_end lnd) (cpos lnd) = Some (v, c)"
    "cpos lnd \<le> c" "c \<le> lr_end lnd"
proof -
  note go = that
  from assms obtain v c where "line_read_uleb128 buf (lr_end lnd) (cpos lnd) = Some (v, c)"
    "cpos lnd \<le> c" "c \<le> lr_end lnd" by (rule reader_uleb128)
  then have "\<exists>v'. line_read_sleb128 buf (lr_end lnd) (cpos lnd) = Some (v', c)"
    by (simp add: line_read_sleb128_def Let_def)
  with go \<open>cpos lnd \<le> c\<close> \<open>c \<le> lr_end lnd\<close> show ?thesis by blast
qed

lemma ptr_diff_le: "q \<le> p \<Longrightarrow> p < 2 ^ 63 \<Longrightarrow> unat (ptr_diff p q) = p - q"
proof -
  assume "q \<le> p" and "p < 2 ^ 63"
  then have "unat (of_nat p :: u64) = p" "unat (of_nat q :: u64) = q" by (simp_all add: unat_of_nat)
  with \<open>q \<le> p\<close> show ?thesis by (simp add: ptr_diff_def unat_sub word_le_nat_alt)
qed

text \<open>What a step has to establish.\<close>

definition step_ok :: "u8 list \<Rightarrow> line_reader_data \<Rightarrow> ('r \<times> line_reader_data) option \<Rightarrow> bool" where
  "step_ok buf lnd res \<longleftrightarrow> (\<exists>r lnd'. res = Some (r, lnd') \<and> reader_ok buf lnd' \<and> same_header lnd lnd')"

lemma step_ok_Some [simp]:
  "step_ok buf lnd (Some (r, lnd')) \<longleftrightarrow> reader_ok buf lnd' \<and> same_header lnd lnd'"
  by (simp add: step_ok_def)

lemma fetch_bytes_within: "p + n \<le> length buf \<Longrightarrow> fetch_bytes buf p n \<noteq> None"
  by (simp add: fetch_bytes_def)

lemma memchr_within: "p + n \<le> length buf \<Longrightarrow> memchr buf c p n \<noteq> None"
  by (simp add: memchr_def Let_def)

lemma extended_op_ok:
  assumes ok: "reader_ok buf lnd"
  shows "step_ok buf lnd (extended_op buf lnd)"
proof -
  from ok obtain sz p where p: "line_read_uleb128 buf (lr_end lnd) (cpos lnd) = Some (sz, p)"
    "cpos lnd \<le> p" "p \<le> lr_end lnd" by (rule reader_uleb128)
  from ok have e: "lr_end lnd \<le> length buf" "length buf < 2 ^ 63" by (simp_all add: reader_ok_def)
  show ?thesis
  proof (cases "ptr_diff (lr_end lnd) p < sz \<or> sz = 0")
    case True
    with p ok show ?thesis by (simp add: extended_op_def)
  next
    case False
    define n where "n = unat sz"
    from False p e have n: "0 < n" "p + n \<le> lr_end lnd"
      using ptr_diff_le [of p "lr_end lnd"]
      by (auto simp: n_def word_less_nat_alt unat_gt_0)
    have fetch: "fetch buf p = Some (buf ! p)" using n e by (simp add: fetch_def)
    have diff: "unat (ptr_diff (p + n) (p + 1)) = n - 1"
      using ptr_diff_le [of "p + 1" "p + n"] n e by simp
    have m: "memchr buf 0 (p + 1) (n - 1) \<noteq> None"
      using n e by (intro memchr_within) simp
    have r: "sz = 9 \<Longrightarrow> fetch_bytes buf (p + 1) 8 \<noteq> None"
      "sz = 5 \<Longrightarrow> fetch_bytes buf (p + 1) 4 \<noteq> None"
      using n e by (auto simp: fetch_bytes_def n_def)
    have files: "reader_ok buf (lnd\<lparr>cpos := p + n, filenames := take (numfile lnd) (filenames lnd) @ [p + 1],
        numfile := numfile lnd + 1\<rparr>)"
      using ok n by (simp add: reader_ok_def)
    show ?thesis
      using False p(1) n(2) r m ok files
      by (auto simp: extended_op_def Let_def fetch diff read_64_def read_32_def n_def [symmetric]
          simp del: One_nat_def)
  qed
qed

lemma standard_op_ok:
  assumes ok: "reader_ok buf lnd" and op: "op < opcode_base lnd"
  shows "step_ok buf lnd (standard_op buf op lnd)"
proof -
  from ok obtain u c where u: "line_read_uleb128 buf (lr_end lnd) (cpos lnd) = Some (u, c)"
    "c \<le> lr_end lnd" by (rule reader_uleb128)
  from ok obtain s d where s: "line_read_sleb128 buf (lr_end lnd) (cpos lnd) = Some (s, d)"
    "d \<le> lr_end lnd" by (rule reader_sleb128)
  from ok have e: "lr_end lnd \<le> length buf" "cpos lnd \<le> lr_end lnd"
    "standard_opcode_lengths lnd + unat (opcode_base lnd) \<le> Suc (length buf)" "line_range lnd \<noteq> 0"
    by (simp_all add: reader_ok_def)
  have lengths: "op \<noteq> 0 \<Longrightarrow> fetch buf (standard_opcode_lengths lnd + (unat op - 1)) \<noteq> None"
  proof -
    assume "op \<noteq> 0"
    then have "0 < unat op" by (simp add: unat_gt_0)
    with op e(3) show ?thesis by (simp add: fetch_def word_less_nat_alt)
  qed
  have skip: "\<exists>c'. skip_operands buf (lr_end lnd) n (cpos lnd) = Some c' \<and> c' \<le> lr_end lnd" for n
    using skip_operands_safe [OF e(2,1), of n] by blast
  have two: "int (lr_end lnd) - int (cpos lnd) < 2 \<or> (\<exists>w. read_16 (little_endian lnd) buf (cpos lnd) = Some w)"
    using e by (auto simp: read_16_def fetch_bytes_def)
  show ?thesis
  proof (cases "op = DW_LNS_extended_op")
    case True
    with extended_op_ok [OF ok] show ?thesis by (simp add: standard_op_def)
  next
    case False
    then obtain n where n: "fetch buf (standard_opcode_lengths lnd + (unat op - 1)) = Some n"
      using lengths by (auto simp: dwarf_ops)
    from skip obtain c' where c': "skip_operands buf (lr_end lnd) (unat n) (cpos lnd) = Some c'" "c' \<le> lr_end lnd"
      by blast
    from two ok have fixed: "step_ok buf lnd
      (if int (lr_end lnd) - int (cpos lnd) < 2 then Some (Some False, lnd)
       else do { w \<leftarrow> read_16 (little_endian lnd) buf (cpos lnd);
         Some (None, lnd\<lparr>cpos := cpos lnd + 2,
           cur := (cur lnd)\<lparr>li_pc := li_pc (cur lnd) + ucast w\<rparr>\<rparr>) })"
      by auto
    show ?thesis
      unfolding standard_op_def using False fixed
      by (simp only: n u(1) s(1) c'(1) if_False if_True e(4) bind.bind_lunit prod.case split: if_split)
        (simp add: ok u s c')
  qed
qed

lemma line_op_ok:
  assumes ok: "reader_ok buf lnd"
  shows "step_ok buf lnd (line_op buf lnd)"
proof (cases "cpos lnd = lr_end lnd")
  case True
  with ok show ?thesis by (simp add: line_op_def)
next
  case False
  define lnd1 where "lnd1 = lnd\<lparr>cpos := cpos lnd + 1\<rparr>"
  from ok False have c: "cpos lnd < lr_end lnd" "cpos lnd < length buf" by (auto simp: reader_ok_def)
  with ok have ok1: "reader_ok buf lnd1" "same_header lnd lnd1" by (simp_all add: lnd1_def)
  from ok have range: "uint (line_range lnd) \<noteq> 0" by (simp add: reader_ok_def uint_0_iff)
  have special: "step_ok buf lnd (special_op op lnd1)" for op
    using ok1 range by (simp add: special_op_def Let_def lnd1_def)
  have standard: "step_ok buf lnd (standard_op buf op lnd1)" if "\<not> opcode_base lnd1 \<le> op" for op
  proof -
    have "step_ok buf lnd1 (standard_op buf op lnd1)"
      by (rule standard_op_ok [OF ok1(1)]) (use that in \<open>simp add: lnd1_def\<close>)
    then show ?thesis using ok1(2) unfolding step_ok_def by (blast intro: same_header_trans)
  qed
  show ?thesis
    using False c special standard unfolding line_op_def Let_def lnd1_def [symmetric]
    by (simp add: fetch_def)
qed

lemma run_ops_ok: "reader_ok buf lnd \<Longrightarrow> step_ok buf lnd (run_ops buf lnd)"
proof (induction buf lnd rule: run_ops.induct)
  case (1 buf lnd)
  from line_op_ok [OF 1(2)] obtain r lnd1 where op: "line_op buf lnd = Some (r, lnd1)"
    "reader_ok buf lnd1" "same_header lnd lnd1" by (auto simp: step_ok_def)
  show ?case
  proof (cases r)
    case None
    from 1(1) [OF op(1) refl None op(2)] op(3) have "step_ok buf lnd (run_ops buf lnd1)"
      unfolding step_ok_def by (blast intro: same_header_trans)
    with op None show ?thesis by (simp add: run_ops.simps [of buf lnd])
  next
    case (Some b)
    with op show ?thesis by (simp add: run_ops.simps [of buf lnd])
  qed
qed

lemma next_state_ok: "reader_ok buf lnd \<Longrightarrow> step_ok buf lnd (next_state buf lnd)"
  using run_ops_ok [of buf "lnd\<lparr>cur := init_state\<rparr>"] run_ops_ok [of buf lnd]
  by (auto simp: next_state_def step_ok_def same_header_def)

lemma line_reset_ok: "reader_ok buf lnd \<Longrightarrow> reader_ok buf (line_reset lnd) \<and> same_header lnd (line_reset lnd)"
  by (simp add: line_reset_def reader_ok_def same_header_def)

lemma wrap_at_end_ok: "reader_ok buf lnd \<Longrightarrow> reader_ok buf (wrap_at_end lnd) \<and> same_header lnd (wrap_at_end lnd)"
  by (simp add: wrap_at_end_def line_reset_ok)

lemma line_next_ok: "reader_ok buf lnd \<Longrightarrow> step_ok buf lnd (line_next buf stop lnd)"
proof (induction buf stop lnd rule: line_next.induct)
  case (1 buf stop lnd)
  from next_state_ok [OF 1(2)] obtain ok lnd1 where st: "next_state buf lnd = Some (ok, lnd1)"
    "reader_ok buf lnd1" "same_header lnd lnd1" by (auto simp: step_ok_def)
  show ?case
  proof (cases "\<not> ok \<or> stops stop (cur lnd) (cur lnd1)")
    case True
    with st show ?thesis by (auto simp: line_next.simps [of buf stop lnd])
  next
    case False
    then have go: "\<not> \<not> ok" "\<not> stops stop (cur lnd) (cur lnd1)" by simp_all
    from 1(1) [OF st(1) refl go st(2)] st(3) have "step_ok buf lnd (line_next buf stop lnd1)"
      unfolding step_ok_def by (blast intro: same_header_trans)
    with st go show ?thesis by (simp add: line_next.simps [of buf stop lnd])
  qed
qed

section \<open>Opening\<close>

lemma count_dirs_end:
  "count_dirs buf e c n = Some (Some (c', n')) \<Longrightarrow> c' \<noteq> e \<Longrightarrow> c < length buf"
  by (subst (asm) count_dirs.simps) (auto simp: bind_eq_Some_conv fetch_Some split: if_splits)

text \<open>A length with its top bit set is never accepted, which the mark of the 64-bit format has.\<close>

lemma uint_scast: "uint (scast (w :: u32) :: u64) = take_bit 64 (sint w)"
proof -
  have "uint (of_int (sint w) :: u64) = take_bit LENGTH(64) (sint w)"
    by (simp only: unsigned_of_int of_nat_nat take_bit_nonnegative of_int_eq_id id_apply)
  then show ?thesis by simp
qed

lemma negative_length:
  assumes "0x80000000 \<le> (w :: u32)"
  shows "0xfffffff0 < (scast w :: u64)" and "(scast w :: u64) \<noteq> 0xffffffff"
proof -
  from assms have w: "2 ^ 31 \<le> uint w" "uint w < 2 ^ 32"
    using uint_bounded [of w] by (simp_all add: word_le_def)
  then have "uint w div 2147483648 = 1"
    using w by (intro int_div_pos_eq [of _ _ _ "uint w - 2147483648"]) simp_all
  then have "bit (uint w) 31" by (simp add: bit_iff_odd)
  with w have "sint w = uint w - 2 ^ 32" by (simp add: sint_uint signed_take_bit_int_eq_self_iff signed_take_bit_eq_take_bit_minus take_bit_eq_mod)
  then have "uint (scast w :: u64) = (uint w - 2 ^ 32) mod 2 ^ 64"
    by (simp add: uint_scast take_bit_eq_mod)
  also have "\<dots> = uint w - 2 ^ 32 + 2 ^ 64"
  proof -
    have "(uint w - 2 ^ 32 + 2 ^ 64) mod 2 ^ 64 = uint w - 2 ^ 32 + 2 ^ 64"
      using w by (intro mod_pos_pos_trivial) simp_all
    then show ?thesis by (simp only: mod_add_self2)
  qed
  finally show "0xfffffff0 < (scast w :: u64)" "(scast w :: u64) \<noteq> 0xffffffff"
    using w by (auto simp: word_less_def word_uint_eq_iff)
qed

lemma line_open_negative:
  assumes "read_32 le buf 0 = Some w" and "0x80000000 \<le> w"
  shows "line_open buf n le = Some None"
  using assms(1) negative_length [OF assms(2)] by (simp add: line_open_def Let_def)

lemma positive_length:
  assumes "\<not> 0x80000000 \<le> (w :: u32)"
  shows "unat (scast w :: u64) = unat w" and "unat w < 2 ^ 31"
proof -
  from assms have w: "uint w < 2 ^ 31" by (simp add: word_le_def)
  moreover have "- (2 ^ 31) \<le> uint w" by (rule order_trans [OF _ uint_ge_0]) simp
  ultimately have "sint w = uint w" by (simp add: sint_uint signed_take_bit_int_eq_self_iff)
  with w have "uint (scast w :: u64) = uint w"
    by (simp add: uint_scast take_bit_int_eq_self)
  then show "unat (scast w :: u64) = unat w" unfolding unat_eq_nat_uint by (rule arg_cong)
  show "unat w < 2 ^ 31" 
  proof -
    from w have "int (unat w) < int (2 ^ 31)" by simp
    then show ?thesis by (simp only: of_nat_less_iff)
  qed
qed

lemma open_tables_start:
  assumes "open_tables buf e c = Some (Some r)" shows "c < length buf"
proof -
  from assms obtain x where x: "count_dirs buf e c 0 = Some x"
    by (auto simp: open_tables_def bind_eq_Some_conv)
  with assms obtain c1 n where "x = Some (c1, n)" "c1 \<noteq> e"
    by (cases x) (auto simp: open_tables_def split: if_splits)
  with x show ?thesis using count_dirs_end by blast
qed

lemma line_open_ok:
  assumes opened: "line_open buf (of_nat (length buf)) le = Some (Some lnd)"
    and small: "length buf < 2 ^ 63" and range: "line_range lnd \<noteq> 0"
  shows "reader_ok buf lnd \<and> cpos lnd = lr_init lnd \<and> \<not> end_of_sequence (cur lnd)"
proof -
  have sz: "unat (of_nat (length buf) :: u64) = length buf" using small by (simp add: unat_of_nat)
  from opened obtain w where w: "read_32 le buf 0 = Some w"
    by (auto simp: line_open_def bind_eq_Some_conv split: if_splits)
  with opened line_open_negative [OF w] have pos: "\<not> 0x80000000 \<le> w" by auto
  define l where "l = (scast w :: u64)"
  from positive_length [OF pos] have l: "unat l < 2 ^ 31" by (simp add: l_def)
  have l32: "l \<noteq> 0xffffffff" "\<not> 0xfffffff0 < l"
    using l by (auto simp only: word_less_nat_alt) simp_all
  from opened w l32 have size: "\<not> of_nat (length buf) < l + 4"
    by (auto simp: line_open_def Let_def l_def [symmetric] split: if_splits)
  from opened w l32 size obtain h b4 where h: "\<not> l < h + 10" and b4: "fetch buf 14 = Some b4" "b4 \<noteq> 0"
    and tables: "\<exists>d f. open_tables buf (unat (h + 10)) (14 + unat b4) = Some (Some (d, f))
      \<and> lr_init lnd = unat (h + 10) \<and> cpos lnd = unat (h + 10) \<and> lr_end lnd = unat (l + 4)
      \<and> opcode_base lnd = b4 \<and> standard_opcode_lengths lnd = 15
      \<and> numfile_orig lnd = length f \<and> numfile lnd = length f \<and> filenames lnd = f
      \<and> cur lnd = init_state"
    by (auto simp: line_open_def Let_def l_def [symmetric] bind_eq_Some_conv split: if_splits option.splits)
  have "unat (l + 4) = unat l + 4" using l by (subst unat_add_lem [THEN iffD1]) simp_all
  with size sz have e: "lr_end lnd \<le> length buf" "unat l < lr_end lnd"
    using tables by (auto simp: word_less_nat_alt)
  moreover have "unat (h + 10) \<le> unat l" using h by (simp add: word_less_nat_alt)
  moreover have "14 + unat b4 < length buf" using tables open_tables_start by blast
  ultimately show ?thesis
    using tables small range b4(2) by (auto simp: reader_ok_def init_state_def)
qed

section \<open>Where the reader can be\<close>

text \<open>The states of a reader between calls, from the one that \<open>line_open\<close> returned on.\<close>

inductive reachable :: "u8 list \<Rightarrow> line_reader_data \<Rightarrow> line_reader_data \<Rightarrow> bool" for buf lnd0 where
  opened: "reachable buf lnd0 lnd0"
| stepped: "reachable buf lnd0 lnd \<Longrightarrow> next_state buf lnd = Some (True, lnd') \<Longrightarrow> reachable buf lnd0 lnd'"
| reset: "reachable buf lnd0 lnd \<Longrightarrow> reachable buf lnd0 (line_reset lnd)"

text \<open>Two readers at the same place; they go on to the same place.\<close>

definition same_place :: "line_reader_data \<Rightarrow> line_reader_data \<Rightarrow> bool" where
  "same_place a b \<longleftrightarrow> same_header a b \<and> cpos a = cpos b"

definition steps_agree ::
  "('r \<times> line_reader_data) option \<Rightarrow> ('r \<times> line_reader_data) option \<Rightarrow> bool" where
  "steps_agree ra rb \<longleftrightarrow> (case (ra, rb) of
     (Some (r, a), Some (s, b)) \<Rightarrow> r = s \<and> same_place a b | (None, None) \<Rightarrow> True | _ \<Rightarrow> False)"

lemma steps_agree_simps [simp]:
  "steps_agree (Some (r, a)) (Some (s, b)) \<longleftrightarrow> r = s \<and> same_place a b"
  "steps_agree None None"
  by (simp_all add: steps_agree_def)

lemma steps_agree_bind:
  "(\<And>x. steps_agree (f x) (g x)) \<Longrightarrow> steps_agree (m \<bind> f) (m \<bind> g)"
  by (cases m) simp_all

lemma steps_agree_if:
  "(c \<Longrightarrow> steps_agree a b) \<Longrightarrow> (\<not> c \<Longrightarrow> steps_agree a' b')
    \<Longrightarrow> steps_agree (if c then a else a') (if c then b else b')"
  by simp

lemma same_place_fields:
  assumes "same_place a b"
  shows "little_endian b = little_endian a" "minimum_instruction_length b = minimum_instruction_length a"
    "line_base b = line_base a" "line_range b = line_range a" "opcode_base b = opcode_base a"
    "standard_opcode_lengths b = standard_opcode_lengths a" "lr_end b = lr_end a"
    "lr_init b = lr_init a" "cpos b = cpos a"
  using assms by (simp_all add: same_place_def same_header_def)

lemma same_place_update:
  assumes "same_place a b"
  shows "same_place (a\<lparr>cpos := c\<rparr>) (b\<lparr>cpos := c\<rparr>)" "same_place (a\<lparr>cur := s\<rparr>) (b\<lparr>cur := t\<rparr>)"
    "same_place (a\<lparr>filenames := fs\<rparr>) (b\<lparr>filenames := gs\<rparr>)"
    "same_place (a\<lparr>numfile := m\<rparr>) (b\<lparr>numfile := n\<rparr>)"
  using assms by (simp_all add: same_place_def same_header_def)

lemma extended_op_place: "same_place a b \<Longrightarrow> steps_agree (extended_op buf a) (extended_op buf b)"
  unfolding extended_op_def Let_def
  by (auto simp: same_place_fields same_place_update split: prod.split
      intro!: steps_agree_bind steps_agree_if)

lemma standard_op_place:
  "same_place a b \<Longrightarrow> steps_agree (standard_op buf op a) (standard_op buf op b)"
  unfolding standard_op_def
  by (intro steps_agree_if)
    (auto simp: same_place_fields same_place_update extended_op_place split: prod.split
      intro!: steps_agree_bind steps_agree_if)

lemma line_op_place: "same_place a b \<Longrightarrow> steps_agree (line_op buf a) (line_op buf b)"
  unfolding line_op_def Let_def special_op_def
  by (auto simp: same_place_fields same_place_update intro!: steps_agree_bind steps_agree_if
      standard_op_place)

lemma run_ops_place: "same_place a b \<Longrightarrow> steps_agree (run_ops buf a) (run_ops buf b)"
proof (induction buf a arbitrary: b rule: run_ops.induct)
  case (1 buf a)
  from line_op_place [OF 1(2), of buf] show ?case
  proof (cases "line_op buf a")
    case None
    with line_op_place [OF 1(2), of buf] have "line_op buf b = None"
      by (auto simp: steps_agree_def split: option.splits)
    with None show ?thesis by (simp add: run_ops.simps [of buf a] run_ops.simps [of buf b])
  next
    case (Some p)
    then obtain r a' where a': "line_op buf a = Some (r, a')" by (cases p) simp
    with line_op_place [OF 1(2), of buf] obtain b' where b': "line_op buf b = Some (r, b')"
      "same_place a' b'" by (auto simp: steps_agree_def split: option.splits)
    show ?thesis
    proof (cases r)
      case None
      from 1(1) [OF a' refl None b'(2)] a' b' None show ?thesis
        by (simp add: run_ops.simps [of buf a] run_ops.simps [of buf b])
    qed (use a' b' in \<open>simp add: run_ops.simps [of buf a] run_ops.simps [of buf b]\<close>)
  qed
qed

lemma next_state_place: "same_place a b \<Longrightarrow> steps_agree (next_state buf a) (next_state buf b)"
  unfolding next_state_def
  by (rule run_ops_place) (auto simp: same_place_def same_header_def)

lemma reachable_ok:
  assumes "reachable buf lnd0 lnd" and "reader_ok buf lnd0"
  shows "reader_ok buf lnd \<and> same_header lnd0 lnd"
  using assms(1)
proof induction
  case opened
  with assms(2) show ?case by simp
next
  case (stepped lnd lnd')
  with next_state_ok [of buf lnd] show ?case by (auto intro: same_header_trans)
next
  case (reset lnd)
  with line_reset_ok [of buf lnd] show ?case by (auto intro: same_header_trans)
qed

text \<open>The places a reader visits are those of the steps from the beginning.\<close>

primrec nth_state :: "u8 list \<Rightarrow> line_reader_data \<Rightarrow> nat \<Rightarrow> line_reader_data option" where
  "nth_state buf lnd 0 = Some lnd"
| "nth_state buf lnd (Suc k) = do {
     a \<leftarrow> nth_state buf lnd k;
     (ok, b) \<leftarrow> next_state buf a;
     if ok then Some b else None
   }"

lemma nth_state_Suc:
  "nth_state buf lnd (Suc k) = Some b \<longleftrightarrow>
     (\<exists>a. nth_state buf lnd k = Some a \<and> next_state buf a = Some (True, b))"
  by (auto simp: bind_eq_Some_conv split: if_splits)

lemma nth_state_before: "nth_state buf lnd (k + m) = Some b \<Longrightarrow> \<exists>a. nth_state buf lnd k = Some a"
  by (induction m arbitrary: b) (auto simp: nth_state_Suc simp del: nth_state.simps(2))

lemma nth_state_mono:
  "nth_state buf lnd k = Some a \<Longrightarrow> nth_state buf lnd (k + m) = Some b \<Longrightarrow> cpos a + m \<le> cpos b"
proof (induction m arbitrary: b)
  case (Suc m)
  then obtain c where c: "nth_state buf lnd (k + m) = Some c" "next_state buf c = Some (True, b)"
    by (auto simp: nth_state_Suc simp del: nth_state.simps(2))
  with Suc.IH [OF Suc.prems(1) c(1)] next_state_advances [OF c(2)] show ?case by simp
qed simp

lemma reachable_nth:
  assumes "reachable buf lnd0 lnd" and "reader_ok buf lnd0" and "cpos lnd0 = lr_init lnd0"
  shows "\<exists>k a. nth_state buf lnd0 k = Some a \<and> same_place a lnd"
  using assms(1)
proof induction
  case opened
  then show ?case by (intro exI [of _ 0]) (simp add: same_place_def)
next
  case (stepped lnd lnd')
  then obtain k a where a: "nth_state buf lnd0 k = Some a" "same_place a lnd" by blast
  from next_state_place [OF a(2), of buf] stepped.hyps(2) obtain a' where
    "next_state buf a = Some (True, a')" "same_place a' lnd'"
    by (auto simp: steps_agree_def split: option.splits)
  with a(1) show ?case
    by (intro exI [of _ "Suc k"]) (auto simp: nth_state_Suc simp del: nth_state.simps(2))
next
  case (reset lnd)
  from reachable_ok [OF reset.hyps assms(2)] have "same_place lnd0 (line_reset lnd)"
    by (simp add: same_place_def line_reset_def assms(3) same_header_def)
  then show ?case by (intro exI [of _ 0]) simp
qed

text \<open>From a place before another one the reader steps to it or to a place between them.\<close>

lemma reachable_between:
  assumes a: "reachable buf lnd0 a" and b: "reachable buf lnd0 b" and less: "cpos a < cpos b"
    and ok: "reader_ok buf lnd0" "cpos lnd0 = lr_init lnd0"
  obtains a' where "next_state buf a = Some (True, a')" "cpos a' \<le> cpos b"
proof -
  note go = that
  from reachable_nth [OF a ok] obtain i x where x: "nth_state buf lnd0 i = Some x" "same_place x a" by blast
  from reachable_nth [OF b ok] obtain j y where y: "nth_state buf lnd0 j = Some y" "same_place y b" by blast
  have less': "cpos x < cpos y" using x(2) y(2) less by (simp add: same_place_def)
  have "i < j"
  proof (rule ccontr)
    assume "\<not> i < j"
    with nth_state_mono [of buf lnd0 j y "i - j" x] x(1) y(1) less' show False by simp
  qed
  then have j: "j = Suc i + (j - Suc i)" by simp
  with y(1) obtain z where z: "nth_state buf lnd0 (Suc i) = Some z" using nth_state_before by metis
  with x(1) have "next_state buf x = Some (True, z)"
    by (auto simp: nth_state_Suc simp del: nth_state.simps(2))
  with next_state_place [OF x(2), of buf] obtain a' where
    "next_state buf a = Some (True, a')" "same_place z a'"
    by (auto simp: steps_agree_def split: option.splits)
  moreover have "cpos z \<le> cpos y"
    using nth_state_mono [OF z, of "j - Suc i" y] y(1) j by simp
  ultimately show ?thesis using go y(2) by (simp add: same_place_def)
qed

lemma reachable_init_le:
  assumes "reachable buf lnd0 a" and "reader_ok buf lnd0" and "cpos lnd0 = lr_init lnd0"
  shows "lr_init a \<le> cpos a"
proof -
  from reachable_nth [OF assms] obtain i x where x: "nth_state buf lnd0 i = Some x" "same_place x a" by blast
  from nth_state_mono [of buf lnd0 0 lnd0 i x] x assms(3) reachable_ok [OF assms(1,2)]
  show ?thesis by (simp add: same_place_def same_header_def)
qed

lemma reachable_wrap: "reachable buf lnd0 l \<Longrightarrow> reachable buf lnd0 (wrap_at_end l)"
  by (auto simp: wrap_at_end_def intro: reachable.reset)

section \<open>The search around the table\<close>

text \<open>After the wrap the search is before the place where it started, and comes to it.\<close>

lemma find_addr_before:
  assumes t: "reachable buf lnd0 t" and s: "cpos t < lr_end lnd0"
    and ok: "reader_ok buf lnd0" "cpos lnd0 = lr_init lnd0"
  shows "reachable buf lnd0 l \<Longrightarrow> cpos l < cpos t \<Longrightarrow> find_addr_from buf pc (cpos t) l \<noteq> None"
proof (induction "cpos t - cpos l" arbitrary: l rule: less_induct)
  case less
  from reachable_between [OF less.prems(1) t less.prems(2) ok] obtain l' where
    l': "next_state buf l = Some (True, l')" "cpos l' \<le> cpos t" by blast
  from reachable.stepped [OF less.prems(1) l'(1)] have r: "reachable buf lnd0 l'" .
  from reachable_ok [OF r ok(1)] have "lr_end l' = lr_end lnd0" by (simp add: same_header_def)
  with l'(2) s have w: "wrap_at_end l' = l'" by (simp add: wrap_at_end_def line_at_eof_def)
  have "cpos l' = cpos t \<or> find_addr_from buf pc (cpos t) l' \<noteq> None"
    using next_state_advances [OF l'(1)] less.prems(2) l'(2) less.hyps [of l', OF _ r] by linarith
  with l'(1) w show ?case by (subst find_addr_from.simps) (auto simp: Let_def)
qed

lemma find_addr_around:
  assumes t: "reachable buf lnd0 t" and s: "cpos t < lr_end lnd0"
    and ok: "reader_ok buf lnd0" "cpos lnd0 = lr_init lnd0"
  shows "reachable buf lnd0 l \<Longrightarrow> cpos t \<le> cpos l \<Longrightarrow> find_addr_from buf pc (cpos t) l \<noteq> None"
proof (induction "length buf - cpos l" arbitrary: l rule: less_induct)
  case less
  from next_state_ok [of buf l] reachable_ok [OF less.prems(1) ok(1)]
  obtain b l' where l': "next_state buf l = Some (b, l')" by (auto simp: step_ok_def)
  show ?case
  proof (cases b)
    case True
    with l' have n: "next_state buf l = Some (True, l')" by simp
    from reachable.stepped [OF less.prems(1) n] have r: "reachable buf lnd0 l'" .
    from next_state_advances [OF n] less.prems(2) have adv: "cpos l < cpos l'" "cpos l < length buf" "cpos t < cpos l'"
      by simp_all
    have "cpos (wrap_at_end l') = cpos t \<or> find_addr_from buf pc (cpos t) (wrap_at_end l') \<noteq> None"
    proof (cases "end_of_sequence (cur l') \<and> line_at_eof l'")
      case True
      then have w: "wrap_at_end l' = line_reset l'" by (simp add: wrap_at_end_def)
      have h: "lr_init l' = lr_init t" using reachable_ok [OF r ok(1)] reachable_ok [OF t ok(1)]
        by (simp add: same_header_def)
      from reachable_init_le [OF t ok] h have "cpos (line_reset l') \<le> cpos t" by (simp add: line_reset_def)
      with find_addr_before [OF t s ok reachable.reset [OF r], of pc] w show ?thesis
        by (cases "cpos (line_reset l') = cpos t") simp_all
    next
      case False
      then have "wrap_at_end l' = l'" by (auto simp: wrap_at_end_def)
      with less.hyps [of l', OF _ r] adv show ?thesis by simp
    qed
    with n show ?thesis by (subst find_addr_from.simps) (auto simp: Let_def)
  next
    case False
    with l' show ?thesis by (subst find_addr_from.simps) simp
  qed
qed

lemma line_find_addr_total:
  assumes r: "reachable buf lnd0 lnd" and ok: "reader_ok buf lnd0" "cpos lnd0 = lr_init lnd0"
  shows "line_find_addr buf pc lnd \<noteq> None"
proof -
  define t where "t = wrap_at_end lnd"
  from reachable_wrap [OF r] have t: "reachable buf lnd0 t" by (simp add: t_def)
  from reachable_ok [OF t ok(1)] have e: "lr_end t = lr_end lnd0" "cpos t \<le> lr_end t"
    by (simp_all add: same_header_def reader_ok_def)
  show ?thesis
  proof (cases "cpos t = lr_end t")
    case True
    then have "next_state buf t = Some (False, if end_of_sequence (cur t) then t\<lparr>cur := init_state\<rparr> else t)"
      by (simp add: next_state_def run_ops.simps line_op_def)
    then show ?thesis
      unfolding line_find_addr_def Let_def t_def [symmetric] by (subst find_addr_from.simps) simp
  next
    case False
    with e find_addr_around [OF t _ ok t] show ?thesis
      unfolding line_find_addr_def Let_def t_def [symmetric] by simp
  qed
qed

text \<open>What a search has found.\<close>

definition region_of :: "u64 \<Rightarrow> line_info \<Rightarrow> line_info \<Rightarrow> bool" where
  "region_of pc a b \<longleftrightarrow> li_pc a \<le> pc \<and> pc < li_pc b \<and> \<not> end_of_sequence a"

definition found :: "u8 list \<Rightarrow> line_reader_data \<Rightarrow> u64
    \<Rightarrow> (bool + line_info \<times> line_info) \<times> line_reader_data \<Rightarrow> bool" where
  "found buf lnd0 pc y \<longleftrightarrow>
     (fst y \<noteq> Inl False \<longrightarrow> reachable buf lnd0 (snd y))
     \<and> (\<forall>a b. fst y = Inr (a, b) \<longrightarrow> region_of pc a b \<and> cur (snd y) = b
          \<and> \<not> (end_of_sequence b \<and> line_at_eof (snd y)))"

lemma find_addr_found:
  assumes "find_addr_from buf pc s l = Some y"
  shows "reachable buf lnd0 l \<longrightarrow> found buf lnd0 pc y"
proof (rule find_addr_from.raw_induct [OF _ assms,
    where P = "\<lambda>buf pc s l y. reachable buf lnd0 l \<longrightarrow> found buf lnd0 pc y"], rule impI)
  fix find buf pc s l y
  assume IH: "\<And>buf pc s l y. find buf pc s l = Some y \<Longrightarrow> reachable buf lnd0 l \<longrightarrow> found buf lnd0 pc y"
    and body: "(case next_state buf l of None \<Rightarrow> None
      | Some (ok, lnd') \<Rightarrow>
          if \<not> ok then Some (Inl False, lnd')
          else let prev = cur l; lnd' = wrap_at_end lnd'
               in if cpos lnd' = s then Some (Inl True, lnd')
                  else if li_pc (cur lnd') \<le> pc \<or> pc < li_pc prev \<or> end_of_sequence prev
                       then find buf pc s lnd'
                       else Some (Inr (prev, cur lnd'), lnd')) = Some y"
    and r: "reachable buf lnd0 l"
  from body obtain ok l1 where st: "next_state buf l = Some (ok, l1)"
    by (auto split: option.splits)
  show "found buf lnd0 pc y"
  proof (cases ok)
    case False
    with body st have "y = (Inl False, l1)" by simp
    then show ?thesis by (simp add: found_def)
  next
    case True
    define l2 where "l2 = wrap_at_end l1"
    from r st True have r2: "reachable buf lnd0 l2"
      unfolding l2_def by (auto intro: reachable_wrap reachable.stepped)
    have last: "\<not> (end_of_sequence (cur l2) \<and> line_at_eof l2)"
      by (simp add: l2_def wrap_at_end_def line_reset_def init_state_def)
    from True have notnot: "\<not> \<not> ok" by simp
    note step = body [unfolded st option.case prod.case Let_def if_not_P [OF notnot], folded l2_def]
    show ?thesis
    proof (cases "cpos l2 = s")
      case True
      from step [unfolded if_P [OF True]] r2 show ?thesis by (auto simp: found_def)
    next
      case around: False
      note step = step [unfolded if_not_P [OF around]]
      show ?thesis
      proof (cases "li_pc (cur l2) \<le> pc \<or> pc < li_pc (cur l) \<or> end_of_sequence (cur l)")
        case True
        from IH [OF step [unfolded if_P [OF True]]] r2 show ?thesis by simp
      next
        case False
        then have "region_of pc (cur l) (cur l2)" by (simp add: region_of_def not_le not_less)
        moreover have "y = (Inr (cur l, cur l2), l2)" using step [unfolded if_not_P [OF False]] by simp
        ultimately show ?thesis using r2 last by (auto simp: found_def)
      qed
    qed
  qed
qed

section \<open>Properties\<close>

text \<open>A table with two lines at \<open>0x1000\<close> and \<open>0x1004\<close> and its end at \<open>0x1008\<close>.\<close>

definition sample_table :: "u8 list" where
  "sample_table = [44, 0, 0, 0, 2, 0, 24, 0, 0, 0,
     1, 1, 0xfb, 14, 13, 0, 1, 1, 1, 1, 0, 0, 0, 1, 0, 0, 1, 0, 97, 0, 0, 0, 0, 0,
     0, 5, 2, 0, 0x10, 0, 0, 18, 75, 2, 4, 0, 1, 1]"

definition sample_reader :: line_reader_data where
  "sample_reader = \<lparr>little_endian = True, minimum_instruction_length = 1, line_base = 0xfb,
     line_range = 14, opcode_base = 13, standard_opcode_lengths = 15, numdir = 0, dirnames = [],
     numfile_orig = 1, numfile = 1, filenames = [28], cpos = 34, lr_end = 48, lr_init = 34,
     cur = init_state\<rparr>"

lemma sample_open: "line_open sample_table 48 True = Some (Some sample_reader)"
  by code_simp

lemma sample_length: "length sample_table = 48"
  by (simp add: sample_table_def)

text \<open>
  Property C14. The reader never leaves its program: after \<open>line_open\<close> accepted a section whose header has a
  line range, in every state that calls of the reader can lead to, the next call of
  \<open>next_state\<close> or \<open>line_next\<close> reads nothing outside of the section and divides by nothing, and
  leaves the position between the beginning of the section and the end of the program and all
  of the header as it was.
\<close>

theorem line_reader_stays_inside:
  assumes "line_open buf (of_nat (length buf)) le = Some (Some lnd0)"
    and "length buf < 2 ^ 63" and "line_range lnd0 \<noteq> 0" and "reachable buf lnd0 lnd"
  shows "(\<exists>ok lnd'. next_state buf lnd = Some (ok, lnd') \<and> cpos lnd' \<le> lr_end lnd0 \<and> same_header lnd0 lnd')
   \<and> (\<exists>r lnd'. line_next buf stop lnd = Some (r, lnd') \<and> cpos lnd' \<le> lr_end lnd0 \<and> same_header lnd0 lnd')
   \<and> lr_end lnd0 \<le> length buf"
proof (intro conjI)
  from line_open_ok [OF assms(1-3)] have ok: "reader_ok buf lnd0" by simp
  from reachable_ok [OF assms(4) ok] have l: "reader_ok buf lnd" "same_header lnd0 lnd" by simp_all
  have within: "reader_ok buf lnd' \<Longrightarrow> same_header lnd lnd' \<Longrightarrow> cpos lnd' \<le> lr_end lnd0 \<and> same_header lnd0 lnd'" for lnd'
    using l(2) by (auto simp: reader_ok_def same_header_def)
  from next_state_ok [OF l(1)] within
  show "\<exists>ok lnd'. next_state buf lnd = Some (ok, lnd') \<and> cpos lnd' \<le> lr_end lnd0 \<and> same_header lnd0 lnd'"
    unfolding step_ok_def by blast
  from line_next_ok [OF l(1)] within
  show "\<exists>r lnd'. line_next buf stop lnd = Some (r, lnd') \<and> cpos lnd' \<le> lr_end lnd0 \<and> same_header lnd0 lnd'"
    unfolding step_ok_def by blast
  from ok show "lr_end lnd0 \<le> length buf" by (simp add: reader_ok_def)
qed

theorem line_reader_stays_inside_witness:
  "(\<exists>ok lnd'. next_state sample_table sample_reader = Some (ok, lnd') \<and> cpos lnd' \<le> 48
      \<and> same_header sample_reader lnd')
   \<and> lr_end sample_reader \<le> 48"
  using line_reader_stays_inside [of sample_table True sample_reader sample_reader line_stop_always] sample_open
    sample_length by (auto simp: sample_reader_def intro: reachable.opened)

text \<open>
  Property C15. The search for an address always comes to an end, whatever state the reader is in after
  \<open>line_open\<close>, and reads nothing outside of the section. When it finds a region, the address is
  in it, the first of its two lines does not end a sequence, and the reader is at the second
  one, which is not the last line of the table; and unless it stopped with an error the reader
  can go on.
\<close>

theorem line_find_addr_returns:
  assumes "line_open buf (of_nat (length buf)) le = Some (Some lnd0)"
    and "length buf < 2 ^ 63" and "line_range lnd0 \<noteq> 0" and "reachable buf lnd0 lnd"
  shows "\<exists>y. line_find_addr buf pc lnd = Some y \<and> found buf lnd0 pc y"
proof -
  from line_open_ok [OF assms(1-3)] have ok: "reader_ok buf lnd0" "cpos lnd0 = lr_init lnd0" by simp_all
  from line_find_addr_total [OF assms(4) ok, of pc] obtain y where "line_find_addr buf pc lnd = Some y"
    by blast
  then show ?thesis
    using find_addr_found [of buf pc _ "wrap_at_end lnd" y lnd0] reachable_wrap [OF assms(4)]
    by (auto simp: line_find_addr_def Let_def)
qed

theorem line_find_addr_returns_witness:
  "\<exists>y. line_find_addr sample_table 0x1001 sample_reader = Some y \<and> found sample_table sample_reader 0x1001 y"
  by (rule line_find_addr_returns [of _ True])
    (simp_all add: sample_length sample_open reachable.opened, simp add: sample_reader_def)

text \<open>
  The search does not find every address. An address below the first line of the table is
  given the state the program starts in as its line, although no line of the table covers it;
  and an address in the last region of the table, which the end of the last sequence closes,
  is not found at all, because the reader is reset before its line is compared.
\<close>

theorem line_find_addr_edges:
  "map_option fst (line_find_addr sample_table 5 sample_reader)
     = Some (Inr (init_state, init_state\<lparr>li_pc := 0x1000\<rparr>))
   \<and> map_option fst (line_find_addr sample_table 0x1001 sample_reader)
     = Some (Inr (init_state\<lparr>li_pc := 0x1000\<rparr>, init_state\<lparr>li_pc := 0x1004, li_line := 2\<rparr>))
   \<and> map_option fst (line_find_addr sample_table 0x1005 sample_reader) = Some (Inl True)"
  by code_simp

text \<open>
  The 64-bit format is never accepted: its mark, read as an \<open>int\<close>, becomes a 64-bit number
  with all bits set and is taken for one of the reserved lengths, as is every length from
  \<open>2^31\<close> on.
\<close>

theorem line_open_refuses_64_bit:
  assumes "read_32 le buf 0 = Some w" and "0x80000000 \<le> w"
  shows "line_open buf n le = Some None"
  using assms by (rule line_open_negative)

theorem line_open_refuses_64_bit_witness:
  "line_open (replicate 4 0xff @ replicate 30 0) 34 True = Some None"
proof -
  have "read_32 True (replicate 4 0xff @ replicate 30 0) 0 = Some 0xffffffff" by code_simp
  then show ?thesis by (rule line_open_refuses_64_bit) simp
qed

text \<open>
  Two headers that \<open>line_open\<close> accepts and should not: with a line range of 0 the first special
  opcode divides by zero, and with a header length close to \<open>2^64\<close>, which the sign extension
  makes of one close to \<open>2^32\<close>, the program begins inside the header, at its first byte.
\<close>

theorem line_open_accepts_bad_headers:
  "(case line_open (sample_table[13 := 0]) 48 True of
      Some (Some lnd) \<Rightarrow> next_state (sample_table[13 := 0]) lnd = None | _ \<Rightarrow> False)
   \<and> (case line_open (sample_table[6 := 0xf6, 7 := 0xff, 8 := 0xff, 9 := 0xff, 28 := 0]) 48 True of
      Some (Some lnd) \<Rightarrow> cpos lnd = 0 | _ \<Rightarrow> False)"
  by code_simp

end
