(* ===== verification/Line_Table.thy ===== *)
theory Line_Table
  imports Line_Safety
begin

text \<open>
  The line number table the assembler writes (\<open>as/dwarf2dbg.c\<close>: the statement program of a
  section and the header), and that the reader of \<open>ld/debugline.c\<close> reads back from it the lines
  that were written.
\<close>

section \<open>Base 128 numbers in the section\<close>

text \<open>The digits of a number in a given number of bytes.\<close>

primrec leb_digits :: "nat \<Rightarrow> nat \<Rightarrow> u8 list" where
  "leb_digits 0 k = [of_nat (k mod 128)]"
| "leb_digits (Suc m) k = of_nat (128 + k mod 128) # leb_digits m (k div 128)"

lemma length_leb_digits [simp]: "length (leb_digits m k) = Suc m"
  by (induction m arbitrary: k) simp_all

lemma uleb_bytes_digits: "uleb_bytes k = leb_digits (length (uleb_bytes k) - 1) k"
proof (induction k rule: uleb_bytes.induct)
  case (1 k)
  show ?case
  proof (cases "k < 128")
    case False
    obtain b bs where b: "uleb_bytes (k div 128) = b # bs"
      using leb_bytes_not_empty(1) [of "k div 128"] by (cases "uleb_bytes (k div 128)") auto
    have u: "uleb_bytes k = of_nat (128 + k mod 128) # uleb_bytes (k div 128)"
      using False by (simp add: uleb_bytes.simps [of k])
    from 1 [OF False] show ?thesis unfolding u by (simp add: b)
  qed (simp add: uleb_bytes.simps [of k])
qed

lemma uleb_bytes_bound: "k < 128 ^ length (uleb_bytes k)"
proof (induction k rule: uleb_bytes.induct)
  case (1 k)
  show ?case
  proof (cases "k < 128")
    case False
    from 1 [OF False] have "k div 128 < 128 ^ length (uleb_bytes (k div 128))" .
    then have "k < 128 * 128 ^ length (uleb_bytes (k div 128))"
      by (metis div_less_iff_less_mult mult.commute zero_less_numeral)
    with False show ?thesis by (simp add: uleb_bytes.simps [of k])
  qed (simp add: uleb_bytes.simps [of k])
qed

lemma sleb_bytes_digits:
  "sleb_bytes i = leb_digits (length (sleb_bytes i) - 1) (nat (i mod 128 ^ length (sleb_bytes i)))"
proof (induction i rule: sleb_bytes.induct)
  case (1 i)
  show ?case
  proof (cases "- 64 \<le> i \<and> i < 64")
    case True
    then have s: "sleb_bytes i = [of_int (i mod 128)]" by (simp add: sleb_bytes.simps [of i])
    have "(of_nat (nat (i mod 128)) :: u8) = of_int (i mod 128)" by simp
    then show ?thesis unfolding s by simp
  next
    case False
    define n where "n = length (sleb_bytes (i div 128))"
    obtain m where m: "n = Suc m"
      using leb_bytes_not_empty(2) [of "i div 128"] unfolding n_def by (auto dest: Suc_le_D)
    have s: "sleb_bytes i = of_int (128 + i mod 128) # sleb_bytes (i div 128)"
      using False by (simp add: sleb_bytes.simps [of i])
    have low: "nat (i mod (128 * 128 ^ n)) mod 128 = nat (i mod 128)"
      by (simp add: nat_mod_distrib [symmetric] mod_mult_self2_is_0 mod_mod_cancel flip: nat_numeral)
    have high: "nat (i mod (128 * 128 ^ n)) div 128 = nat (i div 128 mod 128 ^ n)"
    proof -
      have "i mod (128 * 128 ^ n) = 128 * (i div 128 mod 128 ^ n) + i mod 128"
        by (simp add: zmod_zmult2_eq)
      then have "i mod (128 * 128 ^ n) div 128 = i div 128 mod 128 ^ n" by simp
      then show ?thesis by (simp flip: nat_div_distrib' nat_numeral)
    qed
    have "(of_nat (128 + nat (i mod 128)) :: u8) = of_int (128 + i mod 128)" by simp
    moreover have "leb_digits n (nat (i mod (128 * 128 ^ n)))
        = of_nat (128 + nat (i mod 128)) # leb_digits m (nat (i div 128 mod 128 ^ n))"
      by (subst m) (simp only: leb_digits.simps low high)
    moreover have "sleb_bytes (i div 128) = leb_digits m (nat (i div 128 mod 128 ^ n))"
      using 1 [OF False] m unfolding n_def [symmetric] by simp
    moreover have "length (of_int (128 + i mod 128) # sleb_bytes (i div 128)) = Suc n"
      by (simp add: n_def)
    ultimately show ?thesis unfolding s by (simp only: power_Suc diff_Suc_1)
  qed
qed

lemma sleb_bytes_bound:
  "- (64 * 128 ^ (length (sleb_bytes i) - 1)) \<le> i \<and> i < 64 * 128 ^ (length (sleb_bytes i) - 1)"
proof (induction i rule: sleb_bytes.induct)
  case (1 i)
  show ?case
  proof (cases "- 64 \<le> i \<and> i < 64")
    case False
    define n where "n = length (sleb_bytes (i div 128))"
    obtain m where m: "n = Suc m"
      using leb_bytes_not_empty(2) [of "i div 128"] unfolding n_def by (auto dest: Suc_le_D)
    have "sleb_bytes i = of_int (128 + i mod 128) # sleb_bytes (i div 128)"
      using False by (simp add: sleb_bytes.simps [of i])
    then have "length (sleb_bytes i) - 1 = Suc m" using m n_def by simp
    moreover from 1 [OF False] m have "- (64 * 128 ^ m) \<le> i div 128" "i div 128 < 64 * 128 ^ m"
      by (simp_all add: n_def [symmetric])
    moreover define P where "P = (128 :: int) ^ m"
    ultimately show ?thesis unfolding P_def [symmetric]
      by (simp only: power_Suc P_def [symmetric]) linarith
  qed (simp add: sleb_bytes.simps [of i])
qed

text \<open>Bytes at a place of the section.\<close>

definition bytes_at :: "u8 list \<Rightarrow> nat \<Rightarrow> u8 list \<Rightarrow> bool" where
  "bytes_at buf c bs \<longleftrightarrow> (\<exists>rest. drop c buf = bs @ rest)"

lemma bytes_at_Nil [simp]: "bytes_at buf c []"
  by (simp add: bytes_at_def)

lemma bytes_at_Cons: "bytes_at buf c (b # bs) \<longleftrightarrow> fetch buf c = Some b \<and> bytes_at buf (Suc c) bs"
proof (cases "c < length buf")
  case True
  then have "drop c buf = buf ! c # drop (Suc c) buf" by (simp add: Cons_nth_drop_Suc)
  with True show ?thesis by (auto simp: bytes_at_def fetch_def)
qed (simp add: bytes_at_def fetch_def)

lemma bytes_at_append: "bytes_at buf c (xs @ ys) \<longleftrightarrow> bytes_at buf c xs \<and> bytes_at buf (c + length xs) ys"
  by (induction xs arbitrary: c) (simp_all add: bytes_at_Cons)

lemma bytes_at_length: "bytes_at buf c bs \<Longrightarrow> bs \<noteq> [] \<Longrightarrow> c + length bs \<le> length buf"
proof -
  assume "bytes_at buf c bs" "bs \<noteq> []"
  then obtain rest where r: "drop c buf = bs @ rest" by (auto simp: bytes_at_def)
  from arg_cong [OF this, of length] have "length buf - c = length bs + length rest" by simp
  with \<open>bs \<noteq> []\<close> show ?thesis by (cases bs) auto
qed

lemma bytes_at_nth: "bytes_at buf c bs \<Longrightarrow> i < length bs \<Longrightarrow> fetch buf (c + i) = Some (bs ! i)"
proof (induction bs arbitrary: c i)
  case (Cons b bs)
  then show ?case
  proof (cases i)
    case (Suc j)
    with Cons.IH [of "Suc c" j] Cons.prems show ?thesis by (simp add: bytes_at_Cons)
  qed (simp add: bytes_at_Cons)
qed simp

lemma byte_continues: "(0x80 :: u8) \<le> of_nat (128 + k mod 128)" "\<not> (0x80 :: u8) \<le> of_nat (k mod 128)"
proof -
  have "unat (of_nat (128 + k mod 128) :: u8) = 128 + k mod 128" by (subst unat_of_nat) simp
  then show "(0x80 :: u8) \<le> of_nat (128 + k mod 128)" by (simp only: word_le_nat_alt) simp
  have "unat (of_nat (k mod 128) :: u8) = k mod 128" by (subst unat_of_nat) simp
  then show "\<not> (0x80 :: u8) \<le> of_nat (k mod 128)" by (simp only: word_le_nat_alt) simp
qed

lemma skip_leb_digits:
  "bytes_at buf c (leb_digits m k) \<Longrightarrow> c + Suc m \<le> e \<Longrightarrow> skip_leb128 buf e c = Some (c + Suc m)"
proof (induction m arbitrary: c k)
  case 0
  then show ?case by (simp add: skip_leb128.simps [of buf e c] bytes_at_Cons byte_continues)
next
  case (Suc m)
  from Suc.IH [of "Suc c" "k div 128"] Suc.prems show ?case
    by (simp add: skip_leb128.simps [of buf e c] bytes_at_Cons byte_continues del: of_nat_add)
qed

lemma line_uleb128_digits:
  "bytes_at buf c (leb_digits m k) \<Longrightarrow> c + Suc m \<le> e \<Longrightarrow> k < 128 ^ Suc m \<Longrightarrow> k * 2 ^ n < 2 ^ 64
    \<Longrightarrow> n + 7 * m < 64
    \<Longrightarrow> line_uleb128_from buf e r n c = Some (r OR push_bit n (of_nat k), c + Suc m)"
proof (induction m arbitrary: c k r n)
  case 0
  then have "k < 128" by simp
  moreover from this have "\<not> (0x80 :: u8) \<le> of_nat k" using byte_continues(2) [of k] by simp
  ultimately show ?case using 0 push_bit_fits [of k n] byte_low [of k]
    by (simp add: line_uleb128_from.simps [of buf e r n c] bytes_at_Cons Let_def)
next
  case (Suc m)
  have "k mod 128 * 2 ^ n \<le> k * 2 ^ n" by simp
  with Suc.prems(4) have fits: "k mod 128 * 2 ^ n < 2 ^ 64" by linarith
  have "k div 128 * 2 ^ (n + 7) = (k div 128 * 128) * 2 ^ n" by (simp add: power_add)
  also have "\<dots> \<le> k * 2 ^ n" by simp
  finally have next_fits: "k div 128 * 2 ^ (n + 7) < 2 ^ 64" using Suc.prems(4) by linarith
  have small: "k div 128 < 128 ^ Suc m" using Suc.prems(3) by (simp add: less_mult_imp_div_less mult.commute)
  have low: "(ucast ((of_nat (128 + k mod 128) :: u8) AND 0x7f) :: u64) = of_nat (k mod 128)"
    using byte_low [of "128 + k mod 128"] by simp
  from Suc.prems(1) have b: "fetch buf c = Some (of_nat (128 + k mod 128))"
    "bytes_at buf (Suc c) (leb_digits m (k div 128))"
    by (simp_all add: bytes_at_Cons del: of_nat_add)
  have "line_uleb128_from buf e r n c
      = line_uleb128_from buf e (r OR push_bit n (of_nat (k mod 128))) (n + 7) (Suc c)"
    using Suc.prems(2,5) push_bit_fits [OF fits]
    by (simp only: line_uleb128_from.simps [of buf e r n c] b(1) Option.bind.bind_lunit low Let_def
        byte_continues if_True) simp
  also have "\<dots> = Some ((r OR push_bit n (of_nat (k mod 128))) OR push_bit (n + 7) (of_nat (k div 128)),
      Suc c + Suc m)"
    by (rule Suc.IH [OF b(2) _ small next_fits]) (use Suc.prems(2,5) in simp_all)
  finally show ?case using push_bit_split [of n k] by (simp add: or.assoc)
qed

lemma line_uleb128_bytes:
  assumes "bytes_at buf c (uleb_bytes k)" and "c + length (uleb_bytes k) \<le> e" and "k < 2 ^ 64"
  shows "line_read_uleb128 buf e c = Some (of_nat k, c + length (uleb_bytes k))"
    and "skip_leb128 buf e c = Some (c + length (uleb_bytes k))"
proof -
  define m where "m = length (uleb_bytes k) - 1"
  have len: "length (uleb_bytes k) = Suc m" using leb_bytes_not_empty(1) [of k] by (simp add: m_def)
  have d: "bytes_at buf c (leb_digits m k)" using assms(1) uleb_bytes_digits [of k] by (simp add: m_def)
  have "length (uleb_bytes k) \<le> Suc 9" using assms(3) by (intro uleb_bytes_length) simp
  then have "7 * m < 64" using len by simp
  with line_uleb128_digits [OF d, of e 0 0] uleb_bytes_bound [of k] assms len
  show "line_read_uleb128 buf e c = Some (of_nat k, c + length (uleb_bytes k))"
    by (simp add: line_read_uleb128_def)
  from skip_leb_digits [OF d] assms(2) len
  show "skip_leb128 buf e c = Some (c + length (uleb_bytes k))" by simp
qed

lemma sign_extended:
  assumes "- (64 * 128 ^ m) \<le> i" and "i < 64 * 128 ^ m" and "m < 9"
  shows "(of_nat (nat (i mod 128 ^ Suc m)) :: u64)
       OR - (of_nat (nat (i mod 128 ^ Suc m)) AND push_bit (Suc m * 7 - 1) 1) = of_int i"
proof -
  define s where "s = 7 * m + 6"
  have p: "(64 :: int) * 128 ^ m = 2 ^ s" "(128 :: int) ^ Suc m = 2 ^ Suc s"
    by (simp_all add: s_def power_add power_mult)
  define v where "v = (of_nat (nat (i mod 128 ^ Suc m)) :: u64)"
  have v: "v = take_bit (Suc s) (of_int i)"
  proof -
    have "v = of_int (i mod 2 ^ Suc s)" unfolding v_def p by simp
    also have "\<dots> = of_int (take_bit (Suc s) i)" by (simp add: take_bit_eq_mod)
    also have "\<dots> = take_bit (Suc s) (of_int i)" by (simp add: take_bit_of_int)
    finally show ?thesis .
  qed
  have self: "signed_take_bit s i = i"
    using assms(1,2) p(1) by (simp add: signed_take_bit_int_eq_self_iff)
  have s: "s < 64" using assms(3) by (simp add: s_def)
  have sign: "bit i j = bit i s" if "s \<le> j" for j
    using bit_signed_take_bit_iff [of s i j] that by (simp add: self min_def)
  have mask: "v AND push_bit (Suc m * 7 - 1) 1 = (if bit i s then push_bit s 1 else 0)"
  proof (rule bit_eqI)
    fix j
    have "Suc m * 7 - 1 = s" by (simp add: s_def)
    then show "bit (v AND push_bit (Suc m * 7 - 1) 1) j = bit (if bit i s then push_bit s (1 :: u64) else 0) j"
      by (auto simp: v bit_simps)
  qed
  have "v OR - (if bit i s then push_bit s 1 else 0) = of_int i"
  proof (rule bit_word_eqI)
    fix j assume "j < LENGTH(64)"
    then have neg: "bit (- (2 ^ s) :: u64) j \<longleftrightarrow> s \<le> j"
      using bit_push_bit_iff [of s "- 1 :: u64" j] by (auto simp: push_bit_eq_mult)
    have low: "bit v j \<longleftrightarrow> j \<le> s \<and> bit i j"
      using \<open>j < LENGTH(64)\<close> by (auto simp: v bit_simps)
    show "bit (v OR - (if bit i s then push_bit s 1 else 0)) j = bit (of_int i :: u64) j"
      using sign [of j] \<open>j < LENGTH(64)\<close>
      by (cases "s \<le> j") (auto simp: bit_or_iff low neg bit_of_int_iff)
  qed
  then show ?thesis unfolding mask [unfolded v_def] v_def .
qed

lemma line_sleb128_bytes:
  assumes b: "bytes_at buf c (sleb_bytes i)" and e: "c + length (sleb_bytes i) \<le> e"
    and i: "- (2 ^ 62) \<le> i" "i < 2 ^ 62"
  shows "line_read_sleb128 buf e c = Some (of_int i, c + length (sleb_bytes i))"
proof -
  define m where "m = length (sleb_bytes i) - 1"
  have len: "length (sleb_bytes i) = Suc m" using leb_bytes_not_empty(2) [of i] by (simp add: m_def)
  have "length (sleb_bytes i) \<le> Suc 8" using i by (intro sleb_bytes_length) simp_all
  then have m: "m < 9" using len by simp
  define k where "k = nat (i mod 128 ^ Suc m)"
  have k: "k < 128 ^ Suc m" unfolding k_def by (simp add: nat_less_iff)
  also have "\<dots> \<le> (128::nat) ^ 9" using m by (intro power_increasing) simp_all
  finally have k63: "k < 2 ^ 63" by simp
  have d: "bytes_at buf c (leb_digits m k)"
    using b sleb_bytes_digits [of i, unfolded len diff_Suc_1, folded k_def] by metis
  have "line_read_uleb128 buf e c = Some (of_nat k, c + Suc m)"
    using line_uleb128_digits [OF d, of e 0 0] k k63 e len m by (simp add: line_read_uleb128_def)
  moreover have "\<not> 2 ^ 63 \<le> (of_nat k :: u64)"
  proof -
    have "unat (of_nat k :: u64) = k" using k63 by (subst unat_of_nat) simp
    with k63 show ?thesis by (simp add: word_le_nat_alt)
  qed
  moreover have "(of_nat k :: u64) OR - (of_nat k AND push_bit (Suc m * 7 - 1) 1) = of_int i"
    unfolding k_def using sleb_bytes_bound [of i] m by (intro sign_extended) (simp_all add: len)
  ultimately show ?thesis using m by (simp add: line_read_sleb128_def len Let_def)
qed

section \<open>The writer\<close>

text \<open>
  A label is an offset in a fragment; its value in the end is the offset plus the address the
  layout gave the fragment. Before the layout \<open>place\<close> is what the code adds to an offset, the
  sum of \<open>fr_address\<close> and \<open>fr_offset\<close> of the fragment.
\<close>

record label =
  lab_frag :: nat
  lab_ofs :: u64

definition final_value :: "(nat \<Rightarrow> u64) \<Rightarrow> label \<Rightarrow> u64" where
  "final_value fr_address lab = lab_ofs lab + fr_address (lab_frag lab)"

record dwarf2_line_info =
  loc_filenum :: u32
  loc_line :: u32
  loc_column :: u32
  loc_isa :: u32
  loc_flags :: u32

definition DWARF2_FLAG_IS_STMT :: u32 where "DWARF2_FLAG_IS_STMT = 1"
definition DWARF2_FLAG_BASIC_BLOCK :: u32 where "DWARF2_FLAG_BASIC_BLOCK = 2"
definition DWARF2_FLAG_PROLOGUE_END :: u32 where "DWARF2_FLAG_PROLOGUE_END = 4"
definition DWARF2_FLAG_EPILOGUE_BEGIN :: u32 where "DWARF2_FLAG_EPILOGUE_BEGIN = 8"

text \<open>
  What goes into the section: bytes, an address that is filled in later, a step whose size is
  known, and a step between two fragments.
\<close>

datatype piece =
  Bytes "u8 list"
| Address label
| Step u32 u64
| Between u32 label label

definition out_uleb128 :: "bool \<Rightarrow> u32 \<Rightarrow> u8 list" where
  "out_uleb128 arch64 value = output_leb128 arch64 (ucast value) False"

definition sizeof_address :: "bool \<Rightarrow> u32" where
  "sizeof_address arch64 = (if arch64 then 8 else 4)"

definition out_set_addr :: "bool \<Rightarrow> label \<Rightarrow> piece list" where
  "out_set_addr arch64 lab =
     [Bytes ([DW_LNS_extended_op] @ out_uleb128 arch64 (sizeof_address arch64 + 1) @ [DW_LNE_set_address]),
      Address lab]"

text \<open>The variables of \<open>process_entries\<close>.\<close>

record line_regs =
  rg_filenum :: u32
  rg_line :: u32
  rg_column :: u32
  rg_isa :: u32
  rg_flags :: u32
  rg_last :: "label option"

definition start_regs :: line_regs where
  "start_regs = \<lparr>rg_filenum = 1, rg_line = 1, rg_column = 0, rg_isa = 0,
     rg_flags = (if DWARF2_LINE_DEFAULT_IS_STMT \<noteq> 0 then DWARF2_FLAG_IS_STMT else 0), rg_last = None\<rparr>"

definition loc_ops :: "bool \<Rightarrow> line_regs \<Rightarrow> dwarf2_line_info \<Rightarrow> u8 list" where
  "loc_ops arch64 regs loc =
     (if rg_filenum regs \<noteq> loc_filenum loc
      then DW_LNS_set_file # out_uleb128 arch64 (loc_filenum loc) else [])
   @ (if rg_column regs \<noteq> loc_column loc
      then DW_LNS_set_column # out_uleb128 arch64 (loc_column loc) else [])
   @ (if rg_isa regs \<noteq> loc_isa loc
      then DW_LNS_set_isa # out_uleb128 arch64 (loc_isa loc) else [])
   @ (if (loc_flags loc XOR rg_flags regs) AND DWARF2_FLAG_IS_STMT \<noteq> 0
      then [DW_LNS_negate_stmt] else [])
   @ (if loc_flags loc AND DWARF2_FLAG_BASIC_BLOCK \<noteq> 0 then [DW_LNS_set_basic_block] else [])
   @ (if loc_flags loc AND DWARF2_FLAG_PROLOGUE_END \<noteq> 0 then [DW_LNS_set_prologue_end] else [])
   @ (if loc_flags loc AND DWARF2_FLAG_EPILOGUE_BEGIN \<noteq> 0 then [DW_LNS_set_epilogue_begin] else [])"

definition frag_ofs :: "(nat \<Rightarrow> u64) \<Rightarrow> label \<Rightarrow> u64" where
  "frag_ofs place lab = lab_ofs lab + place (lab_frag lab)"

definition entry_step :: "bool \<Rightarrow> (nat \<Rightarrow> u64) \<Rightarrow> label option \<Rightarrow> label \<Rightarrow> u32 \<Rightarrow> piece list" where
  "entry_step arch64 place last_lab lab line_delta =
     (case last_lab of
        None \<Rightarrow> out_set_addr arch64 lab @ [Step line_delta 0]
      | Some prev \<Rightarrow>
          if lab_frag lab = lab_frag prev
          then [Step line_delta (frag_ofs place lab - frag_ofs place prev)]
          else [Between line_delta lab prev])"

definition entry_regs :: "line_regs \<Rightarrow> label \<Rightarrow> dwarf2_line_info \<Rightarrow> line_regs" where
  "entry_regs regs lab loc =
     \<lparr>rg_filenum = loc_filenum loc, rg_line = loc_line loc, rg_column = loc_column loc,
      rg_isa = loc_isa loc,
      rg_flags = (if (loc_flags loc XOR rg_flags regs) AND DWARF2_FLAG_IS_STMT \<noteq> 0
                  then loc_flags loc else rg_flags regs),
      rg_last = Some lab\<rparr>"

fun entries_from :: "bool \<Rightarrow> (nat \<Rightarrow> u64) \<Rightarrow> line_regs \<Rightarrow> (label \<times> dwarf2_line_info) list
    \<Rightarrow> piece list \<times> line_regs" where
  "entries_from arch64 place regs [] = ([], regs)"
| "entries_from arch64 place regs ((lab, loc) # es) =
     (let ops = Bytes (loc_ops arch64 regs loc)
                # entry_step arch64 place (rg_last regs) lab (loc_line loc - rg_line regs);
          (rest, regs') = entries_from arch64 place (entry_regs regs lab loc) es
      in (ops @ rest, regs'))"

text \<open>
  The end of the sequence: \<open>seg_end\<close> is the last fragment of the section with what
  \<open>get_frag_fix\<close> returns for it.
\<close>

definition end_step :: "(nat \<Rightarrow> u64) \<Rightarrow> label option \<Rightarrow> label \<Rightarrow> piece list" where
  "end_step place last_lab seg_end =
     (case last_lab of
        Some prev \<Rightarrow>
          if lab_frag seg_end = lab_frag prev
          then [Step INT_MAX (lab_ofs seg_end - frag_ofs place prev)]
          else [Between INT_MAX seg_end prev]
      | None \<Rightarrow> [])"

definition process_entries ::
  "bool \<Rightarrow> (nat \<Rightarrow> u64) \<Rightarrow> label \<Rightarrow> (label \<times> dwarf2_line_info) list \<Rightarrow> piece list" where
  "process_entries arch64 place seg_end es =
     (let (ps, regs) = entries_from arch64 place start_regs es in ps @ end_step place (rg_last regs) seg_end)"

text \<open>
  The bytes of a piece once the fragments have their addresses. The step between fragments
  is sized with the final addresses in its last relaxation pass. Addresses are written in the
  byte order of the target.
\<close>

definition target_bytes :: "bool \<Rightarrow> nat \<Rightarrow> u64 \<Rightarrow> u8 list" where
  "target_bytes le n v = (if le then le_bytes n v else rev (le_bytes n v))"

fun piece_bytes :: "bool \<Rightarrow> bool \<Rightarrow> (nat \<Rightarrow> u64) \<Rightarrow> piece \<Rightarrow> line_error + u8 list" where
  "piece_bytes arch64 le fr_address (Bytes bs) = Inr bs"
| "piece_bytes arch64 le fr_address (Address lab) =
     Inr (target_bytes le (unat (sizeof_address arch64)) (final_value fr_address lab))"
| "piece_bytes arch64 le fr_address (Step l a) = out_inc_line_addr arch64 l a"
| "piece_bytes arch64 le fr_address (Between l to from) =
     (let a = final_value fr_address to - final_value fr_address from in
      dwarf2dbg_convert_frag arch64 a (snd (dwarf2dbg_relax_frag arch64 a (relax_inc_line_addr arch64 l))))"

fun pieces_bytes :: "bool \<Rightarrow> bool \<Rightarrow> (nat \<Rightarrow> u64) \<Rightarrow> piece list \<Rightarrow> line_error + u8 list" where
  "pieces_bytes arch64 le fr_address [] = Inr []"
| "pieces_bytes arch64 le fr_address (p # ps) =
     (case piece_bytes arch64 le fr_address p of
        Inl e \<Rightarrow> Inl e
      | Inr bs \<Rightarrow> (case pieces_bytes arch64 le fr_address ps of
          Inl e \<Rightarrow> Inl e | Inr cs \<Rightarrow> Inr (bs @ cs)))"

text \<open>The directories and files, and the whole of the section.\<close>

definition file_bytes :: "bool \<Rightarrow> (u8 list \<times> u32) option \<Rightarrow> u8 list" where
  "file_bytes arch64 f =
     (case f of None \<Rightarrow> []
      | Some (filename, dir) \<Rightarrow> filename @ [0] @ out_uleb128 arch64 dir
          @ out_uleb128 arch64 0 @ out_uleb128 arch64 0)"

definition out_file_list :: "bool \<Rightarrow> u8 list list \<Rightarrow> (u8 list \<times> u32) option list \<Rightarrow> u8 list" where
  "out_file_list arch64 dirs files =
     concat (map (\<lambda>d. d @ [0]) dirs) @ [0] @ concat (map (file_bytes arch64) files) @ [0]"

definition line_parameters :: "u8 list" where
  "line_parameters =
     [of_int DWARF2_LINE_MIN_INSN_LENGTH, of_int DWARF2_LINE_DEFAULT_IS_STMT, of_int DWARF2_LINE_BASE,
      of_int DWARF2_LINE_RANGE, of_int DWARF2_LINE_OPCODE_BASE,
      0, 1, 1, 1, 1, 0, 0, 0, 1, 0, 0, 1]"

definition empty_program :: "bool \<Rightarrow> u8 list" where
  "empty_program arch64 =
     (if arch64 then [0, 9, 2, 0, 0, 0, 0, 0, 0, 0, 0] else [0, 5, 2, 0, 0, 0, 0])
     @ [DW_LNS_extended_op, 1, DW_LNE_end_sequence]"

definition out_debug_line ::
  "bool \<Rightarrow> bool \<Rightarrow> (nat \<Rightarrow> u64) \<Rightarrow> (nat \<Rightarrow> u64) \<Rightarrow> u8 list list \<Rightarrow> (u8 list \<times> u32) option list
    \<Rightarrow> (label \<times> (label \<times> dwarf2_line_info) list) list \<Rightarrow> line_error + u8 list" where
  "out_debug_line arch64 le place fr_address dirs files segs =
     (case pieces_bytes arch64 le fr_address
             (concat (map (\<lambda>(seg_end, es). process_entries arch64 place seg_end es) segs)) of
        Inl e \<Rightarrow> Inl e
      | Inr program \<Rightarrow>
          let program = (if segs = [] then empty_program arch64 else program);
              prologue = line_parameters @ out_file_list arch64 dirs files;
              line_end = 4 + 2 + 4 + length prologue + length program;
              prologue_end = 4 + 2 + 4 + length prologue
          in Inr (target_bytes le 4 (of_nat line_end - 4) @ target_bytes le 2 2
                  @ target_bytes le 4 (of_nat prologue_end - (4 + 2 + 4)) @ prologue @ program))"

section \<open>Reading single opcodes\<close>

text \<open>The reader at a place of the program, with a state of its registers.\<close>

definition reader_at :: "line_reader_data \<Rightarrow> nat \<Rightarrow> line_info \<Rightarrow> line_reader_data" where
  "reader_at lnd c s = lnd\<lparr>cpos := c, cur := s\<rparr>"

text \<open>A reader whose header is the one the assembler writes.\<close>

definition our_header :: "u8 list \<Rightarrow> line_reader_data \<Rightarrow> bool" where
  "our_header buf lnd \<longleftrightarrow>
     minimum_instruction_length lnd = 1 \<and> line_base lnd = 0xfb \<and> line_range lnd = 14
     \<and> opcode_base lnd = 13
     \<and> bytes_at buf (standard_opcode_lengths lnd) [0, 1, 1, 1, 1, 0, 0, 0, 1, 0, 0, 1]
     \<and> lr_end lnd \<le> length buf \<and> length buf < 2 ^ 63"

lemma reader_at_simps [simp]:
  "cpos (reader_at lnd c s) = c" "cur (reader_at lnd c s) = s"
  "lr_end (reader_at lnd c s) = lr_end lnd" "lr_init (reader_at lnd c s) = lr_init lnd"
  "opcode_base (reader_at lnd c s) = opcode_base lnd" "line_range (reader_at lnd c s) = line_range lnd"
  "line_base (reader_at lnd c s) = line_base lnd" "little_endian (reader_at lnd c s) = little_endian lnd"
  "minimum_instruction_length (reader_at lnd c s) = minimum_instruction_length lnd"
  "standard_opcode_lengths (reader_at lnd c s) = standard_opcode_lengths lnd"
  "(reader_at lnd c s)\<lparr>cpos := c'\<rparr> = reader_at lnd c' s"
  "(reader_at lnd c s)\<lparr>cur := s'\<rparr> = reader_at lnd c s'"
  "our_header buf (reader_at lnd c s) = our_header buf lnd"
  by (simp_all add: reader_at_def our_header_def)

lemma our_header_fields:
  assumes "our_header buf lnd"
  shows "minimum_instruction_length lnd = 1" "line_base lnd = 0xfb" "line_range lnd = 14"
    "opcode_base lnd = 13" "lr_end lnd \<le> length buf" "length buf < 2 ^ 63"
    "bytes_at buf (standard_opcode_lengths lnd) [0, 1, 1, 1, 1, 0, 0, 0, 1, 0, 0, 1]"
  using assms by (simp_all only: our_header_def)

text \<open>Reading a standard opcode, at \<open>c\<close>, and going on behind it.\<close>

lemma standard_op_at:
  assumes "our_header buf lnd" and "bytes_at buf c (op # bs)" and "c < lr_end lnd" and "op < 13"
  shows "line_op buf (reader_at lnd c s) = standard_op buf op (reader_at lnd (Suc c) s)"
proof -
  have "\<not> 13 \<le> op" using assms(4) by (simp add: not_le)
  with our_header_fields [OF assms(1)] assms(2,3) show ?thesis
    by (simp add: line_op_def bytes_at_Cons Let_def)
qed

lemma run_on:
  assumes "line_op buf lnd = Some (None, lnd')" shows "run_ops buf lnd = run_ops buf lnd'"
  using assms by (simp add: run_ops.simps [of buf lnd])

lemma run_end:
  assumes "line_op buf lnd = Some (Some b, lnd')" shows "run_ops buf lnd = Some (b, lnd')"
  using assms by (simp add: run_ops.simps [of buf lnd])

lemma run_advance_line:
  assumes "our_header buf lnd" and "bytes_at buf c (DW_LNS_advance_line # sleb_bytes i)"
    and "c + Suc (length (sleb_bytes i)) \<le> lr_end lnd" and "- (2 ^ 62) \<le> i" "i < 2 ^ 62"
  shows "run_ops buf (reader_at lnd c s) =
    run_ops buf (reader_at lnd (c + Suc (length (sleb_bytes i))) (s\<lparr>li_line := li_line s + of_int i\<rparr>))"
proof (rule run_on)
  have "line_read_sleb128 buf (lr_end lnd) (Suc c) = Some (of_int i, Suc c + length (sleb_bytes i))"
    using assms by (intro line_sleb128_bytes) (simp_all add: bytes_at_Cons)
  with assms(3) show "line_op buf (reader_at lnd c s) =
      Some (None, reader_at lnd (c + Suc (length (sleb_bytes i))) (s\<lparr>li_line := li_line s + of_int i\<rparr>))"
    by (subst standard_op_at [OF assms(1,2)]) (simp_all add: standard_op_def dwarf_ops)
qed

lemma run_copy:
  assumes "our_header buf lnd" and "bytes_at buf c [DW_LNS_copy]" and "c < lr_end lnd"
  shows "run_ops buf (reader_at lnd c s) = Some (True, reader_at lnd (Suc c) s)"
  by (rule run_end, subst standard_op_at [OF assms(1,2)])
    (use assms(3) in \<open>simp_all add: standard_op_def dwarf_ops\<close>)

lemma run_const_add_pc:
  assumes "our_header buf lnd" and "bytes_at buf c [DW_LNS_const_add_pc]" and "c < lr_end lnd"
  shows "run_ops buf (reader_at lnd c s) = run_ops buf (reader_at lnd (Suc c) (s\<lparr>li_pc := li_pc s + 17\<rparr>))"
  by (rule run_on, subst standard_op_at [OF assms(1,2)])
    (use assms(1,3) in \<open>simp_all add: standard_op_def dwarf_ops our_header_def\<close>)

text \<open>The opcodes with one unsigned operand.\<close>

lemma run_uleb:
  assumes "our_header buf lnd" and "bytes_at buf c (op # uleb_bytes k)"
    and "c + Suc (length (uleb_bytes k)) \<le> lr_end lnd" and "k < 2 ^ 63"
  shows "op = DW_LNS_advance_pc \<Longrightarrow> run_ops buf (reader_at lnd c s) =
      run_ops buf (reader_at lnd (c + Suc (length (uleb_bytes k))) (s\<lparr>li_pc := li_pc s + of_nat k\<rparr>))"
    and "op = DW_LNS_set_file \<Longrightarrow> run_ops buf (reader_at lnd c s) =
      run_ops buf (reader_at lnd (c + Suc (length (uleb_bytes k))) (s\<lparr>li_file := of_nat k\<rparr>))"
    and "op = DW_LNS_set_column \<Longrightarrow> run_ops buf (reader_at lnd c s) =
      run_ops buf (reader_at lnd (c + Suc (length (uleb_bytes k))) (s\<lparr>li_col := of_nat k\<rparr>))"
proof -
  have read: "line_read_uleb128 buf (lr_end lnd) (Suc c) = Some (of_nat k, Suc c + length (uleb_bytes k))"
    using assms by (intro line_uleb128_bytes) (simp_all add: bytes_at_Cons)
  have "unat (of_nat k :: u64) = k" using assms(4) by (subst unat_of_nat) simp
  then have small: "(of_nat k :: u64) \<noteq> - 1"
    using assms(4) by (auto simp: unsigned_minus_1_eq_mask mask_eq_exp_minus_1)
  have header: "minimum_instruction_length lnd = 1" using assms(1) by (simp add: our_header_def)
  note at = standard_op_at [OF assms(1,2)]
  show "op = DW_LNS_advance_pc \<Longrightarrow> run_ops buf (reader_at lnd c s) =
      run_ops buf (reader_at lnd (c + Suc (length (uleb_bytes k))) (s\<lparr>li_pc := li_pc s + of_nat k\<rparr>))"
    by (rule run_on, subst at)
      (use assms(3) read small header in \<open>simp_all add: standard_op_def dwarf_ops\<close>)
  show "op = DW_LNS_set_file \<Longrightarrow> run_ops buf (reader_at lnd c s) =
      run_ops buf (reader_at lnd (c + Suc (length (uleb_bytes k))) (s\<lparr>li_file := of_nat k\<rparr>))"
    by (rule run_on, subst at) (use assms(3) read in \<open>simp_all add: standard_op_def dwarf_ops\<close>)
  show "op = DW_LNS_set_column \<Longrightarrow> run_ops buf (reader_at lnd c s) =
      run_ops buf (reader_at lnd (c + Suc (length (uleb_bytes k))) (s\<lparr>li_col := of_nat k\<rparr>))"
    by (rule run_on, subst at) (use assms(3) read in \<open>simp_all add: standard_op_def dwarf_ops\<close>)
qed

lemma run_special:
  assumes h: "our_header buf lnd" and b: "bytes_at buf c [of_nat (special_opcode l a)]"
    and c: "c < lr_end lnd" and l: "- 5 \<le> l" "l < 9" and n: "special_opcode l a \<le> 255"
  shows "run_ops buf (reader_at lnd c s) = Some (True, reader_at lnd (Suc c)
    (s\<lparr>li_line := li_line s + of_int l, li_pc := li_pc s + of_nat a\<rparr>))"
proof (rule run_end)
  define op where "op = (of_nat (special_opcode l a) :: u8)"
  have u: "unat op = special_opcode l a" unfolding op_def using n by (subst unat_of_nat) simp
  have le: "13 \<le> op" using l by (simp add: word_le_nat_alt u special_opcode_def)
  then have "unat (op - 13) = special_opcode l a - 13" by (simp add: unat_sub u)
  then have "uint (op - 13) = int (special_opcode l a - 13)" by (metis uint_nat)
  also have "\<dots> = l + 5 + 14 * int a" using l by (simp add: special_opcode_def)
  finally have d: "uint (op - 13) = l + 5 + 14 * int a" .
  have m: "uint (op - 13) mod 14 = l + 5" "uint (op - 13) div 14 = int a"
    unfolding d using l by simp_all
  have base: "sint (0xfb :: u8) = - 5" by simp
  show "line_op buf (reader_at lnd c s) = Some (Some True, reader_at lnd (Suc c)
    (s\<lparr>li_line := li_line s + of_int l, li_pc := li_pc s + of_nat a\<rparr>))"
    using b c le our_header_fields(1-4) [OF h]
    by (simp add: line_op_def bytes_at_Cons special_op_def m base flip: op_def)
qed

lemma line_uleb128_byte:
  assumes "fetch buf c = Some b" and "b < 0x80" and "c < e"
  shows "line_read_uleb128 buf e c = Some (ucast b, Suc c)"
proof -
  define k where "k = unat b"
  have k: "k < 128" "b = of_nat k" using assms(2) by (simp_all add: k_def word_less_nat_alt)
  then have "uleb_bytes k = [b]" by (simp add: uleb_bytes.simps [of k])
  moreover have "(ucast b :: u64) = of_nat k" by (simp add: k_def)
  ultimately show ?thesis
    using line_uleb128_bytes(1) [of buf c k e] assms(1,3) k(1) by (simp add: bytes_at_Cons)
qed

lemma run_end_sequence:
  assumes h: "our_header buf lnd" and b: "bytes_at buf c [DW_LNS_extended_op, 1, DW_LNE_end_sequence]"
    and c: "c + 3 \<le> lr_end lnd"
  shows "run_ops buf (reader_at lnd c s) = Some (True, reader_at lnd (c + 3) (s\<lparr>end_of_sequence := True\<rparr>))"
proof (rule run_end)
  from b have f: "fetch buf (Suc c) = Some 1" "fetch buf (Suc (Suc c)) = Some DW_LNE_end_sequence"
    by (simp_all add: bytes_at_Cons)
  have "line_read_uleb128 buf (lr_end lnd) (Suc c) = Some (1, Suc (Suc c))"
    using line_uleb128_byte [OF f(1), of "lr_end lnd"] c by simp
  moreover have "\<not> ptr_diff (lr_end lnd) (Suc (Suc c)) < 1"
    using ptr_diff_le [of "Suc (Suc c)" "lr_end lnd"] c our_header_fields(5,6) [OF h]
    by (simp add: word_less_nat_alt)
  ultimately have "extended_op buf (reader_at lnd (Suc c) s)
      = Some (Some True, reader_at lnd (c + 3) (s\<lparr>end_of_sequence := True\<rparr>))"
    using f(2) by (simp add: extended_op_def Let_def numeral_3_eq_3)
  then show "line_op buf (reader_at lnd c s)
      = Some (Some True, reader_at lnd (c + 3) (s\<lparr>end_of_sequence := True\<rparr>))"
    using c by (subst standard_op_at [OF h b]) (simp_all add: standard_op_def DW_LNS_extended_op_def)
qed

lemma fetch_bytes_at: "bytes_at buf c bs \<Longrightarrow> bs \<noteq> [] \<Longrightarrow> fetch_bytes buf c (length bs) = Some bs"
  using bytes_at_length [of buf c bs] by (auto simp: fetch_bytes_def bytes_at_def)

lemma of_le_bytes_low: "LENGTH('a) = 8 * n \<Longrightarrow> of_le_bytes (le_bytes n v) = (ucast (v :: u64) :: 'a::len word)"
proof (rule bit_word_eqI)
  fix k
  assume len: "LENGTH('a) = 8 * n" and k: "k < LENGTH('a)"
  then have "k div 8 < n" by simp
  then show "bit (of_le_bytes (le_bytes n v) :: 'a word) k = bit (ucast v :: 'a word) k"
    using k by (auto simp: bit_of_le_bytes nth_le_bytes bit_ucast_iff bit_drop_bit_eq dest: bit_imp_le_length)
qed

lemma read_word_target:
  "LENGTH('a) = 8 * n \<Longrightarrow> read_word le (target_bytes le n v) = (ucast v :: 'a::len word)"
  by (simp add: read_word_def target_bytes_def of_le_bytes_low)

text \<open>The addresses that come back: all of them for 64-bit targets, below \<open>2^31\<close> for the others.\<close>

definition addr_readable :: "bool \<Rightarrow> u64 \<Rightarrow> bool" where
  "addr_readable arch64 a \<longleftrightarrow> arch64 \<or> unat a < 2 ^ 31"

lemma run_set_address:
  assumes h: "our_header buf lnd" and le: "little_endian lnd = le"
    and b: "bytes_at buf c ([DW_LNS_extended_op] @ out_uleb128 arch64 (sizeof_address arch64 + 1)
        @ [DW_LNE_set_address] @ target_bytes le (unat (sizeof_address arch64)) v)"
    and e: "c + 3 + unat (sizeof_address arch64) \<le> lr_end lnd" and v: "addr_readable arch64 v"
  shows "run_ops buf (reader_at lnd c s) =
    run_ops buf (reader_at lnd (c + 3 + unat (sizeof_address arch64)) (s\<lparr>li_pc := v\<rparr>))"
proof (rule run_on)
  define n where "n = unat (sizeof_address arch64)"
  define z where "z = (if arch64 then 9 else 5 :: u8)"
  have n: "n = (if arch64 then 8 else 4)" by (simp add: n_def sizeof_address_def)
  have uleb: "out_uleb128 arch64 (sizeof_address arch64 + 1) = [z]"
    by (simp add: out_uleb128_def sizeof_address_def z_def output_leb128_address addr_ok_def
        uleb_bytes.simps)
  have b': "bytes_at buf c (DW_LNS_extended_op # z # DW_LNE_set_address # target_bytes le n v)"
    using b unfolding uleb n_def by simp
  then have f: "fetch buf (Suc c) = Some z" "fetch buf (Suc (Suc c)) = Some DW_LNE_set_address"
    "bytes_at buf (Suc (Suc (Suc c))) (target_bytes le n v)" by (simp_all add: bytes_at_Cons)
  have len: "length (target_bytes le n v) = n" by (simp add: target_bytes_def)
  have fb: "fetch_bytes buf (Suc (Suc (Suc c))) n = Some (target_bytes le n v)"
  proof -
    have "0 < n" by (simp add: n)
    with len have "target_bytes le n v \<noteq> []" by auto
    from fetch_bytes_at [OF f(3) this] show ?thesis unfolding len .
  qed
  have z: "z < 0x80" "unat (ucast z :: u64) = Suc n" "(ucast z :: u64) \<noteq> 0"
    by (simp_all add: z_def n)
  have read: "line_read_uleb128 buf (lr_end lnd) (Suc c) = Some (ucast z, Suc (Suc c))"
    using line_uleb128_byte [OF f(1) z(1), of "lr_end lnd"] e by simp
  have size: "\<not> ptr_diff (lr_end lnd) (Suc (Suc c)) < ucast z"
    using ptr_diff_le [of "Suc (Suc c)" "lr_end lnd"] e our_header_fields(5,6) [OF h] z(2)
    by (simp add: word_less_nat_alt flip: n_def)
  have place: "c + 3 + n = Suc (Suc c) + unat (ucast z :: u64)" using z(2) by simp
  have "extended_op buf (reader_at lnd (Suc c) s) = Some (None, reader_at lnd (c + 3 + n) (s\<lparr>li_pc := v\<rparr>))"
  proof (cases arch64)
    case True
    then have "read_64 le buf (Suc (Suc (Suc c))) = Some v"
      using fb n read_word_target [of 8 le v, where 'a = 64] by (simp add: read_64_def)
    with True read size f(2) le show ?thesis
      unfolding place by (simp add: extended_op_def Let_def z_def dwarf_ops)
  next
    case False
    from v False have "\<not> 0x80000000 \<le> (ucast v :: u32)"
      by (simp add: addr_readable_def word_le_nat_alt unsigned_ucast_eq take_bit_nat_eq_self)
    from positive_length(1) [OF this] v False have "(scast (ucast v :: u32) :: u64) = v"
      by (simp add: addr_readable_def unsigned_ucast_eq take_bit_nat_eq_self word_unat_eq_iff)
    moreover have "read_32 le buf (Suc (Suc (Suc c))) = Some (ucast v)"
      using fb n False read_word_target [of 4 le v, where 'a = 32] by (simp add: read_32_def)
    ultimately show ?thesis using False read size f(2) le
      unfolding place by (simp add: extended_op_def Let_def z_def dwarf_ops)
  qed
  then show "line_op buf (reader_at lnd c s) =
      Some (None, reader_at lnd (c + 3 + unat (sizeof_address arch64)) (s\<lparr>li_pc := v\<rparr>))"
    using e by (subst standard_op_at [OF h b']) (simp_all add: standard_op_def DW_LNS_extended_op_def n_def)
qed

section \<open>Reading pieces of a program\<close>

text \<open>
  Some bytes take the registers from one state to another, or do so and return a line,
  wherever they are in the program.
\<close>

definition runs :: "u8 list \<Rightarrow> line_reader_data \<Rightarrow> u8 list \<Rightarrow> line_info \<Rightarrow> line_info \<Rightarrow> bool" where
  "runs buf lnd bs s t \<longleftrightarrow> (\<forall>c. bytes_at buf c bs \<longrightarrow> c + length bs \<le> lr_end lnd \<longrightarrow>
     run_ops buf (reader_at lnd c s) = run_ops buf (reader_at lnd (c + length bs) t))"

definition yields :: "u8 list \<Rightarrow> line_reader_data \<Rightarrow> u8 list \<Rightarrow> line_info \<Rightarrow> line_info \<Rightarrow> bool" where
  "yields buf lnd bs s t \<longleftrightarrow> (\<forall>c. bytes_at buf c bs \<longrightarrow> c + length bs \<le> lr_end lnd \<longrightarrow>
     run_ops buf (reader_at lnd c s) = Some (True, reader_at lnd (c + length bs) t))"

lemma runs_Nil [simp, intro]: "runs buf lnd [] s s"
  by (simp add: runs_def)

lemma runs_append: "runs buf lnd xs s t \<Longrightarrow> runs buf lnd ys t u \<Longrightarrow> runs buf lnd (xs @ ys) s u"
  by (simp add: runs_def bytes_at_append add.assoc)

lemma runs_yields: "runs buf lnd xs s t \<Longrightarrow> yields buf lnd ys t u \<Longrightarrow> yields buf lnd (xs @ ys) s u"
  by (simp add: runs_def yields_def bytes_at_append add.assoc)

lemma out_uleb128_bytes: "out_uleb128 arch64 v = uleb_bytes (unat v)"
proof -
  have "unat v < 2 ^ 32" using unat_less_numeral [of v] by simp
  then have u: "unat (ucast v :: u64) = unat v" by (simp add: unsigned_ucast_eq take_bit_nat_eq_self)
  with \<open>unat v < 2 ^ 32\<close> have "addr_ok arch64 (ucast v)" by (simp add: addr_ok_def)
  then show ?thesis by (simp add: out_uleb128_def output_leb128_address u)
qed

lemma runs_uleb:
  assumes h: "our_header buf lnd"
  shows "runs buf lnd (DW_LNS_set_file # out_uleb128 arch64 v) s (s\<lparr>li_file := ucast v\<rparr>)"
    and "runs buf lnd (DW_LNS_set_column # out_uleb128 arch64 v) s (s\<lparr>li_col := ucast v\<rparr>)"
    and "k < 2 ^ 63 \<Longrightarrow> runs buf lnd (DW_LNS_advance_pc # uleb_bytes k) s (s\<lparr>li_pc := li_pc s + of_nat k\<rparr>)"
proof -
  have v: "unat v < 2 ^ 63" using unat_less_numeral [of v] by simp
  have u: "(of_nat (unat v) :: u64) = ucast v" by (simp only: of_nat_unat)
  show "runs buf lnd (DW_LNS_set_file # out_uleb128 arch64 v) s (s\<lparr>li_file := ucast v\<rparr>)"
    unfolding runs_def out_uleb128_bytes using run_uleb(2) [OF h _ _ v refl] by (auto simp: u)
  show "runs buf lnd (DW_LNS_set_column # out_uleb128 arch64 v) s (s\<lparr>li_col := ucast v\<rparr>)"
    unfolding runs_def out_uleb128_bytes using run_uleb(3) [OF h _ _ v refl] by (auto simp: u)
  show "k < 2 ^ 63 \<Longrightarrow> runs buf lnd (DW_LNS_advance_pc # uleb_bytes k) s (s\<lparr>li_pc := li_pc s + of_nat k\<rparr>)"
    unfolding runs_def using run_uleb(1) [OF h _ _ _ refl] by auto
qed

text \<open>The opcodes the reader does not know, which it skips with the lengths of the header.\<close>

lemma runs_skipped:
  assumes h: "our_header buf lnd" and op: "op \<in> {6, 7, 10, 11}"
  shows "runs buf lnd [op] s s"
proof -
  have zero: "fetch buf (standard_opcode_lengths lnd + (unat op - 1)) = Some 0"
    using op bytes_at_nth [OF our_header_fields(7) [OF h], of "unat op - 1"] by auto
  have "run_ops buf (reader_at lnd c s) = run_ops buf (reader_at lnd (Suc c) s)"
    if b: "bytes_at buf c [op]" and c: "Suc c \<le> lr_end lnd" for c
  proof (rule run_on, subst standard_op_at [OF h b])
    show "c < lr_end lnd" using c by simp
    show "op < 13" using op by auto
    show "standard_op buf op (reader_at lnd (Suc c) s) = Some (None, reader_at lnd (Suc c) s)"
      using op zero by (auto simp: standard_op_def dwarf_ops)
  qed
  then show ?thesis by (simp add: runs_def)
qed

lemma runs_set_isa:
  assumes h: "our_header buf lnd"
  shows "runs buf lnd (DW_LNS_set_isa # out_uleb128 arch64 v) s s"
proof -
  have one: "fetch buf (standard_opcode_lengths lnd + (unat DW_LNS_set_isa - 1)) = Some 1"
    using bytes_at_nth [OF our_header_fields(7) [OF h], of 11] by (simp add: DW_LNS_set_isa_def)
  have v: "unat v < 2 ^ 64" using unat_less_numeral [of v] by simp
  have "run_ops buf (reader_at lnd c s) = run_ops buf (reader_at lnd (c + Suc (length (uleb_bytes (unat v)))) s)"
    if b: "bytes_at buf c (DW_LNS_set_isa # uleb_bytes (unat v))"
      and c: "c + Suc (length (uleb_bytes (unat v))) \<le> lr_end lnd" for c
  proof (rule run_on, subst standard_op_at [OF h b])
    show "c < lr_end lnd" "DW_LNS_set_isa < 13" using c by (simp_all add: DW_LNS_set_isa_def)
    have "skip_leb128 buf (lr_end lnd) (Suc c) = Some (c + Suc (length (uleb_bytes (unat v))))"
      using line_uleb128_bytes(2) [of buf "Suc c" "unat v" "lr_end lnd"] b c v by (simp add: bytes_at_Cons)
    with one show "standard_op buf DW_LNS_set_isa (reader_at lnd (Suc c) s)
        = Some (None, reader_at lnd (c + Suc (length (uleb_bytes (unat v)))) s)"
      by (simp add: standard_op_def dwarf_ops)
  qed
  then show ?thesis by (simp add: runs_def out_uleb128_bytes)
qed

lemma runs_if: "(P \<Longrightarrow> runs buf lnd xs s t) \<Longrightarrow> (\<not> P \<Longrightarrow> s = t) \<Longrightarrow> runs buf lnd (if P then xs else []) s t"
  by auto

lemma runs_optional:
  assumes "our_header buf lnd"
  shows "runs buf lnd (if P then DW_LNS_set_isa # out_uleb128 arch64 v else []) s s"
    and "op \<in> {6, 7, 10, 11} \<Longrightarrow> runs buf lnd (if P then [op] else []) s s"
  using runs_set_isa [OF assms] runs_skipped [OF assms] by simp_all

lemma runs_loc_ops:
  assumes h: "our_header buf lnd"
    and s: "li_file s = ucast (rg_filenum regs)" "li_col s = ucast (rg_column regs)"
  shows "runs buf lnd (loc_ops arch64 regs loc) s
    (s\<lparr>li_file := ucast (loc_filenum loc), li_col := ucast (loc_column loc)\<rparr>)"
  unfolding loc_ops_def
proof (intro runs_append)
  show "runs buf lnd (if rg_filenum regs \<noteq> loc_filenum loc
      then DW_LNS_set_file # out_uleb128 arch64 (loc_filenum loc) else []) s
    (s\<lparr>li_file := ucast (loc_filenum loc)\<rparr>)"
    using s by (intro runs_if runs_uleb h) simp_all
  show "runs buf lnd (if rg_column regs \<noteq> loc_column loc
      then DW_LNS_set_column # out_uleb128 arch64 (loc_column loc) else [])
    (s\<lparr>li_file := ucast (loc_filenum loc)\<rparr>)
    (s\<lparr>li_file := ucast (loc_filenum loc), li_col := ucast (loc_column loc)\<rparr>)"
    using s by (intro runs_if runs_uleb h) simp_all
qed (rule runs_optional [OF h]; simp add: dwarf_ops)+

text \<open>One step of the assembler is one line of the reader.\<close>

lemma runs_const_add_pc: "our_header buf lnd \<Longrightarrow> runs buf lnd [DW_LNS_const_add_pc] s (s\<lparr>li_pc := li_pc s + 17\<rparr>)"
  using run_const_add_pc [of buf lnd] by (auto simp: runs_def)

lemma yields_copy: "our_header buf lnd \<Longrightarrow> yields buf lnd [DW_LNS_copy] s s"
  using run_copy [of buf lnd] by (auto simp: yields_def)

lemma yields_special:
  "our_header buf lnd \<Longrightarrow> - 5 \<le> l \<Longrightarrow> l < 9 \<Longrightarrow> special_opcode l a \<le> 255
    \<Longrightarrow> yields buf lnd [of_nat (special_opcode l a)] s
      (s\<lparr>li_line := li_line s + of_int l, li_pc := li_pc s + of_nat a\<rparr>)"
  using run_special [of buf lnd] by (auto simp: yields_def)

lemma yields_end_sequence:
  "our_header buf lnd \<Longrightarrow> yields buf lnd [DW_LNS_extended_op, 1, DW_LNE_end_sequence] s (s\<lparr>end_of_sequence := True\<rparr>)"
  using run_end_sequence [of buf lnd] by (auto simp: yields_def numeral_3_eq_3)

lemma runs_line_prefix:
  assumes h: "our_header buf lnd"
  shows "runs buf lnd (line_prefix l) s (s\<lparr>li_line := li_line s + of_int (sint l - line_rest l)\<rparr>)"
proof -
  have l: "- (2 ^ 62) \<le> sint l" "sint l < 2 ^ 62" using sint_ge [of l] sint_lt [of l] by simp_all
  have "runs buf lnd (DW_LNS_advance_line # sleb_bytes (sint l)) s (s\<lparr>li_line := li_line s + of_int (sint l)\<rparr>)"
    unfolding runs_def using run_advance_line [OF h _ _ l] by auto
  then show ?thesis by (simp add: line_prefix_def line_rest_def)
qed

lemma runs_advance_pc:
  assumes "our_header buf lnd" and "addr_ok arch64 a" and "unat a < 2 ^ 63"
  shows "runs buf lnd (DW_LNS_advance_pc # output_leb128 arch64 a False) s (s\<lparr>li_pc := li_pc s + a\<rparr>)"
  using runs_uleb(3) [OF assms(1), of "unat a" s] assms(3) by (simp add: output_leb128_address [OF assms(2)])

lemma yields_line_tail:
  assumes h: "our_header buf lnd" and a: "addr_ok arch64 a" "unat a < 2 ^ 63"
    and l: "- 5 \<le> l" "l < 9" and copy: "copy \<Longrightarrow> l = 0"
  shows "yields buf lnd (line_tail arch64 copy l (unat a)) s
    (s\<lparr>li_line := li_line s + of_int l, li_pc := li_pc s + a\<rparr>)"
proof -
  consider "l = 0" "a = 0" | "\<not> (l = 0 \<and> unat a = 0)" "special_opcode l (unat a) \<le> 255"
    | "\<not> (l = 0 \<and> unat a = 0)" "\<not> special_opcode l (unat a) \<le> 255" "special_opcode l (unat a - 17) \<le> 255"
    | "\<not> (l = 0 \<and> unat a = 0)" "\<not> special_opcode l (unat a) \<le> 255" "\<not> special_opcode l (unat a - 17) \<le> 255"
    using unat_eq_0 [of a] by blast
  then show ?thesis
  proof cases
    case 1
    with yields_copy [OF h] show ?thesis by (simp add: line_tail_def)
  next
    case 2
    then have "line_tail arch64 copy l (unat a) = [of_nat (special_opcode l (unat a))]"
      by (simp only: line_tail_def if_True if_False)
    with yields_special [OF h l 2(2), of s] show ?thesis by simp
  next
    case 3
    then have t: "line_tail arch64 copy l (unat a)
        = [DW_LNS_const_add_pc] @ [of_nat (special_opcode l (unat a - 17))]"
      by (simp only: line_tail_def if_True if_False) simp
    have "17 \<le> unat a" using special_near(2) [OF l(2), of "unat a"] 3(2) by linarith
    then have "(of_nat (unat a - 17) :: u64) = a - 17" by simp
    then show ?thesis
      unfolding t using runs_yields [OF runs_const_add_pc [OF h] yields_special [OF h l 3(3)], of s] by simp
  next
    case 4
    have t: "line_tail arch64 copy l (unat a) = (DW_LNS_advance_pc # output_leb128 arch64 a False)
        @ [if copy then DW_LNS_copy else of_nat (special_opcode l 0)]"
      using 4 by (simp only: line_tail_def if_False) simp
    have "yields buf lnd [if copy then DW_LNS_copy else of_nat (special_opcode l 0)]
      (s\<lparr>li_pc := li_pc s + a\<rparr>) (s\<lparr>li_line := li_line s + of_int l, li_pc := li_pc s + a\<rparr>)"
      using copy yields_copy [OF h, of "s\<lparr>li_pc := li_pc s + a\<rparr>"] special_near(2) [OF l(2), of 0]
        yields_special [OF h l, of 0 "s\<lparr>li_pc := li_pc s + a\<rparr>"]
      by (cases copy) simp_all
    then show ?thesis unfolding t by (rule runs_yields [OF runs_advance_pc [OF h a]])
  qed
qed

lemma yields_step:
  assumes h: "our_header buf lnd" and a: "addr_ok arch64 a" "unat a < 2 ^ 63"
  shows "yields buf lnd (inc_line_addr_bytes arch64 l a) s
    (if l = INT_MAX then s\<lparr>li_pc := li_pc s + a, end_of_sequence := True\<rparr>
     else s\<lparr>li_line := li_line s + of_int (sint l), li_pc := li_pc s + a\<rparr>)"
proof (cases "l = INT_MAX")
  case True
  have "runs buf lnd (if a = 17 then [DW_LNS_const_add_pc] else DW_LNS_advance_pc # output_leb128 arch64 a False)
      s (s\<lparr>li_pc := li_pc s + a\<rparr>)"
    using runs_const_add_pc [OF h, of s] runs_advance_pc [OF h a, of s] by simp
  from runs_yields [OF this yields_end_sequence [OF h]] True show ?thesis
    unfolding inc_line_addr_bytes_cases by simp
next
  case False
  have "line_prefix l \<noteq> [] \<Longrightarrow> line_rest l = 0"
    by (auto simp: line_prefix_def line_rest_def split: if_splits)
  from yields_line_tail [OF h a line_rest_range this, of "line_prefix l \<noteq> []"
      "s\<lparr>li_line := li_line s + of_int (sint l - line_rest l)\<rparr>"]
  have "yields buf lnd (line_tail arch64 (line_prefix l \<noteq> []) (line_rest l) (unat a))
     (s\<lparr>li_line := li_line s + of_int (sint l - line_rest l)\<rparr>)
     (s\<lparr>li_line := li_line s + of_int (sint l), li_pc := li_pc s + a\<rparr>)"
    by simp
  from runs_yields [OF runs_line_prefix [OF h] this] False show ?thesis
    unfolding inc_line_addr_bytes_cases by simp
qed

section \<open>Reading a sequence\<close>

primrec read_rows :: "u8 list \<Rightarrow> nat \<Rightarrow> line_reader_data \<Rightarrow> (line_info list \<times> line_reader_data) option" where
  "read_rows buf 0 lnd = Some ([], lnd)"
| "read_rows buf (Suc n) lnd = do {
     (ok, lnd') \<leftarrow> next_state buf lnd;
     if ok then do { (rows, lnd'') \<leftarrow> read_rows buf n lnd'; Some (cur lnd' # rows, lnd'') } else None
   }"

lemma read_rows_append:
  "read_rows buf m lnd = Some (xs, lnd') \<Longrightarrow> read_rows buf n lnd' = Some (ys, lnd'')
    \<Longrightarrow> read_rows buf (m + n) lnd = Some (xs @ ys, lnd'')"
  by (induction m arbitrary: lnd xs) (auto simp: bind_eq_Some_conv split: if_splits)

text \<open>The line an entry stands for, and the end of its sequence.\<close>

definition row_of :: "(nat \<Rightarrow> u64) \<Rightarrow> label \<times> dwarf2_line_info \<Rightarrow> line_info" where
  "row_of fr_address e = (case e of (lab, loc) \<Rightarrow>
     \<lparr>li_file = ucast (loc_filenum loc), li_line = ucast (loc_line loc), li_col = ucast (loc_column loc),
      li_pc = final_value fr_address lab, end_of_sequence = False\<rparr>)"

definition end_row :: "(nat \<Rightarrow> u64) \<Rightarrow> label \<Rightarrow> label \<times> dwarf2_line_info \<Rightarrow> line_info" where
  "end_row fr_address seg_end e =
     (row_of fr_address e)\<lparr>li_pc := final_value fr_address seg_end, end_of_sequence := True\<rparr>"

text \<open>
  What the entries of a section have to satisfy: there is one, the lines are those of a file
  with less than \<open>2^31\<close> lines, and the addresses do not go back and are not too big to be read.
\<close>

definition addr_small :: "bool \<Rightarrow> u64 \<Rightarrow> bool" where
  "addr_small arch64 a \<longleftrightarrow> unat a < (if arch64 then 2 ^ 63 else 2 ^ 31)"

definition seg_ok ::
  "bool \<Rightarrow> (nat \<Rightarrow> u64) \<Rightarrow> (nat \<Rightarrow> u64) \<Rightarrow> label \<Rightarrow> (label \<times> dwarf2_line_info) list \<Rightarrow> bool" where
  "seg_ok arch64 place fr_address seg_end es \<longleftrightarrow>
     es \<noteq> [] \<and> place (lab_frag seg_end) = 0
     \<and> list_all (\<lambda>(lab, loc). 0 < loc_line loc \<and> loc_line loc < 0x80000000) es
     \<and> list_all (\<lambda>lab. addr_small arch64 (final_value fr_address lab)) (map fst es @ [seg_end])
     \<and> sorted (map (final_value fr_address) (map fst es @ [seg_end]))"

lemma line_delta:
  assumes "0 < l" "l < 0x80000000" "0 < m" "m < (0x80000000 :: u32)"
  shows "m - l \<noteq> INT_MAX" and "(ucast l :: u64) + of_int (sint (m - l)) = ucast m"
proof -
  define x y where "x = uint l" and "y = uint m"
  have xy: "0 < x" "x < 2 ^ 31" "0 < y" "y < 2 ^ 31"
    using assms by (simp_all add: word_less_def x_def y_def)
  have lm: "l = of_int x" "m = of_int y" by (simp_all add: x_def y_def)
  have "m - l = of_int (y - x)" by (simp add: lm)
  moreover have "sint (of_int (y - x) :: u32) = y - x"
    using xy by (simp only: signed_of_int) (simp add: signed_take_bit_int_eq_self_iff)
  ultimately have d: "sint (m - l) = y - x" by simp
  show "m - l \<noteq> INT_MAX"
  proof
    assume "m - l = INT_MAX"
    then have "sint (m - l) = 2 ^ 31 - 1" by (simp add: INT_MAX_def)
    with d xy show False by simp
  qed
  have "(ucast l :: u64) = of_int x" "(ucast m :: u64) = of_int y" by (simp_all add: x_def y_def)
  then show "(ucast l :: u64) + of_int (sint (m - l)) = ucast m" unfolding d by simp
qed

lemma addr_delta:
  assumes "addr_small arch64 a" "addr_small arch64 b" "a \<le> b"
  shows "addr_ok arch64 (b - a)" and "unat (b - a) < 2 ^ 63" and "\<not> sint (b - a) < 0"
proof -
  have u: "unat (b - a) = unat b - unat a" using assms(3) by (simp add: unat_sub word_le_nat_alt)
  then show "addr_ok arch64 (b - a)" using assms(2) by (cases arch64) (auto simp: addr_ok_def addr_small_def)
  show s: "unat (b - a) < 2 ^ 63" using u assms(2) by (auto simp: addr_small_def split: if_splits)
  then have "\<not> bit (unat (b - a)) 63" by (simp add: bit_iff_odd)
  then have "\<not> bit (b - a) 63" by (simp add: bit_simps)
  then show "\<not> sint (b - a) < 0" by (simp add: neg_iff_bit)
qed

lemma pieces_bytes_append:
  "pieces_bytes arch64 le fr xs = Inr a \<Longrightarrow> pieces_bytes arch64 le fr ys = Inr b
    \<Longrightarrow> pieces_bytes arch64 le fr (xs @ ys) = Inr (a @ b)"
  by (induction xs arbitrary: a) (auto split: sum.splits)

text \<open>A step within a fragment and one between fragments are converted to the same bytes.\<close>

lemma step_bytes:
  assumes "\<not> sint (final_value fr to - final_value fr from) < 0"
  shows "lab_frag to = lab_frag from \<Longrightarrow>
      piece_bytes arch64 le fr (Step l (frag_ofs place to - frag_ofs place from))
        = Inr (inc_line_addr_bytes arch64 l (final_value fr to - final_value fr from))"
    and "piece_bytes arch64 le fr (Between l to from)
        = Inr (inc_line_addr_bytes arch64 l (final_value fr to - final_value fr from))"
proof -
  have "lab_frag to = lab_frag from \<Longrightarrow>
      frag_ofs place to - frag_ofs place from = final_value fr to - final_value fr from"
    by (simp add: frag_ofs_def final_value_def)
  with assms show "lab_frag to = lab_frag from \<Longrightarrow>
      piece_bytes arch64 le fr (Step l (frag_ofs place to - frag_ofs place from))
        = Inr (inc_line_addr_bytes arch64 l (final_value fr to - final_value fr from))"
    by (simp add: out_inc_line_addr_def emit_inc_line_addr_def size_inc_line_addr_length)
  show "piece_bytes arch64 le fr (Between l to from)
        = Inr (inc_line_addr_bytes arch64 l (final_value fr to - final_value fr from))"
    using assms size_inc_line_addr_max [of arch64 l "final_value fr to - final_value fr from"]
    by (simp add: Let_def dwarf2dbg_relax_frag_def dwarf2dbg_estimate_size_before_relax_def
        relax_inc_line_addr_def dwarf2dbg_convert_frag_def line_params emit_inc_line_addr_def
        size_inc_line_addr_length)
qed

text \<open>The registers of the reader that stand for the variables of the writer.\<close>

definition in_sync :: "(nat \<Rightarrow> u64) \<Rightarrow> line_regs \<Rightarrow> line_info \<Rightarrow> bool" where
  "in_sync fr regs s \<longleftrightarrow>
     li_file s = ucast (rg_filenum regs) \<and> li_line s = ucast (rg_line regs)
     \<and> li_col s = ucast (rg_column regs) \<and> \<not> end_of_sequence s
     \<and> (\<forall>lab. rg_last regs = Some lab \<longrightarrow> li_pc s = final_value fr lab)"

lemma start_in_sync: "in_sync fr start_regs init_state"
  by (simp add: in_sync_def start_regs_def init_state_def)

lemma row_in_sync: "in_sync fr (entry_regs regs lab loc) (row_of fr (lab, loc))"
  by (simp add: in_sync_def entry_regs_def row_of_def)

lemma row_of_update:
  "\<not> end_of_sequence s \<Longrightarrow> s\<lparr>li_file := ucast (loc_filenum loc), li_col := ucast (loc_column loc),
     li_line := ucast (loc_line loc), li_pc := final_value fr lab\<rparr> = row_of fr (lab, loc)"
  by (cases s) (simp add: row_of_def)

lemma entry_bytes:
  assumes line: "0 < rg_line regs" "rg_line regs < 0x80000000" "0 < loc_line loc" "loc_line loc < 0x80000000"
    and small: "addr_small arch64 (final_value fr lab)"
    and last: "\<And>prev. rg_last regs = Some prev \<Longrightarrow>
      addr_small arch64 (final_value fr prev) \<and> final_value fr prev \<le> final_value fr lab"
  obtains bs where
    "pieces_bytes arch64 le fr (Bytes (loc_ops arch64 regs loc)
       # entry_step arch64 place (rg_last regs) lab (loc_line loc - rg_line regs)) = Inr bs"
    "\<And>buf lnd s. our_header buf lnd \<Longrightarrow> little_endian lnd = le \<Longrightarrow> in_sync fr regs s
      \<Longrightarrow> yields buf lnd bs s (row_of fr (lab, loc))"
proof -
  note go = that
  define d where "d = loc_line loc - rg_line regs"
  note d = line_delta [OF line, folded d_def]
  define ops where "ops = loc_ops arch64 regs loc"
  define t where "t s = s\<lparr>li_file := ucast (loc_filenum loc), li_col := ucast (loc_column loc)\<rparr>"
    for s :: line_info
  have ops: "runs buf lnd ops s (t s)" if "our_header buf lnd" "in_sync fr regs s" for buf lnd s
    unfolding ops_def t_def using that by (intro runs_loc_ops) (simp_all add: in_sync_def)
  show ?thesis
  proof (cases "rg_last regs")
    case None
    define ab where "ab = [DW_LNS_extended_op] @ out_uleb128 arch64 (sizeof_address arch64 + 1)
        @ [DW_LNE_set_address] @ target_bytes le (unat (sizeof_address arch64)) (final_value fr lab)"
    have len: "length ab = 3 + unat (sizeof_address arch64)"
      by (simp add: ab_def target_bytes_def out_uleb128_bytes sizeof_address_def uleb_bytes.simps)
    have readable: "addr_readable arch64 (final_value fr lab)"
      using small by (simp add: addr_readable_def addr_small_def split: if_splits)
    have "pieces_bytes arch64 le fr (Bytes ops # entry_step arch64 place (rg_last regs) lab d)
        = Inr (ops @ ab @ inc_line_addr_bytes arch64 d 0)"
      by (simp add: None entry_step_def out_set_addr_def ab_def out_inc_line_addr_def
          emit_inc_line_addr_def size_inc_line_addr_length)
    moreover have "yields buf lnd (ops @ ab @ inc_line_addr_bytes arch64 d 0) s (row_of fr (lab, loc))"
      if h: "our_header buf lnd" and le: "little_endian lnd = le" and sync: "in_sync fr regs s" for buf lnd s
    proof (intro runs_yields [OF ops [OF h sync]] runs_yields)
      show "runs buf lnd ab (t s) ((t s)\<lparr>li_pc := final_value fr lab\<rparr>)"
        unfolding runs_def len using run_set_address [OF h le _ _ readable, folded ab_def]
        by (auto simp: add.assoc)
      have "addr_ok arch64 0" by (simp add: addr_ok_def)
      from yields_step [OF h this, of d "(t s)\<lparr>li_pc := final_value fr lab\<rparr>"]
      show "yields buf lnd (inc_line_addr_bytes arch64 d 0) ((t s)\<lparr>li_pc := final_value fr lab\<rparr>)
          (row_of fr (lab, loc))"
        using d sync row_of_update [of s] by (simp add: t_def in_sync_def)
    qed
    ultimately show ?thesis using go unfolding ops_def d_def by blast
  next
    case (Some prev)
    define a where "a = final_value fr lab - final_value fr prev"
    from last [OF Some] have prev: "addr_small arch64 (final_value fr prev)"
      "final_value fr prev \<le> final_value fr lab" by simp_all
    note a = addr_delta [OF prev(1) small prev(2), folded a_def]
    have "pieces_bytes arch64 le fr (Bytes ops # entry_step arch64 place (rg_last regs) lab d)
        = Inr (ops @ inc_line_addr_bytes arch64 d a)"
      using step_bytes [OF a(3) [unfolded a_def]]
      by (auto simp: Some entry_step_def simp flip: a_def simp del: piece_bytes.simps(3,4))
    moreover have "yields buf lnd (ops @ inc_line_addr_bytes arch64 d a) s (row_of fr (lab, loc))"
      if h: "our_header buf lnd" and sync: "in_sync fr regs s" for buf lnd s
    proof (rule runs_yields [OF ops [OF h sync]])
      show "yields buf lnd (inc_line_addr_bytes arch64 d a) (t s) (row_of fr (lab, loc))"
        using yields_step [OF h a(1,2), of d "t s"] d sync Some
          row_of_update [of s]
        by (simp add: t_def in_sync_def a_def)
    qed
    ultimately show ?thesis using go unfolding ops_def d_def by blast
  qed
qed

lemma next_state_yields:
  assumes "yields buf lnd bs (if end_of_sequence s then init_state else s) t"
    and "bytes_at buf c bs" and "c + length bs \<le> lr_end lnd"
  shows "next_state buf (reader_at lnd c s) = Some (True, reader_at lnd (c + length bs) t)"
  using assms by (auto simp: next_state_def yields_def split: if_splits)

lemma read_rows_Suc_at:
  assumes "yields buf lnd bs (if end_of_sequence s then init_state else s) t"
    and "bytes_at buf c bs" and "c + length bs \<le> lr_end lnd"
    and "read_rows buf n (reader_at lnd (c + length bs) t) = Some (rows, lnd')"
  shows "read_rows buf (Suc n) (reader_at lnd c s) = Some (t # rows, lnd')"
  using next_state_yields [OF assms(1-3)] assms(4) by simp

text \<open>The labels from the last one before some entries on.\<close>

definition labels_from :: "line_regs \<Rightarrow> (label \<times> dwarf2_line_info) list \<Rightarrow> label list" where
  "labels_from regs es = (case rg_last regs of None \<Rightarrow> [] | Some prev \<Rightarrow> [prev]) @ map fst es"

definition lines_ok :: "(label \<times> dwarf2_line_info) list \<Rightarrow> bool" where
  "lines_ok es \<longleftrightarrow> list_all (\<lambda>(lab, loc). 0 < loc_line loc \<and> loc_line loc < 0x80000000) es"

definition addrs_ok :: "bool \<Rightarrow> (nat \<Rightarrow> u64) \<Rightarrow> label list \<Rightarrow> bool" where
  "addrs_ok arch64 fr labs \<longleftrightarrow>
     list_all (\<lambda>lab. addr_small arch64 (final_value fr lab)) labs \<and> sorted (map (final_value fr) labs)"

lemma entries_read:
  assumes "lines_ok es" and "addrs_ok arch64 fr (labels_from regs es)"
    and "0 < rg_line regs" and "rg_line regs < 0x80000000"
  shows "\<exists>bs. pieces_bytes arch64 le fr (fst (entries_from arch64 place regs es)) = Inr bs
    \<and> (\<forall>buf lnd s c. our_header buf lnd \<longrightarrow> little_endian lnd = le
        \<longrightarrow> in_sync fr regs s \<longrightarrow> bytes_at buf c bs \<longrightarrow> c + length bs \<le> lr_end lnd \<longrightarrow>
        read_rows buf (length es) (reader_at lnd c s) = Some (map (row_of fr) es,
          reader_at lnd (c + length bs) (if es = [] then s else row_of fr (last es))))"
  using assms
proof (induction es arbitrary: regs)
  case Nil
  then show ?case by simp
next
  case (Cons e es)
  obtain lab loc where e: "e = (lab, loc)" by (cases e)
  from Cons.prems e have line: "0 < loc_line loc" "loc_line loc < 0x80000000" "lines_ok es"
    and small: "addr_small arch64 (final_value fr lab)"
    and last: "\<And>prev. rg_last regs = Some prev \<Longrightarrow>
      addr_small arch64 (final_value fr prev) \<and> final_value fr prev \<le> final_value fr lab"
    by (auto simp: lines_ok_def addrs_ok_def labels_from_def split: option.splits)
  obtain b where b: "pieces_bytes arch64 le fr (Bytes (loc_ops arch64 regs loc)
       # entry_step arch64 place (rg_last regs) lab (loc_line loc - rg_line regs)) = Inr b"
    and yields: "\<And>buf lnd s. our_header buf lnd \<Longrightarrow> little_endian lnd = le \<Longrightarrow> in_sync fr regs s
      \<Longrightarrow> yields buf lnd b s (row_of fr (lab, loc))"
    using entry_bytes [OF Cons.prems(3,4) line(1,2) small last] by blast
  define regs' where "regs' = entry_regs regs lab loc"
  have "addrs_ok arch64 fr (labels_from regs' es)" "0 < rg_line regs'" "rg_line regs' < 0x80000000"
    using Cons.prems e line
    by (auto simp: regs'_def entry_regs_def labels_from_def addrs_ok_def split: option.splits)
  from Cons.IH [OF line(3) this] obtain bs where
    bs: "pieces_bytes arch64 le fr (fst (entries_from arch64 place regs' es)) = Inr bs"
    and rows: "\<And>buf lnd s c. our_header buf lnd \<Longrightarrow> little_endian lnd = le
        \<Longrightarrow> in_sync fr regs' s \<Longrightarrow> bytes_at buf c bs \<Longrightarrow> c + length bs \<le> lr_end lnd \<Longrightarrow>
        read_rows buf (length es) (reader_at lnd c s) = Some (map (row_of fr) es,
          reader_at lnd (c + length bs) (if es = [] then s else row_of fr (last es)))"
    by blast
  have "pieces_bytes arch64 le fr (fst (entries_from arch64 place regs (e # es))) = Inr (b @ bs)"
    using pieces_bytes_append [OF b bs] by (simp add: e Let_def regs'_def case_prod_beta)
  moreover have "read_rows buf (length (e # es)) (reader_at lnd c s) = Some (map (row_of fr) (e # es),
      reader_at lnd (c + length (b @ bs)) (if e # es = [] then s else row_of fr (last (e # es))))"
    if h: "our_header buf lnd" "little_endian lnd = le" and sync: "in_sync fr regs s"
      and at: "bytes_at buf c (b @ bs)" and fits: "c + length (b @ bs) \<le> lr_end lnd" for buf lnd s c
  proof -
    have "yields buf lnd b (if end_of_sequence s then init_state else s) (row_of fr e)"
      using yields [OF h sync] sync e by (simp add: in_sync_def)
    from read_rows_Suc_at [OF this, of c "length es"]
      rows [OF h row_in_sync [of fr regs lab loc, folded regs'_def e], of "c + length b"] at fits
    show ?thesis by (auto simp: bytes_at_append add.assoc)
  qed
  ultimately show ?case by blast
qed

lemma entries_regs:
  "rg_last (snd (entries_from arch64 place regs es)) = (if es = [] then rg_last regs else Some (fst (last es)))"
  by (induction es arbitrary: regs) (auto simp: Let_def case_prod_beta entry_regs_def)

lemma sequence_read:
  assumes ok: "seg_ok arch64 place fr seg_end es"
  shows "\<exists>bs. pieces_bytes arch64 le fr (process_entries arch64 place seg_end es) = Inr bs
    \<and> (\<forall>buf lnd s c. our_header buf lnd \<longrightarrow> little_endian lnd = le
        \<longrightarrow> (if end_of_sequence s then init_state else s) = init_state
        \<longrightarrow> bytes_at buf c bs \<longrightarrow> c + length bs \<le> lr_end lnd \<longrightarrow>
        read_rows buf (length es + 1) (reader_at lnd c s)
          = Some (map (row_of fr) es @ [end_row fr seg_end (last es)],
              reader_at lnd (c + length bs) (end_row fr seg_end (last es))))"
proof -
  from ok have es: "es \<noteq> []" and place: "place (lab_frag seg_end) = 0" and lines: "lines_ok es"
    by (simp_all add: seg_ok_def lines_ok_def)
  define prev where "prev = fst (last es)"
  have prev_in: "prev \<in> set (map fst es)" using es by (simp add: prev_def)
  have addrs: "addrs_ok arch64 fr (labels_from start_regs es)"
    using ok by (simp add: seg_ok_def addrs_ok_def labels_from_def start_regs_def sorted_append)
  have small: "addr_small arch64 (final_value fr prev)" "addr_small arch64 (final_value fr seg_end)"
    and le: "final_value fr prev \<le> final_value fr seg_end"
    using ok prev_in by (auto simp: seg_ok_def sorted_append list_all_iff)
  define a where "a = final_value fr seg_end - final_value fr prev"
  note a = addr_delta [OF small le, folded a_def]
  have last_regs: "rg_last (snd (entries_from arch64 place start_regs es)) = Some prev"
    using es by (simp add: entries_regs prev_def)
  have start_line: "0 < rg_line start_regs" "rg_line start_regs < 0x80000000"
    by (simp_all add: start_regs_def)
  define eb where "eb = inc_line_addr_bytes arch64 INT_MAX a"
  have "pieces_bytes arch64 le fr (end_step place (Some prev) seg_end) = Inr eb"
    using step_bytes(1) [OF a(3) [unfolded a_def], of arch64 le INT_MAX place] place
      step_bytes(2) [OF a(3) [unfolded a_def], of arch64 le INT_MAX]
    by (cases "lab_frag seg_end = lab_frag prev")
      (simp_all add: end_step_def eb_def a_def frag_ofs_def del: piece_bytes.simps(3,4))
  moreover from entries_read [OF lines addrs start_line, of le place] obtain bs where
    bs: "pieces_bytes arch64 le fr (fst (entries_from arch64 place start_regs es)) = Inr bs"
    and rows: "\<And>buf lnd s c. our_header buf lnd \<Longrightarrow> little_endian lnd = le
        \<Longrightarrow> in_sync fr start_regs s \<Longrightarrow> bytes_at buf c bs \<Longrightarrow> c + length bs \<le> lr_end lnd \<Longrightarrow>
        read_rows buf (length es) (reader_at lnd c s) = Some (map (row_of fr) es,
          reader_at lnd (c + length bs) (if es = [] then s else row_of fr (last es)))"
    by blast
  ultimately have "pieces_bytes arch64 le fr (process_entries arch64 place seg_end es) = Inr (bs @ eb)"
    using pieces_bytes_append last_regs by (simp add: process_entries_def Let_def case_prod_beta)
  moreover have "read_rows buf (length es + 1) (reader_at lnd c s)
          = Some (map (row_of fr) es @ [end_row fr seg_end (last es)],
              reader_at lnd (c + length (bs @ eb)) (end_row fr seg_end (last es)))"
    if h: "our_header buf lnd" "little_endian lnd = le"
      and s: "(if end_of_sequence s then init_state else s) = init_state"
      and at: "bytes_at buf c (bs @ eb)" and fits: "c + length (bs @ eb) \<le> lr_end lnd" for buf lnd s c
  proof -
    have "next_state buf (reader_at lnd c s) = next_state buf (reader_at lnd c init_state)"
      using s by (auto simp: next_state_def split: if_splits)
    then have start: "read_rows buf (length es) (reader_at lnd c s) = read_rows buf (length es) (reader_at lnd c init_state)"
      using es by (cases es) simp_all
    have first: "read_rows buf (length es) (reader_at lnd c s)
        = Some (map (row_of fr) es, reader_at lnd (c + length bs) (row_of fr (last es)))"
      using rows [OF h start_in_sync, of c] at fits es by (simp add: start bytes_at_append)
    have pc: "li_pc (row_of fr (last es)) + a = final_value fr seg_end" "\<not> end_of_sequence (row_of fr (last es))"
      by (simp_all add: row_of_def prev_def a_def case_prod_beta)
    have "yields buf lnd eb (row_of fr (last es)) (end_row fr seg_end (last es))"
      using yields_step [OF h(1) a(1,2), of INT_MAX "row_of fr (last es)"]
      by (simp add: eb_def end_row_def pc)
    then have "read_rows buf 1 (reader_at lnd (c + length bs) (row_of fr (last es)))
        = Some ([end_row fr seg_end (last es)], reader_at lnd (c + length bs + length eb) (end_row fr seg_end (last es)))"
      using next_state_yields [of buf lnd eb "row_of fr (last es)"] at fits pc(2)
      by (simp add: bytes_at_append add.assoc)
    from read_rows_append [OF first this] show ?thesis by (simp add: add.assoc)
  qed
  ultimately show ?thesis by blast
qed

end
