(* ===== verification/Line_Roundtrip.thy ===== *)
theory Line_Roundtrip
  imports Line_Table
begin

text \<open>
  From the line entries of an assembly to the lines a debugger reads: \<open>line_open\<close> accepts the
  section that \<open>out_debug_line\<close> writes, finds its files, and the lines that follow are the
  entries with their final addresses.
\<close>

section \<open>The tables of names\<close>

text \<open>Where the entries of a table begin, and the names that end at their terminator.\<close>

fun offsets :: "nat \<Rightarrow> u8 list list \<Rightarrow> nat list" where
  "offsets c [] = []"
| "offsets c (x # xs) = c # offsets (c + length x) xs"

lemma length_offsets [simp]: "length (offsets c xs) = length xs"
  by (induction xs arbitrary: c) simp_all

definition name_ok :: "u8 list \<Rightarrow> bool" where
  "name_ok d \<longleftrightarrow> d \<noteq> [] \<and> 0 \<notin> set d"

lemma takeWhile_name: "0 \<notin> set d \<Longrightarrow> takeWhile (\<lambda>b. b \<noteq> (0 :: u8)) (d @ 0 # rest) = d"
  by (induction d) auto

lemma memchr_name:
  assumes "bytes_at buf c (d @ [0])" and "0 \<notin> set d" and "c + length d < e" and "e < 2 ^ 63"
  shows "memchr buf 0 c (unat (ptr_diff e c)) = Some (Some (c + length d))"
proof -
  from assms(1) obtain rest where r: "drop c buf = d @ 0 # rest" by (auto simp: bytes_at_def)
  have "unat (ptr_diff e c) = e - c" using assms(3,4) by (intro ptr_diff_le) simp_all
  moreover have "c + length d < length buf" using bytes_at_length [OF assms(1)] by simp
  ultimately show ?thesis using assms(3) by (simp add: memchr_def Let_def r takeWhile_name [OF assms(2)])
qed

lemma strlen_name:
  assumes "bytes_at buf c (d @ [0])" and "0 \<notin> set d"
  shows "strlen buf c = Some (length d)" and "take (length d) (drop c buf) = d"
proof -
  from assms(1) obtain rest where r: "drop c buf = d @ 0 # rest" by (auto simp: bytes_at_def)
  moreover have "c + length d < length buf" using bytes_at_length [OF assms(1)] by simp
  ultimately show "strlen buf c = Some (length d)" "take (length d) (drop c buf) = d"
    by (simp_all add: strlen_def Let_def takeWhile_name [OF assms(2)])
qed

lemma name_first:
  assumes "bytes_at buf c (d @ xs)" and "name_ok d"
  shows "\<exists>b. fetch buf c = Some b \<and> b \<noteq> 0 \<and> hd d = b"
  using assms by (cases d) (auto simp: name_ok_def bytes_at_Cons)

definition dir_bytes :: "u8 list \<Rightarrow> u8 list" where
  "dir_bytes d = d @ [0]"

lemma length_dir_bytes [simp]: "length (dir_bytes d) = Suc (length d)"
  by (simp add: dir_bytes_def)

lemma dir_bytes_at: "bytes_at buf c (dir_bytes d @ xs) \<longleftrightarrow>
    bytes_at buf c (d @ [0]) \<and> bytes_at buf (Suc (c + length d)) xs"
  by (auto simp: dir_bytes_def bytes_at_append bytes_at_Cons)

lemma count_dirs_at:
  "list_all name_ok dirs \<Longrightarrow> bytes_at buf c (concat (map dir_bytes dirs) @ [0])
    \<Longrightarrow> c + length (concat (map dir_bytes dirs)) < e \<Longrightarrow> e < 2 ^ 63
    \<Longrightarrow> count_dirs buf e c n = Some (Some (c + length (concat (map dir_bytes dirs)), n + length dirs))"
proof (induction dirs arbitrary: c n)
  case Nil
  then show ?case by (simp add: count_dirs.simps [of buf e c n] bytes_at_Cons)
next
  case (Cons d dirs)
  then have at: "bytes_at buf c (d @ [0])" "bytes_at buf (Suc (c + length d)) (concat (map dir_bytes dirs) @ [0])"
    by (simp_all add: dir_bytes_at)
  from name_first [OF at(1)] Cons.prems(1) obtain b where b: "fetch buf c = Some b" "b \<noteq> 0" by auto
  have "memchr buf 0 c (unat (ptr_diff e c)) = Some (Some (c + length d))"
    using Cons.prems by (intro memchr_name [OF at(1)]) (simp_all add: name_ok_def)
  moreover have "count_dirs buf e (Suc (c + length d)) (Suc n)
      = Some (Some (Suc (c + length d) + length (concat (map dir_bytes dirs)), Suc n + length dirs))"
    using Cons.prems by (intro Cons.IH at(2)) simp_all
  ultimately show ?case
    using b Cons.prems(3) by (simp add: count_dirs.simps [of buf e c n])
qed

lemma collect_dirs_at:
  "list_all name_ok dirs \<Longrightarrow> bytes_at buf c (concat (map dir_bytes dirs) @ [0])
    \<Longrightarrow> c + length (concat (map dir_bytes dirs)) < e \<Longrightarrow> e < 2 ^ 63
    \<Longrightarrow> collect_dirs buf e names c
      = Some (c + length (concat (map dir_bytes dirs)), names @ offsets c (map dir_bytes dirs))"
proof (induction dirs arbitrary: c names)
  case Nil
  then show ?case by (simp add: collect_dirs.simps [of buf e names c] bytes_at_Cons)
next
  case (Cons d dirs)
  then have at: "bytes_at buf c (d @ [0])" "bytes_at buf (Suc (c + length d)) (concat (map dir_bytes dirs) @ [0])"
    by (simp_all add: dir_bytes_at)
  from name_first [OF at(1)] Cons.prems(1) obtain b where b: "fetch buf c = Some b" "b \<noteq> 0" by auto
  have "memchr buf 0 c (unat (ptr_diff e c)) = Some (Some (c + length d))"
    using Cons.prems by (intro memchr_name [OF at(1)]) (simp_all add: name_ok_def)
  moreover have "collect_dirs buf e (names @ [c]) (Suc (c + length d))
      = Some (Suc (c + length d) + length (concat (map dir_bytes dirs)),
          (names @ [c]) @ offsets (Suc (c + length d)) (map dir_bytes dirs))"
    using Cons.prems by (intro Cons.IH at(2)) simp_all
  ultimately show ?case
    using b by (simp add: collect_dirs.simps [of buf e names c])
qed

text \<open>A file: its name, and three numbers behind it.\<close>

definition file_ok :: "(u8 list \<times> u32) option \<Rightarrow> bool" where
  "file_ok f \<longleftrightarrow> (case f of None \<Rightarrow> False | Some (filename, dir) \<Rightarrow> name_ok filename)"

lemma skip_leb128_at:
  assumes "bytes_at buf c (out_uleb128 arch64 v)" and "c + length (out_uleb128 arch64 v) \<le> e"
  shows "skip_leb128 buf e c = Some (c + length (out_uleb128 arch64 v))"
proof -
  have "unat v < 2 ^ 64" using unat_less_numeral [of v] by simp
  with assms line_uleb128_bytes(2) [of buf c "unat v" e] show ?thesis by (simp add: out_uleb128_bytes)
qed

lemma skip_entry_at:
  assumes at: "bytes_at buf c (file_bytes arch64 (Some (name, dir)))"
    and fits: "c + length (file_bytes arch64 (Some (name, dir))) \<le> e"
  shows "skip_entry buf e (c + length name) = Some (c + length (file_bytes arch64 (Some (name, dir))))"
proof -
  define u z where "u = out_uleb128 arch64 dir" and "z = out_uleb128 arch64 0"
  from at have "bytes_at buf (Suc (c + length name)) u" "bytes_at buf (Suc (c + length name) + length u) z"
    "bytes_at buf (Suc (c + length name) + length u + length z) z"
    by (simp_all add: file_bytes_def bytes_at_append bytes_at_Cons u_def z_def add.assoc)
  then show ?thesis
    using skip_leb128_at [of buf _ arch64 dir e, folded u_def] skip_leb128_at [of buf _ arch64 0 e, folded z_def]
      fits by (simp add: skip_entry_def file_bytes_def flip: u_def z_def)
qed

abbreviation entries_bytes :: "bool \<Rightarrow> (u8 list \<times> u32) option list \<Rightarrow> u8 list" where
  "entries_bytes arch64 files \<equiv> concat (map (file_bytes arch64) files)"

lemma file_bytes_at:
  assumes "file_ok f" and "bytes_at buf c (file_bytes arch64 f @ xs)" and "c + length (file_bytes arch64 f) < e"
    and "e < 2 ^ 63"
  obtains b q where "fetch buf c = Some b" "b \<noteq> 0"
    "memchr buf 0 c (unat (ptr_diff e c)) = Some (Some q)"
    "skip_entry buf e q = Some (c + length (file_bytes arch64 f))" "c < e"
proof -
  note go = that
  from assms(1) obtain name dir where f: "f = Some (name, dir)" "name_ok name"
    by (auto simp: file_ok_def split: option.splits)
  from assms(2) f(1) have at: "bytes_at buf c (name @ [0])" "bytes_at buf c (file_bytes arch64 (Some (name, dir)))"
    by (simp_all add: file_bytes_def bytes_at_append bytes_at_Cons)
  from name_first [OF at(1) f(2)] obtain b where b: "fetch buf c = Some b" "b \<noteq> 0" by blast
  have len: "length name < length (file_bytes arch64 (Some (name, dir)))" by (simp add: file_bytes_def)
  have "memchr buf 0 c (unat (ptr_diff e c)) = Some (Some (c + length name))"
    using assms(3,4) f len by (intro memchr_name [OF at(1)]) (simp_all add: name_ok_def)
  moreover have "skip_entry buf e (c + length name) = Some (c + length (file_bytes arch64 f))"
    using skip_entry_at [OF at(2)] assms(3) f(1) by simp
  ultimately show ?thesis using go b assms(3) by simp
qed

lemma count_files_at:
  "list_all file_ok files \<Longrightarrow> bytes_at buf c (entries_bytes arch64 files @ [0])
    \<Longrightarrow> c + length (entries_bytes arch64 files) < e \<Longrightarrow> e < 2 ^ 63
    \<Longrightarrow> count_files buf e c n = Some (Some (c + length (entries_bytes arch64 files), n + length files))"
proof (induction files arbitrary: c n)
  case Nil
  then show ?case by (simp add: count_files.simps [of buf e c n] bytes_at_Cons)
next
  case (Cons f files)
  then have f: "file_ok f" and at: "bytes_at buf c (file_bytes arch64 f @ entries_bytes arch64 files @ [0])"
    by simp_all
  from Cons.prems(3) have "c + length (file_bytes arch64 f) < e" by simp
  from file_bytes_at [OF f at this Cons.prems(4)] obtain b q where b: "fetch buf c = Some b" "b \<noteq> 0"
    "memchr buf 0 c (unat (ptr_diff e c)) = Some (Some q)"
    "skip_entry buf e q = Some (c + length (file_bytes arch64 f))" "c < e" by blast
  have "count_files buf e (c + length (file_bytes arch64 f)) (Suc n)
      = Some (Some (c + length (file_bytes arch64 f) + length (entries_bytes arch64 files), Suc n + length files))"
    using Cons.prems at by (intro Cons.IH) (simp_all add: bytes_at_append)
  then show ?case using b by (simp add: count_files.simps [of buf e c n] add.assoc)
qed

lemma collect_files_at:
  "list_all file_ok files \<Longrightarrow> bytes_at buf c (entries_bytes arch64 files @ [0])
    \<Longrightarrow> c + length (entries_bytes arch64 files) < e \<Longrightarrow> e < 2 ^ 63
    \<Longrightarrow> collect_files buf e names c = Some (c + length (entries_bytes arch64 files),
        names @ offsets c (map (file_bytes arch64) files))"
proof (induction files arbitrary: c names)
  case Nil
  then show ?case by (simp add: collect_files.simps [of buf e names c] bytes_at_Cons)
next
  case (Cons f files)
  then have f: "file_ok f" and at: "bytes_at buf c (file_bytes arch64 f @ entries_bytes arch64 files @ [0])"
    by simp_all
  from Cons.prems(3) have "c + length (file_bytes arch64 f) < e" by simp
  from file_bytes_at [OF f at this Cons.prems(4)] obtain b q where b: "fetch buf c = Some b" "b \<noteq> 0"
    "memchr buf 0 c (unat (ptr_diff e c)) = Some (Some q)"
    "skip_entry buf e q = Some (c + length (file_bytes arch64 f))" "c < e" by blast
  have "collect_files buf e (names @ [c]) (c + length (file_bytes arch64 f))
      = Some (c + length (file_bytes arch64 f) + length (entries_bytes arch64 files),
          (names @ [c]) @ offsets (c + length (file_bytes arch64 f)) (map (file_bytes arch64) files))"
    using Cons.prems at by (intro Cons.IH) (simp_all add: bytes_at_append)
  then show ?case using b by (simp add: collect_files.simps [of buf e names c] add.assoc)
qed

text \<open>Both tables.\<close>

lemma open_tables_at:
  assumes dirs: "list_all name_ok dirs" and files: "list_all file_ok files"
    and at: "bytes_at buf c (out_file_list arch64 dirs files)"
    and e: "e = c + length (out_file_list arch64 dirs files)" "e < 2 ^ 63"
  shows "open_tables buf e c = Some (Some (offsets c (map dir_bytes dirs),
    offsets (c + length (concat (map dir_bytes dirs)) + 1) (map (file_bytes arch64) files)))"
proof -
  define ds fs where "ds = concat (map dir_bytes dirs)" and "fs = entries_bytes arch64 files"
  have list: "out_file_list arch64 dirs files = (ds @ [0]) @ (fs @ [0])"
    by (simp add: out_file_list_def ds_def fs_def dir_bytes_def [abs_def])
  define c1 where "c1 = c + length ds + 1"
  from at have at: "bytes_at buf c (ds @ [0])" "bytes_at buf c1 (fs @ [0])"
    unfolding list bytes_at_append [of _ _ "ds @ [0]"] c1_def by simp_all
  have len: "c + length ds < e" "c1 + length fs < e"
    unfolding e(1) list c1_def by simp_all
  have "count_dirs buf e c 0 = Some (Some (c + length ds, length dirs))"
    using count_dirs_at [OF dirs at(1) [unfolded ds_def] len(1) [unfolded ds_def] e(2), of 0]
    by (simp add: ds_def)
  moreover have "collect_dirs buf e [] c = Some (c + length ds, offsets c (map dir_bytes dirs))"
    using collect_dirs_at [OF dirs at(1) [unfolded ds_def] len(1) [unfolded ds_def] e(2), of "[]"]
    by (simp add: ds_def)
  moreover have "count_files buf e c1 0 = Some (Some (c1 + length fs, length files))"
    using count_files_at [OF files at(2) [unfolded fs_def] len(2) [unfolded fs_def] e(2), of 0]
    by (simp add: fs_def)
  moreover have "collect_files buf e [] c1 = Some (c1 + length fs, offsets c1 (map (file_bytes arch64) files))"
    using collect_files_at [OF files at(2) [unfolded fs_def] len(2) [unfolded fs_def] e(2), of "[]"]
    by (simp add: fs_def)
  ultimately show ?thesis
    using len by (simp add: open_tables_def Let_def c1_def flip: ds_def)
qed

section \<open>Opening the section\<close>

text \<open>The section as its header, its prologue and its program.\<close>

definition line_section :: "bool \<Rightarrow> u8 list \<Rightarrow> u8 list \<Rightarrow> u8 list" where
  "line_section le prologue program =
     target_bytes le 4 (of_nat (4 + 2 + 4 + length prologue + length program) - 4) @ target_bytes le 2 2
     @ target_bytes le 4 (of_nat (4 + 2 + 4 + length prologue) - (4 + 2 + 4)) @ prologue @ program"

lemma length_target_bytes [simp]: "length (target_bytes le n v) = n"
  by (simp add: target_bytes_def)

lemma length_line_section: "length (line_section le prologue program) = 10 + length prologue + length program"
  by (simp add: line_section_def)

text \<open>The parts of the section, and the numbers in its header.\<close>

lemma line_section_parts:
  fixes le prologue program
  defines "tab \<equiv> line_section le prologue program"
  assumes small: "length tab < 2 ^ 31"
  shows "read_32 le tab 0 = Some (of_nat (6 + length prologue + length program))"
    and "read_16 le tab 4 = Some 2"
    and "read_32 le tab 6 = Some (of_nat (length prologue))"
    and "bytes_at tab 10 (prologue @ program)"
proof -
  define n1 n2 where "n1 = 6 + length prologue + length program" and "n2 = length prologue"
  have lens: "(of_nat (4 + 2 + 4 + length prologue + length program) - 4 :: u64) = of_nat n1"
    "(of_nat (4 + 2 + 4 + length prologue) - (4 + 2 + 4) :: u64) = of_nat n2"
    by (simp_all add: n1_def n2_def)
  have tab: "tab = target_bytes le 4 (of_nat n1) @ target_bytes le 2 2 @ target_bytes le 4 (of_nat n2)
      @ prologue @ program"
    unfolding tab_def line_section_def lens ..
  have "bytes_at tab 0 tab" unfolding bytes_at_def by (intro exI [of _ "[]"]) simp
  then have at: "bytes_at tab 0 (target_bytes le 4 (of_nat n1))" "bytes_at tab 4 (target_bytes le 2 2)"
    "bytes_at tab 6 (target_bytes le 4 (of_nat n2))" "bytes_at tab 10 (prologue @ program)"
    by (subst (asm) (2) tab, simp add: bytes_at_append)+
  have u: "(ucast (of_nat n :: u64) :: u32) = of_nat n" for n
    by (rule bit_word_eqI) (simp add: bit_simps bit_of_nat_iff)
  have f: "fetch_bytes tab 0 4 = Some (target_bytes le 4 (of_nat n1))"
    "fetch_bytes tab 4 2 = Some (target_bytes le 2 2)"
    "fetch_bytes tab 6 4 = Some (target_bytes le 4 (of_nat n2))"
    using fetch_bytes_at [OF at(1)] fetch_bytes_at [OF at(2)] fetch_bytes_at [OF at(3)]
    by (simp_all flip: length_0_conv)
  show "read_32 le tab 0 = Some (of_nat (6 + length prologue + length program))"
    using f(1) read_word_target [of 4 le "of_nat n1", where 'a = 32] u [of n1]
    by (simp add: read_32_def n1_def)
  show "read_16 le tab 4 = Some 2"
    using f(2) read_word_target [of 2 le 2, where 'a = 16] by (simp add: read_16_def)
  show "read_32 le tab 6 = Some (of_nat (length prologue))"
    using f(3) read_word_target [of 4 le "of_nat n2", where 'a = 32] u [of n2]
    by (simp add: read_32_def n2_def)
  show "bytes_at tab 10 (prologue @ program)" by (rule at(4))
qed

lemma small_length:
  assumes "n < 2 ^ 31"
  shows "(scast (of_nat n :: u32) :: u64) = of_nat n" and "unat (of_nat n :: u64) = n"
proof -
  have u: "unat (of_nat n :: u32) = n" using assms by (subst unat_of_nat) simp
  with assms have "\<not> 0x80000000 \<le> (of_nat n :: u32)" by (simp add: word_le_nat_alt)
  from positive_length(1) [OF this] u have "unat (scast (of_nat n :: u32) :: u64) = n" by simp
  then show "(scast (of_nat n :: u32) :: u64) = of_nat n" by (metis of_nat_unat ucast_id)
  show "unat (of_nat n :: u64) = n" using assms by (subst unat_of_nat) simp
qed

text \<open>The reader \<open>line_open\<close> returns.\<close>

definition opened_reader ::
  "bool \<Rightarrow> bool \<Rightarrow> u8 list list \<Rightarrow> (u8 list \<times> u32) option list \<Rightarrow> nat \<Rightarrow> line_reader_data" where
  "opened_reader arch64 le dirs files n =
     (let start = 10 + length line_parameters + length (out_file_list arch64 dirs files) in
      \<lparr>little_endian = le, minimum_instruction_length = 1, line_base = 0xfb, line_range = 14,
       opcode_base = 13, standard_opcode_lengths = 15, numdir = length dirs,
       dirnames = offsets 27 (map dir_bytes dirs), numfile_orig = length files,
       numfile = length files,
       filenames = offsets (27 + length (concat (map dir_bytes dirs)) + 1) (map (file_bytes arch64) files),
       cpos = start, lr_end = n, lr_init = start, cur = init_state\<rparr>)"

lemma line_open_section:
  assumes dirs: "list_all name_ok dirs" and files: "list_all file_ok files"
    and program: "4 \<le> length program"
    and tab: "tab = line_section le (line_parameters @ out_file_list arch64 dirs files) program"
    and small: "length tab < 2 ^ 31"
  shows "line_open tab (of_nat (length tab)) le
    = Some (Some (opened_reader arch64 le dirs files (length tab)))"
proof -
  define prologue where "prologue = line_parameters @ out_file_list arch64 dirs files"
  define n1 n2 where "n1 = 6 + length prologue + length program" and "n2 = length prologue"
  note parts = line_section_parts [of le prologue program, folded tab [folded prologue_def], OF small]
  have len: "length tab = n1 + 4" by (simp add: tab length_line_section n1_def prologue_def)
  have par: "length line_parameters = 17" by (simp add: line_parameters_def)
  have n: "n1 < 2 ^ 31" "n2 < 2 ^ 31" "n2 + 10 \<le> n1" "17 \<le> n2" "n1 + 4 < 2 ^ 31"
    using small len program par by (simp_all add: n1_def n2_def prologue_def)
  note w1 = small_length [OF n(1)] and w2 = small_length [OF n(2)]
  have at: "bytes_at tab 10 line_parameters" "bytes_at tab 27 (out_file_list arch64 dirs files)"
    using parts(4) by (simp_all add: prologue_def bytes_at_append par)
  then have f: "fetch tab 10 = Some 1" "fetch tab 12 = Some 0xfb" "fetch tab 13 = Some 14" "fetch tab 14 = Some 13"
    using bytes_at_nth [OF at(1), of 0] bytes_at_nth [OF at(1), of 2] bytes_at_nth [OF at(1), of 3]
      bytes_at_nth [OF at(1), of 4] by (simp_all add: line_parameters_def line_params)
  have e: "n2 + 10 = 27 + length (out_file_list arch64 dirs files)" by (simp add: n2_def prologue_def par)
  have tables: "open_tables tab (n2 + 10) 27 = Some (Some (offsets 27 (map dir_bytes dirs),
      offsets (27 + length (concat (map dir_bytes dirs)) + 1) (map (file_bytes arch64) files)))"
    using n by (intro open_tables_at [OF dirs files at(2) e]) simp
  have u: "unat (of_nat n1 + 4 :: u64) = n1 + 4" "unat (of_nat n2 + 10 :: u64) = n2 + 10"
    using small_length(2) [OF n(5)] small_length(2) [of "n2 + 10"] n by simp_all
  have cmp: "\<not> (of_nat (length tab) :: u64) < 12" "\<not> (0xfffffff0 :: u64) < of_nat n1"
    "\<not> (of_nat (length tab) :: u64) < of_nat n1 + 4" "\<not> (of_nat n1 :: u64) < 11"
    "\<not> (of_nat n1 :: u64) < of_nat n2 + 10" "\<not> (of_nat n2 :: u64) < 7" "\<not> (of_nat n2 :: u64) < 17"
    using n u w1(2) w2(2) small_length(2) [OF small] len by (simp_all add: word_less_nat_alt)
  have ne: "(of_nat n1 :: u64) \<noteq> 0xffffffff"
  proof
    assume "(of_nat n1 :: u64) = 0xffffffff"
    then have "unat (of_nat n1 :: u64) = 0xffffffff" by simp
    with w1(2) n(1) show False by simp
  qed
  have r: "read_32 le tab 0 = Some (of_nat n1)" "read_32 le tab 6 = Some (of_nat n2)"
    using parts(1,3) by (simp_all add: n1_def n2_def)
  show ?thesis
    using cmp ne r parts(2) w1(1) w2(1) f tables u len
    by (simp add: line_open_def Let_def opened_reader_def par e [symmetric])
qed

section \<open>All of the sections of an assembly\<close>

definition segs_pieces :: "bool \<Rightarrow> (nat \<Rightarrow> u64) \<Rightarrow> (label \<times> (label \<times> dwarf2_line_info) list) list \<Rightarrow> piece list" where
  "segs_pieces arch64 place segs = concat (map (\<lambda>(seg_end, es). process_entries arch64 place seg_end es) segs)"

definition seg_rows :: "(nat \<Rightarrow> u64) \<Rightarrow> label \<times> (label \<times> dwarf2_line_info) list \<Rightarrow> line_info list" where
  "seg_rows fr seg = (case seg of (seg_end, es) \<Rightarrow> map (row_of fr) es @ [end_row fr seg_end (last es)])"

text \<open>Without any entry the table has the end of a sequence at the address 0.\<close>

definition table_rows :: "(nat \<Rightarrow> u64) \<Rightarrow> (label \<times> (label \<times> dwarf2_line_info) list) list \<Rightarrow> line_info list" where
  "table_rows fr segs =
     (if segs = [] then [init_state\<lparr>end_of_sequence := True\<rparr>] else concat (map (seg_rows fr) segs))"

lemma length_seg_rows: "length (seg_rows fr (seg_end, es)) = length es + 1"
  by (simp add: seg_rows_def)

lemma segs_read:
  assumes "list_all (\<lambda>(seg_end, es). seg_ok arch64 place fr seg_end es) segs"
  shows "\<exists>bs. pieces_bytes arch64 le fr (segs_pieces arch64 place segs) = Inr bs
    \<and> (\<forall>buf lnd s c. our_header buf lnd \<longrightarrow> little_endian lnd = le
        \<longrightarrow> (if end_of_sequence s then init_state else s) = init_state
        \<longrightarrow> bytes_at buf c bs \<longrightarrow> c + length bs \<le> lr_end lnd \<longrightarrow>
        (\<exists>t. read_rows buf (length (concat (map (seg_rows fr) segs))) (reader_at lnd c s)
          = Some (concat (map (seg_rows fr) segs), reader_at lnd (c + length bs) t)))"
  using assms
proof (induction segs)
  case Nil
  then show ?case by (auto simp: segs_pieces_def)
next
  case (Cons seg segs)
  obtain seg_end es where seg: "seg = (seg_end, es)" by (cases seg)
  from Cons.prems seg have ok: "seg_ok arch64 place fr seg_end es" by simp
  from sequence_read [OF ok, of le] obtain b where
    b: "pieces_bytes arch64 le fr (process_entries arch64 place seg_end es) = Inr b"
    and row: "\<And>buf lnd s c. our_header buf lnd \<Longrightarrow> little_endian lnd = le
        \<Longrightarrow> (if end_of_sequence s then init_state else s) = init_state
        \<Longrightarrow> bytes_at buf c b \<Longrightarrow> c + length b \<le> lr_end lnd \<Longrightarrow>
        read_rows buf (length (seg_rows fr seg)) (reader_at lnd c s)
          = Some (seg_rows fr seg, reader_at lnd (c + length b) (end_row fr seg_end (last es)))"
    unfolding seg length_seg_rows by (auto simp: seg_rows_def)
  from Cons obtain bs where bs: "pieces_bytes arch64 le fr (segs_pieces arch64 place segs) = Inr bs"
    and rows: "\<And>buf lnd s c. our_header buf lnd \<Longrightarrow> little_endian lnd = le
        \<Longrightarrow> (if end_of_sequence s then init_state else s) = init_state
        \<Longrightarrow> bytes_at buf c bs \<Longrightarrow> c + length bs \<le> lr_end lnd \<Longrightarrow>
        (\<exists>t. read_rows buf (length (concat (map (seg_rows fr) segs))) (reader_at lnd c s)
          = Some (concat (map (seg_rows fr) segs), reader_at lnd (c + length bs) t))"
    by auto
  have "pieces_bytes arch64 le fr (segs_pieces arch64 place (seg # segs)) = Inr (b @ bs)"
    using pieces_bytes_append [OF b bs] by (simp add: segs_pieces_def seg)
  moreover have "\<exists>t. read_rows buf (length (concat (map (seg_rows fr) (seg # segs)))) (reader_at lnd c s)
          = Some (concat (map (seg_rows fr) (seg # segs)), reader_at lnd (c + length (b @ bs)) t)"
    if h: "our_header buf lnd" "little_endian lnd = le"
      and s: "(if end_of_sequence s then init_state else s) = init_state"
      and at: "bytes_at buf c (b @ bs)" and fits: "c + length (b @ bs) \<le> lr_end lnd" for buf lnd s c
  proof -
    have first: "read_rows buf (length (seg_rows fr seg)) (reader_at lnd c s)
          = Some (seg_rows fr seg, reader_at lnd (c + length b) (end_row fr seg_end (last es)))"
      using row [OF h s, of c] at fits by (simp add: bytes_at_append)
    have "(if end_of_sequence (end_row fr seg_end (last es)) then init_state
        else end_row fr seg_end (last es)) = init_state" by (simp add: end_row_def)
    from rows [OF h this, of "c + length b"] at fits obtain t where
      "read_rows buf (length (concat (map (seg_rows fr) segs))) (reader_at lnd (c + length b) (end_row fr seg_end (last es)))
        = Some (concat (map (seg_rows fr) segs), reader_at lnd (c + length b + length bs) t)"
      by (auto simp: bytes_at_append add.assoc)
    from read_rows_append [OF first this] show ?thesis by (auto simp: add.assoc)
  qed
  ultimately show ?case by blast
qed

lemma yields_empty_program:
  assumes h: "our_header buf lnd" and le: "little_endian lnd = le"
  shows "yields buf lnd (empty_program arch64) init_state (init_state\<lparr>end_of_sequence := True\<rparr>)"
proof -
  define ab where "ab = [DW_LNS_extended_op] @ out_uleb128 arch64 (sizeof_address arch64 + 1)
    @ [DW_LNE_set_address] @ target_bytes le (unat (sizeof_address arch64)) 0"
  have p: "empty_program arch64 = ab @ [DW_LNS_extended_op, 1, DW_LNE_end_sequence]"
    unfolding ab_def by (cases arch64; cases le; simp only:; code_simp)
  have len: "length ab = 3 + unat (sizeof_address arch64)"
    by (simp add: ab_def out_uleb128_bytes sizeof_address_def uleb_bytes.simps)
  have readable: "addr_readable arch64 0" by (simp add: addr_readable_def)
  have "runs buf lnd ab init_state (init_state\<lparr>li_pc := 0\<rparr>)"
    unfolding runs_def len using run_set_address [OF h le _ _ readable, folded ab_def]
    by (auto simp: add.assoc)
  from runs_yields [OF this yields_end_sequence [OF h]] show ?thesis
    unfolding p by (simp add: init_state_def)
qed

lemma process_entries_length:
  assumes "es \<noteq> []" and "pieces_bytes arch64 le fr (process_entries arch64 place seg_end es @ ps) = Inr bs"
  shows "4 \<le> length bs"
proof -
  obtain lab loc es' where es: "es = (lab, loc) # es'" using assms(1) by (cases es) auto
  have "rg_last start_regs = None" by (simp add: start_regs_def)
  then obtain x y rest where "process_entries arch64 place seg_end es @ ps = Bytes x # Bytes y # Address lab # rest"
    by (simp add: es process_entries_def entry_step_def out_set_addr_def Let_def case_prod_beta)
  with assms(2) have "pieces_bytes arch64 le fr (Bytes x # Bytes y # Address lab # rest) = Inr bs" by simp
  then show ?thesis
    by (cases "pieces_bytes arch64 le fr rest") (auto simp: sizeof_address_def)
qed

text \<open>The reader that has opened a table of the writer.\<close>

lemma opened_table:
  assumes dirs: "list_all name_ok dirs" and files: "list_all file_ok files"
    and tab: "tab = line_section le (line_parameters @ out_file_list arch64 dirs files) program"
    and program: "4 \<le> length program" and small: "length tab < 2 ^ 31"
    and lnd: "lnd = opened_reader arch64 le dirs files (length tab)"
    and start: "start = 27 + length (out_file_list arch64 dirs files)"
  shows "line_open tab (of_nat (length tab)) le = Some (Some lnd)"
    and "our_header tab lnd" and "little_endian lnd = le" and "lr_end lnd = length tab"
    and "lnd = reader_at lnd start init_state"
    and "bytes_at tab start program" and "length tab = start + length program"
proof -
  let ?prologue = "line_parameters @ out_file_list arch64 dirs files"
  have par: "length line_parameters = 17" by (simp add: line_parameters_def)
  show "line_open tab (of_nat (length tab)) le = Some (Some lnd)"
    unfolding lnd by (rule line_open_section [OF dirs files program tab small])
  have at: "bytes_at tab 10 (?prologue @ program)"
    using line_section_parts(4) [of le ?prologue program] small by (simp add: tab)
  then show "bytes_at tab start program" by (simp add: bytes_at_append start par add.assoc)
  show "length tab = start + length program" by (simp add: tab length_line_section start par)
  from at have "bytes_at tab 10 line_parameters" by (simp add: bytes_at_append)
  then have "bytes_at tab 15 [0, 1, 1, 1, 1, 0, 0, 0, 1, 0, 0, 1]"
    by (simp add: line_parameters_def bytes_at_Cons eval_nat_numeral)
  then show "our_header tab lnd" "little_endian lnd = le" "lr_end lnd = length tab"
    using small by (simp_all add: our_header_def lnd opened_reader_def Let_def)
  show "lnd = reader_at lnd start init_state"
    by (simp add: lnd reader_at_def opened_reader_def Let_def start par)
qed

section \<open>Properties\<close>

text \<open>
  Property C3. The line table comes back: when the names of the directories and files are not empty and
  hold no terminator, the sections of the assembly satisfy the conditions on their entries and
  the table is shorter than \<open>2^31\<close> bytes, the assembler writes the table without an error, the
  linker accepts it, and reading it gives the lines of the entries, with their file, line and
  column and with the final address of their label, each section closed by an end of sequence
  at its final end, and is then at the end of the table. This holds for both configurations
  and both byte orders, whatever addresses the fragments had before the layout.
\<close>

theorem line_table_roundtrip:
  assumes segs: "list_all (\<lambda>(seg_end, es). seg_ok arch64 place fr seg_end es) segs"
    and dirs: "list_all name_ok dirs" and files: "list_all file_ok files"
    and small: "\<And>tab. out_debug_line arch64 le place fr dirs files segs = Inr tab \<Longrightarrow> length tab < 2 ^ 31"
  shows "\<exists>tab lnd lnd'. out_debug_line arch64 le place fr dirs files segs = Inr tab
    \<and> line_open tab (of_nat (length tab)) le = Some (Some lnd)
    \<and> read_rows tab (length (table_rows fr segs)) lnd = Some (table_rows fr segs, lnd')
    \<and> line_at_eof lnd'"
proof -
  from segs_read [OF segs, of le] obtain bs where
    bs: "pieces_bytes arch64 le fr (segs_pieces arch64 place segs) = Inr bs"
    and rows: "\<And>buf lnd s c. our_header buf lnd \<Longrightarrow> little_endian lnd = le
        \<Longrightarrow> (if end_of_sequence s then init_state else s) = init_state
        \<Longrightarrow> bytes_at buf c bs \<Longrightarrow> c + length bs \<le> lr_end lnd \<Longrightarrow>
        (\<exists>t. read_rows buf (length (concat (map (seg_rows fr) segs))) (reader_at lnd c s)
          = Some (concat (map (seg_rows fr) segs), reader_at lnd (c + length bs) t))"
    by blast
  define program where "program = (if segs = [] then empty_program arch64 else bs)"
  define prologue where "prologue = line_parameters @ out_file_list arch64 dirs files"
  define tab where "tab = line_section le prologue program"
  have out: "out_debug_line arch64 le place fr dirs files segs = Inr tab"
    unfolding out_debug_line_def tab_def line_section_def program_def prologue_def
    using bs [unfolded segs_pieces_def] by (simp only: sum.case Let_def append_assoc)
  with small have tab_small: "length tab < 2 ^ 31" by blast
  have four: "4 \<le> length program"
  proof (cases segs)
    case Nil
    then show ?thesis by (simp add: program_def empty_program_def)
  next
    case (Cons seg segs')
    then obtain seg_end es where seg: "seg = (seg_end, es)" "es \<noteq> []"
      using segs by (cases seg) (auto simp: seg_ok_def)
    with Cons process_entries_length [of es arch64 le fr place seg_end] bs show ?thesis
      by (simp add: program_def segs_pieces_def)
  qed
  define lnd where "lnd = opened_reader arch64 le dirs files (length tab)"
  define start where "start = 27 + length (out_file_list arch64 dirs files)"
  note opened = opened_table [OF dirs files tab_def [unfolded prologue_def] four tab_small lnd_def start_def]
  note h = opened(2-4) and at_program = opened(6) and len = opened(7)
  have "\<exists>t. read_rows tab (length (table_rows fr segs)) (reader_at lnd start init_state)
      = Some (table_rows fr segs, reader_at lnd (length tab) t)"
  proof (cases "segs = []")
    case True
    then have "program = empty_program arch64" by (simp add: program_def)
    with next_state_yields [OF _ at_program, of lnd init_state] yields_empty_program [OF h(1,2), of arch64]
    show ?thesis using True len h(3) by (simp add: table_rows_def init_state_def) blast
  next
    case False
    then show ?thesis
      using rows [OF h(1,2), of init_state start] at_program len h(3)
      by (simp add: table_rows_def program_def)
  qed
  then obtain t where read: "read_rows tab (length (table_rows fr segs)) lnd
      = Some (table_rows fr segs, reader_at lnd (length tab) t)"
    using opened(5) by auto
  show ?thesis
    using out opened(1) read h(3) by (intro exI conjI) (auto simp: line_at_eof_def)
qed

text \<open>Two lines in different fragments of a section, at \<open>0x1000\<close> and \<open>0x1234\<close>.\<close>

definition sample_segs :: "(label \<times> (label \<times> dwarf2_line_info) list) list" where
  "sample_segs =
     [(\<lparr>lab_frag = 2, lab_ofs = 0\<rparr>,
       [(\<lparr>lab_frag = 0, lab_ofs = 0\<rparr>, \<lparr>loc_filenum = 1, loc_line = 7, loc_column = 0, loc_isa = 0, loc_flags = 1\<rparr>),
        (\<lparr>lab_frag = 1, lab_ofs = 4\<rparr>, \<lparr>loc_filenum = 1, loc_line = 900, loc_column = 3, loc_isa = 0, loc_flags = 5\<rparr>)])]"

definition sample_layout :: "nat \<Rightarrow> u64" where
  "sample_layout f = (if f = 0 then 0x1000 else if f = 1 then 0x1230 else 0x2000)"

definition sample_files :: "(u8 list \<times> u32) option list" where
  "sample_files = [Some ([97, 46, 115], 1)]"

definition sample_dirs :: "u8 list list" where
  "sample_dirs = [[47, 116]]"

theorem line_table_roundtrip_witness:
  "\<exists>tab lnd lnd'. out_debug_line True True (\<lambda>_. 0) sample_layout sample_dirs sample_files sample_segs = Inr tab
    \<and> line_open tab (of_nat (length tab)) True = Some (Some lnd)
    \<and> read_rows tab (length (table_rows sample_layout sample_segs)) lnd
        = Some (table_rows sample_layout sample_segs, lnd')
    \<and> line_at_eof lnd'"
proof (rule line_table_roundtrip)
  show "list_all (\<lambda>(seg_end, es). seg_ok True (\<lambda>_. 0) sample_layout seg_end es) sample_segs"
    by (simp add: sample_segs_def seg_ok_def sample_layout_def final_value_def addr_small_def)
  show "list_all name_ok sample_dirs" by code_simp
  show "list_all file_ok sample_files" by code_simp
  have "case out_debug_line True True (\<lambda>_. 0) sample_layout sample_dirs sample_files sample_segs of
      Inl e \<Rightarrow> True | Inr tab \<Rightarrow> length tab < 100"
    by code_simp
  then show "length tab < 2 ^ 31"
    if "out_debug_line True True (\<lambda>_. 0) sample_layout sample_dirs sample_files sample_segs = Inr tab" for tab
    using that by simp
qed

section \<open>The paths of the files\<close>

lemma offsets_at:
  "bytes_at buf c (concat xs) \<Longrightarrow> i < length xs \<Longrightarrow>
    bytes_at buf (offsets c xs ! i) (xs ! i) \<and> offsets c xs ! i + length (xs ! i) \<le> c + length (concat xs)"
proof (induction xs arbitrary: c i)
  case (Cons x xs)
  show ?case
  proof (cases i)
    case 0
    with Cons.prems show ?thesis by (simp add: bytes_at_append)
  next
    case (Suc j)
    with Cons.IH [of "c + length x" j] Cons.prems show ?thesis by (simp add: bytes_at_append add.assoc)
  qed
qed simp

lemma table_section:
  assumes out: "out_debug_line arch64 le place fr dirs files segs = Inr tab"
    and segs: "list_all (\<lambda>(seg_end, es). es \<noteq> []) segs"
  shows "\<exists>program. tab = line_section le (line_parameters @ out_file_list arch64 dirs files) program
    \<and> 4 \<le> length program"
proof -
  from out obtain bs where bs: "pieces_bytes arch64 le fr (segs_pieces arch64 place segs) = Inr bs"
    unfolding out_debug_line_def segs_pieces_def by (auto split: sum.splits)
  define program where "program = (if segs = [] then empty_program arch64 else bs)"
  have "out_debug_line arch64 le place fr dirs files segs
      = Inr (line_section le (line_parameters @ out_file_list arch64 dirs files) program)"
    unfolding out_debug_line_def line_section_def program_def
    using bs [unfolded segs_pieces_def] by (simp only: sum.case Let_def append_assoc)
  moreover have "4 \<le> length program"
  proof (cases segs)
    case Nil
    then show ?thesis by (simp add: program_def empty_program_def)
  next
    case (Cons seg segs')
    then obtain seg_end es where seg: "seg = (seg_end, es)" "es \<noteq> []"
      using segs by (cases seg) auto
    with Cons process_entries_length [of es arch64 le fr place seg_end] bs show ?thesis
      by (simp add: program_def segs_pieces_def)
  qed
  ultimately show ?thesis using out by auto
qed

text \<open>The path that the directory and the name of a file make.\<close>

definition path_of :: "u8 list list \<Rightarrow> u8 list \<times> u32 \<Rightarrow> u8 list" where
  "path_of dirs f = (case f of (name, dir) \<Rightarrow>
     if dir = 0 \<or> hd name = 0x2f then name else dirs ! (unat dir - 1) @ [0x2f] @ name)"

text \<open>Where the opened reader finds the names of the directories and the files.\<close>

lemma opened_names:
  assumes tab: "tab = line_section le (line_parameters @ out_file_list arch64 dirs files) program"
    and small: "length tab < 2 ^ 31" and files: "list_all file_ok files"
    and lnd: "lnd = opened_reader arch64 le dirs files (length tab)"
  shows "numfile lnd = length files" and "numdir lnd = length dirs" and "lr_end lnd = length tab"
    and "length files < 2 ^ 31" and "length dirs < 2 ^ 31"
    and "i < length files \<Longrightarrow> bytes_at tab (filenames lnd ! i) (file_bytes arch64 (files ! i))
      \<and> filenames lnd ! i + length (file_bytes arch64 (files ! i)) < length tab"
    and "j < length dirs \<Longrightarrow> bytes_at tab (dirnames lnd ! j) (dirs ! j @ [0])"
proof -
  have par: "length line_parameters = 17" by (simp add: line_parameters_def)
  define ds fs where "ds = map dir_bytes dirs" and "fs = map (file_bytes arch64) files"
  have list: "out_file_list arch64 dirs files = concat ds @ [0] @ concat fs @ [0]"
    by (simp add: out_file_list_def ds_def fs_def dir_bytes_def [abs_def])
  have "bytes_at tab 10 (line_parameters @ (concat ds @ [0] @ concat fs @ [0]) @ program)"
    using line_section_parts(4) [of le "line_parameters @ out_file_list arch64 dirs files" program,
        folded tab, OF small] by (simp add: list)
  then have at: "bytes_at tab 27 (concat ds)" "bytes_at tab (27 + length (concat ds) + 1) (concat fs)"
    by (simp_all add: bytes_at_append bytes_at_Cons par add.assoc)
  have ends: "27 + length (concat ds) + 1 + length (concat fs) < length tab"
    unfolding tab length_line_section by (simp add: par list)
  show "numfile lnd = length files" "numdir lnd = length dirs" "lr_end lnd = length tab"
    by (simp_all add: lnd opened_reader_def Let_def)
  have "length files \<le> length (concat fs)"
    using files unfolding fs_def
    by (induction files) (auto simp: file_ok_def file_bytes_def split: option.splits)
  moreover have "length dirs \<le> length (concat ds)" unfolding ds_def by (induction dirs) simp_all
  ultimately show "length files < 2 ^ 31" "length dirs < 2 ^ 31" using ends small by simp_all
  have names: "filenames lnd = offsets (27 + length (concat ds) + 1) fs" "dirnames lnd = offsets 27 ds"
    by (simp_all add: lnd opened_reader_def Let_def ds_def fs_def)
  show "bytes_at tab (filenames lnd ! i) (file_bytes arch64 (files ! i))
      \<and> filenames lnd ! i + length (file_bytes arch64 (files ! i)) < length tab" if "i < length files"
    using offsets_at [OF at(2), of i] that ends unfolding names by (simp add: fs_def)
  show "bytes_at tab (dirnames lnd ! j) (dirs ! j @ [0])" if "j < length dirs"
    using offsets_at [OF at(1), of j] that unfolding names by (simp add: ds_def dir_bytes_def)
qed

text \<open>What the reader gets from an entry of the file list.\<close>

lemma file_entry_read:
  assumes at: "bytes_at tab p (file_bytes arch64 (Some (name, dir)))"
    and less: "p + length (file_bytes arch64 (Some (name, dir))) < length tab" and ok: "name_ok name"
  shows "fetch tab p = Some (hd name)" and "strlen tab p = Some (length name)"
    and "take (length name) (drop p tab) = name"
    and "line_read_uleb128 tab (length tab) (p + length name + 1)
      = Some (ucast dir, p + length name + 1 + length (uleb_bytes (unat dir)))"
proof -
  from at have name_at: "bytes_at tab p (name @ [0])"
    and dir_at: "bytes_at tab (p + length name + 1) (uleb_bytes (unat dir))"
    by (simp_all add: file_bytes_def bytes_at_append bytes_at_Cons out_uleb128_bytes)
  have dir64: "unat dir < 2 ^ 64" using unat_less_numeral [of dir] by simp
  have u: "(of_nat (unat dir) :: u64) = ucast dir" by (simp only: of_nat_unat)
  show "line_read_uleb128 tab (length tab) (p + length name + 1)
      = Some (ucast dir, p + length name + 1 + length (uleb_bytes (unat dir)))"
    using line_uleb128_bytes(1) [OF dir_at _ dir64, of "length tab"] less
    by (simp add: u file_bytes_def out_uleb128_bytes)
  show "fetch tab p = Some (hd name)" using name_first [OF name_at ok] by auto
  show "strlen tab p = Some (length name)" "take (length name) (drop p tab) = name"
    using strlen_name [OF name_at] ok by (auto simp: name_ok_def)
qed

text \<open>
  Property C31. The files come back as well: the reader of the table gives for the number of a file the path
  made of its directory and name, the name alone if it has no directory or is absolute.
\<close>

theorem line_file_paths:
  assumes out: "out_debug_line arch64 le place fr dirs files segs = Inr tab"
    and segs: "list_all (\<lambda>(seg_end, es). es \<noteq> []) segs"
    and dirs: "list_all name_ok dirs" and files: "list_all file_ok files"
    and small: "length tab < 2 ^ 31" and n: "0 < n" "n \<le> length files"
    and entry: "files ! (n - 1) = Some (name, dir)" and dir: "unat dir \<le> length dirs"
  shows "\<exists>lnd. line_open tab (of_nat (length tab)) le = Some (Some lnd)
    \<and> line_file tab lnd (of_nat n) = Some (Some (path_of dirs (name, dir)))"
proof -
  from table_section [OF out segs] obtain program where tab:
    "tab = line_section le (line_parameters @ out_file_list arch64 dirs files) program" "4 \<le> length program"
    by blast
  define lnd where "lnd = opened_reader arch64 le dirs files (length tab)"
  have opened: "line_open tab (of_nat (length tab)) le = Some (Some lnd)"
    unfolding lnd_def by (rule line_open_section [OF dirs files tab(2,1) small])
  note at = opened_names [OF tab(1) small files lnd_def]
  have i: "n - 1 < length files" using n by simp
  have ok: "name_ok name" using files i entry by (auto simp: list_all_length file_ok_def dest!: spec [of _ "n - 1"])
  note name = file_entry_read [OF conjunct1 [OF at(6) [OF i, unfolded entry]]
      conjunct2 [OF at(6) [OF i, unfolded entry]] ok]
  have n64: "unat (of_nat n :: u64) = n" "unat (of_nat (length files) :: u64) = length files"
    using n at(4) small_length(2) [of n] small_length(2) [of "length files"] by simp_all
  then have bounds: "(of_nat n :: u64) \<noteq> 0" "\<not> (of_nat (length files) :: u64) < of_nat n"
    using n by (auto simp: word_less_nat_alt simp flip: unat_eq_0)
  have d64: "unat (ucast dir :: u64) = unat dir"
    using unat_less_numeral [of dir] by (simp add: unsigned_ucast_eq take_bit_nat_eq_self)
  then have dir0: "(ucast dir :: u64) = 0 \<longleftrightarrow> dir = 0" by (metis unat_eq_0)
  have dirs_bound: "\<not> (of_nat (length dirs) :: u64) < ucast dir"
    using dir d64 small_length(2) [OF at(5)] by (simp add: word_less_nat_alt)
  have dir_name: "strlen tab (dirnames lnd ! (unat dir - 1)) = Some (length (dirs ! (unat dir - 1)))
      \<and> take (length (dirs ! (unat dir - 1))) (drop (dirnames lnd ! (unat dir - 1)) tab) = dirs ! (unat dir - 1)"
    if "dir \<noteq> 0"
  proof -
    have "unat dir \<noteq> 0" using that by (simp add: unat_eq_0)
    then have j: "unat dir - 1 < length dirs" using dir by simp
    moreover have "0 \<notin> set (dirs ! (unat dir - 1))" using dirs j by (simp add: list_all_length name_ok_def)
    ultimately show ?thesis using at(7) strlen_name by blast
  qed
  have "line_file tab lnd (of_nat n) = Some (Some (path_of dirs (name, dir)))"
    using bounds name ok [unfolded name_ok_def] dir0 dirs_bound dir_name
    by (auto simp: line_file_def at(1-3) n64 d64 path_of_def Let_def)
  with opened show ?thesis by blast
qed

theorem line_file_paths_witness:
  "\<exists>tab lnd. out_debug_line True True (\<lambda>_. 0) sample_layout sample_dirs sample_files sample_segs = Inr tab
    \<and> line_open tab (of_nat (length tab)) True = Some (Some lnd)
    \<and> line_file tab lnd 1 = Some (Some [47, 116, 47, 97, 46, 115])"
proof -
  have "case out_debug_line True True (\<lambda>_. 0) sample_layout sample_dirs sample_files sample_segs of
      Inl e \<Rightarrow> False | Inr tab \<Rightarrow> length tab < 100"
    by code_simp
  then obtain tab where tab: "out_debug_line True True (\<lambda>_. 0) sample_layout sample_dirs sample_files sample_segs = Inr tab"
    "length tab < 2 ^ 31" by (auto split: sum.splits)
  have "\<exists>lnd. line_open tab (of_nat (length tab)) True = Some (Some lnd)
    \<and> line_file tab lnd (of_nat 1) = Some (Some (path_of sample_dirs ([97, 46, 115], 1)))"
    by (rule line_file_paths [OF tab(1) _ _ _ tab(2)])
      (simp_all add: sample_segs_def sample_dirs_def sample_files_def name_ok_def file_ok_def)
  moreover have "path_of sample_dirs ([97, 46, 115], 1) = [47, 116, 47, 97, 46, 115]"
    by (simp add: path_of_def sample_dirs_def)
  ultimately show ?thesis using tab(1) by auto
qed

end
