(* ===== verification/Relax.thy ===== *)
theory Relax
  imports Line_Emit "HOL-Library.Monad_Syntax"
begin

text \<open>
  The layout of a section of the assembler, \<open>as/layout.c\<close>: the addresses of the fragments and
  the sizes of their variable parts, by relaxation. The fragments of a section are a list, a
  pointer to one of them is its index, and the addresses of fragments of other sections, which
  do not move meanwhile, are given. The \<open>int32_t\<close>s of the code are \<open>u32\<close>s that are compared
  signed. What the machine dependent part provides is the record \<open>machine\<close>. \<open>None\<close> is what
  the code does not survive: a null pointer, or a loop that does not end.
\<close>

text \<open>A loop over a list whose body may fail.\<close>

primrec for_each :: "('a \<Rightarrow> 's \<Rightarrow> 's option) \<Rightarrow> 'a list \<Rightarrow> 's \<Rightarrow> 's option" where
  "for_each body [] st = Some st"
| "for_each body (x # xs) st = (case body x st of None \<Rightarrow> None | Some st \<Rightarrow> for_each body xs st)"

lemma for_each_rule:
  assumes "i \<le> n" and "P i st" and "for_each body [i..<n] st = Some st'"
    and "\<And>i st st'. i < n \<Longrightarrow> P i st \<Longrightarrow> body i st = Some st' \<Longrightarrow> P (Suc i) st'"
  shows "P n st'"
  using assms(1,2,3)
proof (induction i arbitrary: st rule: inc_induct)
  case (step i)
  then show ?case by (auto simp: upt_conv_Cons split: option.splits intro: assms(4))
qed simp

lemma for_each_total:
  assumes "i \<le> n" and "P i st"
    and "\<And>i st. i < n \<Longrightarrow> P i st \<Longrightarrow> \<exists>st'. body i st = Some st' \<and> P (Suc i) st'"
  shows "\<exists>st'. for_each body [i..<n] st = Some st' \<and> P n st'"
  using assms(1,2)
proof (induction i arbitrary: st rule: inc_induct)
  case (step i)
  from assms(3) [OF step.hyps(2) step.prems] obtain st' where "body i st = Some st'" "P (Suc i) st'"
    by blast
  with step.IH show ?case by (simp add: upt_conv_Cons step.hyps(2))
qed simp

section \<open>Fragments\<close>

datatype relax_stateT = rs_fill | rs_align | rs_org | rs_machine_dependent | rs_dwarf2dbg | rs_leb128

datatype frag_ref = Here nat | Elsewhere u64

record sym_ref =
  sy_value :: u64
  sy_frag :: frag_ref

record expressionS =
  X_add_symbol :: "sym_ref option"
  X_subtract_symbol :: "sym_ref option"
  X_add_number :: u64

record symbolS =
  sy_ref :: sym_ref
  sy_type :: u8
  sy_other :: u32
  sy_expression :: "expressionS option"

record fragS =
  fr_address :: u64
  last_fr_address :: u64
  fr_fix :: u32
  fr_var :: u32
  fr_symbol :: "symbolS option"
  fr_offset :: u32
  fr_opcode :: nat
  fr_type :: relax_stateT
  fr_subtype :: u32
  fr_literal :: "u8 list"

text \<open>A fixup, without the fragment it is in, which the section keeps with it.\<close>

record fixS =
  fx_where :: u32
  fx_size :: u8
  fx_addsy :: "symbolS option"
  fx_subsy :: "symbolS option"
  fx_offset :: u64
  fx_pcrel :: bool
  fx_pcrel_reloc :: bool
  fx_r_type :: u8

text \<open>An entry of \<open>md_relax_table\<close>.\<close>

record relax_typeS =
  rlx_forward :: u32
  rlx_backward :: u32
  rlx_length :: u8
  rlx_more :: u32

text \<open>
  The machine dependent part: whether addresses have 64 bits, its table, and its estimate of the
  size of a fragment, which may turn the fragment into one of fixed size with fixups.
\<close>

record machine =
  md_arch64 :: bool
  md_relax_table :: "relax_typeS list"
  md_estimate_size_before_relax :: "u32 \<Rightarrow> fragS \<Rightarrow> (u32 \<times> fragS \<times> fixS list) option"

record frchain =
  frch_frags :: "fragS list"
  frch_flags :: u32
  frch_align :: u32
  frch_nsect :: u32
  frch_fix_root :: "(nat \<times> fixS) list"
  has_rs_leb128s :: bool

text \<open>The address a reference has at present.\<close>

definition ref_address :: "fragS list \<Rightarrow> frag_ref \<Rightarrow> u64" where
  "ref_address frags r = (case r of Here j \<Rightarrow> fr_address (frags ! j) | Elsewhere a \<Rightarrow> a)"

definition sym_address :: "fragS list \<Rightarrow> sym_ref \<Rightarrow> u64" where
  "sym_address frags s = sy_value s + ref_address frags (sy_frag s)"

section \<open>The steps of the relaxation\<close>

text \<open>An address is a \<open>relax_addressT\<close>, which has 32 or 64 bits.\<close>

definition relax_address :: "bool \<Rightarrow> u64 \<Rightarrow> u64" where
  "relax_address arch64 a = (if arch64 then a else ucast (ucast a :: u32))"

definition relax_align :: "bool \<Rightarrow> u64 \<Rightarrow> u32 \<Rightarrow> u64" where
  "relax_align arch64 address alignment =
     (let msk = relax_address arch64 (scast (NOT (push_bit (unat alignment) (- 1 :: u32))));
          new_address = relax_address arch64 (address + msk) AND NOT msk
      in relax_address arch64 (new_address - address))"

text \<open>Whether a fragment comes after another one in its section.\<close>

definition is_down_range :: "fragS list \<Rightarrow> nat \<Rightarrow> frag_ref \<Rightarrow> bool" where
  "is_down_range frags i r = (case r of Here j \<Rightarrow> i < j \<and> j < length frags | Elsewhere a \<Rightarrow> False)"

text \<open>The address step of a fragment of the line number program.\<close>

definition dwarf2dbg_addr_delta :: "fragS list \<Rightarrow> fragS \<Rightarrow> u64 option" where
  "dwarf2dbg_addr_delta frags f = do {
     symb \<leftarrow> fr_symbol f;
     expr \<leftarrow> sy_expression symb;
     add_symbol \<leftarrow> X_add_symbol expr;
     subtract_symbol \<leftarrow> X_subtract_symbol expr;
     Some (sym_address frags add_symbol - sym_address frags subtract_symbol + X_add_number expr)
   }"

definition dwarf2dbg_size :: "bool \<Rightarrow> fragS list \<Rightarrow> fragS \<Rightarrow> u32 option" where
  "dwarf2dbg_size arch64 frags f = do {
     addr_delta \<leftarrow> dwarf2dbg_addr_delta frags f;
     Some (of_nat (size_inc_line_addr arch64 (fr_offset f) addr_delta))
   }"

text \<open>The value of a base 128 number, with the symbol itself if it has no expression.\<close>

definition leb128_value :: "fragS list \<Rightarrow> fragS \<Rightarrow> u64 option" where
  "leb128_value frags f = do {
     symb \<leftarrow> fr_symbol f;
     Some (case sy_expression symb of
       Some expr \<Rightarrow>
         (case X_add_symbol expr of None \<Rightarrow> 0 | Some s \<Rightarrow> sym_address frags s)
         - (case X_subtract_symbol expr of None \<Rightarrow> 0 | Some s \<Rightarrow> sym_address frags s)
         + X_add_number expr
     | None \<Rightarrow> sy_value (sy_ref symb) + fr_address f)
   }"

text \<open>
  The state a branch needs to reach its target: the loops that look backwards and forwards.
  They end at the first state that reaches or that has no longer one.
\<close>

definition reaches :: "u32 \<Rightarrow> relax_typeS \<Rightarrow> bool" where
  "reaches aim t = (if aim <s 0 then rlx_backward t \<le>s aim else aim \<le>s rlx_forward t)"

partial_function (option) next_state_for :: "relax_typeS list \<Rightarrow> u32 \<Rightarrow> u32 \<Rightarrow> u32 option" where
  [code]: "next_state_for table aim this_state =
     (if length table \<le> unat this_state then None
      else if rlx_more (table ! unat this_state) = 0 \<or> reaches aim (table ! unat this_state)
      then Some this_state
      else next_state_for table aim (rlx_more (table ! unat this_state)))"

definition branch_aim :: "fragS list \<Rightarrow> nat \<Rightarrow> u32 \<Rightarrow> u32 \<Rightarrow> u32" where
  "branch_aim frags i was_address stretch =
     (let f = frags ! i;
          target = (case fr_symbol f of None \<Rightarrow> fr_offset f
            | Some symb \<Rightarrow>
                let target = fr_offset f + ucast (sym_address frags (sy_ref symb)) in
                if ucast was_address \<le> ref_address frags (sy_frag (sy_ref symb))
                   \<and> is_down_range frags i (sy_frag (sy_ref symb))
                then target + stretch else target)
      in target - ucast (fr_address f) - fr_fix f)"

text \<open>
  How much a fragment grows in a pass, with the fragment as it is left. Its address has been
  moved by the stretch already.
\<close>

definition max_bytes :: "u32 \<Rightarrow> u32 \<Rightarrow> u32" where
  "max_bytes subtype off = (if subtype \<noteq> 0 \<and> subtype < off then 0 else off)"

definition align_growth :: "bool \<Rightarrow> u32 \<Rightarrow> fragS \<Rightarrow> u32" where
  "align_growth arch64 was_address f =
     (let oldoff = ucast (relax_align arch64 (ucast (was_address + fr_fix f)) (fr_offset f));
          newoff = ucast (relax_align arch64 (fr_address f + scast (fr_fix f)) (fr_offset f))
      in max_bytes (fr_subtype f) newoff - max_bytes (fr_subtype f) oldoff)"

definition org_target :: "fragS list \<Rightarrow> fragS \<Rightarrow> u32" where
  "org_target frags f = fr_offset f
     + (case fr_symbol f of None \<Rightarrow> 0 | Some symb \<Rightarrow> ucast (sym_address frags (sy_ref symb)))"

text \<open>A fragment cannot have a negative size, so one cannot go back.\<close>

definition org_room :: "u32 \<Rightarrow> u32" where
  "org_room distance = (if 0 <s distance then distance else 0)"

definition org_growth :: "fragS list \<Rightarrow> nat \<Rightarrow> u32 \<Rightarrow> u32 option" where
  "org_growth frags i stretch =
     (if length frags \<le> Suc i then None
      else let target = org_target frags (frags ! i);
               after = ucast (fr_address (frags ! Suc i))
           in Some (org_room (target - after) - stretch))"

definition branch_growth ::
  "relax_typeS list \<Rightarrow> fragS list \<Rightarrow> nat \<Rightarrow> u32 \<Rightarrow> u32 \<Rightarrow> (u32 \<times> fragS) option" where
  "branch_growth table frags i was_address stretch = do {
     this_state \<leftarrow> next_state_for table (branch_aim frags i was_address stretch) (fr_subtype (frags ! i));
     let growth = ucast (rlx_length (table ! unat this_state))
                  - ucast (rlx_length (table ! unat (fr_subtype (frags ! i))));
     Some (growth, if growth \<noteq> 0 then (frags ! i)\<lparr>fr_subtype := this_state\<rparr> else frags ! i)
   }"

definition frag_growth ::
  "machine \<Rightarrow> fragS list \<Rightarrow> nat \<Rightarrow> u32 \<Rightarrow> u32 \<Rightarrow> (u32 \<times> fragS) option" where
  "frag_growth md frags i was_address stretch =
     (let f = frags ! i in
      case fr_type f of
        rs_fill \<Rightarrow> Some (0, f)
      | rs_align \<Rightarrow> Some (align_growth (md_arch64 md) was_address f, f)
      | rs_org \<Rightarrow> do { growth \<leftarrow> org_growth frags i stretch; Some (growth, f) }
      | rs_machine_dependent \<Rightarrow> branch_growth (md_relax_table md) frags i was_address stretch
      | rs_dwarf2dbg \<Rightarrow> do {
          new_size \<leftarrow> dwarf2dbg_size (md_arch64 md) frags f;
          Some (new_size - fr_subtype f, f\<lparr>fr_subtype := new_size\<rparr>)
        }
      | rs_leb128 \<Rightarrow> do {
          value \<leftarrow> leb128_value frags f;
          let size = of_nat (sizeof_leb128 (md_arch64 md) value (fr_subtype f \<noteq> 0));
          Some (size - fr_offset f, f\<lparr>fr_offset := size\<rparr>)
        })"

text \<open>One fragment in a pass, a pass over all of them, and passes until nothing grows.\<close>

definition relax_one ::
  "machine \<Rightarrow> nat \<Rightarrow> fragS list \<times> u32 \<times> nat \<Rightarrow> (fragS list \<times> u32 \<times> nat) option" where
  "relax_one md i st = (case st of (frags, stretch, stretched) \<Rightarrow> do {
     let was_address = ucast (fr_address (frags ! i));
     let frags = frags[i := (frags ! i)\<lparr>fr_address := fr_address (frags ! i) + scast stretch\<rparr>];
     (growth, f) \<leftarrow> frag_growth md frags i was_address stretch;
     Some (frags[i := f], stretch + growth, if growth \<noteq> 0 then Suc stretched else stretched)
   })"

definition relax_pass :: "machine \<Rightarrow> fragS list \<Rightarrow> (fragS list \<times> nat) option" where
  "relax_pass md frags = do {
     (frags, stretch, stretched) \<leftarrow> for_each (relax_one md) [0..<length frags] (frags, 0, 0);
     Some (frags, stretched)
   }"

partial_function (option) relax_loop :: "machine \<Rightarrow> fragS list \<Rightarrow> fragS list option" where
  [code]: "relax_loop md frags =
     (case relax_pass md frags of None \<Rightarrow> None
      | Some (frags, stretched) \<Rightarrow> if stretched = 0 then Some frags else relax_loop md frags)"

section \<open>The first guess\<close>

text \<open>
  The fragment is given its address and its size is estimated. The comparison with the maximum
  of an alignment is a signed one here. An alignment with a maximum that is met can raise the
  alignment of the section.
\<close>

definition align_guess :: "bool \<Rightarrow> u64 \<Rightarrow> fragS \<Rightarrow> u32 \<Rightarrow> u32 \<times> u32" where
  "align_guess arch64 address f align =
     (let off = ucast (relax_align arch64 address (fr_offset f)) in
      if fr_subtype f \<noteq> 0
      then (if fr_subtype f <s off then (0, align) else (off, max align (fr_offset f)))
      else (off, align))"

definition guess_size ::
  "machine \<Rightarrow> u32 \<Rightarrow> fragS list \<Rightarrow> u64 \<Rightarrow> fragS \<Rightarrow> u32 \<Rightarrow> (u32 \<times> fragS \<times> u32 \<times> fixS list) option" where
  "guess_size md nsect frags address f align =
     (case fr_type f of
        rs_fill \<Rightarrow> Some (fr_offset f * fr_var f, f, align, [])
      | rs_align \<Rightarrow> (let (off, align) = align_guess (md_arch64 md) address f align
                     in Some (off, f, align, []))
      | rs_org \<Rightarrow> Some (0, f, align, [])
      | rs_machine_dependent \<Rightarrow> do {
          (size, f, fixes) \<leftarrow> md_estimate_size_before_relax md nsect f;
          Some (size, f, align, fixes)
        }
      | rs_dwarf2dbg \<Rightarrow> do {
          size \<leftarrow> dwarf2dbg_size (md_arch64 md) frags f;
          Some (size, f\<lparr>fr_subtype := size\<rparr>, align, [])
        }
      | rs_leb128 \<Rightarrow> Some (1, f\<lparr>fr_offset := 1\<rparr>, align, []))"

definition guess_one ::
  "machine \<Rightarrow> nat \<Rightarrow> frchain \<times> u64 \<Rightarrow> (frchain \<times> u64) option" where
  "guess_one md i st = (case st of (sect, address) \<Rightarrow> do {
     let f = (frch_frags sect ! i)\<lparr>fr_address := address\<rparr>;
     let frags = (frch_frags sect)[i := f];
     let address = relax_address (md_arch64 md) (address + scast (fr_fix f));
     (size, f, align, fixes) \<leftarrow> guess_size md (frch_nsect sect) frags address f (frch_align sect);
     Some (sect\<lparr>frch_frags := frags[i := f], frch_align := align,
                frch_fix_root := rev (map (Pair i) fixes) @ frch_fix_root sect\<rparr>,
           relax_address (md_arch64 md) (address + scast size))
   })"

text \<open>Relaxing a section, with whether a fragment moved since the last time.\<close>

definition relax_section :: "machine \<Rightarrow> frchain \<Rightarrow> (frchain \<times> bool) option" where
  "relax_section md sect = do {
     (sect, address) \<leftarrow> for_each (guess_one md) [0..<length (frch_frags sect)] (sect, 0);
     frags \<leftarrow> relax_loop md (frch_frags sect);
     Some (sect\<lparr>frch_frags := map (\<lambda>f. f\<lparr>last_fr_address := fr_address f\<rparr>) frags\<rparr>,
           list_ex (\<lambda>f. last_fr_address f \<noteq> fr_address f) frags)
   }"

end
