(* ===== verification/Relax_Laws.thy ===== *)
theory Relax_Laws
  imports Relax
begin

text \<open>
  What relaxation establishes for any machine dependent part that keeps to the locale
  \<open>relax_machine\<close>: the fragments stay adjacent in every pass, the loop ends with all sizes right
  for the final addresses, and it does end when the sizes depend on nothing but branches and
  alignments of the section itself.
\<close>

section \<open>The low half of an address\<close>

text \<open>
  Growth is counted in 32 bits, so what the code keeps exactly is the low half of every address.
\<close>

abbreviation low :: "u64 \<Rightarrow> u32" where
  "low a \<equiv> ucast a"

named_theorems low_simps \<open>the low half of an address expression\<close>

lemma take_bit_plus: "m \<le> n \<Longrightarrow> take_bit m (take_bit n a + take_bit n b) = take_bit m (a + b :: int)"
  by (metis take_bit_add take_bit_take_bit min_absorb1)

lemma take_bit_less: "m \<le> n \<Longrightarrow> take_bit m (take_bit n a - take_bit n b) = take_bit m (a - b :: int)"
  by (metis take_bit_diff take_bit_take_bit min_absorb1)

lemma low_add [low_simps]: "low (a + b) = low a + low b"
  by transfer (simp add: take_bit_plus)

lemma low_diff [low_simps]: "low (a - b) = low a - low b"
  by transfer (simp add: take_bit_less)

lemma low_and [low_simps]: "low (a AND b) = low a AND low b"
  by transfer simp

lemma low_not [low_simps]: "low (NOT a) = NOT (low a)"
  by (rule bit_word_eqI) (simp add: bit_simps)

lemma low_ucast [low_simps]: "low (ucast (a :: u32)) = a"
  by transfer simp

lemma low_scast [low_simps]: "low (scast (a :: u32)) = a"
  by transfer (simp add: take_bit_signed_take_bit)

lemma low_relax_address [low_simps]: "low (relax_address arch64 a) = low a"
  by (simp add: relax_address_def low_ucast)

section \<open>Alignment\<close>

definition align_gap :: "u32 \<Rightarrow> u32 \<Rightarrow> u32" where
  "align_gap a k = (let m = NOT (push_bit (unat k) (- 1 :: u32)) in ((a + m) AND NOT m) - a)"

lemma low_relax_align [low_simps]: "low (relax_align arch64 a k) = align_gap (low a) k"
  by (simp only: relax_align_def align_gap_def Let_def low_simps)

lemma align_gap_mask: "align_gap a k = ((a + mask (unat k)) AND NOT (mask (unat k))) - a"
  by (simp add: align_gap_def Let_def mask_eq_exp_minus_1 minus_exp_eq_not_mask)

lemma align_gap_aligned: "take_bit (unat k) (a + align_gap a k) = 0"
  by (simp add: align_gap_mask take_bit_eq_mask and.assoc)

lemma word_and_not_eq: "a AND NOT b = a - (a AND b :: 'a::len word)"
proof -
  have "(a AND NOT b) + (a AND b) = (a AND NOT b) OR (a AND b)"
    by (rule disjunctive_add) (simp add: bit_simps)
  also have "\<dots> = a" by (rule bit_word_eqI) (auto simp: bit_simps)
  finally show ?thesis by (simp add: eq_diff_eq)
qed

lemma align_gap_small: "align_gap a k \<le> mask (unat k)"
proof -
  define m where "m = (mask (unat k) :: u32)"
  have "(a + m) AND NOT m = (a + m) - take_bit (unat k) (a + m)"
    by (simp add: m_def take_bit_eq_mask word_and_not_eq)
  then have "align_gap a k = m - take_bit (unat k) (a + m)"
    by (simp add: align_gap_mask m_def)
  moreover have "take_bit (unat k) (a + m) \<le> m"
    by (simp add: take_bit_eq_mask m_def word_and_le1)
  ultimately show ?thesis by (simp add: m_def word_sub_le)
qed

section \<open>Adjacent fragments\<close>

text \<open>
  The size of the variable part of a fragment. That of an \<open>.org\<close> is what lies between it and
  the next fragment.
\<close>

definition var_size :: "machine \<Rightarrow> fragS \<Rightarrow> u32" where
  "var_size md f =
     (case fr_type f of
        rs_fill \<Rightarrow> fr_offset f * fr_var f
      | rs_align \<Rightarrow> max_bytes (fr_subtype f) (align_gap (low (fr_address f) + fr_fix f) (fr_offset f))
      | rs_org \<Rightarrow> 0
      | rs_machine_dependent \<Rightarrow> ucast (rlx_length (md_relax_table md ! unat (fr_subtype f)))
      | rs_dwarf2dbg \<Rightarrow> fr_subtype f
      | rs_leb128 \<Rightarrow> fr_offset f)"

definition end_of :: "machine \<Rightarrow> fragS \<Rightarrow> u32" where
  "end_of md f = low (fr_address f) + fr_fix f + var_size md f"

definition adjacent :: "machine \<Rightarrow> fragS \<Rightarrow> u32 \<Rightarrow> bool" where
  "adjacent md f a \<longleftrightarrow> fr_type f \<noteq> rs_org \<longrightarrow> a = end_of md f"

definition chained :: "machine \<Rightarrow> fragS list \<Rightarrow> bool" where
  "chained md frags \<longleftrightarrow>
     (\<forall>i. Suc i < length frags \<longrightarrow> adjacent md (frags ! i) (low (fr_address (frags ! Suc i))))"

text \<open>What does not change in a fragment, and what a step of a pass does to one.\<close>

definition same_frag :: "fragS \<Rightarrow> fragS \<Rightarrow> bool" where
  "same_frag f g \<longleftrightarrow> fr_type g = fr_type f \<and> fr_symbol g = fr_symbol f \<and> fr_fix g = fr_fix f
     \<and> fr_var g = fr_var f \<and> fr_literal g = fr_literal f \<and> fr_opcode g = fr_opcode f
     \<and> last_fr_address g = last_fr_address f
     \<and> (fr_type f \<noteq> rs_leb128 \<longrightarrow> fr_offset g = fr_offset f)
     \<and> (fr_type f \<noteq> rs_machine_dependent \<and> fr_type f \<noteq> rs_dwarf2dbg \<longrightarrow> fr_subtype g = fr_subtype f)"

lemma same_frag_refl [simp]: "same_frag f f"
  by (simp add: same_frag_def)

lemma same_frag_trans: "same_frag f g \<Longrightarrow> same_frag g h \<Longrightarrow> same_frag f h"
  by (simp add: same_frag_def)

text \<open>
  A step of a pass moves the fragment by the stretch before it, and its end by the stretch after
  it, so that the next fragment stays adjacent when it is moved in turn. A fragment that does
  not move and does not grow is left as it is.
\<close>

lemma relax_one_cases:
  assumes "relax_one md i (frags, s, n) = Some (frags', s', n')" and "i < length frags"
  obtains f g where
    "frag_growth md (frags[i := (frags ! i)\<lparr>fr_address := fr_address (frags ! i) + scast s\<rparr>]) i
       (low (fr_address (frags ! i))) s = Some (g, f)"
    "frags' = frags[i := f]" "s' = s + g" "n' = (if g \<noteq> 0 then Suc n else n)"
  using assms by (auto simp: relax_one_def bind_eq_Some_conv Let_def)

lemma frag_growth_same:
  assumes "frag_growth md frags i was s = Some (g, f)"
  shows "same_frag (frags ! i) f" "fr_address f = fr_address (frags ! i)"
  using assms
  by (auto simp: frag_growth_def Let_def bind_eq_Some_conv branch_growth_def
      same_frag_def split: relax_stateT.splits if_splits)

lemma frag_growth_size:
  assumes g: "frag_growth md frags i was s = Some (g, f)" and frag: "frags ! i = f0\<lparr>fr_address := a\<rparr>"
    and was: "was = low (fr_address f0)" and a: "low a = was + s" and "fr_type f0 \<noteq> rs_org"
  shows "var_size md f = var_size md f0 + g"
proof (cases "fr_type f0")
  case rs_align
  with g frag have "g = align_growth (md_arch64 md) was (f0\<lparr>fr_address := a\<rparr>)" "f = f0\<lparr>fr_address := a\<rparr>"
    by (auto simp: frag_growth_def Let_def)
  with rs_align was a show ?thesis by (simp add: var_size_def align_growth_def low_simps Let_def)
qed (use g assms(5) in \<open>auto simp: frag frag_growth_def var_size_def branch_growth_def bind_eq_Some_conv
    Let_def split: if_splits\<close>)

lemma relax_one_step:
  assumes "relax_one md i (frags, s, n) = Some (frags', s', n')" and "i < length frags"
  obtains f g where "frags' = frags[i := f]" "s' = s + g" "n' = (if g \<noteq> 0 then Suc n else n)"
    "same_frag (frags ! i) f" "fr_address f = fr_address (frags ! i) + scast s"
    "fr_type (frags ! i) \<noteq> rs_org \<Longrightarrow> end_of md f = end_of md (frags ! i) + s'"
    "frag_growth md (frags[i := (frags ! i)\<lparr>fr_address := fr_address (frags ! i) + scast s\<rparr>]) i
       (low (fr_address (frags ! i))) s = Some (g, f)"
proof -
  let ?f = "(frags ! i)\<lparr>fr_address := fr_address (frags ! i) + scast s\<rparr>"
  from relax_one_cases [OF assms] obtain f g where
    g: "frag_growth md (frags[i := ?f]) i (low (fr_address (frags ! i))) s = Some (g, f)"
    and st: "frags' = frags[i := f]" "s' = s + g" "n' = (if g \<noteq> 0 then Suc n else n)" .
  from frag_growth_same [OF g] assms(2) have same: "same_frag (frags ! i) f" "fr_address f = fr_address ?f"
    by (simp_all add: same_frag_def)
  have "end_of md f = end_of md (frags ! i) + s'" if "fr_type (frags ! i) \<noteq> rs_org"
    using frag_growth_size [OF g] that same st(2) assms(2)
    by (simp add: end_of_def low_simps same_frag_def)
  with g st same show thesis by (intro that) simp_all
qed

text \<open>A pass keeps the fragments adjacent.\<close>

lemma relax_pass_rule:
  assumes "relax_pass md frags = Some (frags', k)" and "P 0 frags 0 0"
    and "\<And>i fs s n fs' s' n'. i < length frags \<Longrightarrow> length fs = length frags \<Longrightarrow> P i fs s n
      \<Longrightarrow> relax_one md i (fs, s, n) = Some (fs', s', n') \<Longrightarrow> P (Suc i) fs' s' n'"
  shows "length frags' = length frags \<and> (\<exists>s. P (length frags) frags' s k)"
proof -
  from assms(1) obtain s where run: "for_each (relax_one md) [0..<length frags] (frags, 0, 0) = Some (frags', s, k)"
    by (auto simp: relax_pass_def bind_eq_Some_conv)
  have "length (fst (frags', s, k)) = length frags \<and>
      P (length frags) (fst (frags', s, k)) (fst (snd (frags', s, k))) (snd (snd (frags', s, k)))"
  proof (rule for_each_rule [OF _ _ run, where P = "\<lambda>i st. length (fst st) = length frags
      \<and> P i (fst st) (fst (snd st)) (snd (snd st))"])
    fix i and st st' :: "fragS list \<times> u32 \<times> nat"
    assume "i < length frags" "length (fst st) = length frags \<and> P i (fst st) (fst (snd st)) (snd (snd st))"
      "relax_one md i st = Some st'"
    moreover obtain fs s n fs' s' n' where "st = (fs, s, n)" "st' = (fs', s', n')" by (cases st, cases st')
    ultimately show "length (fst st') = length frags \<and> P (Suc i) (fst st') (fst (snd st')) (snd (snd st'))"
      using assms(3) [of i fs s n fs' s' n'] by (auto elim: relax_one_step)
  qed (simp_all add: assms(2))
  then show ?thesis by auto
qed

lemma relax_pass_chained:
  assumes "relax_pass md frags = Some (frags', k)" and "chained md frags"
  shows "chained md frags'"
proof -
  let ?P = "\<lambda>i fs s n. \<forall>j. Suc j < length fs \<longrightarrow>
      adjacent md (fs ! j) (low (fr_address (fs ! Suc j)) + (if Suc j = i then s else 0))"
  have "length frags' = length frags \<and> (\<exists>s. ?P (length frags) frags' s k)"
  proof (rule relax_pass_rule [OF assms(1), where P = ?P])
    fix i fs s n fs' s' n'
    assume "i < length frags" "length fs = length frags" and P: "?P i fs s n"
      and one: "relax_one md i (fs, s, n) = Some (fs', s', n')"
    then have "i < length fs" by simp
    with relax_one_step [OF one this] obtain f g where f: "fs' = fs[i := f]" "same_frag (fs ! i) f"
      "fr_address f = fr_address (fs ! i) + scast s"
      "fr_type (fs ! i) \<noteq> rs_org \<Longrightarrow> end_of md f = end_of md (fs ! i) + s'" by metis
    show "?P (Suc i) fs' s' n'"
    proof (intro allI impI)
      fix j assume "Suc j < length fs'"
      with f(1) P have "adjacent md (fs ! j) (low (fr_address (fs ! Suc j)) + (if Suc j = i then s else 0))"
        by simp
      then show "adjacent md (fs' ! j) (low (fr_address (fs' ! Suc j)) + (if Suc j = Suc i then s' else 0))"
        using f \<open>i < length fs\<close> by (auto simp: adjacent_def nth_list_update low_simps same_frag_def)
    qed
  qed (use assms(2) in \<open>auto simp: chained_def\<close>)
  then show ?thesis by (auto simp: chained_def)
qed

section \<open>The end of the loop\<close>

text \<open>A fragment that does not grow where it is, as it is.\<close>

definition at_rest :: "machine \<Rightarrow> fragS list \<Rightarrow> nat \<Rightarrow> bool" where
  "at_rest md frags i \<longleftrightarrow> frag_growth md frags i (low (fr_address (frags ! i))) 0 = Some (0, frags ! i)"

lemma frag_growth_zero: "frag_growth md frags i was s = Some (0, f) \<Longrightarrow> f = frags ! i"
  by (auto simp: frag_growth_def branch_growth_def bind_eq_Some_conv Let_def
      split: relax_stateT.splits if_splits)

lemma frag_not_moved: "i < length frags \<Longrightarrow> frags[i := (frags ! i)\<lparr>fr_address := fr_address (frags ! i) + scast (0 :: u32)\<rparr>] = frags"
  by (simp add: list_update_same_conv)

text \<open>A pass without growth leaves everything as it is, so all of the fragments are at rest.\<close>

lemma relax_pass_quiet:
  assumes "relax_pass md frags = Some (frags', k)" and "k = 0"
  shows "frags' = frags" "i < length frags \<Longrightarrow> at_rest md frags i"
proof -
  let ?P = "\<lambda>(i :: nat) fs (s :: u32) (n :: nat). n = 0 \<longrightarrow> s = 0 \<and> fs = frags \<and> (\<forall>j < i. at_rest md frags j)"
  have "length frags' = length frags \<and> (\<exists>s. ?P (length frags) frags' s k)"
  proof (rule relax_pass_rule [OF assms(1), where P = ?P])
    fix i fs s n fs' s' n'
    assume i: "i < length frags" "length fs = length frags" and P: "?P i fs s n"
      and one: "relax_one md i (fs, s, n) = Some (fs', s', n')"
    show "?P (Suc i) fs' s' n'"
    proof
      assume "n' = 0"
      from one i obtain g f where "frag_growth md (fs[i := (fs ! i)\<lparr>fr_address := fr_address (fs ! i) + scast s\<rparr>]) i
          (low (fr_address (fs ! i))) s = Some (g, f)" "fs' = fs[i := f]" "s' = s + g"
        "n' = (if g \<noteq> 0 then Suc n else n)" by (auto elim: relax_one_cases)
      with P \<open>n' = 0\<close> have "s = 0" "fs = frags" "g = 0" "s' = 0" "fs' = frags[i := f]"
        and g: "frag_growth md frags i (low (fr_address (frags ! i))) 0 = Some (0, f)"
        and before: "\<forall>j < i. at_rest md frags j"
        using frag_not_moved [OF i(1)] by (auto split: if_splits)
      from g frag_growth_zero [OF g] have "at_rest md frags i" "f = frags ! i" by (simp_all add: at_rest_def)
      with before \<open>s' = 0\<close> \<open>fs' = frags[i := f]\<close>
      show "s' = 0 \<and> fs' = frags \<and> (\<forall>j < Suc i. at_rest md frags j)" by (auto simp: less_Suc_eq)
    qed
  qed simp_all
  with assms(2) show "frags' = frags" "i < length frags \<Longrightarrow> at_rest md frags i" by auto
qed

lemma relax_loop_rule:
  assumes "relax_loop md frags = Some frags'" and "P frags"
    and "\<And>a b k. P a \<Longrightarrow> relax_pass md a = Some (b, k) \<Longrightarrow> P b"
  shows "P frags' \<and> (\<forall>i < length frags'. at_rest md frags' i)"
proof -
  have "P frags \<longrightarrow> P frags' \<and> (\<forall>i < length frags'. at_rest md frags' i)"
  proof (rule relax_loop.raw_induct [OF _ assms(1), where P = "\<lambda>md' frags frags'. md' = md \<longrightarrow> P frags
      \<longrightarrow> P frags' \<and> (\<forall>i < length frags'. at_rest md frags' i)", THEN mp, OF _ refl], goal_cases)
    case (1 loop md' a b)
    then show ?case
      using relax_pass_quiet [of md a] assms(3) [of a] by (auto split: option.splits if_splits)
  qed
  with assms(2) show ?thesis by simp
qed

text \<open>What being at rest means for each kind of fragment.\<close>

lemma at_rest_org:
  assumes "at_rest md frags i" and "fr_type (frags ! i) = rs_org"
  shows "Suc i < length frags \<and> org_room (org_target frags (frags ! i) - low (fr_address (frags ! Suc i))) = 0"
  using assms by (auto simp: at_rest_def frag_growth_def org_growth_def bind_eq_Some_conv Let_def
      split: if_splits)

lemma at_rest_line:
  assumes "at_rest md frags i" and "fr_type (frags ! i) = rs_dwarf2dbg"
  shows "dwarf2dbg_size (md_arch64 md) frags (frags ! i) = Some (fr_subtype (frags ! i))"
  using assms by (auto simp: at_rest_def frag_growth_def bind_eq_Some_conv Let_def)

lemma at_rest_leb128:
  assumes "at_rest md frags i" and "fr_type (frags ! i) = rs_leb128"
  shows "\<exists>v. leb128_value frags (frags ! i) = Some v
    \<and> fr_offset (frags ! i) = of_nat (sizeof_leb128 (md_arch64 md) v (fr_subtype (frags ! i) \<noteq> 0))"
  using assms by (auto simp: at_rest_def frag_growth_def bind_eq_Some_conv Let_def)

text \<open>The sizes that depend on addresses are those of the final values.\<close>

definition settled :: "bool \<Rightarrow> fragS list \<Rightarrow> nat \<Rightarrow> bool" where
  "settled arch64 frags i =
     (case fr_type (frags ! i) of
        rs_org \<Rightarrow> org_room (org_target frags (frags ! i) - low (fr_address (frags ! Suc i))) = 0
      | rs_dwarf2dbg \<Rightarrow> dwarf2dbg_size arch64 frags (frags ! i) = Some (fr_subtype (frags ! i))
      | rs_leb128 \<Rightarrow> \<exists>v. leb128_value frags (frags ! i) = Some v
          \<and> fr_offset (frags ! i) = of_nat (sizeof_leb128 arch64 v (fr_subtype (frags ! i) \<noteq> 0))
      | _ \<Rightarrow> True)"

lemma at_rest_settled: "at_rest md frags i \<Longrightarrow> settled (md_arch64 md) frags i"
  using at_rest_org [of md frags i] at_rest_line [of md frags i] at_rest_leb128 [of md frags i]
  by (simp add: settled_def split: relax_stateT.split)

section \<open>The machine dependent part\<close>

lemma low_byte_inj: "(ucast a :: u32) = ucast b \<Longrightarrow> a = (b :: u8)"
  by transfer (auto simp: take_bit_take_bit)

text \<open>
  The table: a longer state is an entry of the table and is really longer. This is all that
  the search for a state needs to end.
\<close>

locale relax_table =
  fixes table :: "relax_typeS list"
  assumes more_valid: "unat (s :: u32) < length table \<Longrightarrow> rlx_more (table ! unat s) \<noteq> 0
      \<Longrightarrow> unat (rlx_more (table ! unat s)) < length table"
    and more_longer: "unat (s :: u32) < length table \<Longrightarrow> rlx_more (table ! unat s) \<noteq> 0
      \<Longrightarrow> rlx_length (table ! unat s) < rlx_length (table ! unat (rlx_more (table ! unat s)))"
begin

lemma next_state_found:
  "unat s < length table \<Longrightarrow> \<exists>t. next_state_for table aim s = Some t \<and> unat t < length table
     \<and> (t = s \<or> rlx_length (table ! unat s) < rlx_length (table ! unat t))
     \<and> (rlx_more (table ! unat t) = 0 \<or> reaches aim (table ! unat t))"
proof (induction "255 - unat (rlx_length (table ! unat s))" arbitrary: s rule: less_induct)
  case less
  show ?case
  proof (cases "rlx_more (table ! unat s) = 0 \<or> reaches aim (table ! unat s)")
    case True
    with less.prems show ?thesis by (subst next_state_for.simps) auto
  next
    case False
    let ?m = "rlx_more (table ! unat s)"
    from False less.prems have m: "unat ?m < length table" "rlx_length (table ! unat s) < rlx_length (table ! unat ?m)"
      using more_valid [OF less.prems] more_longer [OF less.prems] by auto
    have "unat (rlx_length (table ! unat ?m)) < 2 ^ 8" using unsigned_less [of "rlx_length (table ! unat ?m)"] by simp
    with m have "255 - unat (rlx_length (table ! unat ?m)) < 255 - unat (rlx_length (table ! unat s))"
      by (simp add: word_less_nat_alt)
    from less.hyps [OF this m(1)] obtain t where "next_state_for table aim ?m = Some t" "unat t < length table"
      "t = ?m \<or> rlx_length (table ! unat ?m) < rlx_length (table ! unat t)"
      "rlx_more (table ! unat t) = 0 \<or> reaches aim (table ! unat t)" by blast
    with False less.prems m(2) show ?thesis by (subst next_state_for.simps) auto
  qed
qed

end

definition same_code :: "fragS \<Rightarrow> fragS \<Rightarrow> bool" where
  "same_code f g \<longleftrightarrow> fr_type g = fr_type f \<and> fr_symbol g = fr_symbol f \<and> fr_fix g = fr_fix f
     \<and> fr_var g = fr_var f \<and> fr_offset g = fr_offset f \<and> fr_literal g = fr_literal f \<and> fr_opcode g = fr_opcode f"

text \<open>
  The estimate: for a fragment the machine is \<open>ready\<close> for it gives the size of the fragment
  it leaves, which is one of fixed size or again one the machine is ready for.
\<close>

locale relax_machine = relax_table "md_relax_table md" for md :: machine +
  fixes ready :: "fragS \<Rightarrow> bool"
  assumes ready_state: "ready f \<Longrightarrow> unat (fr_subtype f) < length (md_relax_table md)"
    and ready_same: "ready f \<Longrightarrow> same_code f g \<Longrightarrow> unat (fr_subtype g) < length (md_relax_table md) \<Longrightarrow> ready g"
    and estimate: "ready f \<Longrightarrow> fr_type f = rs_machine_dependent \<Longrightarrow>
      \<exists>size f' fixes. md_estimate_size_before_relax md nsect f = Some (size, f', fixes)
        \<and> fr_address f' = fr_address f \<and> fr_symbol f' = fr_symbol f \<and> fr_fix f' + var_size md f' = fr_fix f + size
        \<and> (fr_type f' = rs_fill \<or> fr_type f' = rs_machine_dependent \<and> ready f')"
begin

lemma ready_moved: "ready (f\<lparr>fr_address := a\<rparr>) = ready f"
  using ready_same [of f "f\<lparr>fr_address := a\<rparr>"] ready_same [of "f\<lparr>fr_address := a\<rparr>" f] ready_state
  by (fastforce simp: same_code_def)

text \<open>A branch at rest reaches its target, or there is no longer form of it.\<close>

lemma at_rest_branch:
  assumes "at_rest md frags i" and "fr_type (frags ! i) = rs_machine_dependent"
    and "unat (fr_subtype (frags ! i)) < length (md_relax_table md)"
  shows "rlx_more (md_relax_table md ! unat (fr_subtype (frags ! i))) = 0
    \<or> reaches (branch_aim frags i (low (fr_address (frags ! i))) 0)
        (md_relax_table md ! unat (fr_subtype (frags ! i)))"
proof -
  let ?s = "fr_subtype (frags ! i)" and ?aim = "branch_aim frags i (low (fr_address (frags ! i))) 0"
  from next_state_found [OF assms(3)] obtain t where t: "next_state_for (md_relax_table md) ?aim ?s = Some t"
    "t = ?s \<or> rlx_length (md_relax_table md ! unat ?s) < rlx_length (md_relax_table md ! unat t)"
    "rlx_more (md_relax_table md ! unat t) = 0 \<or> reaches ?aim (md_relax_table md ! unat t)" by blast
  from assms(1,2) t(1) have "(ucast (rlx_length (md_relax_table md ! unat t)) :: u32)
      = ucast (rlx_length (md_relax_table md ! unat ?s))"
    by (simp add: at_rest_def frag_growth_def branch_growth_def Let_def)
  then have "rlx_length (md_relax_table md ! unat t) = rlx_length (md_relax_table md ! unat ?s)"
    by (rule low_byte_inj)
  with t(2,3) show ?thesis by auto
qed

end

lemma branch_aim_still:
  "branch_aim frags i was 0 = fr_offset (frags ! i)
     + (case fr_symbol (frags ! i) of None \<Rightarrow> 0 | Some symb \<Rightarrow> low (sym_address frags (sy_ref symb)))
     - low (fr_address (frags ! i)) - fr_fix (frags ! i)"
  by (simp add: branch_aim_def Let_def split: option.split)

section \<open>The first guess is adjacent\<close>

definition step_known :: "fragS \<Rightarrow> bool" where
  "step_known f \<longleftrightarrow> dwarf2dbg_addr_delta [] f \<noteq> None"

definition ref_ok :: "nat \<Rightarrow> sym_ref \<Rightarrow> bool" where
  "ref_ok n r = (case sy_frag r of Here j \<Rightarrow> j < n | Elsewhere _ \<Rightarrow> True)"

definition refs_ok :: "nat \<Rightarrow> fragS \<Rightarrow> bool" where
  "refs_ok n f = (case fr_symbol f of None \<Rightarrow> True
     | Some symb \<Rightarrow> ref_ok n (sy_ref symb)
         \<and> (case sy_expression symb of None \<Rightarrow> True
            | Some e \<Rightarrow> pred_option (ref_ok n) (X_add_symbol e) \<and> pred_option (ref_ok n) (X_subtract_symbol e)))"

definition frag_ok :: "(fragS \<Rightarrow> bool) \<Rightarrow> nat \<Rightarrow> nat \<Rightarrow> fragS \<Rightarrow> bool" where
  "frag_ok ready n i f =
     (refs_ok n f \<and> (case fr_type f of
        rs_fill \<Rightarrow> True
      | rs_align \<Rightarrow> 0 \<le>s fr_subtype f \<and> fr_offset f < 31
      | rs_org \<Rightarrow> Suc i < n
      | rs_machine_dependent \<Rightarrow> ready f
      | rs_dwarf2dbg \<Rightarrow> step_known f
      | rs_leb128 \<Rightarrow> fr_symbol f \<noteq> None))"

definition frags_ok :: "(fragS \<Rightarrow> bool) \<Rightarrow> fragS list \<Rightarrow> bool" where
  "frags_ok ready frags \<longleftrightarrow> (\<forall>i < length frags. frag_ok ready (length frags) i (frags ! i))"

lemma sint_cases: "sint a = (if uint a < 2 ^ 31 then uint a else uint a - 2 ^ 32)" for a :: u32
proof -
  have "sint a = (uint a + 2 ^ 31) mod 2 ^ 32 - 2 ^ 31"
    by (simp add: sint_uint signed_take_bit_eq_take_bit_shift take_bit_eq_mod)
  moreover have "uint a < 2 ^ 32" using unsigned_less [of a, where ?'a = int] by simp
  moreover have "(uint a + 2 ^ 31) mod 2 ^ 32 = (uint a - 2 ^ 31) mod 2 ^ 32"
    using mod_add_self2 [of "uint a - 2 ^ 31" "2 ^ 32"] by (simp add: add.commute)
  ultimately show ?thesis by (auto simp: mod_pos_pos_trivial)
qed

lemma sint_nonneg: "0 \<le>s a \<longleftrightarrow> uint a < 2 ^ 31" "0 \<le>s a \<Longrightarrow> sint a = uint a" for a :: u32
proof -
  have "uint a < 2 ^ 32" using unsigned_less [of a, where ?'a = int] by simp
  then show "0 \<le>s a \<longleftrightarrow> uint a < 2 ^ 31" "0 \<le>s a \<Longrightarrow> sint a = uint a"
    by (auto simp: word_sle_eq sint_cases split: if_splits)
qed

lemma sless_nonneg: "0 \<le>s a \<Longrightarrow> 0 \<le>s b \<Longrightarrow> a <s b \<longleftrightarrow> a < (b :: u32)"
  by (simp add: word_sless_alt word_less_def sint_nonneg(2))

lemma gap_nonneg:
  assumes "k < 31" shows "0 \<le>s align_gap a k"
proof -
  have k: "unat k \<le> 30" using assms by (simp add: word_less_nat_alt)
  have "uint (align_gap a k) \<le> uint (mask (unat k) :: u32)"
    using align_gap_small [of a k] by (simp add: word_le_def)
  also have "\<dots> = mask (unat k)" using k by (simp add: uint_mask_eq min_absorb2)
  also have "\<dots> < 2 ^ 31"
    using k power_increasing [of "unat k" 30 "2 :: int"] by (simp add: mask_eq_exp_minus_1)
  finally show ?thesis by (simp add: sint_nonneg(1))
qed

text \<open>What the guess keeps of a fragment.\<close>

definition guessed :: "fragS \<Rightarrow> fragS \<Rightarrow> bool" where
  "guessed f g \<longleftrightarrow> fr_symbol g = fr_symbol f
     \<and> (if fr_type f = rs_machine_dependent then fr_type g = rs_machine_dependent \<or> fr_type g = rs_fill
        else same_frag f (g\<lparr>fr_address := fr_address f\<rparr>))"

lemma guessed_refl: "guessed f f"
  by (simp add: guessed_def same_frag_def)

lemma guessed_moved: "guessed (f\<lparr>fr_address := a\<rparr>) g \<Longrightarrow> guessed f g"
  by (simp add: guessed_def same_frag_def split: if_splits)

lemma align_guess_gap:
  assumes "0 \<le>s fr_subtype f" and "fr_offset f < 31"
  shows "fst (align_guess arch64 a f align) = max_bytes (fr_subtype f) (align_gap (low a) (fr_offset f))"
  using sless_nonneg [OF assms(1) gap_nonneg [OF assms(2)]]
  by (simp add: align_guess_def max_bytes_def low_simps Let_def)

lemma step_known_size: "step_known f \<Longrightarrow> \<exists>size. dwarf2dbg_size arch64 frags f = Some size"
  by (auto simp: step_known_def dwarf2dbg_size_def dwarf2dbg_addr_delta_def bind_eq_Some_conv)

context relax_machine
begin

text \<open>The size that is guessed is that of the fragment that is left.\<close>

lemma guess_size_ok:
  assumes "frag_ok ready n i f" and "low a = low (fr_address f) + fr_fix f"
  shows "\<exists>size f' align' fixes. guess_size md nsect frags a f align = Some (size, f', align', fixes)
    \<and> fr_address f' = fr_address f \<and> frag_ok ready n i f' \<and> (fr_type f' = rs_org \<longleftrightarrow> fr_type f = rs_org)
    \<and> (fr_type f \<noteq> rs_org \<longrightarrow> fr_fix f' + var_size md f' = fr_fix f + size) \<and> guessed f f'"
proof (cases "fr_type f")
  case rs_align
  with assms align_guess_gap [of f "md_arch64 md" a align] show ?thesis
    by (cases "align_guess (md_arch64 md) a f align") (auto simp: guess_size_def frag_ok_def var_size_def guessed_refl)
next
  case rs_machine_dependent
  with assms estimate [of f nsect] show ?thesis
    by (auto simp: guess_size_def frag_ok_def refs_ok_def guessed_def)
next
  case rs_dwarf2dbg
  with assms step_known_size [of f "md_arch64 md" frags] show ?thesis
    by (auto simp: guess_size_def frag_ok_def var_size_def step_known_def dwarf2dbg_addr_delta_def refs_ok_def
        guessed_def same_frag_def)
qed (use assms in \<open>auto simp: guess_size_def frag_ok_def var_size_def refs_ok_def guessed_def same_frag_def\<close>)

lemma frag_ok_moved: "frag_ok ready n i (f\<lparr>fr_address := a\<rparr>) = frag_ok ready n i f"
  by (simp add: frag_ok_def ready_moved step_known_def dwarf2dbg_addr_delta_def refs_ok_def split: relax_stateT.split)

lemma guess_ok:
  assumes "frags_ok ready (frch_frags sect)"
  shows "\<exists>sect' a. for_each (guess_one md) [0..<length (frch_frags sect)] (sect, 0) = Some (sect', a)
    \<and> length (frch_frags sect') = length (frch_frags sect) \<and> frags_ok ready (frch_frags sect')
    \<and> chained md (frch_frags sect') \<and> frch_nsect sect' = frch_nsect sect \<and> frch_align sect \<le> frch_align sect'
    \<and> (\<forall>j < length (frch_frags sect). guessed (frch_frags sect ! j) (frch_frags sect' ! j))"
proof -
  let ?n = "length (frch_frags sect)"
  let ?P = "\<lambda>i (s :: frchain, a :: u64). length (frch_frags s) = ?n \<and> frags_ok ready (frch_frags s)
    \<and> frch_nsect s = frch_nsect sect \<and> frch_align sect \<le> frch_align s
    \<and> (\<forall>j < ?n. guessed (frch_frags sect ! j) (frch_frags s ! j) \<and> (i \<le> j \<longrightarrow> frch_frags s ! j = frch_frags sect ! j))
    \<and> (\<forall>j. Suc j \<le> i \<longrightarrow> adjacent md (frch_frags s ! j)
          (if Suc j = i then low a else low (fr_address (frch_frags s ! Suc j))))"
  have "\<exists>st. for_each (guess_one md) [0..<?n] (sect, 0) = Some st \<and> ?P ?n st"
  proof (rule for_each_total [where P = ?P])
    fix i st assume i: "i < ?n" and P: "?P i st"
    obtain s a where st: "st = (s, a)" by (cases st)
    let ?f = "(frch_frags s ! i)\<lparr>fr_address := a\<rparr>"
    let ?a = "relax_address (md_arch64 md) (a + scast (fr_fix ?f))"
    from P st i have ok: "frag_ok ready ?n i ?f" by (auto simp: frags_ok_def frag_ok_moved)
    have a: "low ?a = low (fr_address ?f) + fr_fix ?f" by (simp add: low_simps)
    from guess_size_ok [OF ok a, of "frch_nsect s" "(frch_frags s)[i := ?f]" "frch_align s"]
    obtain size f' align' fxs where g: "guess_size md (frch_nsect s) ((frch_frags s)[i := ?f]) ?a ?f (frch_align s)
        = Some (size, f', align', fxs)" and f': "fr_address f' = a" "frag_ok ready ?n i f'"
      "fr_type f' = rs_org \<longleftrightarrow> fr_type ?f = rs_org"
      "fr_type ?f \<noteq> rs_org \<Longrightarrow> fr_fix f' + var_size md f' = fr_fix ?f + size" "guessed ?f f'" by auto
    have kept: "\<forall>j < ?n. guessed (frch_frags sect ! j) ((frch_frags s)[i := f'] ! j)
        \<and> (Suc i \<le> j \<longrightarrow> (frch_frags s)[i := f'] ! j = frch_frags sect ! j)"
    proof (intro allI impI)
      fix j assume "j < ?n"
      with P st guessed_moved [OF f'(5)] i
      show "guessed (frch_frags sect ! j) ((frch_frags s)[i := f'] ! j)
          \<and> (Suc i \<le> j \<longrightarrow> (frch_frags s)[i := f'] ! j = frch_frags sect ! j)"
        by (cases "j = i") auto
    qed
    have align: "frch_align s \<le> align'"
      using g by (auto simp: guess_size_def align_guess_def bind_eq_Some_conv Let_def
          split: relax_stateT.splits if_splits)
    let ?after_end = "relax_address (md_arch64 md) (?a + scast size)" and ?fs = "(frch_frags s)[i := f']"
    have "adjacent md f' (low ?after_end)"
      using f' by (auto simp: adjacent_def end_of_def low_simps algebra_simps)
    then have here: "adjacent md f' (low ?after_end)" by simp
    have adj: "adjacent md (?fs ! j) (if Suc j = Suc i then low ?after_end else low (fr_address (?fs ! Suc j)))"
      if "Suc j \<le> Suc i" for j
    proof (cases "j = i")
      case True
      with here i P st show ?thesis by simp
    next
      case False
      with that have "Suc j \<le> i" by simp
      with P st have "adjacent md (frch_frags s ! j) (if Suc j = i then low a else low (fr_address (frch_frags s ! Suc j)))"
        by simp
      with \<open>Suc j \<le> i\<close> i P st f'(1) False show ?thesis by (auto simp: nth_list_update)
    qed
    let ?s = "s\<lparr>frch_frags := ?fs, frch_align := align',
        frch_fix_root := rev (map (Pair i) fxs) @ frch_fix_root s\<rparr>"
    from adj have adj': "\<forall>j. Suc j \<le> Suc i \<longrightarrow> adjacent md (?fs ! j)
        (if Suc j = Suc i then low ?after_end else low (fr_address (?fs ! Suc j)))" by blast
    have one: "guess_one md i st = Some (?s, ?after_end)"
      using g st by (simp add: guess_one_def Let_def)
    have "frags_ok ready ?fs" using P st f'(2) i by (auto simp: frags_ok_def nth_list_update)
    moreover have "length ?fs = ?n" "frch_nsect s = frch_nsect sect" "frch_align sect \<le> align'"
      using P st align by (auto intro: order_trans)
    moreover have s': "frch_frags ?s = ?fs" "frch_nsect ?s = frch_nsect s" "frch_align ?s = align'" by simp_all
    ultimately have "?P (Suc i) (?s, ?after_end)"
      unfolding prod.case s' using adj' kept by - (intro conjI)
    with one show "\<exists>st'. guess_one md i st = Some st' \<and> ?P (Suc i) st'" by blast
  qed (use assms in \<open>simp_all add: guessed_refl\<close>)
  then obtain s a where run: "for_each (guess_one md) [0..<?n] (sect, 0) = Some (s, a)" and P: "?P ?n (s, a)"
    by auto
  from P have "chained md (frch_frags s)"
    unfolding chained_def prod.case
  proof (intro allI impI, elim conjE)
    fix i assume "Suc i < length (frch_frags s)" "length (frch_frags s) = ?n"
      and "\<forall>j. Suc j \<le> ?n \<longrightarrow> adjacent md (frch_frags s ! j)
        (if Suc j = ?n then low a else low (fr_address (frch_frags s ! Suc j)))"
    then show "adjacent md (frch_frags s ! i) (low (fr_address (frch_frags s ! Suc i)))"
      by (auto dest!: spec [of _ i])
  qed
  with run P show ?thesis by auto
qed

end

section \<open>Termination\<close>

text \<open>
  A section settles if its \<open>.org\<close>s, line steps and base 128 numbers refer to other sections and
  to fragments before them only. Then a pass that has not moved anything yet can only move
  something by lengthening a branch.
\<close>

definition settles :: "nat \<Rightarrow> fragS \<Rightarrow> bool" where
  "settles i f \<longleftrightarrow> (fr_type f = rs_org \<or> fr_type f = rs_dwarf2dbg \<or> fr_type f = rs_leb128 \<longrightarrow> refs_ok (Suc i) f)"

lemma values_same:
  assumes "refs_ok (Suc i) f" and "\<forall>j \<le> i. fr_address (fs ! j) = fr_address (gs ! j)"
  shows "dwarf2dbg_addr_delta fs f = dwarf2dbg_addr_delta gs f"
    "leb128_value fs f = leb128_value gs f" "org_target fs f = org_target gs f"
proof -
  have "sym_address fs r = sym_address gs r" if "ref_ok (Suc i) r" for r
    using that assms(2) by (simp add: ref_ok_def sym_address_def ref_address_def split: frag_ref.splits)
  with assms(1) show "dwarf2dbg_addr_delta fs f = dwarf2dbg_addr_delta gs f"
    "leb128_value fs f = leb128_value gs f" "org_target fs f = org_target gs f"
    by (cases "fr_symbol f"; cases "sy_expression (the (fr_symbol f))";
        cases "X_add_symbol (the (sy_expression (the (fr_symbol f))))";
        cases "X_subtract_symbol (the (sy_expression (the (fr_symbol f))))";
        simp add: refs_ok_def dwarf2dbg_addr_delta_def leb128_value_def org_target_def)+
qed

lemma frag_updates:
  "dwarf2dbg_addr_delta frags (f\<lparr>fr_subtype := v\<rparr>) = dwarf2dbg_addr_delta frags f"
  "leb128_value frags (f\<lparr>fr_offset := v\<rparr>) = leb128_value frags f"
  "step_known (f\<lparr>fr_subtype := v\<rparr>) = step_known f" "step_known (f\<lparr>fr_address := a\<rparr>) = step_known f"
  "refs_ok n (f\<lparr>fr_subtype := v\<rparr>) = refs_ok n f" "refs_ok n (f\<lparr>fr_offset := v\<rparr>) = refs_ok n f"
  "refs_ok n (f\<lparr>fr_address := a\<rparr>) = refs_ok n f"
  by (cases "fr_symbol f"; cases "sy_expression (the (fr_symbol f))";
      simp add: dwarf2dbg_addr_delta_def leb128_value_def step_known_def refs_ok_def)+

text \<open>A fragment, with the address of the next one, that grows only when it or another one moves.\<close>

definition calm :: "machine \<Rightarrow> fragS list \<Rightarrow> u32 \<Rightarrow> fragS \<Rightarrow> bool" where
  "calm md frags after f =
     (case fr_type f of
        rs_org \<Rightarrow> org_room (org_target frags f - after) = 0
      | rs_dwarf2dbg \<Rightarrow> dwarf2dbg_size (md_arch64 md) frags f = Some (fr_subtype f)
      | rs_leb128 \<Rightarrow> fr_offset f
          = of_nat (sizeof_leb128 (md_arch64 md) (the (leb128_value frags f)) (fr_subtype f \<noteq> 0))
      | _ \<Rightarrow> True)"

lemma calm_same:
  assumes "settles i f" and "\<forall>j \<le> i. fr_address (fs ! j) = fr_address (gs ! j)"
  shows "calm md fs a f = calm md gs a f"
proof (cases "fr_type f")
  case rs_org
  with assms values_same(3) [OF _ assms(2), of f] show ?thesis by (simp add: calm_def settles_def)
next
  case rs_dwarf2dbg
  with assms values_same(1) [OF _ assms(2), of f] show ?thesis by (simp add: calm_def settles_def dwarf2dbg_size_def)
next
  case rs_leb128
  with assms values_same(2) [OF _ assms(2), of f] show ?thesis by (simp add: calm_def settles_def)
qed (simp_all add: calm_def)

definition room_left :: "machine \<Rightarrow> fragS \<Rightarrow> nat" where
  "room_left md f = (if fr_type f = rs_machine_dependent
     then 255 - unat (rlx_length (md_relax_table md ! unat (fr_subtype f))) else 0)"

definition slack :: "machine \<Rightarrow> fragS list \<Rightarrow> nat" where
  "slack md frags = sum_list (map (room_left md) frags)"

lemma slack_update:
  assumes "i < length frags"
  shows "slack md (frags[i := f]) + room_left md (frags ! i) = slack md frags + room_left md f"
proof -
  have "map (room_left md) (frags[i := f]) = (map (room_left md) frags)[i := room_left md f]"
    by (simp add: map_update)
  moreover have "map (room_left md) frags ! i \<le> sum_list (map (room_left md) frags)"
    using assms by (intro elem_le_sum_list) simp
  ultimately show ?thesis using assms by (simp add: slack_def sum_list_update)
qed

definition relax_ok :: "machine \<Rightarrow> nat \<Rightarrow> nat \<Rightarrow> fragS \<Rightarrow> bool" where
  "relax_ok md n i f \<longleftrightarrow> settles i f \<and> (fr_type f = rs_org \<longrightarrow> Suc i < n)
     \<and> (fr_type f = rs_dwarf2dbg \<longrightarrow> step_known f) \<and> (fr_type f = rs_leb128 \<longrightarrow> fr_symbol f \<noteq> None)
     \<and> (fr_type f = rs_machine_dependent \<longrightarrow> unat (fr_subtype f) < length (md_relax_table md))"

context relax_machine
begin

lemma branch_settles:
  assumes "unat (fr_subtype (frags ! i)) < length (md_relax_table md)" and "fr_type (frags ! i) = rs_machine_dependent"
  shows "\<exists>g f. branch_growth (md_relax_table md) frags i was s = Some (g, f)
    \<and> fr_type f = rs_machine_dependent \<and> unat (fr_subtype f) < length (md_relax_table md)
    \<and> room_left md f \<le> room_left md (frags ! i) \<and> (g = 0 \<or> room_left md f < room_left md (frags ! i))"
proof -
  let ?s = "fr_subtype (frags ! i)" and ?len = "\<lambda>t. rlx_length (md_relax_table md ! unat t)"
  from next_state_found [OF assms(1)] obtain t where
    t: "next_state_for (md_relax_table md) (branch_aim frags i was s) ?s = Some t"
    "unat t < length (md_relax_table md)" "t = ?s \<or> ?len ?s < ?len t" by blast
  have "unat (?len t) \<le> 255" using unsigned_less [of "?len t", where ?'a = nat] by simp
  with t assms(2) show ?thesis
    by (auto simp: branch_growth_def room_left_def word_less_nat_alt assms(1))
qed

lemma growth_settles:
  assumes "relax_ok md (length frags) i (frags ! i)"
  shows "\<exists>g f. frag_growth md frags i was s = Some (g, f) \<and> relax_ok md (length frags) i f
    \<and> room_left md f \<le> room_left md (frags ! i)
    \<and> (fr_type f = rs_org \<longrightarrow> s + g = org_room (org_target frags f - low (fr_address (frags ! Suc i))))
    \<and> (\<forall>a. fr_type f \<noteq> rs_org \<longrightarrow> calm md frags a f)
    \<and> (s = 0 \<and> was = low (fr_address (frags ! i)) \<and> calm md frags (low (fr_address (frags ! Suc i))) (frags ! i)
         \<longrightarrow> g = 0 \<or> room_left md f < room_left md (frags ! i))"
proof (cases "fr_type (frags ! i)")
  case rs_machine_dependent
  with assms branch_settles [of frags i was s] show ?thesis
    by (auto simp: frag_growth_def relax_ok_def calm_def settles_def)
next
  case rs_org
  let ?d = "org_target frags (frags ! i) - low (fr_address (frags ! Suc i))"
  from rs_org assms have "Suc i < length frags" by (simp add: relax_ok_def)
  with rs_org have "frag_growth md frags i was s = Some (org_room ?d - s, frags ! i)"
    by (simp add: frag_growth_def org_growth_def Let_def)
  with rs_org assms show ?thesis by (auto simp: calm_def)
next
  case rs_dwarf2dbg
  with assms obtain v where "dwarf2dbg_addr_delta frags (frags ! i) = Some v"
    by (auto simp: relax_ok_def step_known_def dwarf2dbg_addr_delta_def bind_eq_Some_conv)
  with rs_dwarf2dbg assms show ?thesis
    by (auto simp: frag_growth_def relax_ok_def calm_def settles_def room_left_def
        dwarf2dbg_size_def frag_updates Let_def)
next
  case rs_leb128
  with assms obtain v where "leb128_value frags (frags ! i) = Some v"
    by (auto simp: relax_ok_def leb128_value_def)
  with rs_leb128 assms show ?thesis
    by (auto simp: frag_growth_def relax_ok_def calm_def settles_def room_left_def frag_updates Let_def)
next
  case rs_align
  with assms show ?thesis
    by (auto simp: frag_growth_def relax_ok_def calm_def settles_def room_left_def align_growth_def low_simps Let_def)
next
  case rs_fill
  with assms show ?thesis
    by (auto simp: frag_growth_def relax_ok_def calm_def settles_def room_left_def)
qed

text \<open>
  A pass over fragments that settle. The first two conjuncts are what the rest of the pass needs
  of the fragments before and after the current one.
\<close>

definition all_calm :: "fragS list \<Rightarrow> bool" where
  "all_calm frags \<longleftrightarrow> (\<forall>j < length frags. calm md frags (low (fr_address (frags ! Suc j))) (frags ! j))"

definition all_ok :: "fragS list \<Rightarrow> bool" where
  "all_ok frags \<longleftrightarrow> (\<forall>j < length frags. relax_ok md (length frags) j (frags ! j))"

definition pass_state :: "fragS list \<Rightarrow> nat \<Rightarrow> fragS list \<Rightarrow> u32 \<Rightarrow> nat \<Rightarrow> bool" where
  "pass_state frags i fs s k \<longleftrightarrow> length fs = length frags
     \<and> (\<forall>j < length frags. relax_ok md (length frags) j (fs ! j))
     \<and> (\<forall>j. i \<le> j \<longrightarrow> fs ! j = frags ! j)
     \<and> (\<forall>j < i. calm md fs (low (fr_address (fs ! Suc j)) + (if Suc j = i then s else 0)) (fs ! j))
     \<and> slack md fs \<le> slack md frags
     \<and> (all_calm frags \<longrightarrow> k = 0 \<and> s = 0 \<and> fs = frags \<or> slack md fs < slack md frags)"

lemma calm_not_org: "fr_type f \<noteq> rs_org \<Longrightarrow> calm md fs a f = calm md fs b f"
  by (simp add: calm_def split: relax_stateT.split)

lemma relax_ok_moved: "relax_ok md n i (f\<lparr>fr_address := a\<rparr>) = relax_ok md n i f"
  by (simp add: relax_ok_def settles_def frag_updates)

lemma org_room_used: "org_room (d - org_room d) = 0"
  by (simp add: org_room_def word_sless_alt)

lemma room_left_moved: "room_left md (f\<lparr>fr_address := a\<rparr>) = room_left md f"
  by (simp add: room_left_def)

lemma relax_one_settles:
  assumes i: "i < length frags" and st: "pass_state frags i fs s k"
  shows "\<exists>fs' s' k'. relax_one md i (fs, s, k) = Some (fs', s', k') \<and> pass_state frags (Suc i) fs' s' k'"
proof -
  let ?f = "(fs ! i)\<lparr>fr_address := fr_address (fs ! i) + scast s\<rparr>" and ?n = "length frags"
  let ?fs = "fs[i := ?f]" and ?was = "low (fr_address (fs ! i))"
  from st i have len: "length fs = ?n" "fs ! i = frags ! i" "fs ! Suc i = frags ! Suc i"
    by (simp_all add: pass_state_def)
  from st have ok: "relax_ok md ?n j (fs ! j)" if "j < ?n" for j
    using that unfolding pass_state_def by blast
  have "relax_ok md (length ?fs) i (?fs ! i)" using len i ok [OF i] by (simp add: relax_ok_moved)
  from growth_settles [OF this, of ?was s] obtain g f where
    g: "frag_growth md ?fs i ?was s = Some (g, f)" and f0: "relax_ok md (length ?fs) i f" "room_left md f \<le> room_left md (?fs ! i)"
    and org0: "fr_type f = rs_org \<Longrightarrow> s + g = org_room (org_target ?fs f - low (fr_address (?fs ! Suc i)))"
    and other: "\<And>a. fr_type f \<noteq> rs_org \<Longrightarrow> calm md ?fs a f"
    and grow0: "s = 0 \<and> ?was = low (fr_address (?fs ! i)) \<and> calm md ?fs (low (fr_address (?fs ! Suc i))) (?fs ! i)
      \<Longrightarrow> g = 0 \<or> room_left md f < room_left md (?fs ! i)"
    by blast
  have after: "?fs ! Suc i = fs ! Suc i" and room: "room_left md (?fs ! i) = room_left md (fs ! i)"
    using len i by (simp_all add: room_left_moved)
  from f0 room len(1) have f: "relax_ok md ?n i f" "room_left md f \<le> room_left md (fs ! i)" by simp_all
  from org0 have org: "fr_type f = rs_org \<Longrightarrow> s + g = org_room (org_target ?fs f - low (fr_address (fs ! Suc i)))"
    unfolding after .
  have grow': "g = 0 \<or> room_left md f < room_left md (fs ! i)"
    if "s = 0" "calm md ?fs (low (fr_address (fs ! Suc i))) (?fs ! i)"
    using grow0 [unfolded after room] that i len(1) by simp
  let ?k = "if g \<noteq> 0 then Suc k else k"
  from g i len(1) have one: "relax_one md i (fs, s, k) = Some (fs[i := f], s + g, ?k)"
    by (simp add: relax_one_def Let_def)
  from frag_growth_same(2) [OF g] i len(1) have address: "fr_address f = fr_address ?f" by simp
  have same: "calm md (fs[i := f]) a f = calm md ?fs a f" for a
    using f(1) address i len(1) by (intro calm_same [of i]) (auto simp: relax_ok_def nth_list_update)
  have here: "calm md (fs[i := f]) (low (fr_address (fs ! Suc i)) + (s + g)) f"
  proof (cases "fr_type f = rs_org")
    case True
    with org org_room_used show ?thesis unfolding same by (simp add: calm_def diff_diff_eq [symmetric])
  qed (simp add: same other)
  have sum: "slack md (fs[i := f]) + room_left md (fs ! i) = slack md fs + room_left md f"
    using i len(1) by (simp add: slack_update)
  with st f(2) have slack: "slack md (fs[i := f]) \<le> slack md frags" by (simp add: pass_state_def)
  have quiet: "?k = 0 \<and> s + g = 0 \<and> fs[i := f] = frags \<or> slack md (fs[i := f]) < slack md frags"
    if "all_calm frags"
  proof (cases "k = 0 \<and> s = 0 \<and> fs = frags")
    case True
    then have "?fs = fs" using frag_not_moved i by simp
    from that i True have "calm md fs (low (fr_address (fs ! Suc i))) (fs ! i)"
      unfolding all_calm_def by blast
    with \<open>?fs = fs\<close> grow' True have "g = 0 \<or> room_left md f < room_left md (fs ! i)" by metis
    with sum True \<open>?fs = fs\<close> frag_growth_zero [of md ?fs i ?was s f] g show ?thesis by auto
  next
    case False
    with that st sum f(2) show ?thesis by (auto simp: pass_state_def)
  qed
  have before: "calm md (fs[i := f]) (low (fr_address (fs[i := f] ! Suc j)) + (if Suc j = Suc i then s + g else 0)) (fs[i := f] ! j)"
    if "j < Suc i" for j
  proof (cases "j = i")
    case True
    with here i len(1) show ?thesis by simp
  next
    case False
    with that have j: "j < i" by simp
    with st have "calm md fs (low (fr_address (fs ! Suc j)) + (if Suc j = i then s else 0)) (fs ! j)"
      by (simp add: pass_state_def)
    moreover have "calm md (fs[i := f]) a (fs ! j) = calm md fs a (fs ! j)" for a
      using ok [of j] i j by (intro calm_same [of j]) (auto simp: relax_ok_def)
    moreover have "low (fr_address (fs[i := f] ! Suc j)) = low (fr_address (fs ! Suc j)) + (if Suc j = i then s else 0)"
      using address i len(1) j by (cases "Suc j = i") (simp_all add: low_simps)
    moreover have "fs[i := f] ! j = fs ! j" "Suc j \<noteq> Suc i" using j by simp_all
    ultimately show ?thesis by (simp only: if_False add_0_right)
  qed
  have "pass_state frags (Suc i) (fs[i := f]) (s + g) ?k"
    unfolding pass_state_def
  proof (intro conjI)
    show "\<forall>j < ?n. relax_ok md ?n j (fs[i := f] ! j)"
      using ok f(1) i len(1) by (auto simp: nth_list_update)
    show "\<forall>j < Suc i. calm md (fs[i := f]) (low (fr_address (fs[i := f] ! Suc j)) + (if Suc j = Suc i then s + g else 0)) (fs[i := f] ! j)"
      using before by blast
  qed (use st slack quiet len(1) in \<open>simp_all add: pass_state_def\<close>)
  with one show ?thesis by blast
qed

lemma relax_pass_settles:
  assumes "all_ok frags"
  shows "\<exists>frags' k. relax_pass md frags = Some (frags', k) \<and> all_ok frags' \<and> all_calm frags'
    \<and> slack md frags' \<le> slack md frags \<and> (all_calm frags \<longrightarrow> k = 0 \<or> slack md frags' < slack md frags)"
proof -
  let ?P = "\<lambda>i (fs, s, k). pass_state frags i fs s k" and ?n = "length frags"
  have "\<exists>st. for_each (relax_one md) [0..<?n] (frags, 0, 0) = Some st \<and> ?P ?n st"
  proof (rule for_each_total [where P = ?P])
    fix i and st :: "fragS list \<times> u32 \<times> nat" assume "i < ?n" "?P i st"
    then show "\<exists>st'. relax_one md i st = Some st' \<and> ?P (Suc i) st'"
      using relax_one_settles [of i frags "fst st" "fst (snd st)" "snd (snd st)"] by (cases st) auto
  qed (use assms in \<open>simp_all add: pass_state_def all_ok_def\<close>)
  then obtain fs s k where run: "for_each (relax_one md) [0..<?n] (frags, 0, 0) = Some (fs, s, k)"
    and st: "pass_state frags ?n fs s k" by auto
  have "calm md fs (low (fr_address (fs ! Suc j))) (fs ! j)" if "j < ?n" for j
  proof (cases "fr_type (fs ! j) = rs_org")
    case True
    from st that have "relax_ok md ?n j (fs ! j)" unfolding pass_state_def by blast
    with True have "Suc j < ?n" by (simp add: relax_ok_def)
    moreover from st that have "calm md fs (low (fr_address (fs ! Suc j)) + (if Suc j = ?n then s else 0)) (fs ! j)"
      unfolding pass_state_def by blast
    ultimately show ?thesis by simp
  next
    case False
    from st that have "calm md fs (low (fr_address (fs ! Suc j)) + (if Suc j = ?n then s else 0)) (fs ! j)"
      unfolding pass_state_def by blast
    with calm_not_org [OF False] show ?thesis by blast
  qed
  with run st show ?thesis
    by (auto simp: relax_pass_def all_calm_def all_ok_def pass_state_def)
qed

lemma relax_loop_calm: "all_ok frags \<Longrightarrow> all_calm frags \<Longrightarrow> \<exists>frags'. relax_loop md frags = Some frags'"
proof (induction "slack md frags" arbitrary: frags rule: less_induct)
  case less
  from relax_pass_settles [OF less.prems(1)] less.prems(2) obtain frags' k where
    pass: "relax_pass md frags = Some (frags', k)" "all_ok frags'" "all_calm frags'"
    and k: "k = 0 \<or> slack md frags' < slack md frags" by blast
  show ?case
  proof (cases "k = 0")
    case True
    with pass(1) show ?thesis by (subst relax_loop.simps) simp
  next
    case False
    with k less.hyps pass obtain frags'' where "relax_loop md frags' = Some frags''" by blast
    with False pass(1) show ?thesis by (subst relax_loop.simps) simp
  qed
qed

lemma relax_loop_total: "all_ok frags \<Longrightarrow> \<exists>frags'. relax_loop md frags = Some frags'"
proof -
  assume "all_ok frags"
  from relax_pass_settles [OF this] obtain frags' k where
    pass: "relax_pass md frags = Some (frags', k)" "all_ok frags'" "all_calm frags'" by blast
  from relax_loop_calm [OF pass(2,3)] obtain frags'' where "relax_loop md frags' = Some frags''" ..
  with pass(1) show ?thesis by (subst relax_loop.simps) simp
qed

end

section \<open>Relaxing a section\<close>

text \<open>
  What relaxing a section leaves: fragments that are adjacent and at rest. Remembering their
  addresses for the next time changes nothing of that.
\<close>

definition relaxed :: "machine \<Rightarrow> fragS list \<Rightarrow> bool" where
  "relaxed md frags \<longleftrightarrow> chained md frags \<and> (\<forall>i < length frags. at_rest md frags i)"

abbreviation remember :: "fragS \<Rightarrow> fragS" where
  "remember f \<equiv> f\<lparr>last_fr_address := fr_address f\<rparr>"

lemma ref_address_remember:
  "ref_ok (length frags) r \<Longrightarrow> sym_address (map remember frags) r = sym_address frags r"
  by (simp add: ref_ok_def sym_address_def ref_address_def split: frag_ref.splits)

lemma remember_fields: "i < length frags \<Longrightarrow> map remember frags ! i = remember (frags ! i)"
  by simp

lemma remember_values:
  assumes "refs_ok (length frags) f"
  shows "dwarf2dbg_addr_delta (map remember frags) (remember f) = dwarf2dbg_addr_delta frags f"
    "leb128_value (map remember frags) (remember f) = leb128_value frags f"
    "org_target (map remember frags) (remember f) = org_target frags f"
  using assms
  by (cases "fr_symbol f"; cases "sy_expression (the (fr_symbol f))";
      cases "X_add_symbol (the (sy_expression (the (fr_symbol f))))";
      cases "X_subtract_symbol (the (sy_expression (the (fr_symbol f))))";
      simp add: refs_ok_def dwarf2dbg_addr_delta_def leb128_value_def org_target_def ref_address_remember)+

lemma remember_aim:
  assumes "refs_ok (length frags) (frags ! i)" and "i < length frags"
  shows "branch_aim (map remember frags) i was 0 = branch_aim frags i was 0"
  using assms by (cases "fr_symbol (frags ! i)") (simp_all add: branch_aim_still refs_ok_def ref_address_remember)

lemma at_rest_remember:
  assumes i: "i < length frags" and refs: "refs_ok (length frags) (frags ! i)" and rest: "at_rest md frags i"
  shows "at_rest md (map remember frags) i"
proof (cases "fr_type (frags ! i)")
  case rs_machine_dependent
  with rest i remember_aim [OF refs i] show ?thesis
    by (auto simp: at_rest_def frag_growth_def branch_growth_def bind_eq_Some_conv Let_def split: if_splits)
next
  case rs_org
  with rest i remember_values(3) [OF refs] show ?thesis
    by (auto simp: at_rest_def frag_growth_def org_growth_def bind_eq_Some_conv Let_def split: if_splits)
next
  case rs_dwarf2dbg
  with rest i remember_values(1) [OF refs] show ?thesis
    by (auto simp: at_rest_def frag_growth_def dwarf2dbg_size_def bind_eq_Some_conv Let_def)
next
  case rs_leb128
  with rest i remember_values(2) [OF refs] show ?thesis
    by (auto simp: at_rest_def frag_growth_def bind_eq_Some_conv Let_def)
qed (use i in \<open>auto simp: at_rest_def frag_growth_def align_growth_def low_simps Let_def\<close>)

lemma chained_remember: "chained md frags \<Longrightarrow> chained md (map remember frags)"
  by (simp add: chained_def adjacent_def end_of_def var_size_def split: relax_stateT.splits)

lemma relax_pass_same:
  assumes "relax_pass md frags = Some (frags', k)"
  shows "length frags' = length frags" "i < length frags \<Longrightarrow> same_frag (frags ! i) (frags' ! i)"
proof -
  let ?P = "\<lambda>(i :: nat) fs (s :: u32) (n :: nat). \<forall>j < length frags. same_frag (frags ! j) (fs ! j)"
  have "length frags' = length frags \<and> (\<exists>s. ?P (length frags) frags' s k)"
  proof (rule relax_pass_rule [OF assms, where P = ?P])
    fix i fs s n fs' s' n'
    assume i: "i < length frags" "length fs = length frags" and P: "?P i fs s n"
      and one: "relax_one md i (fs, s, n) = Some (fs', s', n')"
    from i have "i < length fs" by simp
    with relax_one_step [OF one this] obtain f where "fs' = fs[i := f]" "same_frag (fs ! i) f" by metis
    with P i show "?P (Suc i) fs' s' n'" by (auto simp: nth_list_update intro: same_frag_trans)
  qed simp
  then show "length frags' = length frags" "i < length frags \<Longrightarrow> same_frag (frags ! i) (frags' ! i)" by auto
qed

lemma relax_loop_relaxed:
  assumes "relax_loop md frags = Some frags'" and "chained md frags"
  shows "relaxed md frags'" "length frags' = length frags"
    "i < length frags \<Longrightarrow> same_frag (frags ! i) (frags' ! i)"
proof -
  have "(chained md frags' \<and> length frags' = length frags \<and> (\<forall>i < length frags. same_frag (frags ! i) (frags' ! i)))
      \<and> (\<forall>i < length frags'. at_rest md frags' i)"
  proof (rule relax_loop_rule [OF assms(1)])
    fix a b k
    assume "chained md a \<and> length a = length frags \<and> (\<forall>i < length frags. same_frag (frags ! i) (a ! i))"
      and "relax_pass md a = Some (b, k)"
    then show "chained md b \<and> length b = length frags \<and> (\<forall>i < length frags. same_frag (frags ! i) (b ! i))"
      using relax_pass_chained [of md a b k] relax_pass_same [of md a b k] by (auto intro: same_frag_trans)
  qed (use assms(2) in simp)
  then show "relaxed md frags'" "length frags' = length frags"
    "i < length frags \<Longrightarrow> same_frag (frags ! i) (frags' ! i)" by (simp_all add: relaxed_def)
qed

context relax_machine
begin

text \<open>The conditions on the fragments are an invariant of relaxation.\<close>

lemma frag_growth_ok:
  assumes ok: "frag_ok ready n i (frags ! i)" and g: "frag_growth md frags i was s = Some (g, f)"
  shows "frag_ok ready n i f"
proof (cases "fr_type (frags ! i)")
  case rs_machine_dependent
  with ok have r: "ready (frags ! i)" by (simp add: frag_ok_def)
  from next_state_found [OF ready_state [OF r], of "branch_aim frags i was s"] g rs_machine_dependent
  have "same_code (frags ! i) f" "unat (fr_subtype f) < length (md_relax_table md)"
    using ready_state [OF r]
    by (auto simp: frag_growth_def branch_growth_def same_code_def bind_eq_Some_conv Let_def split: if_splits)
  with ready_same [OF r] ok rs_machine_dependent show ?thesis
    by (simp add: frag_ok_def same_code_def refs_ok_def)
qed (use ok g in \<open>auto simp: frag_growth_def frag_ok_def refs_ok_def step_known_def dwarf2dbg_addr_delta_def
    bind_eq_Some_conv Let_def\<close>)

lemma relax_pass_ok:
  assumes "relax_pass md frags = Some (frags', k)" and "frags_ok ready frags"
  shows "frags_ok ready frags'"
proof -
  let ?P = "\<lambda>(i :: nat) fs (s :: u32) (n :: nat). \<forall>j < length frags. frag_ok ready (length frags) j (fs ! j)"
  have "length frags' = length frags \<and> (\<exists>s. ?P (length frags) frags' s k)"
  proof (rule relax_pass_rule [OF assms(1), where P = ?P])
    fix i fs s n fs' s' n'
    assume i: "i < length frags" "length fs = length frags" and P: "?P i fs s n"
      and one: "relax_one md i (fs, s, n) = Some (fs', s', n')"
    from one i obtain g f where g: "frag_growth md (fs[i := (fs ! i)\<lparr>fr_address := fr_address (fs ! i) + scast s\<rparr>]) i
        (low (fr_address (fs ! i))) s = Some (g, f)" "fs' = fs[i := f]" by (auto elim: relax_one_cases)
    from P i have "frag_ok ready (length frags) i (fs ! i)" by blast
    then have "frag_ok ready (length frags) i f"
      using frag_growth_ok [OF _ g(1), of "length frags"] i by (simp add: frag_ok_moved)
    with P i g(2) show "?P (Suc i) fs' s' n'" by (auto simp: nth_list_update)
  qed (use assms(2) in \<open>simp add: frags_ok_def\<close>)
  then show ?thesis by (auto simp: frags_ok_def)
qed

lemma relax_loop_ok: "relax_loop md frags = Some frags' \<Longrightarrow> frags_ok ready frags \<Longrightarrow> frags_ok ready frags'"
  using relax_loop_rule [of md frags frags' "frags_ok ready"] relax_pass_ok by blast

lemma frags_ok_remember:
  assumes "frags_ok ready frags"
  shows "frags_ok ready (map remember frags)"
proof -
  have "frag_ok ready n i (remember f)" if "frag_ok ready n i f" for n i f
    using that ready_same [of f "remember f"] ready_state [of f]
    by (auto simp: frag_ok_def same_code_def refs_ok_def step_known_def dwarf2dbg_addr_delta_def
        split: relax_stateT.splits)
  with assms show ?thesis by (simp add: frags_ok_def)
qed

lemma relax_section_relaxed:
  assumes ok: "frags_ok ready (frch_frags sect)" and run: "relax_section md sect = Some (sect', moved)"
  shows "relaxed md (frch_frags sect') \<and> length (frch_frags sect') = length (frch_frags sect)
    \<and> frags_ok ready (frch_frags sect')
    \<and> frch_nsect sect' = frch_nsect sect \<and> frch_align sect \<le> frch_align sect'"
proof -
  from guess_ok [OF ok] obtain s a where
    guess: "for_each (guess_one md) [0..<length (frch_frags sect)] (sect, 0) = Some (s, a)"
    and s: "length (frch_frags s) = length (frch_frags sect)" "frags_ok ready (frch_frags s)"
      "chained md (frch_frags s)" "frch_nsect s = frch_nsect sect" "frch_align sect \<le> frch_align s" by blast
  from run guess obtain frags where loop: "relax_loop md (frch_frags s) = Some frags"
    and sect': "sect' = s\<lparr>frch_frags := map remember frags\<rparr>"
    by (auto simp: relax_section_def bind_eq_Some_conv)
  note relaxed = relax_loop_relaxed [OF loop s(3)]
  from relax_loop_ok [OF loop s(2)] have ok': "frags_ok ready frags" .
  then have "refs_ok (length frags) (frags ! i)" if "i < length frags" for i
    using that by (simp add: frags_ok_def frag_ok_def)
  with relaxed(1) have "relaxed md (map remember frags)"
    by (simp add: relaxed_def chained_remember at_rest_remember)
  with sect' s relaxed(2) frags_ok_remember [OF ok'] show ?thesis by simp
qed

text \<open>Relaxing ends for a section whose fragments settle.\<close>

lemma settles_guessed: "guessed f g \<Longrightarrow> settles i f \<Longrightarrow> settles i g"
  by (auto simp: guessed_def settles_def same_frag_def refs_ok_def split: if_splits)

lemma relax_ok_frag_ok: "frag_ok ready n i f \<Longrightarrow> settles i f \<Longrightarrow> relax_ok md n i f"
  by (auto simp: frag_ok_def relax_ok_def ready_state split: relax_stateT.splits)

lemma relax_section_returns:
  assumes ok: "frags_ok ready (frch_frags sect)"
    and settles: "\<And>i. i < length (frch_frags sect) \<Longrightarrow> settles i (frch_frags sect ! i)"
  shows "\<exists>sect' moved. relax_section md sect = Some (sect', moved)"
proof -
  from guess_ok [OF ok] obtain s a where
    guess: "for_each (guess_one md) [0..<length (frch_frags sect)] (sect, 0) = Some (s, a)"
    and s: "length (frch_frags s) = length (frch_frags sect)" "frags_ok ready (frch_frags s)"
      "\<forall>j < length (frch_frags sect). guessed (frch_frags sect ! j) (frch_frags s ! j)" by blast
  have "all_ok (frch_frags s)"
    using s settles settles_guessed relax_ok_frag_ok
    by (auto simp: all_ok_def frags_ok_def)
  from relax_loop_total [OF this] guess show ?thesis
    by (auto simp: relax_section_def)
qed

end

end
