(* ===== verification/I386_Relax.thy ===== *)
theory I386_Relax
  imports Relax_Laws
begin

text \<open>
  The branches of the i386 and x86_64 assembler, \<open>as/i386.c\<close>: the table of their forms, the
  estimate of their sizes, and the instruction that is stored for the form relaxation chose.
  The bytes of a fragment are its fixed part and the room behind it; a store outside of them
  is \<open>None\<close>. \<open>no_cond_jump_promotion\<close> is a parameter, as is \<open>ARCH64\<close>. The symbol \<open>fix_new\<close>
  makes for a fixup is not modelled.
\<close>

section \<open>The table\<close>

definition UNCOND_JUMP :: u32 where "UNCOND_JUMP = 0"
definition COND_JUMP :: u32 where "COND_JUMP = 1"
definition COND_JUMP86 :: u32 where "COND_JUMP86 = 2"
definition CODE16 :: u32 where "CODE16 = 1"
definition SMALL :: u32 where "SMALL = 0"
definition SMALL16 :: u32 where "SMALL16 = (SMALL OR CODE16)"
definition BIG :: u32 where "BIG = 2"
definition BIG16 :: u32 where "BIG16 = (BIG OR CODE16)"

lemmas i386_states [simp] = UNCOND_JUMP_def COND_JUMP_def COND_JUMP86_def CODE16_def SMALL_def SMALL16_def
  BIG_def BIG16_def

definition ENCODE_RELAX_STATE :: "u32 \<Rightarrow> u32 \<Rightarrow> u32" where
  "ENCODE_RELAX_STATE t s = (push_bit 2 t OR s)"

definition TYPE_FROM_RELAX_STATE :: "u32 \<Rightarrow> u32" where
  "TYPE_FROM_RELAX_STATE s = drop_bit 2 s"

definition DISP_SIZE_FROM_RELAX_STATE :: "u32 \<Rightarrow> nat" where
  "DISP_SIZE_FROM_RELAX_STATE s = (if s AND 3 = BIG then 4 else if s AND 3 = BIG16 then 2 else 1)"

abbreviation relax_entry :: "u32 \<Rightarrow> u32 \<Rightarrow> u8 \<Rightarrow> u32 \<Rightarrow> relax_typeS" where
  "relax_entry forward backward len longer \<equiv>
     \<lparr>rlx_forward = forward, rlx_backward = backward, rlx_length = len, rlx_more = longer\<rparr>"

definition i386_relax_table :: "relax_typeS list" where
  "i386_relax_table =
    [relax_entry (127 + 1) (- 128 + 1) 1 (ENCODE_RELAX_STATE UNCOND_JUMP BIG),
     relax_entry (127 + 1) (- 128 + 1) 1 (ENCODE_RELAX_STATE UNCOND_JUMP BIG16),
     relax_entry 0 0 4 0,
     relax_entry 0 0 2 0,
     relax_entry (127 + 1) (- 128 + 1) 1 (ENCODE_RELAX_STATE COND_JUMP BIG),
     relax_entry (127 + 1) (- 128 + 1) 1 (ENCODE_RELAX_STATE COND_JUMP BIG16),
     relax_entry 0 0 5 0,
     relax_entry 0 0 3 0,
     relax_entry (127 + 1) (- 128 + 1) 1 (ENCODE_RELAX_STATE COND_JUMP86 BIG),
     relax_entry (127 + 1) (- 128 + 1) 1 (ENCODE_RELAX_STATE COND_JUMP86 BIG16),
     relax_entry 0 0 5 0,
     relax_entry 0 0 4 0]"

section \<open>Stores and fixups\<close>

definition put :: "nat \<Rightarrow> u8 \<Rightarrow> fragS \<Rightarrow> fragS option" where
  "put k b f = (if k < length (fr_literal f) then Some (f\<lparr>fr_literal := (fr_literal f)[k := b]\<rparr>) else None)"

primrec put_all :: "nat \<Rightarrow> u8 list \<Rightarrow> fragS \<Rightarrow> fragS option" where
  "put_all k [] f = Some f"
| "put_all k (b # bs) f = do { f \<leftarrow> put k b f; put_all (Suc k) bs f }"

primrec number_to_chars_littleendian :: "nat \<Rightarrow> u64 \<Rightarrow> u8 list" where
  "number_to_chars_littleendian 0 val = []"
| "number_to_chars_littleendian (Suc n) val = ucast val # number_to_chars_littleendian n (signed_drop_bit 8 val)"

definition frag_wane :: "fragS \<Rightarrow> fragS" where
  "frag_wane f = f\<lparr>fr_type := rs_fill, fr_offset := 0, fr_var := 0\<rparr>"

definition NO_RELOC :: u32 where "NO_RELOC = 0x10"
definition X86_64_RELOC_SIGNED :: u8 where "X86_64_RELOC_SIGNED = 1"
definition X86_64_RELOC_BRANCH :: u8 where "X86_64_RELOC_BRANCH = 2"
definition X86_64_RELOC_GOT_LOAD :: u8 where "X86_64_RELOC_GOT_LOAD = 3"
definition X86_64_RELOC_GOT :: u8 where "X86_64_RELOC_GOT = 4"
definition X86_64_RELOC_SIGNED_1 :: u8 where "X86_64_RELOC_SIGNED_1 = 6"
definition X86_64_RELOC_SIGNED_2 :: u8 where "X86_64_RELOC_SIGNED_2 = 7"
definition X86_64_RELOC_SIGNED_4 :: u8 where "X86_64_RELOC_SIGNED_4 = 8"

definition N_TYPE :: u8 where "N_TYPE = 0x0e"
definition N_SECT :: u8 where "N_SECT = 0xe"

definition fix_new ::
  "bool \<Rightarrow> u32 \<Rightarrow> u8 \<Rightarrow> symbolS option \<Rightarrow> symbolS option \<Rightarrow> u64 \<Rightarrow> bool \<Rightarrow> bool \<Rightarrow> u8 \<Rightarrow> fixS" where
  "fix_new arch64 where' sz add_symbol sub_symbol offset pcrel pcrel_reloc r_type =
     (let r_type = (if arch64 \<and> r_type = X86_64_RELOC_SIGNED
                    then (if offset = - 1 then X86_64_RELOC_SIGNED_1
                          else if offset = - 2 then X86_64_RELOC_SIGNED_2
                          else if offset = - 4 then X86_64_RELOC_SIGNED_4 else r_type)
                    else r_type);
          got = (arch64 \<and> (r_type = X86_64_RELOC_GOT \<or> r_type = X86_64_RELOC_GOT_LOAD))
      in \<lparr>fx_where = where', fx_size = sz, fx_addsy = add_symbol, fx_subsy = sub_symbol, fx_offset = offset,
          fx_pcrel = (got \<or> pcrel), fx_pcrel_reloc = (got \<or> pcrel_reloc), fx_r_type = r_type\<rparr>)"

section \<open>The estimate\<close>

text \<open>
  A branch to a symbol that is not in the section gets a long displacement and a fixup; the
  cases of the type of the branch, with the fixup relative to the end of the fixed part.
\<close>

definition branch_fix :: "bool \<Rightarrow> u32 \<Rightarrow> u8 \<Rightarrow> u8 \<Rightarrow> fragS \<Rightarrow> fixS" where
  "branch_fix arch64 at sz reloc_type f =
     fix_new arch64 (fr_fix f + at) sz (fr_symbol f) None (scast (fr_offset f)) True False reloc_type"

definition cond_jump_undefined ::
  "bool \<Rightarrow> bool \<Rightarrow> u8 \<Rightarrow> u8 \<Rightarrow> fragS \<Rightarrow> (fragS \<times> fixS list) option" where
  "cond_jump_undefined arch64 no_cond_jump_promotion sz reloc_type f =
     (if no_cond_jump_promotion \<and> fr_var f = NO_RELOC
      then Some (f\<lparr>fr_fix := fr_fix f + 1\<rparr>,
                 [branch_fix arch64 0 1 (if arch64 then X86_64_RELOC_BRANCH else 0) f])
      else do {
        let opcode = fr_opcode f;
        g \<leftarrow> put (opcode + 1) (fr_literal f ! opcode + 0x10) f;
        g \<leftarrow> put opcode 0x0f g;
        Some (g\<lparr>fr_fix := fr_fix f + 1 + ucast sz\<rparr>, [branch_fix arch64 1 sz reloc_type f])
      })"

definition branch_undefined :: "bool \<Rightarrow> bool \<Rightarrow> fragS \<Rightarrow> (fragS \<times> fixS list) option" where
  "branch_undefined arch64 no_cond_jump_promotion f =
     (let sz = (if fr_subtype f AND CODE16 \<noteq> 0 then 2 else 4);
          reloc_type = (if arch64 then if fr_var f \<noteq> NO_RELOC then ucast (fr_var f) else X86_64_RELOC_BRANCH
                        else 0);
          opcode = fr_opcode f; t = TYPE_FROM_RELAX_STATE (fr_subtype f)
      in if t = UNCOND_JUMP then do {
           g \<leftarrow> put opcode 0xe9 f;
           Some (g\<lparr>fr_fix := fr_fix f + ucast sz\<rparr>, [branch_fix arch64 0 sz reloc_type f])
         }
         else if t = COND_JUMP86 \<and> sz = 2 \<and> (\<not> no_cond_jump_promotion \<or> fr_var f \<noteq> NO_RELOC) then do {
           g \<leftarrow> put opcode (fr_literal f ! opcode XOR 1) f;
           g \<leftarrow> put (opcode + 1) 3 g;
           g \<leftarrow> put (opcode + 2) 0xe9 g;
           Some (g\<lparr>fr_fix := fr_fix f + 2 + 2\<rparr>, [branch_fix arch64 2 2 reloc_type f])
         }
         else if t = COND_JUMP86 \<or> t = COND_JUMP
         then cond_jump_undefined arch64 no_cond_jump_promotion sz reloc_type f
         else None)"

definition i386_estimate_size_before_relax ::
  "bool \<Rightarrow> bool \<Rightarrow> u32 \<Rightarrow> fragS \<Rightarrow> (u32 \<times> fragS \<times> fixS list) option" where
  "i386_estimate_size_before_relax arch64 no_cond_jump_promotion segment f = do {
     symb \<leftarrow> fr_symbol f;
     if sy_type symb AND N_TYPE \<noteq> N_SECT \<or> sy_other symb \<noteq> segment
     then do {
       (g, fixes) \<leftarrow> branch_undefined arch64 no_cond_jump_promotion f;
       Some (fr_fix g - fr_fix f, frag_wane g, fixes)
     }
     else if unat (fr_subtype f) < length i386_relax_table
     then Some (ucast (rlx_length (i386_relax_table ! unat (fr_subtype f))), f, [])
     else None
   }"

definition i386_machine :: "bool \<Rightarrow> bool \<Rightarrow> machine" where
  "i386_machine arch64 no_cond_jump_promotion =
     \<lparr>md_arch64 = arch64, md_relax_table = i386_relax_table,
      md_estimate_size_before_relax = i386_estimate_size_before_relax arch64 no_cond_jump_promotion\<rparr>"

text \<open>
  What \<open>md_assemble\<close> hands over: the fixed part ends with the opcode, there is room for five
  more bytes, and the branch has a symbol.
\<close>

definition i386_ready :: "fragS \<Rightarrow> bool" where
  "i386_ready f \<longleftrightarrow> unat (fr_subtype f) < 12 \<and> fr_symbol f \<noteq> None
     \<and> unat (fr_fix f) = fr_opcode f + 1 \<and> unat (fr_fix f) + 5 \<le> length (fr_literal f)
     \<and> length (fr_literal f) < 2 ^ 31"

section \<open>The contract\<close>

lemma less_12_cases:
  "unat (s :: u32) < 12 \<Longrightarrow> s \<in> {0, 1, 2, 3, 4, 5, 6, 7, 8, 9, 10, 11}"
proof -
  assume "unat s < 12"
  then have "(of_nat (unat s) :: u32) \<in> of_nat ` set [0..<12]" by (intro imageI) simp
  then show ?thesis by (simp add: upt_conv_Cons)
qed

lemma i386_table_length [simp]: "length i386_relax_table = 12"
  by (simp add: i386_relax_table_def)

lemma i386_machine_simps [simp]:
  "md_arch64 (i386_machine arch64 np) = arch64"
  "md_relax_table (i386_machine arch64 np) = i386_relax_table"
  "md_estimate_size_before_relax (i386_machine arch64 np) = i386_estimate_size_before_relax arch64 np"
  by (simp_all add: i386_machine_def)

lemma i386_table_more:
  assumes "unat (s :: u32) < 12" and "rlx_more (i386_relax_table ! unat s) \<noteq> 0"
  shows "unat (rlx_more (i386_relax_table ! unat s)) < 12
    \<and> rlx_length (i386_relax_table ! unat s) < rlx_length (i386_relax_table ! unat (rlx_more (i386_relax_table ! unat s)))"
  using less_12_cases [OF assms(1)] assms(2)
  by (auto simp: i386_relax_table_def ENCODE_RELAX_STATE_def)

lemma branch_undefined_total:
  assumes "i386_ready f"
  shows "\<exists>g fixes. branch_undefined arch64 np f = Some (g, fixes) \<and> fr_address g = fr_address f \<and> fr_symbol g = fr_symbol f"
proof -
  have "unat (fr_subtype f) < 12" using assms by (simp add: i386_ready_def)
  from less_12_cases [OF this] assms show ?thesis
    by (auto simp: branch_undefined_def cond_jump_undefined_def put_def i386_ready_def TYPE_FROM_RELAX_STATE_def Let_def)
qed

interpretation i386: relax_machine "i386_machine arch64 np" i386_ready for arch64 np
proof
  fix s :: u32
  assume "unat s < length (md_relax_table (i386_machine arch64 np))"
    "rlx_more (md_relax_table (i386_machine arch64 np) ! unat s) \<noteq> 0"
  with i386_table_more [of s]
  show "unat (rlx_more (md_relax_table (i386_machine arch64 np) ! unat s)) < length (md_relax_table (i386_machine arch64 np))"
    "rlx_length (md_relax_table (i386_machine arch64 np) ! unat s)
      < rlx_length (md_relax_table (i386_machine arch64 np) ! unat (rlx_more (md_relax_table (i386_machine arch64 np) ! unat s)))"
    by simp_all
next
  fix f nsect
  assume f: "i386_ready f" "fr_type f = rs_machine_dependent"
  from branch_undefined_total [OF f(1), of arch64 np] obtain g fxs where
    "branch_undefined arch64 np f = Some (g, fxs)" "fr_address g = fr_address f" "fr_symbol g = fr_symbol f" by blast
  with f show "\<exists>size f' fixes. md_estimate_size_before_relax (i386_machine arch64 np) nsect f = Some (size, f', fixes)
      \<and> fr_address f' = fr_address f \<and> fr_symbol f' = fr_symbol f
      \<and> fr_fix f' + var_size (i386_machine arch64 np) f' = fr_fix f + size
      \<and> (fr_type f' = rs_fill \<or> fr_type f' = rs_machine_dependent \<and> i386_ready f')"
    by (auto simp: i386_estimate_size_before_relax_def i386_ready_def frag_wane_def var_size_def)
qed (auto simp: i386_ready_def same_code_def)

section \<open>The instruction\<close>

text \<open>
  The displacement is counted from the end of the fixed part and put behind the opcode. The
  value of the symbol is its final address.
\<close>

definition put_displacement :: "u64 \<Rightarrow> nat \<Rightarrow> nat \<Rightarrow> fragS \<Rightarrow> fragS option" where
  "put_displacement displacement_from_opcode_start extension where' f = do {
     g \<leftarrow> put_all where' (number_to_chars_littleendian (DISP_SIZE_FROM_RELAX_STATE (fr_subtype f))
           (displacement_from_opcode_start - of_nat extension)) f;
     Some (g\<lparr>fr_fix := fr_fix f + of_nat extension\<rparr>)
   }"

definition i386_convert_frag :: "(symbolS \<Rightarrow> u64) \<Rightarrow> fragS \<Rightarrow> fragS option" where
  "i386_convert_frag value f = do {
     symb \<leftarrow> fr_symbol f;
     let opcode = fr_opcode f;
     let target_address = value symb + scast (fr_offset f);
     let opcode_address = fr_address f + scast (fr_fix f);
     let displacement = target_address - opcode_address;
     let state = fr_subtype f;
     if state AND BIG = 0 then put_displacement displacement 1 (opcode + 1) f
     else if state = ENCODE_RELAX_STATE UNCOND_JUMP BIG
     then do { f \<leftarrow> put opcode 0xe9 f; put_displacement displacement 4 (opcode + 1) f }
     else if state = ENCODE_RELAX_STATE UNCOND_JUMP BIG16
     then do { f \<leftarrow> put opcode 0xe9 f; put_displacement displacement 2 (opcode + 1) f }
     else if state = ENCODE_RELAX_STATE COND_JUMP BIG \<or> state = ENCODE_RELAX_STATE COND_JUMP86 BIG
     then do {
       f \<leftarrow> put (opcode + 1) (fr_literal f ! opcode + 0x10) f;
       f \<leftarrow> put opcode 0x0f f;
       put_displacement displacement 5 (opcode + 2) f
     }
     else if state = ENCODE_RELAX_STATE COND_JUMP BIG16
     then do {
       f \<leftarrow> put (opcode + 1) (fr_literal f ! opcode + 0x10) f;
       f \<leftarrow> put opcode 0x0f f;
       put_displacement displacement 3 (opcode + 2) f
     }
     else if state = ENCODE_RELAX_STATE COND_JUMP86 BIG16
     then do {
       f \<leftarrow> put opcode (fr_literal f ! opcode XOR 1) f;
       f \<leftarrow> put (opcode + 1) 3 f;
       f \<leftarrow> put (opcode + 2) 0xe9 f;
       put_displacement displacement 4 (opcode + 3) f
     }
     else None
   }"

section \<open>What the instruction does\<close>

text \<open>
  A decoder of the branches of 32-bit and 64-bit code: the condition, the displacement in 32
  bits, and the length of the instruction.
\<close>

datatype jump = Jmp | Jcc u8

fun le_displacement :: "u8 list \<Rightarrow> u32" where
  "le_displacement [a] = scast a"
| "le_displacement [a, b, c, d] = ucast a OR push_bit 8 (ucast b) OR push_bit 16 (ucast c) OR push_bit 24 (ucast d)"
| "le_displacement bs = 0"

definition decode_branch :: "u8 list \<Rightarrow> (jump \<times> u32 \<times> nat) option" where
  "decode_branch bs =
     (let b = bs ! 0 in
      if b = 0xeb then Some (Jmp, le_displacement (take 1 (drop 1 bs)), 2)
      else if b = 0xe9 then Some (Jmp, le_displacement (take 4 (drop 1 bs)), 5)
      else if b AND 0xf0 = 0x70 then Some (Jcc (b AND 0xf), le_displacement (take 1 (drop 1 bs)), 2)
      else if b = 0x0f \<and> bs ! 1 AND 0xf0 = 0x80
      then Some (Jcc (bs ! 1 AND 0xf), le_displacement (take 4 (drop 2 bs)), 6)
      else None)"

lemma put_in_room:
  "k < length (fr_literal f) \<Longrightarrow> put k b f = Some (f\<lparr>fr_literal := (fr_literal f)[k := b]\<rparr>)"
  by (simp add: put_def)

lemma put_all_in_room:
  "k + length bs \<le> length (fr_literal f) \<Longrightarrow>
   put_all k bs f = Some (f\<lparr>fr_literal := take k (fr_literal f) @ bs @ drop (k + length bs) (fr_literal f)\<rparr>)"
proof (induction bs arbitrary: k f)
  case (Cons b bs)
  then have "put_all k (b # bs) f = put_all (Suc k) bs (f\<lparr>fr_literal := (fr_literal f)[k := b]\<rparr>)"
    by (simp add: put_in_room)
  with Cons.IH [of "Suc k" "f\<lparr>fr_literal := (fr_literal f)[k := b]\<rparr>"] Cons.prems show ?case
    by (simp add: take_Suc_conv_app_nth)
qed simp

lemma number_to_chars_length [simp]: "length (number_to_chars_littleendian n x) = n"
  by (induction n arbitrary: x) simp_all

lemma number_to_chars_numeral: "number_to_chars_littleendian (numeral k) x
    = ucast x # number_to_chars_littleendian (pred_numeral k) (signed_drop_bit 8 x)"
  by (simp add: numeral_eq_Suc)


lemma chars_4: "number_to_chars_littleendian 4 x
   = [ucast x, ucast (signed_drop_bit 8 x), ucast (signed_drop_bit 16 x), ucast (signed_drop_bit 24 x)]"
  by (simp add: number_to_chars_numeral)

lemma le_displacement_long: "le_displacement (number_to_chars_littleendian 4 x) = low x"
  unfolding chars_4 le_displacement.simps
proof (rule bit_word_eqI)
  fix n assume "n < LENGTH(32)"
  then have "n < 8 \<or> 8 \<le> n \<and> n < 16 \<or> 16 \<le> n \<and> n < 24 \<or> 24 \<le> n \<and> n < 32" by auto
  then show "bit (ucast (ucast x :: u8) OR push_bit 8 (ucast (ucast (signed_drop_bit 8 x) :: u8))
      OR push_bit 16 (ucast (ucast (signed_drop_bit 16 x) :: u8)) OR push_bit 24 (ucast (ucast (signed_drop_bit 24 x) :: u8)) :: u32) n
    = bit (low x) n"
    by (elim disjE) (simp_all only: bit_or_iff bit_push_bit_iff bit_unsigned_iff bit_signed_drop_bit_iff, auto simp: bit_simps)
qed

lemma le_displacement_short:
  assumes "- 128 \<le> sint (low x)" and "sint (low x) \<le> 127"
  shows "le_displacement [ucast x] = low x"
proof -
  have "(ucast x :: u8) = ucast (low x)" by transfer simp
  also have "\<dots> = word_of_int (sint (low x))" by (simp add: down_cast_same is_down)
  finally have "sint (ucast x :: u8) = sint (low x)"
    using assms(1,2) by (simp add: signed_scast_eq signed_take_bit_int_eq_self_iff)
  then have "(word_of_int (sint (ucast x :: u8)) :: u32) = word_of_int (sint (low x))" by (simp only:)
  then show ?thesis by simp
qed

text \<open>The bytes from the opcode on that a ready fragment has.\<close>

lemma six_bytes: "6 \<le> length l \<Longrightarrow> \<exists>b r1 r2 r3 r4 r5 rs. l = [b, r1, r2, r3, r4, r5] @ rs"
  by (auto simp: numeral_eq_Suc Suc_le_length_iff)

lemma literal_split:
  assumes "i386_ready f"
  shows "\<exists>as b r1 r2 r3 r4 r5 rs. fr_literal f = as @ [b, r1, r2, r3, r4, r5] @ rs \<and> length as = fr_opcode f"
proof -
  let ?l = "drop (fr_opcode f) (fr_literal f)"
  have "6 \<le> length ?l" using assms by (auto simp: i386_ready_def)
  from six_bytes [OF this] obtain b r1 r2 r3 r4 r5 rs where "?l = [b, r1, r2, r3, r4, r5] @ rs"
    by blast
  then have "fr_literal f = take (fr_opcode f) (fr_literal f) @ [b, r1, r2, r3, r4, r5] @ rs"
    by (metis append_take_drop_id)
  moreover have "length (take (fr_opcode f) (fr_literal f)) = fr_opcode f"
    using assms by (simp add: i386_ready_def)
  ultimately show ?thesis by blast
qed

definition opcode_of_state :: "u32 \<Rightarrow> u8 \<Rightarrow> bool" where
  "opcode_of_state state b \<longleftrightarrow>
     (if TYPE_FROM_RELAX_STATE state = UNCOND_JUMP then b = 0xeb else b AND 0xf0 = 0x70)"

definition jump_of :: "u8 \<Rightarrow> jump" where
  "jump_of b = (if b = 0xeb then Jmp else Jcc (b AND 0xf))"

lemma put_displacement_in_room:
  assumes "k + DISP_SIZE_FROM_RELAX_STATE (fr_subtype f) \<le> length (fr_literal f)"
  shows "put_displacement d n k f = Some (f\<lparr>fr_literal := take k (fr_literal f)
      @ number_to_chars_littleendian (DISP_SIZE_FROM_RELAX_STATE (fr_subtype f)) (d - of_nat n)
      @ drop (k + DISP_SIZE_FROM_RELAX_STATE (fr_subtype f)) (fr_literal f), fr_fix := fr_fix f + of_nat n\<rparr>)"
  using assms by (simp add: put_displacement_def put_all_in_room)

lemma jcc_bytes:
  assumes "b AND 0xf0 = (0x70 :: u8)"
  shows "b \<noteq> 0xeb \<and> b \<noteq> 0xe9 \<and> b \<noteq> 0x0f \<and> (b + 0x10) AND 0xf0 = 0x80 \<and> (b + 0x10) AND 0xf = b AND 0xf"
proof -
  have "b AND 0xf \<le> 0xf" by (rule word_and_le1)
  then have "unat (b AND 0xf) < 16" by (simp add: word_le_nat_alt)
  then have "(of_nat (unat (b AND 0xf)) :: u8) \<in> of_nat ` set [0..<16]" by (intro imageI) simp
  moreover have "b = 0x70 OR (b AND 0xf)"
    unfolding assms [symmetric] by (rule bit_word_eqI) (auto simp: bit_simps numeral_eq_Suc less_Suc_eq)
  ultimately show ?thesis by (simp add: upt_conv_Cons) (elim disjE; simp)
qed

lemma i386_convert_decodes:
  assumes ready: "i386_ready f" and symb: "fr_symbol f = Some symb" and code: "fr_subtype f AND CODE16 = 0"
    and opcode: "opcode_of_state (fr_subtype f) (fr_literal f ! fr_opcode f)"
    and d: "d = addr_of symb + scast (fr_offset f) - (fr_address f + scast (fr_fix f))"
    and near: "fr_subtype f AND BIG = 0 \<Longrightarrow> - 127 \<le> sint (low d) \<and> sint (low d) \<le> 128"
  shows "\<exists>g n len. i386_convert_frag addr_of f = Some g
    \<and> decode_branch (drop (fr_opcode f) (fr_literal g))
        = Some (jump_of (fr_literal f ! fr_opcode f), low d - of_nat n, len)
    \<and> fr_fix g = fr_fix f + of_nat n \<and> len = n + 1 \<and> n \<le> 5"
proof -
  from literal_split [OF ready] obtain as b r1 r2 r3 r4 r5 rs where
    l: "fr_literal f = as @ [b, r1, r2, r3, r4, r5] @ rs" and a: "length as = fr_opcode f" by blast
  have st: "unat (fr_subtype f) < 12" using ready by (simp add: i386_ready_def)
  have near': "- 128 \<le> sint (low (d - 1)) \<and> sint (low (d - 1)) \<le> 127" if "fr_subtype f AND BIG = 0"
  proof -
    from near [OF that] have "sint (low d - 1) = sint (low d) - 1"
      by (simp add: signed_minus_1 sint_word_ariths signed_take_bit_int_eq_self_iff)
    with near [OF that] show ?thesis by (simp add: low_simps)
  qed
  from less_12_cases [OF st] code have "fr_subtype f \<in> {0, 2, 4, 6, 8, 10}" by auto
  then consider (short) "fr_subtype f AND BIG = 0" "DISP_SIZE_FROM_RELAX_STATE (fr_subtype f) = 1"
    | (jmp) "fr_subtype f = ENCODE_RELAX_STATE UNCOND_JUMP BIG"
    | (jcc) "fr_subtype f = ENCODE_RELAX_STATE COND_JUMP BIG \<or> fr_subtype f = ENCODE_RELAX_STATE COND_JUMP86 BIG"
    by (auto simp: ENCODE_RELAX_STATE_def DISP_SIZE_FROM_RELAX_STATE_def)
  then show ?thesis
  proof cases
    case short
    have bytes: "le_displacement [ucast (d - 1)] = low d - 1"
      using le_displacement_short [of "d - 1"] near' [OF short(1)] by (simp add: low_simps)
    have "i386_convert_frag addr_of f = put_displacement d 1 (fr_opcode f + 1) f"
      using short(1) symb by (simp add: i386_convert_frag_def Let_def d)
    also have "\<dots> = Some (f\<lparr>fr_literal := as @ [b, ucast (d - 1), r2, r3, r4, r5] @ rs, fr_fix := fr_fix f + 1\<rparr>)"
      using short(2) l a by (subst put_displacement_in_room) (simp_all add: number_to_chars_numeral)
    finally show ?thesis
      using opcode bytes jcc_bytes [of b] l a
      by (intro exI [of _ "f\<lparr>fr_literal := as @ [b, ucast (d - 1), r2, r3, r4, r5] @ rs, fr_fix := fr_fix f + 1\<rparr>"] exI [of _ 1] exI [of _ 2])
        (auto simp: decode_branch_def opcode_of_state_def jump_of_def nth_append split: if_splits)
  next
    case jmp
    then have size: "DISP_SIZE_FROM_RELAX_STATE (fr_subtype f) = 4"
      by (simp add: DISP_SIZE_FROM_RELAX_STATE_def ENCODE_RELAX_STATE_def)
    let ?bs = "number_to_chars_littleendian 4 (d - 4)"
    let ?g = "f\<lparr>fr_literal := as @ 0xe9 # ?bs @ [r5] @ rs, fr_fix := fr_fix f + 4\<rparr>"
    have "i386_convert_frag addr_of f = do { g \<leftarrow> put (fr_opcode f) 0xe9 f; put_displacement d 4 (fr_opcode f + 1) g }"
      using jmp symb by (simp add: i386_convert_frag_def Let_def d ENCODE_RELAX_STATE_def)
    also have "\<dots> = Some ?g"
      using size l a by (simp add: put_in_room put_displacement_in_room list_update_append)
    finally have conv: "i386_convert_frag addr_of f = Some ?g" .
    from opcode jmp l a have "b = 0xeb"
      by (simp add: opcode_of_state_def ENCODE_RELAX_STATE_def TYPE_FROM_RELAX_STATE_def nth_append)
    moreover have "drop (fr_opcode f) (fr_literal ?g) = 0xe9 # ?bs @ [r5] @ rs" using a by simp
    ultimately have "decode_branch (drop (fr_opcode f) (fr_literal ?g))
        = Some (jump_of (fr_literal f ! fr_opcode f), low d - of_nat 4, 5)"
      using l a le_displacement_long [of "d - 4"]
      by (simp add: decode_branch_def jump_of_def nth_append low_simps)
    with conv show ?thesis by (intro exI [of _ ?g] exI [of _ 4] exI [of _ 5]) simp
  next
    case jcc
    then have size: "DISP_SIZE_FROM_RELAX_STATE (fr_subtype f) = 4"
      by (auto simp: DISP_SIZE_FROM_RELAX_STATE_def ENCODE_RELAX_STATE_def)
    let ?bs = "number_to_chars_littleendian 4 (d - 5)"
    let ?g = "f\<lparr>fr_literal := as @ 0x0f # (b + 0x10) # ?bs @ rs, fr_fix := fr_fix f + 5\<rparr>"
    have b: "fr_literal f ! fr_opcode f = b" using l a by (simp add: nth_append)
    have "i386_convert_frag addr_of f = do {
        g \<leftarrow> put (fr_opcode f + 1) (b + 0x10) f; g \<leftarrow> put (fr_opcode f) 0x0f g;
        put_displacement d 5 (fr_opcode f + 2) g }"
      using jcc symb b by (auto simp: i386_convert_frag_def Let_def d ENCODE_RELAX_STATE_def)
    also have "\<dots> = Some ?g"
      using size l a by (simp add: put_in_room put_displacement_in_room list_update_append)
    finally have conv: "i386_convert_frag addr_of f = Some ?g" .
    from opcode jcc b have "b AND 0xf0 = 0x70"
      by (auto simp: opcode_of_state_def ENCODE_RELAX_STATE_def TYPE_FROM_RELAX_STATE_def split: if_splits)
    note jcc = jcc_bytes [OF this] this
    moreover have "drop (fr_opcode f) (fr_literal ?g) = 0x0f # (b + 0x10) # ?bs @ rs" using a by simp
    ultimately have "decode_branch (drop (fr_opcode f) (fr_literal ?g))
        = Some (jump_of (fr_literal f ! fr_opcode f), low d - of_nat 5, 6)"
      using b le_displacement_long [of "d - 5"]
      by (simp add: decode_branch_def jump_of_def low_simps)
    with conv show ?thesis by (intro exI [of _ ?g] exI [of _ 5] exI [of _ 6]) simp
  qed
qed

lemma low_uminus [low_simps]: "low (- a) = - low a"
  using low_diff [of 0 a] by simp

text \<open>A short branch at rest has its target in reach.\<close>

lemma short_reaches:
  assumes "reaches aim (i386_relax_table ! unat s)" and "unat s < 12" and "s AND BIG = 0"
  shows "- 127 \<le> sint aim \<and> sint aim \<le> 128"
  using less_12_cases [OF assms(2)] assms(1,3)
  by (auto simp: reaches_def i386_relax_table_def word_sle_eq word_sless_alt split: if_splits)

lemma short_has_long:
  "unat (s :: u32) < 12 \<Longrightarrow> s AND BIG = 0 \<Longrightarrow> rlx_more (i386_relax_table ! unat s) \<noteq> 0"
  by (drule less_12_cases) (auto simp: i386_relax_table_def ENCODE_RELAX_STATE_def)

lemma i386_short_near:
  assumes "at_rest (i386_machine arch64 np) frags i" and "fr_type (frags ! i) = rs_machine_dependent"
    and "unat (fr_subtype (frags ! i)) < 12" and "fr_subtype (frags ! i) AND BIG = 0"
  shows "- 127 \<le> sint (branch_aim frags i (low (fr_address (frags ! i))) 0)
    \<and> sint (branch_aim frags i (low (fr_address (frags ! i))) 0) \<le> 128"
  using i386.at_rest_branch [OF assms(1,2)] assms(3) short_has_long [OF assms(3,4)]
    short_reaches [OF _ assms(3,4)] by auto

text \<open>
  Property C4. After a section has been relaxed, the instruction that is stored for a branch of it is a
  branch with the same condition that ends where the code after the branch begins, and its
  displacement leads to the target, wherever the section is put: the short form is only left
  to branches whose target it reaches.
\<close>

theorem i386_branch_reaches:
  assumes "frags_ok i386_ready (frch_frags sect)"
    and "relax_section (i386_machine arch64 np) sect = Some (sect', moved)"
    and "i < length (frch_frags sect')" and "f = frch_frags sect' ! i" and "fr_type f = rs_machine_dependent"
    and "fr_symbol f = Some symb" and "fr_subtype f AND CODE16 = 0"
    and "opcode_of_state (fr_subtype f) (fr_literal f ! fr_opcode f)"
    and "addr_of symb = sym_address (frch_frags sect') (sy_ref symb) + slide"
  shows "\<exists>g d len. i386_convert_frag addr_of (f\<lparr>fr_address := fr_address f + slide\<rparr>) = Some g
    \<and> decode_branch (drop (fr_opcode f) (fr_literal g)) = Some (jump_of (fr_literal f ! fr_opcode f), d, len)
    \<and> unat (fr_fix g) = fr_opcode f + len
    \<and> low (fr_address f + slide) + fr_fix g + d = low (addr_of symb) + fr_offset f"
proof -
  let ?frags = "frch_frags sect'" and ?f = "f\<lparr>fr_address := fr_address f + slide\<rparr>"
  let ?d = "addr_of symb + scast (fr_offset ?f) - (fr_address ?f + scast (fr_fix ?f))"
  from i386.relax_section_relaxed [OF assms(1,2)] assms(3)
  have rest: "at_rest (i386_machine arch64 np) ?frags i" and "frag_ok i386_ready (length ?frags) i f"
    using assms(4) by (auto simp: relaxed_def frags_ok_def)
  with assms(5) have ready: "i386_ready f" by (simp add: frag_ok_def)
  then have ready': "i386_ready ?f" and st: "unat (fr_subtype f) < 12" by (simp_all add: i386_ready_def)
  have aim: "low ?d = branch_aim ?frags i (low (fr_address f)) 0"
    using assms(4,6,9) by (simp add: branch_aim_still low_simps)
  from i386_short_near [OF rest] assms(4,5) st aim
  have near: "fr_subtype ?f AND BIG = 0 \<Longrightarrow> - 127 \<le> sint (low ?d) \<and> sint (low ?d) \<le> 128" by simp
  from i386_convert_decodes [where f = ?f and d = ?d and symb = symb and addr_of = addr_of, OF ready' _ _ _ refl near] assms(6-8)
  obtain g n len where g: "i386_convert_frag addr_of ?f = Some g"
    "decode_branch (drop (fr_opcode f) (fr_literal g)) = Some (jump_of (fr_literal f ! fr_opcode f), low ?d - of_nat n, len)"
    "fr_fix g = fr_fix f + of_nat n" "len = n + 1" "n \<le> 5" by auto
  have "unat (fr_fix g) = unat (fr_fix f) + n"
    using ready g(3,5) by (simp add: i386_ready_def word_add_no_wrap unat_of_nat)
  with ready g(4) have "unat (fr_fix g) = fr_opcode f + len" by (simp add: i386_ready_def)
  moreover have "low (fr_address f + slide) + fr_fix g + (low ?d - of_nat n) = low (addr_of symb) + fr_offset f"
    using g(3) by (simp add: low_simps)
  ultimately show ?thesis using g(1,2) by blast
qed

definition sample_symbol :: symbolS where
  "sample_symbol = \<lparr>sy_ref = \<lparr>sy_value = 0, sy_frag = Here 2\<rparr>, sy_type = N_SECT, sy_other = 1, sy_expression = None\<rparr>"

definition sample_frag :: fragS where
  "sample_frag = \<lparr>fr_address = 0, last_fr_address = 0, fr_fix = 0, fr_var = 0, fr_symbol = None, fr_offset = 0,
     fr_opcode = 0, fr_type = rs_fill, fr_subtype = 0, fr_literal = []\<rparr>"

text \<open>A jump over 200 bytes.\<close>

definition sample_section :: frchain where
  "sample_section = \<lparr>frch_frags =
     [sample_frag\<lparr>fr_type := rs_machine_dependent, fr_fix := 1, fr_var := 1, fr_symbol := Some sample_symbol,
        fr_literal := [0xeb, 0, 0, 0, 0, 0]\<rparr>,
      sample_frag\<lparr>fr_var := 1, fr_offset := 200\<rparr>, sample_frag],
     frch_flags = 0, frch_align = 0, frch_nsect = 1, frch_fix_root = [], has_rs_leb128s = False\<rparr>"

definition sample_relaxed :: frchain where
  "sample_relaxed = sample_section\<lparr>frch_frags :=
     [(frch_frags sample_section ! 0)\<lparr>fr_subtype := 2\<rparr>,
      (frch_frags sample_section ! 1)\<lparr>fr_address := 5, last_fr_address := 5\<rparr>,
      sample_frag\<lparr>fr_address := 205, last_fr_address := 205\<rparr>]\<rparr>"

lemma sample_ok: "frags_ok i386_ready (frch_frags sample_section)"
  by (simp add: frags_ok_def sample_section_def frag_ok_def refs_ok_def ref_ok_def i386_ready_def sample_frag_def
      sample_symbol_def less_Suc_eq numeral_3_eq_3)

lemma sample_run: "relax_section (i386_machine True False) sample_section = Some (sample_relaxed, True)"
  by code_simp

theorem i386_branch_reaches_witness:
  "\<exists>g d len. i386_convert_frag (\<lambda>_. 1205) ((frch_frags sample_relaxed ! 0)\<lparr>fr_address := 0 + 1000\<rparr>) = Some g
    \<and> decode_branch (fr_literal g) = Some (Jmp, d, len) \<and> unat (fr_fix g) = len \<and> 1000 + fr_fix g + d = 1205"
  using i386_branch_reaches [OF sample_ok sample_run, of 0 "frch_frags sample_relaxed ! 0" sample_symbol "\<lambda>_. 1205" 1000]
  by (simp add: sample_relaxed_def sample_section_def sample_frag_def sample_symbol_def opcode_of_state_def
      TYPE_FROM_RELAX_STATE_def sym_address_def ref_address_def jump_of_def)

text \<open>
  Property C21. In a relaxed section every fragment begins where the one before it ends, in the low half of
  the addresses, and what follows an alignment without a maximum is aligned.
\<close>

theorem i386_sections_adjacent:
  assumes "frags_ok i386_ready (frch_frags sect)"
    and "relax_section (i386_machine arch64 np) sect = Some (sect', moved)"
    and "Suc i < length (frch_frags sect')" and "f = frch_frags sect' ! i"
  shows "(fr_type f \<noteq> rs_org \<longrightarrow>
      low (fr_address (frch_frags sect' ! Suc i)) = low (fr_address f) + fr_fix f + var_size (i386_machine arch64 np) f)
    \<and> (fr_type f = rs_align \<and> fr_subtype f = 0 \<longrightarrow>
      take_bit (unat (fr_offset f)) (low (fr_address (frch_frags sect' ! Suc i))) = 0)"
proof -
  from i386.relax_section_relaxed [OF assms(1,2)]
  have "chained (i386_machine arch64 np) (frch_frags sect')" by (simp add: relaxed_def)
  with assms(3,4) have next': "fr_type f \<noteq> rs_org \<Longrightarrow>
      low (fr_address (frch_frags sect' ! Suc i)) = end_of (i386_machine arch64 np) f"
    by (simp add: chained_def adjacent_def)
  moreover have "take_bit (unat (fr_offset f)) (end_of (i386_machine arch64 np) f) = 0"
    if "fr_type f = rs_align" "fr_subtype f = 0"
    using that align_gap_aligned by (simp add: end_of_def var_size_def max_bytes_def)
  ultimately show ?thesis by (simp add: end_of_def)
qed

theorem i386_sections_adjacent_witness:
  "low (fr_address (frch_frags sample_relaxed ! 1)) = 5 \<and> var_size (i386_machine True False) (frch_frags sample_relaxed ! 0) = 4"
proof -
  have "var_size (i386_machine True False) (frch_frags sample_relaxed ! 0) = 4" by code_simp
  with i386_sections_adjacent [OF sample_ok sample_run, of 0 "frch_frags sample_relaxed ! 0"] show ?thesis
    by (simp add: sample_relaxed_def sample_section_def sample_frag_def)
qed

text \<open>
  In a relaxed section the sizes are right for the final addresses: an \<open>.org\<close> is not followed
  by a fragment before its target, and a line step and a base 128 number have the size of
  their final values.
\<close>

theorem i386_sizes_settled:
  assumes "frags_ok i386_ready (frch_frags sect)"
    and "relax_section (i386_machine arch64 np) sect = Some (sect', moved)"
    and "i < length (frch_frags sect')"
  shows "settled arch64 (frch_frags sect') i"
  using i386.relax_section_relaxed [OF assms(1,2)] assms(3) at_rest_settled [of "i386_machine arch64 np"]
  by (simp add: relaxed_def)

text \<open>
  Property C20. Relaxing a section comes to an end if what its \<open>.org\<close>s, line steps and base 128 numbers refer
  to is in other sections or before them.
\<close>

theorem i386_relax_section_returns:
  assumes "frags_ok i386_ready (frch_frags sect)"
    and "\<And>i. i < length (frch_frags sect) \<Longrightarrow> settles i (frch_frags sect ! i)"
  shows "\<exists>sect' moved. relax_section (i386_machine arch64 np) sect = Some (sect', moved)"
  using assms by (rule i386.relax_section_returns)

theorem i386_relax_section_returns_witness:
  "\<exists>sect' moved. relax_section (i386_machine False True) sample_section = Some (sect', moved)"
  by (rule i386_relax_section_returns [OF sample_ok])
    (auto simp: sample_section_def sample_frag_def settles_def less_Suc_eq numeral_3_eq_3)

text \<open>A section with a line step, a base 128 number and an \<open>.org\<close>, in which all of them grow.\<close>

definition sized_section :: frchain where
  "sized_section = sample_section\<lparr>frch_frags :=
     [sample_frag\<lparr>fr_type := rs_dwarf2dbg, fr_offset := 1, fr_symbol := Some (sample_symbol\<lparr>sy_expression := Some
        \<lparr>X_add_symbol = Some \<lparr>sy_value = 1000, sy_frag = Elsewhere 0\<rparr>,
         X_subtract_symbol = Some \<lparr>sy_value = 0, sy_frag = Elsewhere 0\<rparr>, X_add_number = 0\<rparr>\<rparr>)\<rparr>,
      sample_frag\<lparr>fr_type := rs_leb128, fr_symbol := Some (sample_symbol\<lparr>sy_expression := Some
        \<lparr>X_add_symbol = Some \<lparr>sy_value = 300, sy_frag = Here 0\<rparr>, X_subtract_symbol = None, X_add_number = 0\<rparr>\<rparr>)\<rparr>,
      sample_frag\<lparr>fr_type := rs_org, fr_var := 1, fr_offset := 64, fr_symbol := Some (sample_symbol\<lparr>sy_ref :=
        \<lparr>sy_value = 0, sy_frag = Here 1\<rparr>\<rparr>)\<rparr>,
      sample_frag]\<rparr>"

lemma sized_ok: "frags_ok i386_ready (frch_frags sized_section)"
  by (simp add: frags_ok_def sized_section_def frag_ok_def refs_ok_def ref_ok_def sample_frag_def
      step_known_def dwarf2dbg_addr_delta_def sample_symbol_def less_Suc_eq numeral_eq_Suc)

theorem i386_sizes_settled_witness:
  "\<exists>sect'. relax_section (i386_machine True False) sized_section = Some (sect', True)
    \<and> map fr_address (frch_frags sect') = [0, 4, 6, 68] \<and> settled True (frch_frags sect') 2"
proof -
  have "map_option (\<lambda>(s, m). (map fr_address (frch_frags s), m)) (relax_section (i386_machine True False) sized_section)
      = Some ([0, 4, 6, 68], True)" by code_simp
  then obtain sect' where run: "relax_section (i386_machine True False) sized_section = Some (sect', True)"
    and a: "map fr_address (frch_frags sect') = [0, 4, 6, 68]" by auto
  then have "length (frch_frags sect') = 4" using map_eq_imp_length_eq [of fr_address "frch_frags sect'" id "[0, 4, 6, 68]"] by simp
  then show ?thesis using i386_sizes_settled [OF sized_ok run, of 2] run a by simp
qed


text \<open>
  Promotion of conditional jumps cannot be switched off in the 32-bit assembler: what is kept
  in \<open>fr_var\<close> there is the size of the fill, which is not \<open>NO_RELOC\<close>.
\<close>

lemma nojumps_ignored:
  assumes "fr_var f \<noteq> NO_RELOC"
  shows "md_estimate_size_before_relax (i386_machine False np) nsect f
     = md_estimate_size_before_relax (i386_machine False False) nsect f"
proof -
  have "branch_undefined False np f = branch_undefined False False f"
    using assms by (simp add: branch_undefined_def cond_jump_undefined_def Let_def)
  then show ?thesis unfolding i386_machine_simps i386_estimate_size_before_relax_def by (simp only:)
qed

end
