(* ===== verification/Macho_Read.thy ===== *)
theory Macho_Read
  imports Macho_Structs
begin

text \<open>
  Reading a structure of a Mach-O file through a pointer that is cast to its type: the fields are
  read at their offsets, in the byte sex of the host. \<open>read_image\<close> shows that what is read is the
  structure whose image is in memory, \<open>image_read\<close> that storing what was read changes nothing, so
  the offsets are those of the layouts of \<open>Macho_Structs\<close>.
\<close>

section \<open>Reading integers\<close>

definition bytes_at :: "u8 list \<Rightarrow> nat \<Rightarrow> nat \<Rightarrow> u8 list" where
  "bytes_at bs n o1 = take n (drop o1 bs)"

definition get32 :: "byte_sex \<Rightarrow> u8 list \<Rightarrow> nat \<Rightarrow> u32" where
  "get32 s bs o1 =
     of_le_bytes (if s = BIG_ENDIAN_BYTE_SEX then rev (bytes_at bs 4 o1) else bytes_at bs 4 o1)"

definition get64 :: "byte_sex \<Rightarrow> u8 list \<Rightarrow> nat \<Rightarrow> u64" where
  "get64 s bs o1 =
     of_le_bytes (if s = BIG_ENDIAN_BYTE_SEX then rev (bytes_at bs 8 o1) else bytes_at bs 8 o1)"

definition getchars :: "byte_sex \<Rightarrow> u8 list \<Rightarrow> nat \<Rightarrow> char16" where
  "getchars s bs o1 = of_le_bytes (bytes_at bs 16 o1)"

lemma struct_bytes_append [simp]:
  "bytes_at (xs @ ys) n o1 = (if length xs \<le> o1 then bytes_at ys n (o1 - length xs)
     else take n (drop o1 xs @ ys))"
  by (simp add: bytes_at_def)

lemma get_append:
  assumes "length xs \<le> o1"
  shows "get32 s (xs @ ys) o1 = get32 s ys (o1 - length xs)"
    and "get64 s (xs @ ys) o1 = get64 s ys (o1 - length xs)"
    and "getchars s (xs @ ys) o1 = getchars s ys (o1 - length xs)"
  using assms by (simp_all add: get32_def get64_def getchars_def)

lemma image_Cons: "image s (f # fs) = enc_field s f @ image s fs"
  by (simp add: image_def)

lemma image_Nil [simp]: "image s [] = []"
  by (simp add: image_def)

lemma get_image_0:
  "get32 s (image s (F32 w # fs) @ r) 0 = w"
  "get64 s (image s (F64 v # fs) @ r) 0 = v"
  "getchars s (image s (Chars c # fs) @ r) 0 = c"
  by (simp_all add: get32_def get64_def getchars_def bytes_at_def image_Cons of_le_bytes_le_bytes)

lemma get_image_skip:
  assumes "field_size f \<le> o1"
  shows "get32 s (image s (f # fs) @ r) o1 = get32 s (image s fs @ r) (o1 - field_size f)"
    and "get64 s (image s (f # fs) @ r) o1 = get64 s (image s fs @ r) (o1 - field_size f)"
    and "getchars s (image s (f # fs) @ r) o1 = getchars s (image s fs @ r) (o1 - field_size f)"
  using assms get_append [of "enc_field s f" o1 s "image s fs @ r"] by (simp_all add: image_Cons)

lemma enc_field_get:
  assumes "o1 + 4 \<le> length bs"
  shows "enc_field s (F32 (get32 s bs o1)) = bytes_at bs 4 o1"
proof -
  have "length (bytes_at bs 4 o1) = 4" using assms by (simp add: bytes_at_def)
  then show ?thesis
    using le_bytes_of_le_bytes [of "bytes_at bs 4 o1", where 'a = 32]
      le_bytes_of_le_bytes [of "rev (bytes_at bs 4 o1)", where 'a = 32]
    by (simp add: get32_def)
qed

lemma enc_field_get64:
  assumes "o1 + 8 \<le> length bs"
  shows "enc_field s (F64 (get64 s bs o1)) = bytes_at bs 8 o1"
proof -
  have "length (bytes_at bs 8 o1) = 8" using assms by (simp add: bytes_at_def)
  then show ?thesis
    using le_bytes_of_le_bytes [of "bytes_at bs 8 o1", where 'a = 64]
      le_bytes_of_le_bytes [of "rev (bytes_at bs 8 o1)", where 'a = 64]
    by (simp add: get64_def)
qed

lemma enc_field_getchars:
  assumes "o1 + 16 \<le> length bs"
  shows "enc_field s (Chars (getchars s bs o1)) = bytes_at bs 16 o1"
proof -
  have "length (bytes_at bs 16 o1) = 16" using assms by (simp add: bytes_at_def)
  then show ?thesis
    using le_bytes_of_le_bytes [of "bytes_at bs 16 o1", where 'a = 128]
    by (simp add: getchars_def)
qed

lemma bytes_at_step: "bytes_at bs n o1 @ x = drop o1 bs \<longleftrightarrow> x = drop (o1 + n) bs"
  if "o1 + n \<le> length bs"
proof -
  have "drop o1 bs = bytes_at bs n o1 @ drop (o1 + n) bs"
    by (simp add: bytes_at_def add.commute flip: drop_drop)
  then show ?thesis by simp
qed

lemma image_get_step:
  "o1 + 4 \<le> length bs \<Longrightarrow>
     image s (F32 (get32 s bs o1) # fs) = drop o1 bs \<longleftrightarrow> image s fs = drop (o1 + 4) bs"
  "o1 + 8 \<le> length bs \<Longrightarrow>
     image s (F64 (get64 s bs o1) # fs) = drop o1 bs \<longleftrightarrow> image s fs = drop (o1 + 8) bs"
  "o1 + 16 \<le> length bs \<Longrightarrow>
     image s (Chars (getchars s bs o1) # fs) = drop o1 bs \<longleftrightarrow> image s fs = drop (o1 + 16) bs"
  by (simp_all only: image_Cons enc_field_get enc_field_get64 enc_field_getchars bytes_at_step)

section \<open>Reading structures\<close>

definition read_load_command :: "byte_sex \<Rightarrow> u8 list \<Rightarrow> load_command" where
  "read_load_command s bs =
    \<lparr>lc_cmd = get32 s bs 0, lc_cmdsize = get32 s bs 4\<rparr>"

definition read_segment_command :: "byte_sex \<Rightarrow> u8 list \<Rightarrow> segment_command" where
  "read_segment_command s bs =
    \<lparr>sg_cmd = get32 s bs 0, sg_cmdsize = get32 s bs 4, sg_segname = getchars s bs 8,
     sg_vmaddr = get32 s bs 24, sg_vmsize = get32 s bs 28, sg_fileoff = get32 s bs 32,
     sg_filesize = get32 s bs 36, sg_maxprot = get32 s bs 40, sg_initprot = get32 s bs 44,
     sg_nsects = get32 s bs 48, sg_flags = get32 s bs 52\<rparr>"

definition read_segment_command_64 :: "byte_sex \<Rightarrow> u8 list \<Rightarrow> segment_command_64" where
  "read_segment_command_64 s bs =
    \<lparr>sg64_cmd = get32 s bs 0, sg64_cmdsize = get32 s bs 4, sg64_segname = getchars s bs 8,
     sg64_vmaddr = get64 s bs 24, sg64_vmsize = get64 s bs 32, sg64_fileoff = get64 s bs 40,
     sg64_filesize = get64 s bs 48, sg64_maxprot = get32 s bs 56,
     sg64_initprot = get32 s bs 60, sg64_nsects = get32 s bs 64, sg64_flags = get32 s bs 68\<rparr>"

definition read_macho_section :: "byte_sex \<Rightarrow> u8 list \<Rightarrow> macho_section" where
  "read_macho_section s bs =
    \<lparr>s_sectname = getchars s bs 0, s_segname = getchars s bs 16, s_addr = get32 s bs 32,
     s_size = get32 s bs 36, s_offset = get32 s bs 40, s_align = get32 s bs 44,
     s_reloff = get32 s bs 48, s_nreloc = get32 s bs 52, s_flags = get32 s bs 56,
     s_reserved1 = get32 s bs 60, s_reserved2 = get32 s bs 64\<rparr>"

definition read_macho_section_64 :: "byte_sex \<Rightarrow> u8 list \<Rightarrow> macho_section_64" where
  "read_macho_section_64 s bs =
    \<lparr>s64_sectname = getchars s bs 0, s64_segname = getchars s bs 16,
     s64_addr = get64 s bs 32, s64_size = get64 s bs 40, s64_offset = get32 s bs 48,
     s64_align = get32 s bs 52, s64_reloff = get32 s bs 56, s64_nreloc = get32 s bs 60,
     s64_flags = get32 s bs 64, s64_reserved1 = get32 s bs 68, s64_reserved2 = get32 s bs 72,
     s64_reserved3 = get32 s bs 76\<rparr>"

definition read_symtab_command :: "byte_sex \<Rightarrow> u8 list \<Rightarrow> symtab_command" where
  "read_symtab_command s bs =
    \<lparr>st_cmd = get32 s bs 0, st_cmdsize = get32 s bs 4, st_symoff = get32 s bs 8,
     st_nsyms = get32 s bs 12, st_stroff = get32 s bs 16, st_strsize = get32 s bs 20\<rparr>"

definition read_dysymtab_command :: "byte_sex \<Rightarrow> u8 list \<Rightarrow> dysymtab_command" where
  "read_dysymtab_command s bs =
    \<lparr>dyst_cmd = get32 s bs 0, dyst_cmdsize = get32 s bs 4, dyst_ilocalsym = get32 s bs 8,
     dyst_nlocalsym = get32 s bs 12, dyst_iextdefsym = get32 s bs 16,
     dyst_nextdefsym = get32 s bs 20, dyst_iundefsym = get32 s bs 24,
     dyst_nundefsym = get32 s bs 28, dyst_tocoff = get32 s bs 32, dyst_ntoc = get32 s bs 36,
     dyst_modtaboff = get32 s bs 40, dyst_nmodtab = get32 s bs 44,
     dyst_extrefsymoff = get32 s bs 48, dyst_nextrefsyms = get32 s bs 52,
     dyst_indirectsymoff = get32 s bs 56, dyst_nindirectsyms = get32 s bs 60,
     dyst_extreloff = get32 s bs 64, dyst_nextrel = get32 s bs 68,
     dyst_locreloff = get32 s bs 72, dyst_nlocrel = get32 s bs 76\<rparr>"

definition read_routines_command :: "byte_sex \<Rightarrow> u8 list \<Rightarrow> routines_command" where
  "read_routines_command s bs =
    \<lparr>rc_cmd = get32 s bs 0, rc_cmdsize = get32 s bs 4, rc_init_address = get32 s bs 8,
     rc_init_module = get32 s bs 12, rc_reserved1 = get32 s bs 16,
     rc_reserved2 = get32 s bs 20, rc_reserved3 = get32 s bs 24,
     rc_reserved4 = get32 s bs 28, rc_reserved5 = get32 s bs 32,
     rc_reserved6 = get32 s bs 36\<rparr>"

definition read_routines_command_64 :: "byte_sex \<Rightarrow> u8 list \<Rightarrow> routines_command_64" where
  "read_routines_command_64 s bs =
    \<lparr>rc64_cmd = get32 s bs 0, rc64_cmdsize = get32 s bs 4, rc64_init_address = get64 s bs 8,
     rc64_init_module = get64 s bs 16, rc64_reserved1 = get64 s bs 24,
     rc64_reserved2 = get64 s bs 32, rc64_reserved3 = get64 s bs 40,
     rc64_reserved4 = get64 s bs 48, rc64_reserved5 = get64 s bs 56,
     rc64_reserved6 = get64 s bs 64\<rparr>"

definition read_twolevel_hints_command :: "byte_sex \<Rightarrow> u8 list \<Rightarrow> twolevel_hints_command" where
  "read_twolevel_hints_command s bs =
    \<lparr>hints_cmd = get32 s bs 0, hints_cmdsize = get32 s bs 4, hints_offset = get32 s bs 8,
     hints_nhints = get32 s bs 12\<rparr>"

definition read_linkedit_data_command :: "byte_sex \<Rightarrow> u8 list \<Rightarrow> linkedit_data_command" where
  "read_linkedit_data_command s bs =
    \<lparr>ld_cmd = get32 s bs 0, ld_cmdsize = get32 s bs 4, ld_dataoff = get32 s bs 8,
     ld_datasize = get32 s bs 12\<rparr>"

definition read_version_min_command :: "byte_sex \<Rightarrow> u8 list \<Rightarrow> version_min_command" where
  "read_version_min_command s bs =
    \<lparr>ver_cmd = get32 s bs 0, ver_cmdsize = get32 s bs 4, ver_version = get32 s bs 8,
     ver_sdk = get32 s bs 12\<rparr>"

definition read_encryption_info_command :: "byte_sex \<Rightarrow> u8 list \<Rightarrow> encryption_info_command" where
  "read_encryption_info_command s bs =
    \<lparr>ec_cmd = get32 s bs 0, ec_cmdsize = get32 s bs 4, ec_cryptoff = get32 s bs 8,
     ec_cryptsize = get32 s bs 12, ec_cryptid = get32 s bs 16\<rparr>"

definition read_encryption_info_command_64 :: "byte_sex \<Rightarrow> u8 list \<Rightarrow> encryption_info_command_64" where
  "read_encryption_info_command_64 s bs =
    \<lparr>ec64_cmd = get32 s bs 0, ec64_cmdsize = get32 s bs 4, ec64_cryptoff = get32 s bs 8,
     ec64_cryptsize = get32 s bs 12, ec64_cryptid = get32 s bs 16, ec64_pad = get32 s bs 20\<rparr>"

definition read_linker_option_command :: "byte_sex \<Rightarrow> u8 list \<Rightarrow> linker_option_command" where
  "read_linker_option_command s bs =
    \<lparr>lo_cmd = get32 s bs 0, lo_cmdsize = get32 s bs 4, lo_count = get32 s bs 8\<rparr>"

definition read_dyld_info_command :: "byte_sex \<Rightarrow> u8 list \<Rightarrow> dyld_info_command" where
  "read_dyld_info_command s bs =
    \<lparr>ed_cmd = get32 s bs 0, ed_cmdsize = get32 s bs 4, ed_rebase_off = get32 s bs 8,
     ed_rebase_size = get32 s bs 12, ed_bind_off = get32 s bs 16,
     ed_bind_size = get32 s bs 20, ed_weak_bind_off = get32 s bs 24,
     ed_weak_bind_size = get32 s bs 28, ed_lazy_bind_off = get32 s bs 32,
     ed_lazy_bind_size = get32 s bs 36, ed_export_off = get32 s bs 40,
     ed_export_size = get32 s bs 44\<rparr>"

definition read_prebind_cksum_command :: "byte_sex \<Rightarrow> u8 list \<Rightarrow> prebind_cksum_command" where
  "read_prebind_cksum_command s bs =
    \<lparr>cksum_cmd = get32 s bs 0, cksum_cmdsize = get32 s bs 4, cksum_cksum = get32 s bs 8\<rparr>"

definition read_uuid_command :: "byte_sex \<Rightarrow> u8 list \<Rightarrow> uuid_command" where
  "read_uuid_command s bs =
    \<lparr>uuid_cmd = get32 s bs 0, uuid_cmdsize = get32 s bs 4, uuid_uuid = getchars s bs 8\<rparr>"

definition read_symseg_command :: "byte_sex \<Rightarrow> u8 list \<Rightarrow> symseg_command" where
  "read_symseg_command s bs =
    \<lparr>ss_cmd = get32 s bs 0, ss_cmdsize = get32 s bs 4, ss_offset = get32 s bs 8,
     ss_size = get32 s bs 12\<rparr>"

definition read_fvmlib_command :: "byte_sex \<Rightarrow> u8 list \<Rightarrow> fvmlib_command" where
  "read_fvmlib_command s bs =
    \<lparr>fl_cmd = get32 s bs 0, fl_cmdsize = get32 s bs 4, fl_fvmlib_name_offset = get32 s bs 8,
     fl_fvmlib_minor_version = get32 s bs 12, fl_fvmlib_header_addr = get32 s bs 16\<rparr>"

definition read_dylib_command :: "byte_sex \<Rightarrow> u8 list \<Rightarrow> dylib_command" where
  "read_dylib_command s bs =
    \<lparr>dl_cmd = get32 s bs 0, dl_cmdsize = get32 s bs 4, dl_dylib_name_offset = get32 s bs 8,
     dl_dylib_timestamp = get32 s bs 12, dl_dylib_current_version = get32 s bs 16,
     dl_dylib_compatibility_version = get32 s bs 20\<rparr>"

definition read_sub_framework_command :: "byte_sex \<Rightarrow> u8 list \<Rightarrow> sub_framework_command" where
  "read_sub_framework_command s bs =
    \<lparr>sub_cmd = get32 s bs 0, sub_cmdsize = get32 s bs 4, sub_umbrella_offset = get32 s bs 8\<rparr>"

definition read_sub_umbrella_command :: "byte_sex \<Rightarrow> u8 list \<Rightarrow> sub_umbrella_command" where
  "read_sub_umbrella_command s bs =
    \<lparr>usub_cmd = get32 s bs 0, usub_cmdsize = get32 s bs 4,
     usub_sub_umbrella_offset = get32 s bs 8\<rparr>"

definition read_sub_library_command :: "byte_sex \<Rightarrow> u8 list \<Rightarrow> sub_library_command" where
  "read_sub_library_command s bs =
    \<lparr>lsub_cmd = get32 s bs 0, lsub_cmdsize = get32 s bs 4,
     lsub_sub_library_offset = get32 s bs 8\<rparr>"

definition read_sub_client_command :: "byte_sex \<Rightarrow> u8 list \<Rightarrow> sub_client_command" where
  "read_sub_client_command s bs =
    \<lparr>csub_cmd = get32 s bs 0, csub_cmdsize = get32 s bs 4, csub_client_offset = get32 s bs 8\<rparr>"

definition read_prebound_dylib_command :: "byte_sex \<Rightarrow> u8 list \<Rightarrow> prebound_dylib_command" where
  "read_prebound_dylib_command s bs =
    \<lparr>pbdylib_cmd = get32 s bs 0, pbdylib_cmdsize = get32 s bs 4,
     pbdylib_name_offset = get32 s bs 8, pbdylib_nmodules = get32 s bs 12,
     pbdylib_linked_modules_offset = get32 s bs 16\<rparr>"

definition read_dylinker_command :: "byte_sex \<Rightarrow> u8 list \<Rightarrow> dylinker_command" where
  "read_dylinker_command s bs =
    \<lparr>dyld_cmd = get32 s bs 0, dyld_cmdsize = get32 s bs 4, dyld_name_offset = get32 s bs 8\<rparr>"

definition read_thread_command :: "byte_sex \<Rightarrow> u8 list \<Rightarrow> thread_command" where
  "read_thread_command s bs =
    \<lparr>ut_cmd = get32 s bs 0, ut_cmdsize = get32 s bs 4\<rparr>"

definition read_entry_point_command :: "byte_sex \<Rightarrow> u8 list \<Rightarrow> entry_point_command" where
  "read_entry_point_command s bs =
    \<lparr>ep_cmd = get32 s bs 0, ep_cmdsize = get32 s bs 4, ep_entryoff = get64 s bs 8,
     ep_stacksize = get64 s bs 16\<rparr>"

definition read_source_version_command :: "byte_sex \<Rightarrow> u8 list \<Rightarrow> source_version_command" where
  "read_source_version_command s bs =
    \<lparr>sv_cmd = get32 s bs 0, sv_cmdsize = get32 s bs 4, sv_version = get64 s bs 8\<rparr>"

definition read_ident_command :: "byte_sex \<Rightarrow> u8 list \<Rightarrow> ident_command" where
  "read_ident_command s bs =
    \<lparr>id_cmd = get32 s bs 0, id_cmdsize = get32 s bs 4\<rparr>"

definition read_rpath_command :: "byte_sex \<Rightarrow> u8 list \<Rightarrow> rpath_command" where
  "read_rpath_command s bs =
    \<lparr>rpath_cmd = get32 s bs 0, rpath_cmdsize = get32 s bs 4,
     rpath_path_offset = get32 s bs 8\<rparr>"

text \<open>What is read where a structure was stored is the structure.\<close>

lemma read_image_load_command [simp]:
  "read_load_command s (image s (layout_load_command x) @ r) = x"
  by (simp add: read_load_command_def layout_load_command_def get_image_0 get_image_skip)

lemma read_image_segment_command [simp]:
  "read_segment_command s (image s (layout_segment_command x) @ r) = x"
  by (simp add: read_segment_command_def layout_segment_command_def get_image_0 get_image_skip)

lemma read_image_segment_command_64 [simp]:
  "read_segment_command_64 s (image s (layout_segment_command_64 x) @ r) = x"
  by (simp add: read_segment_command_64_def layout_segment_command_64_def get_image_0 get_image_skip)

lemma read_image_macho_section [simp]:
  "read_macho_section s (image s (layout_section x) @ r) = x"
  by (simp add: read_macho_section_def layout_section_def get_image_0 get_image_skip)

lemma read_image_macho_section_64 [simp]:
  "read_macho_section_64 s (image s (layout_section_64 x) @ r) = x"
  by (simp add: read_macho_section_64_def layout_section_64_def get_image_0 get_image_skip)

lemma read_image_symtab_command [simp]:
  "read_symtab_command s (image s (layout_symtab_command x) @ r) = x"
  by (simp add: read_symtab_command_def layout_symtab_command_def get_image_0 get_image_skip)

lemma read_image_dysymtab_command [simp]:
  "read_dysymtab_command s (image s (layout_dysymtab_command x) @ r) = x"
  by (simp add: read_dysymtab_command_def layout_dysymtab_command_def get_image_0 get_image_skip)

lemma read_image_routines_command [simp]:
  "read_routines_command s (image s (layout_routines_command x) @ r) = x"
  by (simp add: read_routines_command_def layout_routines_command_def get_image_0 get_image_skip)

lemma read_image_routines_command_64 [simp]:
  "read_routines_command_64 s (image s (layout_routines_command_64 x) @ r) = x"
  by (simp add: read_routines_command_64_def layout_routines_command_64_def get_image_0 get_image_skip)

lemma read_image_twolevel_hints_command [simp]:
  "read_twolevel_hints_command s (image s (layout_twolevel_hints_command x) @ r) = x"
  by (simp add: read_twolevel_hints_command_def layout_twolevel_hints_command_def get_image_0 get_image_skip)

lemma read_image_linkedit_data_command [simp]:
  "read_linkedit_data_command s (image s (layout_linkedit_data_command x) @ r) = x"
  by (simp add: read_linkedit_data_command_def layout_linkedit_data_command_def get_image_0 get_image_skip)

lemma read_image_version_min_command [simp]:
  "read_version_min_command s (image s (layout_version_min_command x) @ r) = x"
  by (simp add: read_version_min_command_def layout_version_min_command_def get_image_0 get_image_skip)

lemma read_image_encryption_info_command [simp]:
  "read_encryption_info_command s (image s (layout_encryption_info_command x) @ r) = x"
  by (simp add: read_encryption_info_command_def layout_encryption_info_command_def get_image_0 get_image_skip)

lemma read_image_encryption_info_command_64 [simp]:
  "read_encryption_info_command_64 s (image s (layout_encryption_info_command_64 x) @ r) = x"
  by (simp add: read_encryption_info_command_64_def layout_encryption_info_command_64_def get_image_0 get_image_skip)

lemma read_image_linker_option_command [simp]:
  "read_linker_option_command s (image s (layout_linker_option_command x) @ r) = x"
  by (simp add: read_linker_option_command_def layout_linker_option_command_def get_image_0 get_image_skip)

lemma read_image_dyld_info_command [simp]:
  "read_dyld_info_command s (image s (layout_dyld_info_command x) @ r) = x"
  by (simp add: read_dyld_info_command_def layout_dyld_info_command_def get_image_0 get_image_skip)

lemma read_image_prebind_cksum_command [simp]:
  "read_prebind_cksum_command s (image s (layout_prebind_cksum_command x) @ r) = x"
  by (simp add: read_prebind_cksum_command_def layout_prebind_cksum_command_def get_image_0 get_image_skip)

lemma read_image_uuid_command [simp]:
  "read_uuid_command s (image s (layout_uuid_command x) @ r) = x"
  by (simp add: read_uuid_command_def layout_uuid_command_def get_image_0 get_image_skip)

lemma read_image_symseg_command [simp]:
  "read_symseg_command s (image s (layout_symseg_command x) @ r) = x"
  by (simp add: read_symseg_command_def layout_symseg_command_def get_image_0 get_image_skip)

lemma read_image_fvmlib_command [simp]:
  "read_fvmlib_command s (image s (layout_fvmlib_command x) @ r) = x"
  by (simp add: read_fvmlib_command_def layout_fvmlib_command_def get_image_0 get_image_skip)

lemma read_image_dylib_command [simp]:
  "read_dylib_command s (image s (layout_dylib_command x) @ r) = x"
  by (simp add: read_dylib_command_def layout_dylib_command_def get_image_0 get_image_skip)

lemma read_image_sub_framework_command [simp]:
  "read_sub_framework_command s (image s (layout_sub_framework_command x) @ r) = x"
  by (simp add: read_sub_framework_command_def layout_sub_framework_command_def get_image_0 get_image_skip)

lemma read_image_sub_umbrella_command [simp]:
  "read_sub_umbrella_command s (image s (layout_sub_umbrella_command x) @ r) = x"
  by (simp add: read_sub_umbrella_command_def layout_sub_umbrella_command_def get_image_0 get_image_skip)

lemma read_image_sub_library_command [simp]:
  "read_sub_library_command s (image s (layout_sub_library_command x) @ r) = x"
  by (simp add: read_sub_library_command_def layout_sub_library_command_def get_image_0 get_image_skip)

lemma read_image_sub_client_command [simp]:
  "read_sub_client_command s (image s (layout_sub_client_command x) @ r) = x"
  by (simp add: read_sub_client_command_def layout_sub_client_command_def get_image_0 get_image_skip)

lemma read_image_prebound_dylib_command [simp]:
  "read_prebound_dylib_command s (image s (layout_prebound_dylib_command x) @ r) = x"
  by (simp add: read_prebound_dylib_command_def layout_prebound_dylib_command_def get_image_0 get_image_skip)

lemma read_image_dylinker_command [simp]:
  "read_dylinker_command s (image s (layout_dylinker_command x) @ r) = x"
  by (simp add: read_dylinker_command_def layout_dylinker_command_def get_image_0 get_image_skip)

lemma read_image_thread_command [simp]:
  "read_thread_command s (image s (layout_thread_command x) @ r) = x"
  by (simp add: read_thread_command_def layout_thread_command_def get_image_0 get_image_skip)

lemma read_image_entry_point_command [simp]:
  "read_entry_point_command s (image s (layout_entry_point_command x) @ r) = x"
  by (simp add: read_entry_point_command_def layout_entry_point_command_def get_image_0 get_image_skip)

lemma read_image_source_version_command [simp]:
  "read_source_version_command s (image s (layout_source_version_command x) @ r) = x"
  by (simp add: read_source_version_command_def layout_source_version_command_def get_image_0 get_image_skip)

lemma read_image_ident_command [simp]:
  "read_ident_command s (image s (layout_ident_command x) @ r) = x"
  by (simp add: read_ident_command_def layout_ident_command_def get_image_0 get_image_skip)

lemma read_image_rpath_command [simp]:
  "read_rpath_command s (image s (layout_rpath_command x) @ r) = x"
  by (simp add: read_rpath_command_def layout_rpath_command_def get_image_0 get_image_skip)

text \<open>Storing what was read changes nothing.\<close>

lemma image_read_load_command:
  "length bs = 8 \<Longrightarrow> image s (layout_load_command (read_load_command s bs)) = bs"
  using image_get_step(1) [of 0 bs s] image_get_step(3) [of 0 bs s]
  by (simp add: read_load_command_def layout_load_command_def image_get_step)

lemma image_read_segment_command:
  "length bs = 56 \<Longrightarrow> image s (layout_segment_command (read_segment_command s bs)) = bs"
  using image_get_step(1) [of 0 bs s] image_get_step(3) [of 0 bs s]
  by (simp add: read_segment_command_def layout_segment_command_def image_get_step)

lemma image_read_segment_command_64:
  "length bs = 72 \<Longrightarrow> image s (layout_segment_command_64 (read_segment_command_64 s bs)) = bs"
  using image_get_step(1) [of 0 bs s] image_get_step(3) [of 0 bs s]
  by (simp add: read_segment_command_64_def layout_segment_command_64_def image_get_step)

lemma image_read_macho_section:
  "length bs = 68 \<Longrightarrow> image s (layout_section (read_macho_section s bs)) = bs"
  using image_get_step(1) [of 0 bs s] image_get_step(3) [of 0 bs s]
  by (simp add: read_macho_section_def layout_section_def image_get_step)

lemma image_read_macho_section_64:
  "length bs = 80 \<Longrightarrow> image s (layout_section_64 (read_macho_section_64 s bs)) = bs"
  using image_get_step(1) [of 0 bs s] image_get_step(3) [of 0 bs s]
  by (simp add: read_macho_section_64_def layout_section_64_def image_get_step)

lemma image_read_symtab_command:
  "length bs = 24 \<Longrightarrow> image s (layout_symtab_command (read_symtab_command s bs)) = bs"
  using image_get_step(1) [of 0 bs s] image_get_step(3) [of 0 bs s]
  by (simp add: read_symtab_command_def layout_symtab_command_def image_get_step)

lemma image_read_dysymtab_command:
  "length bs = 80 \<Longrightarrow> image s (layout_dysymtab_command (read_dysymtab_command s bs)) = bs"
  using image_get_step(1) [of 0 bs s] image_get_step(3) [of 0 bs s]
  by (simp add: read_dysymtab_command_def layout_dysymtab_command_def image_get_step)

lemma image_read_routines_command:
  "length bs = 40 \<Longrightarrow> image s (layout_routines_command (read_routines_command s bs)) = bs"
  using image_get_step(1) [of 0 bs s] image_get_step(3) [of 0 bs s]
  by (simp add: read_routines_command_def layout_routines_command_def image_get_step)

lemma image_read_routines_command_64:
  "length bs = 72 \<Longrightarrow> image s (layout_routines_command_64 (read_routines_command_64 s bs)) = bs"
  using image_get_step(1) [of 0 bs s] image_get_step(3) [of 0 bs s]
  by (simp add: read_routines_command_64_def layout_routines_command_64_def image_get_step)

lemma image_read_twolevel_hints_command:
  "length bs = 16 \<Longrightarrow> image s (layout_twolevel_hints_command (read_twolevel_hints_command s bs)) = bs"
  using image_get_step(1) [of 0 bs s] image_get_step(3) [of 0 bs s]
  by (simp add: read_twolevel_hints_command_def layout_twolevel_hints_command_def image_get_step)

lemma image_read_linkedit_data_command:
  "length bs = 16 \<Longrightarrow> image s (layout_linkedit_data_command (read_linkedit_data_command s bs)) = bs"
  using image_get_step(1) [of 0 bs s] image_get_step(3) [of 0 bs s]
  by (simp add: read_linkedit_data_command_def layout_linkedit_data_command_def image_get_step)

lemma image_read_version_min_command:
  "length bs = 16 \<Longrightarrow> image s (layout_version_min_command (read_version_min_command s bs)) = bs"
  using image_get_step(1) [of 0 bs s] image_get_step(3) [of 0 bs s]
  by (simp add: read_version_min_command_def layout_version_min_command_def image_get_step)

lemma image_read_encryption_info_command:
  "length bs = 20 \<Longrightarrow> image s (layout_encryption_info_command (read_encryption_info_command s bs)) = bs"
  using image_get_step(1) [of 0 bs s] image_get_step(3) [of 0 bs s]
  by (simp add: read_encryption_info_command_def layout_encryption_info_command_def image_get_step)

lemma image_read_encryption_info_command_64:
  "length bs = 24 \<Longrightarrow> image s (layout_encryption_info_command_64 (read_encryption_info_command_64 s bs)) = bs"
  using image_get_step(1) [of 0 bs s] image_get_step(3) [of 0 bs s]
  by (simp add: read_encryption_info_command_64_def layout_encryption_info_command_64_def image_get_step)

lemma image_read_linker_option_command:
  "length bs = 12 \<Longrightarrow> image s (layout_linker_option_command (read_linker_option_command s bs)) = bs"
  using image_get_step(1) [of 0 bs s] image_get_step(3) [of 0 bs s]
  by (simp add: read_linker_option_command_def layout_linker_option_command_def image_get_step)

lemma image_read_dyld_info_command:
  "length bs = 48 \<Longrightarrow> image s (layout_dyld_info_command (read_dyld_info_command s bs)) = bs"
  using image_get_step(1) [of 0 bs s] image_get_step(3) [of 0 bs s]
  by (simp add: read_dyld_info_command_def layout_dyld_info_command_def image_get_step)

lemma image_read_prebind_cksum_command:
  "length bs = 12 \<Longrightarrow> image s (layout_prebind_cksum_command (read_prebind_cksum_command s bs)) = bs"
  using image_get_step(1) [of 0 bs s] image_get_step(3) [of 0 bs s]
  by (simp add: read_prebind_cksum_command_def layout_prebind_cksum_command_def image_get_step)

lemma image_read_uuid_command:
  "length bs = 24 \<Longrightarrow> image s (layout_uuid_command (read_uuid_command s bs)) = bs"
  using image_get_step(1) [of 0 bs s] image_get_step(3) [of 0 bs s]
  by (simp add: read_uuid_command_def layout_uuid_command_def image_get_step)

lemma image_read_symseg_command:
  "length bs = 16 \<Longrightarrow> image s (layout_symseg_command (read_symseg_command s bs)) = bs"
  using image_get_step(1) [of 0 bs s] image_get_step(3) [of 0 bs s]
  by (simp add: read_symseg_command_def layout_symseg_command_def image_get_step)

lemma image_read_fvmlib_command:
  "length bs = 20 \<Longrightarrow> image s (layout_fvmlib_command (read_fvmlib_command s bs)) = bs"
  using image_get_step(1) [of 0 bs s] image_get_step(3) [of 0 bs s]
  by (simp add: read_fvmlib_command_def layout_fvmlib_command_def image_get_step)

lemma image_read_dylib_command:
  "length bs = 24 \<Longrightarrow> image s (layout_dylib_command (read_dylib_command s bs)) = bs"
  using image_get_step(1) [of 0 bs s] image_get_step(3) [of 0 bs s]
  by (simp add: read_dylib_command_def layout_dylib_command_def image_get_step)

lemma image_read_sub_framework_command:
  "length bs = 12 \<Longrightarrow> image s (layout_sub_framework_command (read_sub_framework_command s bs)) = bs"
  using image_get_step(1) [of 0 bs s] image_get_step(3) [of 0 bs s]
  by (simp add: read_sub_framework_command_def layout_sub_framework_command_def image_get_step)

lemma image_read_sub_umbrella_command:
  "length bs = 12 \<Longrightarrow> image s (layout_sub_umbrella_command (read_sub_umbrella_command s bs)) = bs"
  using image_get_step(1) [of 0 bs s] image_get_step(3) [of 0 bs s]
  by (simp add: read_sub_umbrella_command_def layout_sub_umbrella_command_def image_get_step)

lemma image_read_sub_library_command:
  "length bs = 12 \<Longrightarrow> image s (layout_sub_library_command (read_sub_library_command s bs)) = bs"
  using image_get_step(1) [of 0 bs s] image_get_step(3) [of 0 bs s]
  by (simp add: read_sub_library_command_def layout_sub_library_command_def image_get_step)

lemma image_read_sub_client_command:
  "length bs = 12 \<Longrightarrow> image s (layout_sub_client_command (read_sub_client_command s bs)) = bs"
  using image_get_step(1) [of 0 bs s] image_get_step(3) [of 0 bs s]
  by (simp add: read_sub_client_command_def layout_sub_client_command_def image_get_step)

lemma image_read_prebound_dylib_command:
  "length bs = 20 \<Longrightarrow> image s (layout_prebound_dylib_command (read_prebound_dylib_command s bs)) = bs"
  using image_get_step(1) [of 0 bs s] image_get_step(3) [of 0 bs s]
  by (simp add: read_prebound_dylib_command_def layout_prebound_dylib_command_def image_get_step)

lemma image_read_dylinker_command:
  "length bs = 12 \<Longrightarrow> image s (layout_dylinker_command (read_dylinker_command s bs)) = bs"
  using image_get_step(1) [of 0 bs s] image_get_step(3) [of 0 bs s]
  by (simp add: read_dylinker_command_def layout_dylinker_command_def image_get_step)

lemma image_read_thread_command:
  "length bs = 8 \<Longrightarrow> image s (layout_thread_command (read_thread_command s bs)) = bs"
  using image_get_step(1) [of 0 bs s] image_get_step(3) [of 0 bs s]
  by (simp add: read_thread_command_def layout_thread_command_def image_get_step)

lemma image_read_entry_point_command:
  "length bs = 24 \<Longrightarrow> image s (layout_entry_point_command (read_entry_point_command s bs)) = bs"
  using image_get_step(1) [of 0 bs s] image_get_step(3) [of 0 bs s]
  by (simp add: read_entry_point_command_def layout_entry_point_command_def image_get_step)

lemma image_read_source_version_command:
  "length bs = 16 \<Longrightarrow> image s (layout_source_version_command (read_source_version_command s bs)) = bs"
  using image_get_step(1) [of 0 bs s] image_get_step(3) [of 0 bs s]
  by (simp add: read_source_version_command_def layout_source_version_command_def image_get_step)

lemma image_read_ident_command:
  "length bs = 8 \<Longrightarrow> image s (layout_ident_command (read_ident_command s bs)) = bs"
  using image_get_step(1) [of 0 bs s] image_get_step(3) [of 0 bs s]
  by (simp add: read_ident_command_def layout_ident_command_def image_get_step)

lemma image_read_rpath_command:
  "length bs = 12 \<Longrightarrow> image s (layout_rpath_command (read_rpath_command s bs)) = bs"
  using image_get_step(1) [of 0 bs s] image_get_step(3) [of 0 bs s]
  by (simp add: read_rpath_command_def layout_rpath_command_def image_get_step)

end
