(* ===== verification/Elements.thy ===== *)
theory Elements
  imports Prelude
begin

text \<open>
  \<open>check_overlaping_element\<close> of \<open>libstuff/ofile.c\<close>: the parts of an object file that its load
  commands name are kept in a list, and a new part is compared with those in it. The header node
  of the C list is left out. A new part is put in front of the first element whose successor it
  ends before, so the list is not in the order of the offsets, and the elements behind that one are
  never looked at. The lemmas give what the test is good for: it is exact for two elements that do
  not wrap, it never rejects an element that overlaps none, and it finds every overlap when the
  parts come in the order of the file; \<open>overlap_is_missed\<close> is a list for which it does not.
\<close>

section \<open>The code\<close>

record element =
  el_offset :: u32
  el_size :: u32
  el_name :: string

definition el_last :: "element \<Rightarrow> u32" where
  "el_last e = el_offset e + el_size e"

definition overlaps :: "element \<Rightarrow> element \<Rightarrow> bool" where
  "overlaps n e \<longleftrightarrow>
     el_offset n \<ge> el_offset e \<and> el_offset n < el_last e \<or>
     el_last n > el_offset e \<and> el_last n < el_last e \<or>
     el_offset n \<le> el_offset e \<and> el_last n \<ge> el_last e"

text \<open>
  The loop over the list; \<open>Inl e\<close> is \<open>CHECK_BAD\<close> with the element \<open>e\<close> that the message names,
  \<open>Inr\<close> is \<open>CHECK_GOOD\<close> with the new list.
\<close>

fun place_element :: "element \<Rightarrow> element list \<Rightarrow> element + element list" where
  "place_element n [] = Inr [n]"
| "place_element n (e # es) =
     (if overlaps n e then Inl e
      else if es \<noteq> [] \<and> el_last n \<le> el_offset (hd es) then Inr (n # e # es)
      else map_sum id (Cons e) (place_element n es))"

definition check_overlaping_element ::
    "element list \<Rightarrow> u32 \<Rightarrow> u32 \<Rightarrow> string \<Rightarrow> element + element list" where
  "check_overlaping_element es off sz name =
     (if sz = 0 then Inr es
      else place_element \<lparr>el_offset = off, el_size = sz, el_name = name\<rparr> es)"

text \<open>A sequence of calls, as the checks of the load commands make them.\<close>

primrec check_elements :: "element list \<Rightarrow> element list \<Rightarrow> element + element list" where
  "check_elements es [] = Inr es"
| "check_elements es (n # ns) =
     (case check_overlaping_element es (el_offset n) (el_size n) (el_name n) of
        Inl e \<Rightarrow> Inl e | Inr es' \<Rightarrow> check_elements es' ns)"

section \<open>What the test of two elements means\<close>

definition no_wrap :: "element \<Rightarrow> bool" where
  "no_wrap e \<longleftrightarrow> unat (el_offset e) + unat (el_size e) < 2 ^ 32"

definition bytes_of :: "element \<Rightarrow> nat set" where
  "bytes_of e = {unat (el_offset e) ..< unat (el_offset e) + unat (el_size e)}"

definition disjoint :: "element \<Rightarrow> element \<Rightarrow> bool" where
  "disjoint n e \<longleftrightarrow> bytes_of n \<inter> bytes_of e = {}"

lemma disjoint_sym: "disjoint n e \<Longrightarrow> disjoint e n"
  by (auto simp: disjoint_def)

lemma unat_el_last: "no_wrap e \<Longrightarrow> unat (el_last e) = unat (el_offset e) + unat (el_size e)"
  by (simp add: el_last_def no_wrap_def unat_word_ariths)

lemma overlaps_iff:
  assumes "no_wrap n" and "no_wrap e" and "el_size n \<noteq> 0" and "el_size e \<noteq> 0"
  shows "overlaps n e \<longleftrightarrow> \<not> disjoint n e"
proof -
  have "unat (el_size n) > 0" "unat (el_size e) > 0"
    using assms(3,4) by (simp_all add: unat_gt_0)
  then have "disjoint n e \<longleftrightarrow>
      unat (el_offset n) + unat (el_size n) \<le> unat (el_offset e) \<or>
      unat (el_offset e) + unat (el_size e) \<le> unat (el_offset n)"
    unfolding disjoint_def bytes_of_def by (auto simp: Int_atLeastLessThan)
  then show ?thesis
    using \<open>unat (el_size n) > 0\<close> \<open>unat (el_size e) > 0\<close>
    unfolding overlaps_def word_less_nat_alt word_le_nat_alt unat_el_last [OF assms(1)]
      unat_el_last [OF assms(2)] by linarith
qed

section \<open>The list\<close>

lemma map_sum_eq:
  "map_sum id f r = Inr y \<longleftrightarrow> (\<exists>x. r = Inr x \<and> y = f x)"
  "map_sum id f r = Inl e \<longleftrightarrow> r = Inl e"
  by (cases r; auto)+

lemma place_element_set:
  "place_element n es = Inr es' \<Longrightarrow> set es' = insert n (set es)"
proof (induction es arbitrary: es')
  case (Cons e es)
  then show ?case by (auto simp: map_sum_eq split: if_split_asm)
qed auto

lemma place_element_bad:
  "place_element n es = Inl e \<Longrightarrow> e \<in> set es \<and> overlaps n e"
proof (induction es)
  case (Cons e' es)
  then show ?case by (auto simp: map_sum_eq split: if_split_asm)
qed simp

lemma place_element_accepts:
  "(\<And>e. e \<in> set es \<Longrightarrow> \<not> overlaps n e) \<Longrightarrow> \<exists>es'. place_element n es = Inr es'"
  by (cases "place_element n es") (auto dest: place_element_bad)

text \<open>The elements that are compared: those up to the first whose successor starts behind the new one.\<close>

lemma place_element_compared:
  assumes "place_element n es = Inr es'"
  shows "(\<forall>e \<in> set es. \<not> overlaps n e) \<or>
    (\<exists>us e v vs. es = us @ e # v # vs \<and> (\<forall>x \<in> set (us @ [e]). \<not> overlaps n x)
       \<and> el_last n \<le> el_offset v \<and> es' = us @ n # e # v # vs)"
  using assms
proof (induction es arbitrary: es')
  case Nil
  then show ?case by simp
next
  case (Cons e es)
  show ?case
  proof (cases "es \<noteq> [] \<and> el_last n \<le> el_offset (hd es)")
    case True
    then obtain v vs where "es = v # vs" by (cases es) auto
    with True Cons.prems show ?thesis
      by (intro disjI2 exI [of _ "[]"] exI [of _ e] exI [of _ v] exI [of _ vs])
        (auto split: if_split_asm)
  next
    case False
    with Cons.prems obtain es1 where es1: "place_element n es = Inr es1" "es' = e # es1"
      and e: "\<not> overlaps n e"
      by (auto simp: map_sum_eq split: if_split_asm)
    from Cons.IH [OF es1(1)] show ?thesis
    proof (elim disjE exE conjE)
      assume "\<forall>x \<in> set es. \<not> overlaps n x"
      with e show ?thesis by simp
    next
      fix us x v vs
      assume "es = us @ x # v # vs" "\<forall>y \<in> set (us @ [x]). \<not> overlaps n y"
        "el_last n \<le> el_offset v" "es1 = us @ n # x # v # vs"
      with e es1 show ?thesis
        by (intro disjI2 exI [of _ "e # us"] exI [of _ x] exI [of _ v] exI [of _ vs]) auto
    qed
  qed
qed


text \<open>An element that starts behind the start of every other is compared with all of them.\<close>

lemma place_element_behind:
  assumes "no_wrap n" and "el_size n \<noteq> 0" and "\<forall>e \<in> set es. el_offset e \<le> el_offset n"
  shows "place_element n es = Inr (es @ [n]) \<and> (\<forall>e \<in> set es. \<not> overlaps n e)
    \<or> (\<exists>e \<in> set es. place_element n es = Inl e \<and> overlaps n e)"
  using assms(3)
proof (induction es)
  case (Cons e es)
  have "unat (el_size n) > 0" using assms(2) by (simp add: unat_gt_0)
  then have "el_offset n < el_last n"
    using unat_el_last [OF assms(1)] by (simp add: word_less_nat_alt)
  with Cons.prems have "\<not> (es \<noteq> [] \<and> el_last n \<le> el_offset (hd es))"
    by (cases es) auto
  moreover from Cons have "place_element n es = Inr (es @ [n]) \<and> (\<forall>e \<in> set es. \<not> overlaps n e)
    \<or> (\<exists>e \<in> set es. place_element n es = Inl e \<and> overlaps n e)" by simp
  ultimately show ?case by auto
qed simp

lemma check_elements_in_order:
  assumes "\<forall>n \<in> set ns. no_wrap n \<and> el_size n \<noteq> 0" and "sorted (map el_offset ns)"
    and "\<forall>e \<in> set es. no_wrap e \<and> el_size e \<noteq> 0 \<and> (\<forall>n \<in> set ns. el_offset e \<le> el_offset n)"
    and "sorted_wrt disjoint es"
  shows "if sorted_wrt disjoint (es @ ns) then check_elements es ns = Inr (es @ ns)
    else \<exists>e. check_elements es ns = Inl e"
  using assms
proof (induction ns arbitrary: es)
  case (Cons n ns)
  have n: "no_wrap n" "el_size n \<noteq> 0" and le: "\<forall>e \<in> set es. el_offset e \<le> el_offset n"
    using Cons.prems by simp_all
  have ov: "\<forall>e \<in> set es. overlaps n e \<longleftrightarrow> \<not> disjoint e n"
    using Cons.prems(3) n overlaps_iff [of n] disjoint_sym by blast
  have rec: "\<lparr>el_offset = el_offset n, el_size = el_size n, el_name = el_name n\<rparr> = n" by simp
  from place_element_behind [OF n le] show ?case
  proof (elim disjE conjE bexE)
    assume "place_element n es = Inr (es @ [n])" and no: "\<forall>e \<in> set es. \<not> overlaps n e"
    then have step: "check_elements es (n # ns) = check_elements (es @ [n]) ns"
      using n by (simp add: check_overlaping_element_def rec del: element.ext_inject)
    have "sorted_wrt disjoint (es @ [n])"
      using Cons.prems(4) no ov by (simp add: sorted_wrt_append)
    moreover have "\<forall>e \<in> set (es @ [n]). no_wrap e \<and> el_size e \<noteq> 0
        \<and> (\<forall>m \<in> set ns. el_offset e \<le> el_offset m)"
      using Cons.prems by auto
    ultimately show ?thesis
      using Cons.IH [of "es @ [n]"] Cons.prems(1,2)
      by (simp add: step del: check_elements.simps)
  next
    fix e assume e: "e \<in> set es" "place_element n es = Inl e" "overlaps n e"
    then have "check_elements es (n # ns) = Inl e"
      using n by (simp add: check_overlaping_element_def rec del: element.ext_inject)
    moreover have "\<not> sorted_wrt disjoint (es @ n # ns)"
      using e ov by (auto simp: sorted_wrt_append)
    ultimately show ?thesis by simp
  qed
qed simp

section \<open>Properties\<close>

text \<open>
  Property C18. Parts that are named in the order of the file, empty ones aside: they are accepted exactly when
  no two of them share a byte, and the list is then the parts in their order.
\<close>

theorem elements_in_file_order:
  assumes "\<forall>n \<in> set ns. no_wrap n \<and> el_size n \<noteq> 0" and "sorted (map el_offset ns)"
  shows "if sorted_wrt disjoint ns then check_elements [] ns = Inr ns
    else \<exists>e. check_elements [] ns = Inl e"
  using check_elements_in_order [of ns "[]"] assms by simp

theorem elements_in_file_order_witness:
  "\<exists>e. check_elements [] [\<lparr>el_offset = 0, el_size = 28, el_name = ''a''\<rparr>,
      \<lparr>el_offset = 40, el_size = 8, el_name = ''b''\<rparr>,
      \<lparr>el_offset = 44, el_size = 8, el_name = ''c''\<rparr>] = Inl e"
proof -
  let ?ns = "[\<lparr>el_offset = 0, el_size = 28, el_name = ''a''\<rparr>,
      \<lparr>el_offset = 40, el_size = 8, el_name = ''b''\<rparr>,
      \<lparr>el_offset = 44, el_size = 8, el_name = ''c''\<rparr>]"
  have "44 \<in> {40::nat..<48} \<inter> {44..<52}" by simp
  then have "\<not> sorted_wrt disjoint ?ns" by (auto simp: disjoint_def bytes_of_def)
  moreover have "\<forall>n \<in> set ?ns. no_wrap n \<and> el_size n \<noteq> 0" by (simp add: no_wrap_def)
  ultimately show ?thesis using elements_in_file_order [of ?ns]
    by (simp del: check_elements.simps)
qed

text \<open>
  The test has no false alarm: it rejects an element only when it shares a byte with the element
  that the message names. It accepts every element that is disjoint from those in the list, which
  then are in the new list with it.
\<close>

theorem element_rejected_only_for_overlap:
  assumes "sz \<noteq> 0" and "no_wrap \<lparr>el_offset = off, el_size = sz, el_name = name\<rparr>"
    and "\<forall>e \<in> set es. no_wrap e \<and> el_size e \<noteq> 0"
  shows "(case check_overlaping_element es off sz name of
      Inl e \<Rightarrow> e \<in> set es \<and> \<not> disjoint \<lparr>el_offset = off, el_size = sz, el_name = name\<rparr> e
    | Inr es' \<Rightarrow> set es' = insert \<lparr>el_offset = off, el_size = sz, el_name = name\<rparr> (set es))"
proof -
  let ?n = "\<lparr>el_offset = off, el_size = sz, el_name = name\<rparr>"
  have "overlaps ?n e \<Longrightarrow> e \<in> set es \<Longrightarrow> \<not> disjoint ?n e" for e
    using assms overlaps_iff [of ?n e] by simp
  then show ?thesis
    using assms(1) place_element_bad [of ?n es] place_element_set [of ?n es]
    by (auto simp: check_overlaping_element_def split: sum.split)
qed

theorem element_rejected_only_for_overlap_witness:
  "case check_overlaping_element [\<lparr>el_offset = 0, el_size = 28, el_name = ''a''\<rparr>] 20 4 ''b'' of
      Inl e \<Rightarrow> e \<in> set [\<lparr>el_offset = 0, el_size = 28, el_name = ''a''\<rparr>]
        \<and> \<not> disjoint \<lparr>el_offset = 20, el_size = 4, el_name = ''b''\<rparr> e
    | Inr es' \<Rightarrow> set es' = insert \<lparr>el_offset = 20, el_size = 4, el_name = ''b''\<rparr>
        (set [\<lparr>el_offset = 0, el_size = 28, el_name = ''a''\<rparr>])"
  by (rule element_rejected_only_for_overlap) (simp_all add: no_wrap_def)

text \<open>
  The test misses overlaps: the headers, three parts that are disjoint, and a part that lies in
  the headers are accepted one after the other. The last is compared with the first element of the
  list alone.
\<close>

theorem overlap_is_missed:
  "(let headers = \<lparr>el_offset = 0, el_size = 100, el_name = ''Mach-O headers''\<rparr>;
        bad = \<lparr>el_offset = 0, el_size = 50, el_name = ''dyld rebase info''\<rparr>;
        es = check_elements [] [headers, \<lparr>el_offset = 1000, el_size = 10, el_name = ''a''\<rparr>,
          \<lparr>el_offset = 500, el_size = 10, el_name = ''b''\<rparr>,
          \<lparr>el_offset = 600, el_size = 10, el_name = ''c''\<rparr>, bad]
    in (\<exists>es'. es = Inr es' \<and> headers \<in> set es' \<and> bad \<in> set es') \<and> \<not> disjoint bad headers)"
proof -
  have "0 \<in> {0::nat..<50} \<inter> {0..<100}" by simp
  then show ?thesis
    by (simp add: check_overlaping_element_def overlaps_def el_last_def disjoint_def bytes_of_def)
qed
end
