(* ===== verification/Ofile_Check.thy ===== *)
theory Ofile_Check
  imports Macho_Swap Macho_Read Elements
begin

text \<open>
  \<open>check_Mach_O\<close> of \<open>libstuff/ofile.c\<close>: the check of the header and the load commands of an object
  file, which every tool runs before it looks at the object. The memory from the load commands to
  the end of the object is a list of bytes and a pointer into it is an offset; a read or a write
  outside it is the failure \<open>Out_of_bounds\<close>, and a null pointer that is followed is
  \<open>Null_dereference\<close>. The byte sexes are those of the host and of the object; a command of an
  object of the other sex is swapped in place when it is looked at. The state of a run is the
  memory, the list of the parts of the file and the pointers to the commands of which there may be
  one. What is returned with \<open>CHECK_BAD\<close> is the text that tells the error messages apart. The host
  is an LP64 one, and the code is that of a program other than \<open>otool\<close> and the loader.
\<close>

section \<open>The state\<close>

datatype failure = Bad string | Null_dereference | Out_of_bounds

text \<open>The pointer variables that are null until their command is seen.\<close>

datatype pointer =
    P_st | P_dyst | P_rc | P_rc64 | P_hints | P_code_sig | P_func_starts | P_data_in_code
  | P_code_sign_drs | P_link_opt_hint | P_split_info | P_cs | P_uuid | P_vers

record cstate =
  cs_mem :: "u8 list"
  cs_elements :: "element list"
  cs_ptr :: "pointer \<Rightarrow> nat option"

text \<open>
  What does not change in the run: the arguments and the variables that are set from the header.
  \<open>e_thread_swap\<close> is the routine that swaps a thread state of a flavor of a cputype in place.
\<close>

record check_env =
  e_size :: u32
  e_host :: byte_sex
  e_swapped :: bool
  e_mh :: "mach_header option"
  e_mh64 :: "mach_header_64 option"
  e_sizeofhdrs :: u32
  e_ncmds :: u32
  e_sizeofcmds :: u32
  e_cputype :: cpu_type
  e_multiple :: u32
  e_sizeof_nlist :: u32
  e_sizeof_dylib_module :: u32
  e_thread_swap :: "cpu_type \<Rightarrow> u32 \<Rightarrow> u8 list \<Rightarrow> u8 list"

type_synonym check_run = "cstate \<Rightarrow> failure + cstate"

section \<open>Steps of a check\<close>

definition bad_if :: "bool \<Rightarrow> string \<Rightarrow> check_run" where
  "bad_if b text s = (if b then Inl (Bad text) else Inr s)"

primrec in_turn :: "check_run list \<Rightarrow> check_run" where
  "in_turn [] s = Inr s"
| "in_turn (c # cs) s = (case c s of Inl f \<Rightarrow> Inl f | Inr s' \<Rightarrow> in_turn cs s')"

definition place :: "u32 \<Rightarrow> u32 \<Rightarrow> string \<Rightarrow> check_run" where
  "place off sz name s =
     (case check_overlaping_element (cs_elements s) off sz name of
        Inl e \<Rightarrow> Inl (Bad (name @ '' overlaps '' @ el_name e))
      | Inr es \<Rightarrow> Inr (s\<lparr>cs_elements := es\<rparr>))"

text \<open>A command that may be there once: its pointer is set.\<close>

definition once :: "pointer \<Rightarrow> nat \<Rightarrow> string \<Rightarrow> check_run" where
  "once p lc name s =
     (if cs_ptr s p \<noteq> None then Inl (Bad (''more than one '' @ name))
      else Inr (s\<lparr>cs_ptr := (cs_ptr s)(p := Some lc)\<rparr>))"

definition too_small :: "u32 \<Rightarrow> load_command \<Rightarrow> string \<Rightarrow> check_run" where
  "too_small n l name = bad_if (lc_cmdsize l < n) (name @ '' cmdsize too small'')"

definition write_at :: "'a list \<Rightarrow> nat \<Rightarrow> 'a list \<Rightarrow> 'a list" where
  "write_at m p xs = take p m @ xs @ drop (p + length xs) m"

text \<open>A structure of \<open>n\<close> bytes at \<open>p\<close>, swapped in place when the object is of the other sex.\<close>

definition with_struct ::
    "check_env \<Rightarrow> nat \<Rightarrow> nat \<Rightarrow> (byte_sex \<Rightarrow> u8 list \<Rightarrow> 'a) \<Rightarrow> ('a \<Rightarrow> field list) \<Rightarrow> ('a \<Rightarrow> 'a) \<Rightarrow>
     ('a \<Rightarrow> check_run) \<Rightarrow> check_run" where
  "with_struct e p n rd layout sw k s =
     (if p + n \<le> length (cs_mem s)
      then let x = rd (e_host e) (bytes_at (cs_mem s) n p)
        in if e_swapped e
           then k (sw x) (s\<lparr>cs_mem := write_at (cs_mem s) p (image (e_host e) (layout (sw x)))\<rparr>)
           else k x s
      else Inl Out_of_bounds)"

text \<open>The same for an array of \<open>cnt\<close> structures.\<close>

definition with_array ::
    "check_env \<Rightarrow> nat \<Rightarrow> nat \<Rightarrow> nat \<Rightarrow> (byte_sex \<Rightarrow> u8 list \<Rightarrow> 'a) \<Rightarrow> ('a \<Rightarrow> field list) \<Rightarrow>
     ('a list \<Rightarrow> nat \<Rightarrow> 'a list) \<Rightarrow> ('a list \<Rightarrow> check_run) \<Rightarrow> check_run" where
  "with_array e p cnt n rd layout sw k s =
     (if p + cnt * n \<le> length (cs_mem s)
      then let xs = map (\<lambda>j. rd (e_host e) (bytes_at (cs_mem s) n (p + j * n))) [0..<cnt]
        in if e_swapped e
           then k (sw xs cnt) (s\<lparr>cs_mem :=
             write_at (cs_mem s) p (concat (map (\<lambda>x. image (e_host e) (layout x)) (sw xs cnt)))\<rparr>)
           else k xs s
      else Inl Out_of_bounds)"

text \<open>
  The sums and products of the code: \<open>big_size\<close> and \<open>big_end\<close> have 64 bits, the fields of the
  commands 32 or 64.
\<close>

definition big_sum :: "u32 \<Rightarrow> u32 \<Rightarrow> u64" where
  "big_sum a b = ucast a + ucast b"

definition big_table :: "u32 \<Rightarrow> u64 \<Rightarrow> u32 \<Rightarrow> u64" where
  "big_table n entry off = ucast n * entry + ucast off"

definition past :: "check_env \<Rightarrow> u64 \<Rightarrow> bool" where
  "past e big_size \<longleftrightarrow> big_size > ucast (e_size e)"

text \<open>
  A table of \<open>n\<close> entries at an offset: inside the file, and apart from the other parts. The size
  that is kept has 32 bits.
\<close>

definition check_table :: "check_env \<Rightarrow> u32 \<Rightarrow> u32 \<Rightarrow> u32 \<Rightarrow> string \<Rightarrow> check_run list" where
  "check_table e off n entry name =
     [bad_if (off > e_size e) (name @ '' offset extends past the end of the file''),
      bad_if (past e (big_table n (ucast entry) off)) (name @ '' extends past the end of the file''),
      place off (n * entry) name]"

section \<open>Segments\<close>

definition MH_CORE :: u32 where "MH_CORE = 4"
definition MH_DYLIB_STUB :: u32 where "MH_DYLIB_STUB = 9"
definition MH_DSYM :: u32 where "MH_DSYM = 10"
definition S_ZEROFILL :: u32 where "S_ZEROFILL = 1"
definition S_THREAD_LOCAL_ZEROFILL :: u32 where "S_THREAD_LOCAL_ZEROFILL = 0x12"

definition has_contents :: "u32 \<Rightarrow> u32 \<Rightarrow> bool" where
  "has_contents filetype flags \<longleftrightarrow> filetype \<noteq> MH_DYLIB_STUB \<and> filetype \<noteq> MH_DSYM
     \<and> flags \<noteq> S_ZEROFILL \<and> flags \<noteq> S_THREAD_LOCAL_ZEROFILL"

definition check_relocs :: "check_env \<Rightarrow> u32 \<Rightarrow> u32 \<Rightarrow> check_run list" where
  "check_relocs e reloff nreloc = check_table e reloff nreloc 8 ''section relocation entries''"

definition check_section :: "check_env \<Rightarrow> segment_command \<Rightarrow> macho_section \<Rightarrow> check_run" where
  "check_section e sg x s =
     (case e_mh e of None \<Rightarrow> Inl Null_dereference
      | Some mh \<Rightarrow> let contents = has_contents (mh_filetype mh) (s_flags x) in in_turn
     ([bad_if (contents \<and> s_offset x > e_size e) ''section offset'',
       bad_if (contents \<and> sg_fileoff sg = 0 \<and> s_offset x < e_sizeofhdrs e \<and> s_size x \<noteq> 0)
         ''section offset not past the headers'',
       bad_if (contents \<and> past e (big_sum (s_offset x) (s_size x))) ''section offset plus size'',
       bad_if (contents \<and> s_size x > sg_filesize sg) ''section size greater than the segment'',
       bad_if (mh_filetype mh \<noteq> MH_DYLIB_STUB \<and> mh_filetype mh \<noteq> MH_DSYM \<and> s_size x \<noteq> 0
           \<and> s_addr x < sg_vmaddr sg) ''section addr less than vmaddr'',
       bad_if (sg_vmsize sg \<noteq> 0 \<and> s_size x \<noteq> 0
           \<and> big_sum (s_addr x) (s_size x) > big_sum (sg_vmaddr sg) (sg_vmsize sg))
         ''section addr plus size'',
       (\<lambda>t. if contents then place (s_offset x) (s_size x) ''section contents'' t else Inr t)]
      @ check_relocs e (s_reloff x) (s_nreloc x)) s)"

definition check_segment :: "check_env \<Rightarrow> nat \<Rightarrow> load_command \<Rightarrow> check_run" where
  "check_segment e lc l s = in_turn
     [too_small 56 l ''LC_SEGMENT'',
      with_struct e lc 56 read_segment_command layout_segment_command swap_segment_command
        (\<lambda>sg. in_turn
          [bad_if (ucast (sg_cmdsize sg) \<noteq> ucast (sg_nsects sg) * (68::u64) + 56)
             ''LC_SEGMENT inconsistent cmdsize'',
           bad_if (sg_fileoff sg > e_size e) ''LC_SEGMENT fileoff'',
           bad_if (past e (big_sum (sg_fileoff sg) (sg_filesize sg)))
             ''LC_SEGMENT fileoff plus filesize'',
           bad_if (sg_vmsize sg \<noteq> 0 \<and> sg_filesize sg > sg_vmsize sg)
             ''LC_SEGMENT filesize greater than vmsize'',
           with_array e (lc + 56) (unat (sg_nsects sg)) 68 read_macho_section layout_section
             swap_section (\<lambda>xs. in_turn (map (check_section e sg) xs))])] s"

definition check_section_64 ::
    "check_env \<Rightarrow> segment_command_64 \<Rightarrow> macho_section_64 \<Rightarrow> check_run" where
  "check_section_64 e sg x s =
     (case e_mh64 e of None \<Rightarrow> Inl Null_dereference
      | Some mh \<Rightarrow> let contents = has_contents (mh64_filetype mh) (s64_flags x) in in_turn
     ([bad_if (contents \<and> s64_offset x > e_size e) ''section offset'',
       bad_if (contents \<and> sg64_fileoff sg = 0 \<and> s64_offset x < e_sizeofhdrs e \<and> s64_size x \<noteq> 0)
         ''section offset not past the headers'',
       bad_if (contents \<and> past e (ucast (s64_offset x) + s64_size x)) ''section offset plus size'',
       (\<lambda>t. if contents
         then place (s64_offset x) (ucast (s64_size x)) ''section contents'' t else Inr t)]
      @ check_relocs e (s64_reloff x) (s64_nreloc x)) s)"

definition check_segment_64 :: "check_env \<Rightarrow> nat \<Rightarrow> load_command \<Rightarrow> check_run" where
  "check_segment_64 e lc l s = in_turn
     [too_small 72 l ''LC_SEGMENT_64'',
      with_struct e lc 72 read_segment_command_64 layout_segment_command_64
        swap_segment_command_64
        (\<lambda>sg. in_turn
          [bad_if (ucast (sg64_cmdsize sg) \<noteq> ucast (sg64_nsects sg) * (80::u64) + 72)
             ''LC_SEGMENT_64 inconsistent cmdsize'',
           bad_if (past e (sg64_fileoff sg)) ''LC_SEGMENT_64 fileoff'',
           bad_if (past e (sg64_fileoff sg + sg64_filesize sg))
             ''LC_SEGMENT_64 fileoff plus filesize'',
           with_array e (lc + 72) (unat (sg64_nsects sg)) 80 read_macho_section_64
             layout_section_64 swap_section_64
             (\<lambda>xs. in_turn (map (check_section_64 e sg) xs))])] s"

section \<open>Symbol tables\<close>

definition check_symtab :: "check_env \<Rightarrow> nat \<Rightarrow> load_command \<Rightarrow> check_run" where
  "check_symtab e lc l s = in_turn
     [too_small 24 l ''LC_SYMTAB'', once P_st lc ''LC_SYMTAB'',
      with_struct e lc 24 read_symtab_command layout_symtab_command swap_symtab_command
        (\<lambda>st. in_turn
          ([bad_if (st_cmdsize st \<noteq> 24) ''LC_SYMTAB incorrect cmdsize'']
           @ check_table e (st_symoff st) (st_nsyms st) (e_sizeof_nlist e) ''symbol table''
           @ check_table e (st_stroff st) (st_strsize st) 1 ''string table''))] s"

definition check_dysymtab :: "check_env \<Rightarrow> nat \<Rightarrow> load_command \<Rightarrow> check_run" where
  "check_dysymtab e lc l s = in_turn
     [too_small 80 l ''LC_DYSYMTAB'', once P_dyst lc ''LC_DYSYMTAB'',
      with_struct e lc 80 read_dysymtab_command layout_dysymtab_command swap_dysymtab_command
        (\<lambda>dyst. in_turn
          ([bad_if (dyst_cmdsize dyst \<noteq> 80) ''LC_DYSYMTAB incorrect cmdsize'']
           @ check_table e (dyst_tocoff dyst) (dyst_ntoc dyst) 8 ''table of contents''
           @ check_table e (dyst_modtaboff dyst) (dyst_nmodtab dyst) (e_sizeof_dylib_module e)
               ''module table''
           @ check_table e (dyst_extrefsymoff dyst) (dyst_nextrefsyms dyst) 4 ''reference table''
           @ check_table e (dyst_indirectsymoff dyst) (dyst_nindirectsyms dyst) 4
               ''indirect table''
           @ check_table e (dyst_extreloff dyst) (dyst_nextrel dyst) 8
               ''external relocation table''
           @ check_table e (dyst_locreloff dyst) (dyst_nlocrel dyst) 8
               ''local relocation table''))] s"

definition check_routines :: "check_env \<Rightarrow> nat \<Rightarrow> load_command \<Rightarrow> check_run" where
  "check_routines e lc l s = in_turn
     [too_small 40 l ''LC_ROUTINES'', once P_rc lc ''LC_ROUTINES'',
      with_struct e lc 40 read_routines_command layout_routines_command swap_routines_command
        (\<lambda>rc. bad_if (rc_cmdsize rc \<noteq> 40) ''LC_ROUTINES incorrect cmdsize'')] s"

definition check_routines_64 :: "check_env \<Rightarrow> nat \<Rightarrow> load_command \<Rightarrow> check_run" where
  "check_routines_64 e lc l s = in_turn
     [too_small 72 l ''LC_ROUTINES_64'', once P_rc64 lc ''LC_ROUTINES_64'',
      with_struct e lc 72 read_routines_command_64 layout_routines_command_64
        swap_routines_command_64
        (\<lambda>rc. bad_if (rc64_cmdsize rc \<noteq> 72) ''LC_ROUTINES_64 incorrect cmdsize'')] s"

definition check_twolevel_hints :: "check_env \<Rightarrow> nat \<Rightarrow> load_command \<Rightarrow> check_run" where
  "check_twolevel_hints e lc l s = in_turn
     [too_small 16 l ''LC_TWOLEVEL_HINTS'', once P_hints lc ''LC_TWOLEVEL_HINTS'',
      with_struct e lc 16 read_twolevel_hints_command layout_twolevel_hints_command
        swap_twolevel_hints_command
        (\<lambda>hints. in_turn
          ([bad_if (hints_cmdsize hints \<noteq> 16) ''LC_TWOLEVEL_HINTS incorrect cmdsize'']
           @ check_table e (hints_offset hints) (hints_nhints hints) 4 ''two level hints''))] s"

text \<open>The commands that have a part of the link edit segment.\<close>

definition check_linkedit_data ::
    "check_env \<Rightarrow> pointer \<Rightarrow> string \<Rightarrow> string \<Rightarrow> nat \<Rightarrow> load_command \<Rightarrow> check_run" where
  "check_linkedit_data e p cmd_name element_name lc l s = in_turn
     [once p lc cmd_name, too_small 16 l cmd_name,
      with_struct e lc 16 read_linkedit_data_command layout_linkedit_data_command
        swap_linkedit_data_command
        (\<lambda>ld. in_turn
          ([bad_if (ld_cmdsize ld \<noteq> 16) (cmd_name @ '' incorrect cmdsize'')]
           @ check_table e (ld_dataoff ld) (ld_datasize ld) 1 element_name))] s"

definition check_version_min ::
    "check_env \<Rightarrow> string \<Rightarrow> nat \<Rightarrow> load_command \<Rightarrow> check_run" where
  "check_version_min e name lc l s = in_turn
     [too_small 16 l name, once P_vers lc ''LC_VERSION_MIN_'',
      with_struct e lc 16 read_version_min_command layout_version_min_command
        swap_version_min_command
        (\<lambda>vers. bad_if (ver_cmdsize vers < 16) (name @ '' too small cmdsize field''))] s"

definition check_encryption_info :: "check_env \<Rightarrow> nat \<Rightarrow> load_command \<Rightarrow> check_run" where
  "check_encryption_info e lc l s = in_turn
     [too_small 20 l ''LC_ENCRYPTION_INFO'',
      with_struct e lc 20 read_encryption_info_command layout_encryption_info_command
        swap_encryption_command
        (\<lambda>ec. in_turn
          [bad_if (ec_cmdsize ec \<noteq> 20) ''LC_ENCRYPTION_INFO incorrect cmdsize'',
           bad_if (ec_cryptoff ec > e_size e) ''LC_ENCRYPTION_INFO cryptoff'',
           bad_if (past e (big_sum (ec_cryptoff ec) (ec_cryptsize ec)))
             ''LC_ENCRYPTION_INFO cryptoff plus cryptsize''])] s"

definition check_encryption_info_64 :: "check_env \<Rightarrow> nat \<Rightarrow> load_command \<Rightarrow> check_run" where
  "check_encryption_info_64 e lc l s = in_turn
     [too_small 24 l ''LC_ENCRYPTION_INFO_64'',
      with_struct e lc 24 read_encryption_info_command_64 layout_encryption_info_command_64
        swap_encryption_command_64
        (\<lambda>ec. in_turn
          [bad_if (ec64_cmdsize ec \<noteq> 24) ''LC_ENCRYPTION_INFO_64 incorrect cmdsize'',
           bad_if (ec64_cryptoff ec > e_size e) ''LC_ENCRYPTION_INFO_64 cryptoff'',
           bad_if (past e (big_sum (ec64_cryptoff ec) (ec64_cryptsize ec)))
             ''LC_ENCRYPTION_INFO_64 cryptoff plus cryptsize''])] s"

definition check_linker_option :: "check_env \<Rightarrow> nat \<Rightarrow> load_command \<Rightarrow> check_run" where
  "check_linker_option e lc l s = in_turn
     [too_small 12 l ''LC_LINKER_OPTION'',
      with_struct e lc 12 read_linker_option_command layout_linker_option_command
        swap_linker_option_command
        (\<lambda>lo. bad_if (lo_cmdsize lo < 12) ''LC_LINKER_OPTION cmdsize too small'')] s"

text \<open>A part of the information for the dynamic linker; an offset of 0 is not checked.\<close>

definition check_dyld_part :: "check_env \<Rightarrow> u32 \<Rightarrow> u32 \<Rightarrow> string \<Rightarrow> check_run list" where
  "check_dyld_part e off sz name =
     [bad_if (off \<noteq> 0 \<and> off > e_size e) (name @ '' offset extends past the end of the file''),
      bad_if (off \<noteq> 0 \<and> past e (big_sum off sz)) (name @ '' extends past the end of the file''),
      place off sz name]"

definition check_dyld_info :: "check_env \<Rightarrow> nat \<Rightarrow> load_command \<Rightarrow> check_run" where
  "check_dyld_info e lc l s = in_turn
     [too_small 48 l ''LC_DYLD_INFO'',
      with_struct e lc 48 read_dyld_info_command layout_dyld_info_command swap_dyld_info_command
        (\<lambda>ed. in_turn
          ([bad_if (ed_cmdsize ed \<noteq> 48) ''LC_DYLD_INFO incorrect cmdsize'']
           @ check_dyld_part e (ed_rebase_off ed) (ed_rebase_size ed) ''dyld rebase info''
           @ check_dyld_part e (ed_bind_off ed) (ed_bind_size ed) ''dyld bind info''
           @ check_dyld_part e (ed_weak_bind_off ed) (ed_weak_bind_size ed) ''dyld bind info''
           @ check_dyld_part e (ed_lazy_bind_off ed) (ed_lazy_bind_size ed)
               ''dyld lazy bind info''
           @ check_dyld_part e (ed_export_off ed) (ed_export_size ed) ''dyld export info''))] s"

definition check_prebind_cksum :: "check_env \<Rightarrow> nat \<Rightarrow> load_command \<Rightarrow> check_run" where
  "check_prebind_cksum e lc l s = in_turn
     [too_small 12 l ''LC_PREBIND_CKSUM'', once P_cs lc ''LC_PREBIND_CKSUM'',
      with_struct e lc 12 read_prebind_cksum_command layout_prebind_cksum_command
        swap_prebind_cksum_command
        (\<lambda>cs. bad_if (cksum_cmdsize cs \<noteq> 12) ''LC_PREBIND_CKSUM incorrect cmdsize'')] s"

definition check_uuid :: "check_env \<Rightarrow> nat \<Rightarrow> load_command \<Rightarrow> check_run" where
  "check_uuid e lc l s = in_turn
     [too_small 24 l ''LC_UUID'', once P_uuid lc ''LC_UUID'',
      with_struct e lc 24 read_uuid_command layout_uuid_command swap_uuid_command
        (\<lambda>uuid. bad_if (uuid_cmdsize uuid \<noteq> 24) ''LC_UUID incorrect cmdsize'')] s"

definition check_symseg :: "check_env \<Rightarrow> nat \<Rightarrow> load_command \<Rightarrow> check_run" where
  "check_symseg e lc l s = in_turn
     [too_small 16 l ''LC_SYMSEG'',
      with_struct e lc 16 read_symseg_command layout_symseg_command swap_symseg_command
        (\<lambda>ss. in_turn
          ([bad_if (ss_cmdsize ss \<noteq> 16) ''LC_SYMSEG incorrect cmdsize'']
           @ check_table e (ss_offset ss) (ss_size ss) 1 ''symseg info''))] s"

section \<open>Commands with a string\<close>

definition check_fvmlib :: "check_env \<Rightarrow> string \<Rightarrow> nat \<Rightarrow> load_command \<Rightarrow> check_run" where
  "check_fvmlib e name lc l s = in_turn
     [too_small 20 l name,
      with_struct e lc 20 read_fvmlib_command layout_fvmlib_command
        swap_fvmlib_command
        (\<lambda>x. in_turn
          [bad_if (fl_cmdsize x < 20) (name @ '' too small cmdsize field''),
           bad_if (fl_fvmlib_name_offset x \<ge> fl_cmdsize x) (name @ '' name.offset'')])] s"

definition check_dylib :: "check_env \<Rightarrow> string \<Rightarrow> nat \<Rightarrow> load_command \<Rightarrow> check_run" where
  "check_dylib e name lc l s = in_turn
     [too_small 24 l name,
      with_struct e lc 24 read_dylib_command layout_dylib_command
        swap_dylib_command
        (\<lambda>x. in_turn
          [bad_if (dl_cmdsize x < 24) (name @ '' too small cmdsize field''),
           bad_if (dl_dylib_name_offset x \<ge> dl_cmdsize x) (name @ '' name.offset'')])] s"

definition check_sub_framework :: "check_env \<Rightarrow> nat \<Rightarrow> load_command \<Rightarrow> check_run" where
  "check_sub_framework e lc l s = in_turn
     [too_small 12 l ''LC_SUB_FRAMEWORK'',
      with_struct e lc 12 read_sub_framework_command layout_sub_framework_command
        swap_sub_framework_command
        (\<lambda>x. in_turn
          [bad_if (sub_cmdsize x < 12) (''LC_SUB_FRAMEWORK'' @ '' too small cmdsize field''),
           bad_if (sub_umbrella_offset x \<ge> sub_cmdsize x) (''LC_SUB_FRAMEWORK'' @ '' umbrella.offset'')])] s"

definition check_sub_umbrella :: "check_env \<Rightarrow> nat \<Rightarrow> load_command \<Rightarrow> check_run" where
  "check_sub_umbrella e lc l s = in_turn
     [too_small 12 l ''LC_SUB_UMBRELLA'',
      with_struct e lc 12 read_sub_umbrella_command layout_sub_umbrella_command
        swap_sub_umbrella_command
        (\<lambda>x. in_turn
          [bad_if (usub_cmdsize x < 12) (''LC_SUB_UMBRELLA'' @ '' too small cmdsize field''),
           bad_if (usub_sub_umbrella_offset x \<ge> usub_cmdsize x) (''LC_SUB_UMBRELLA'' @ '' sub_umbrella.offset'')])] s"

definition check_sub_library :: "check_env \<Rightarrow> nat \<Rightarrow> load_command \<Rightarrow> check_run" where
  "check_sub_library e lc l s = in_turn
     [too_small 12 l ''LC_SUB_LIBRARY'',
      with_struct e lc 12 read_sub_library_command layout_sub_library_command
        swap_sub_library_command
        (\<lambda>x. in_turn
          [bad_if (lsub_cmdsize x < 12) (''LC_SUB_LIBRARY'' @ '' too small cmdsize field''),
           bad_if (lsub_sub_library_offset x \<ge> lsub_cmdsize x) (''LC_SUB_LIBRARY'' @ '' sub_library.offset'')])] s"

definition check_sub_client :: "check_env \<Rightarrow> nat \<Rightarrow> load_command \<Rightarrow> check_run" where
  "check_sub_client e lc l s = in_turn
     [too_small 12 l ''LC_SUB_CLIENT'',
      with_struct e lc 12 read_sub_client_command layout_sub_client_command
        swap_sub_client_command
        (\<lambda>x. in_turn
          [bad_if (csub_cmdsize x < 12) (''LC_SUB_CLIENT'' @ '' too small cmdsize field''),
           bad_if (csub_client_offset x \<ge> csub_cmdsize x) (''LC_SUB_CLIENT'' @ '' client.offset'')])] s"

definition check_prebound_dylib :: "check_env \<Rightarrow> nat \<Rightarrow> load_command \<Rightarrow> check_run" where
  "check_prebound_dylib e lc l s = in_turn
     [too_small 20 l ''LC_PREBOUND_DYLIB'',
      with_struct e lc 20 read_prebound_dylib_command layout_prebound_dylib_command
        swap_prebound_dylib_command
        (\<lambda>x. in_turn
          [bad_if (pbdylib_cmdsize x < 24) (''LC_PREBOUND_DYLIB'' @ '' too small cmdsize field''),
           bad_if (pbdylib_name_offset x \<ge> pbdylib_cmdsize x) (''LC_PREBOUND_DYLIB'' @ '' name.offset''),
           bad_if (pbdylib_linked_modules_offset x \<ge> pbdylib_cmdsize x) (''LC_PREBOUND_DYLIB'' @ '' linked_modules.offset'')])] s"

definition check_dylinker :: "check_env \<Rightarrow> string \<Rightarrow> nat \<Rightarrow> load_command \<Rightarrow> check_run" where
  "check_dylinker e name lc l s = in_turn
     [too_small 12 l name,
      with_struct e lc 12 read_dylinker_command layout_dylinker_command
        swap_dylinker_command
        (\<lambda>x. in_turn
          [bad_if (dyld_cmdsize x < 12) (name @ '' too small cmdsize field''),
           bad_if (dyld_name_offset x \<ge> dyld_cmdsize x) (name @ '' name.offset'')])] s"

definition check_rpath :: "check_env \<Rightarrow> nat \<Rightarrow> load_command \<Rightarrow> check_run" where
  "check_rpath e lc l s = in_turn
     [too_small 12 l ''LC_RPATH'',
      with_struct e lc 12 read_rpath_command layout_rpath_command
        swap_rpath_command
        (\<lambda>x. in_turn
          [bad_if (rpath_cmdsize x < 12) (''LC_RPATH'' @ '' too small cmdsize field''),
           bad_if (rpath_path_offset x \<ge> rpath_cmdsize x) (''LC_RPATH'' @ '' path.offset'')])] s"

section \<open>Commands that are only swapped\<close>

definition check_main :: "check_env \<Rightarrow> nat \<Rightarrow> load_command \<Rightarrow> check_run" where
  "check_main e lc l s = in_turn
     [too_small 24 l ''LC_MAIN'',
      with_struct e lc 24 read_entry_point_command layout_entry_point_command
        swap_entry_point_command (\<lambda>ep. Inr)] s"

definition check_ident :: "check_env \<Rightarrow> nat \<Rightarrow> load_command \<Rightarrow> check_run" where
  "check_ident e lc l s = in_turn
     [too_small 8 l ''LC_IDENT'',
      with_struct e lc 8 read_ident_command layout_ident_command swap_ident_command
        (\<lambda>ident. Inr)] s"

text \<open>The case of \<open>LC_SOURCE_VERSION\<close> has no \<open>break\<close>: that of \<open>LC_IDENT\<close> follows.\<close>

definition check_source_version :: "check_env \<Rightarrow> nat \<Rightarrow> load_command \<Rightarrow> check_run" where
  "check_source_version e lc l s = in_turn
     [too_small 16 l ''LC_SOURCE_VERSION'',
      with_struct e lc 16 read_source_version_command layout_source_version_command
        swap_source_version_command (\<lambda>sv. Inr),
      check_ident e lc l] s"

section \<open>Threads\<close>

text \<open>
  The flavors of a cputype that the code knows, with the count that is asked for and the size of
  the state in bytes, of the structures in \<open>include/mach\<close>; each list is the switch of one of the
  loops over the flavors, which are alike otherwise. The one flavor of the i860 is skipped by its
  count even when the object is swapped, so its list is empty.
\<close>

type_synonym flavors = "(u32 \<times> u32 \<times> nat) list"

definition m68k_flavors :: flavors where "m68k_flavors = [(1, 18, 72), (2, 28, 112), (3, 1, 4)]"
definition ppc_flavors :: flavors where "ppc_flavors = [(1, 40, 160)]"
definition ppc64_flavors :: flavors where "ppc64_flavors = [(5, 76, 304)]"
definition m88k_flavors :: flavors where "m88k_flavors = [(1, 34, 136), (2, 128, 512), (3, 1, 4), (4, 16, 64)]"
definition i860_flavors :: flavors where "i860_flavors = []"
definition i386_flavors :: flavors where "i386_flavors = [(1, 16, 64), (- 1, 16, 64), (2, 131, 524), (3, 3, 12)]"
definition x86_64_flavors :: flavors where "x86_64_flavors = [(4, 42, 168)]"
definition hppa_flavors :: flavors where "hppa_flavors = [(1, 36, 144), (2, 11, 44), (3, 64, 256)]"
definition sparc_flavors :: flavors where "sparc_flavors = [(1, 19, 76), (2, 68, 272)]"
definition arm_flavors :: flavors where "arm_flavors = [(1, 17, 68)]"
definition arm64_flavors :: flavors where "arm64_flavors = [(6, 68, 272)]"

definition thread_flavors :: "cpu_type \<Rightarrow> flavors option" where
  "thread_flavors cputype =
     (if cputype = CPU_TYPE_MC680x0 then Some m68k_flavors
      else if cputype = CPU_TYPE_POWERPC \<or> cputype = CPU_TYPE_VEO then Some ppc_flavors
      else if cputype = CPU_TYPE_POWERPC64 then Some ppc64_flavors
      else if cputype = CPU_TYPE_MC88000 then Some m88k_flavors
      else if cputype = CPU_TYPE_I860 then Some i860_flavors
      else if cputype = CPU_TYPE_I386 then Some i386_flavors
      else if cputype = CPU_TYPE_X86_64 then Some x86_64_flavors
      else if cputype = CPU_TYPE_HPPA then Some hppa_flavors
      else if cputype = CPU_TYPE_SPARC then Some sparc_flavors
      else if cputype = CPU_TYPE_ARM then Some arm_flavors
      else if cputype = CPU_TYPE_ARM64 then Some arm64_flavors
      else None)"

text \<open>A word of the command at \<open>p\<close>, swapped in place.\<close>

definition read_word :: "check_env \<Rightarrow> nat \<Rightarrow> cstate \<Rightarrow> failure + u32 \<times> cstate" where
  "read_word e p s =
     (if p + 4 \<le> length (cs_mem s)
      then let w = get32 (e_host e) (cs_mem s) p
        in if e_swapped e
           then Inr (SWAP_INT w, s\<lparr>cs_mem :=
             write_at (cs_mem s) p (enc_field (e_host e) (F32 (SWAP_INT w)))\<rparr>)
           else Inr (w, s)
      else Inl Out_of_bounds)"

text \<open>The state behind a flavor and a count: the pointer behind it. \<open>lim\<close> is the end of the command.\<close>

definition check_state ::
    "check_env \<Rightarrow> flavors \<Rightarrow> nat \<Rightarrow> nat \<Rightarrow> u32 \<Rightarrow> u32 \<Rightarrow> cstate \<Rightarrow>
     failure + nat \<times> cstate" where
  "check_state e rows lim p flavor cnt s =
     (case map_of rows flavor of
        Some (c, n) \<Rightarrow>
          if cnt \<noteq> c then Inl (Bad ''count of the flavor'')
          else if p + n > lim then Inl (Bad ''thread state extends past end of command'')
          else if length (cs_mem s) < p + n then Inl Out_of_bounds
          else if e_swapped e
            then Inr (p + n, s\<lparr>cs_mem := write_at (cs_mem s) p
              (e_thread_swap e (e_cputype e) flavor (bytes_at (cs_mem s) n p))\<rparr>)
            else Inr (p + n, s)
      | None \<Rightarrow>
          if e_swapped e \<and> \<not> (e_cputype e = CPU_TYPE_I860 \<and> flavor = 4)
          then Inl (Bad ''unknown flavor'')
          else Inr (p + unat cnt * 4, s))"

definition check_flavor ::
    "check_env \<Rightarrow> flavors \<Rightarrow> nat \<Rightarrow> nat \<Rightarrow> cstate \<Rightarrow> failure + nat \<times> cstate" where
  "check_flavor e rows lim p s =
     (if p + 4 > lim then Inl (Bad ''flavor extends past end of command'')
      else case read_word e p s of Inl f \<Rightarrow> Inl f | Inr (flavor, s1) \<Rightarrow>
        if p + 8 > lim then Inl (Bad ''count extends past end of command'')
        else case read_word e (p + 4) s1 of Inl f \<Rightarrow> Inl f | Inr (cnt, s2) \<Rightarrow>
          check_state e rows lim (p + 8) flavor cnt s2)"

lemma check_state_moves: "check_state e rows lim p flavor cnt s = Inr (q, s') \<Longrightarrow> p \<le> q"
  by (auto simp: check_state_def split: option.splits if_split_asm)

lemma check_flavor_moves: "check_flavor e rows lim p s = Inr (q, s') \<Longrightarrow> p + 8 \<le> q"
  by (auto simp: check_flavor_def dest: check_state_moves split: sum.splits if_split_asm)

text \<open>The loop over the flavors of a command.\<close>

function check_flavors ::
    "check_env \<Rightarrow> flavors \<Rightarrow> nat \<Rightarrow> nat \<Rightarrow> check_run" where
  "check_flavors e rows lim p s =
     (if p < lim
      then case check_flavor e rows lim p s of
          Inl f \<Rightarrow> Inl f
        | Inr (q, s') \<Rightarrow> check_flavors e rows lim q s'
      else Inr s)"
  by pat_completeness auto

termination
  by (relation "measure (\<lambda>(e, rows, lim, p, s). lim - p)") (auto dest!: check_flavor_moves)

declare check_flavors.simps [simp del]

definition check_thread :: "check_env \<Rightarrow> string \<Rightarrow> nat \<Rightarrow> load_command \<Rightarrow> check_run" where
  "check_thread e name lc l s = in_turn
     [too_small 8 l name,
      with_struct e lc 8 read_thread_command layout_thread_command swap_thread_command
        (\<lambda>ut. case thread_flavors (e_cputype e) of
             Some rows \<Rightarrow> check_flavors e rows (lc + unat (ut_cmdsize ut)) (lc + 8)
           | None \<Rightarrow> bad_if (e_swapped e) (name @ '' unknown cputype''))] s"

section \<open>The switch on the command\<close>

definition cmd_SEGMENT :: u32 where "cmd_SEGMENT = 0x1"
definition cmd_SEGMENT_64 :: u32 where "cmd_SEGMENT_64 = 0x19"
definition cmd_SYMTAB :: u32 where "cmd_SYMTAB = 0x2"
definition cmd_DYSYMTAB :: u32 where "cmd_DYSYMTAB = 0xb"
definition cmd_ROUTINES :: u32 where "cmd_ROUTINES = 0x11"
definition cmd_ROUTINES_64 :: u32 where "cmd_ROUTINES_64 = 0x1a"
definition cmd_TWOLEVEL_HINTS :: u32 where "cmd_TWOLEVEL_HINTS = 0x16"
definition cmd_SEGMENT_SPLIT_INFO :: u32 where "cmd_SEGMENT_SPLIT_INFO = 0x1e"
definition cmd_CODE_SIGNATURE :: u32 where "cmd_CODE_SIGNATURE = 0x1d"
definition cmd_FUNCTION_STARTS :: u32 where "cmd_FUNCTION_STARTS = 0x26"
definition cmd_DATA_IN_CODE :: u32 where "cmd_DATA_IN_CODE = 0x29"
definition cmd_DYLIB_CODE_SIGN_DRS :: u32 where "cmd_DYLIB_CODE_SIGN_DRS = 0x2b"
definition cmd_LINKER_OPTIMIZATION_HINT :: u32 where "cmd_LINKER_OPTIMIZATION_HINT = 0x2e"
definition cmd_VERSION_MIN_MACOSX :: u32 where "cmd_VERSION_MIN_MACOSX = 0x24"
definition cmd_VERSION_MIN_IPHONEOS :: u32 where "cmd_VERSION_MIN_IPHONEOS = 0x25"
definition cmd_VERSION_MIN_TVOS :: u32 where "cmd_VERSION_MIN_TVOS = 0x2f"
definition cmd_VERSION_MIN_WATCHOS :: u32 where "cmd_VERSION_MIN_WATCHOS = 0x30"
definition cmd_ENCRYPTION_INFO :: u32 where "cmd_ENCRYPTION_INFO = 0x21"
definition cmd_ENCRYPTION_INFO_64 :: u32 where "cmd_ENCRYPTION_INFO_64 = 0x2c"
definition cmd_LINKER_OPTION :: u32 where "cmd_LINKER_OPTION = 0x2d"
definition cmd_DYLD_INFO :: u32 where "cmd_DYLD_INFO = 0x22"
definition cmd_DYLD_INFO_ONLY :: u32 where "cmd_DYLD_INFO_ONLY = 0x80000022"
definition cmd_PREBIND_CKSUM :: u32 where "cmd_PREBIND_CKSUM = 0x17"
definition cmd_UUID :: u32 where "cmd_UUID = 0x1b"
definition cmd_SYMSEG :: u32 where "cmd_SYMSEG = 0x3"
definition cmd_IDFVMLIB :: u32 where "cmd_IDFVMLIB = 0x7"
definition cmd_LOADFVMLIB :: u32 where "cmd_LOADFVMLIB = 0x6"
definition cmd_ID_DYLIB :: u32 where "cmd_ID_DYLIB = 0xd"
definition cmd_LOAD_DYLIB :: u32 where "cmd_LOAD_DYLIB = 0xc"
definition cmd_LOAD_WEAK_DYLIB :: u32 where "cmd_LOAD_WEAK_DYLIB = 0x80000018"
definition cmd_REEXPORT_DYLIB :: u32 where "cmd_REEXPORT_DYLIB = 0x8000001f"
definition cmd_LOAD_UPWARD_DYLIB :: u32 where "cmd_LOAD_UPWARD_DYLIB = 0x80000023"
definition cmd_LAZY_LOAD_DYLIB :: u32 where "cmd_LAZY_LOAD_DYLIB = 0x20"
definition cmd_SUB_FRAMEWORK :: u32 where "cmd_SUB_FRAMEWORK = 0x12"
definition cmd_SUB_UMBRELLA :: u32 where "cmd_SUB_UMBRELLA = 0x13"
definition cmd_SUB_LIBRARY :: u32 where "cmd_SUB_LIBRARY = 0x15"
definition cmd_SUB_CLIENT :: u32 where "cmd_SUB_CLIENT = 0x14"
definition cmd_PREBOUND_DYLIB :: u32 where "cmd_PREBOUND_DYLIB = 0x10"
definition cmd_ID_DYLINKER :: u32 where "cmd_ID_DYLINKER = 0xf"
definition cmd_LOAD_DYLINKER :: u32 where "cmd_LOAD_DYLINKER = 0xe"
definition cmd_DYLD_ENVIRONMENT :: u32 where "cmd_DYLD_ENVIRONMENT = 0x27"
definition cmd_UNIXTHREAD :: u32 where "cmd_UNIXTHREAD = 0x5"
definition cmd_THREAD :: u32 where "cmd_THREAD = 0x4"
definition cmd_MAIN :: u32 where "cmd_MAIN = 0x80000028"
definition cmd_SOURCE_VERSION :: u32 where "cmd_SOURCE_VERSION = 0x2a"
definition cmd_IDENT :: u32 where "cmd_IDENT = 0x8"
definition cmd_RPATH :: u32 where "cmd_RPATH = 0x8000001c"

definition command_checks :: "check_env \<Rightarrow> nat \<Rightarrow> load_command \<Rightarrow> (u32 \<times> check_run) list" where
  "command_checks e lc l =
    [(cmd_SEGMENT, check_segment e lc l),
     (cmd_SEGMENT_64, check_segment_64 e lc l),
     (cmd_SYMTAB, check_symtab e lc l),
     (cmd_DYSYMTAB, check_dysymtab e lc l),
     (cmd_ROUTINES, check_routines e lc l),
     (cmd_ROUTINES_64, check_routines_64 e lc l),
     (cmd_TWOLEVEL_HINTS, check_twolevel_hints e lc l),
     (cmd_SEGMENT_SPLIT_INFO, check_linkedit_data e P_split_info ''LC_SEGMENT_SPLIT_INFO'' ''split info data'' lc l),
     (cmd_CODE_SIGNATURE, check_linkedit_data e P_code_sig ''LC_CODE_SIGNATURE'' ''code signature data'' lc l),
     (cmd_FUNCTION_STARTS, check_linkedit_data e P_func_starts ''LC_FUNCTION_STARTS'' ''function starts data'' lc l),
     (cmd_DATA_IN_CODE, check_linkedit_data e P_data_in_code ''LC_DATA_IN_CODE'' ''date in code info'' lc l),
     (cmd_DYLIB_CODE_SIGN_DRS, check_linkedit_data e P_code_sign_drs ''LC_DYLIB_CODE_SIGN_DRS'' ''code signing RDs data'' lc l),
     (cmd_LINKER_OPTIMIZATION_HINT, check_linkedit_data e P_link_opt_hint ''LC_LINKER_OPTIMIZATION_HINT'' ''linker optimization hint'' lc l),
     (cmd_VERSION_MIN_MACOSX, check_version_min e ''LC_VERSION_MIN_MACOSX'' lc l),
     (cmd_VERSION_MIN_IPHONEOS, check_version_min e ''LC_VERSION_MIN_IPHONEOS'' lc l),
     (cmd_VERSION_MIN_TVOS, check_version_min e ''LC_VERSION_MIN_TVOS'' lc l),
     (cmd_VERSION_MIN_WATCHOS, check_version_min e ''LC_VERSION_MIN_WATCHOS'' lc l),
     (cmd_ENCRYPTION_INFO, check_encryption_info e lc l),
     (cmd_ENCRYPTION_INFO_64, check_encryption_info_64 e lc l),
     (cmd_LINKER_OPTION, check_linker_option e lc l),
     (cmd_DYLD_INFO, check_dyld_info e lc l),
     (cmd_DYLD_INFO_ONLY, check_dyld_info e lc l),
     (cmd_PREBIND_CKSUM, check_prebind_cksum e lc l),
     (cmd_UUID, check_uuid e lc l),
     (cmd_SYMSEG, check_symseg e lc l),
     (cmd_IDFVMLIB, check_fvmlib e ''LC_IDFVMLIB'' lc l),
     (cmd_LOADFVMLIB, check_fvmlib e ''LC_LOADFVMLIB'' lc l),
     (cmd_ID_DYLIB, check_dylib e ''LC_ID_DYLIB'' lc l),
     (cmd_LOAD_DYLIB, check_dylib e ''LC_LOAD_DYLIB'' lc l),
     (cmd_LOAD_WEAK_DYLIB, check_dylib e ''LC_LOAD_WEAK_DYLIB'' lc l),
     (cmd_REEXPORT_DYLIB, check_dylib e ''LC_REEXPORT_DYLIB'' lc l),
     (cmd_LOAD_UPWARD_DYLIB, check_dylib e ''LC_LOAD_UPWARD_DYLIB'' lc l),
     (cmd_LAZY_LOAD_DYLIB, check_dylib e ''LC_LAZY_LOAD_DYLIB'' lc l),
     (cmd_SUB_FRAMEWORK, check_sub_framework e lc l),
     (cmd_SUB_UMBRELLA, check_sub_umbrella e lc l),
     (cmd_SUB_LIBRARY, check_sub_library e lc l),
     (cmd_SUB_CLIENT, check_sub_client e lc l),
     (cmd_PREBOUND_DYLIB, check_prebound_dylib e lc l),
     (cmd_ID_DYLINKER, check_dylinker e ''LC_ID_DYLINKER'' lc l),
     (cmd_LOAD_DYLINKER, check_dylinker e ''LC_LOAD_DYLINKER'' lc l),
     (cmd_DYLD_ENVIRONMENT, check_dylinker e ''LC_DYLD_ENVIRONMENT'' lc l),
     (cmd_UNIXTHREAD, check_thread e ''LC_UNIXTHREAD'' lc l),
     (cmd_THREAD, check_thread e ''LC_THREAD'' lc l),
     (cmd_MAIN, check_main e lc l),
     (cmd_SOURCE_VERSION, check_source_version e lc l),
     (cmd_IDENT, check_ident e lc l),
     (cmd_RPATH, check_rpath e lc l)]"

definition check_command :: "check_env \<Rightarrow> nat \<Rightarrow> load_command \<Rightarrow> check_run" where
  "check_command e lc l s =
     (case map_of (command_checks e lc l) (lc_cmd l) of
        Some check \<Rightarrow> check s | None \<Rightarrow> Inl (Bad ''unknown load command''))"

section \<open>The pass over the load commands\<close>

text \<open>
  The size of a command is a multiple of that of a pointer; the kernel writes threads to 64-bit
  core files whose size is a multiple of 4.
\<close>

definition bad_cmdsize :: "check_env \<Rightarrow> load_command \<Rightarrow> bool" where
  "bad_cmdsize e l \<longleftrightarrow> lc_cmdsize l mod e_multiple e \<noteq> 0 \<and>
     (case e_mh64 e of None \<Rightarrow> True
      | Some mh64 \<Rightarrow> mh64_filetype mh64 \<noteq> MH_CORE \<or> lc_cmd l \<noteq> cmd_THREAD
          \<or> lc_cmdsize l mod 4 \<noteq> 0)"

definition load_command_at :: "check_env \<Rightarrow> u8 list \<Rightarrow> nat \<Rightarrow> load_command" where
  "load_command_at e m lc =
     (let l = read_load_command (e_host e) (bytes_at m 8 lc)
      in if e_swapped e then swap_load_command l else l)"

text \<open>
  One turn of the loop: the pointer to the next command, the end of the commands so far
  (\<open>big_load_end\<close>) and the state.
\<close>

definition check_next ::
    "check_env \<Rightarrow> nat \<Rightarrow> u64 \<Rightarrow> cstate \<Rightarrow> failure + nat \<times> u64 \<times> cstate" where
  "check_next e lc big_load_end s =
     (if big_load_end + 8 > ucast (e_sizeofcmds e)
      then Inl (Bad ''load command extends past the end all load commands'')
      else if length (cs_mem s) < lc + 8 then Inl Out_of_bounds
      else let l = load_command_at e (cs_mem s) lc;
          big_load_end = big_load_end + ucast (lc_cmdsize l)
        in if bad_cmdsize e l then Inl (Bad ''cmdsize not a multiple'')
          else if big_load_end > ucast (e_sizeofcmds e)
            then Inl (Bad ''load command extends past the end of the file'')
          else if lc_cmdsize l = 0 then Inl (Bad ''cmdsize is zero'')
          else case check_command e lc l s of
              Inl f \<Rightarrow> Inl f
            | Inr s' \<Rightarrow>
                if lc + unat (lc_cmdsize l) > unat (e_sizeofcmds e)
                then Inl (Bad ''load command extends past the end of the file'')
                else Inr (lc + unat (lc_cmdsize l), big_load_end, s'))"

primrec check_commands ::
    "check_env \<Rightarrow> nat \<Rightarrow> nat \<Rightarrow> u64 \<Rightarrow> cstate \<Rightarrow> failure + nat \<times> cstate" where
  "check_commands e 0 lc big_load_end s = Inr (lc, s)"
| "check_commands e (Suc n) lc big_load_end s =
     (case check_next e lc big_load_end s of
        Inl f \<Rightarrow> Inl f
      | Inr (lc', big_load_end', s') \<Rightarrow> check_commands e n lc' big_load_end' s')"

section \<open>The commands together\<close>

text \<open>A structure that was checked, read through its pointer variable.\<close>

definition deref_struct ::
    "check_env \<Rightarrow> nat \<Rightarrow> nat \<Rightarrow> (byte_sex \<Rightarrow> u8 list \<Rightarrow> 'a) \<Rightarrow> ('a \<Rightarrow> check_run) \<Rightarrow> check_run" where
  "deref_struct e p n rd k s =
     (if p + n \<le> length (cs_mem s) then k (rd (e_host e) (bytes_at (cs_mem s) n p)) s
      else Inl Out_of_bounds)"

text \<open>A group of symbols lies in the symbol table.\<close>

definition check_group :: "symtab_command \<Rightarrow> u32 \<Rightarrow> u32 \<Rightarrow> string \<Rightarrow> check_run list" where
  "check_group st i n name =
     [bad_if (n \<noteq> 0 \<and> i > st_nsyms st) (name @ '' past the end of the symbol table''),
      bad_if (n \<noteq> 0 \<and> big_sum i n > ucast (st_nsyms st))
        (name @ '' plus count past the end of the symbol table'')]"

definition check_groups :: "check_env \<Rightarrow> symtab_command \<Rightarrow> dysymtab_command \<Rightarrow> check_run" where
  "check_groups e st dyst s = in_turn
     (check_group st (dyst_ilocalsym dyst) (dyst_nlocalsym dyst) ''ilocalsym''
      @ check_group st (dyst_iextdefsym dyst) (dyst_nextdefsym dyst) ''iextdefsym''
      @ check_group st (dyst_iundefsym dyst) (dyst_nundefsym dyst) ''iundefsym''
      @ [(\<lambda>t. case cs_ptr t P_rc of None \<Rightarrow> Inr t
          | Some p \<Rightarrow> deref_struct e p 40 read_routines_command
              (\<lambda>rc. bad_if (rc_init_module rc > dyst_nmodtab dyst) ''init_module'') t),
         (\<lambda>t. case cs_ptr t P_rc64 of None \<Rightarrow> Inr t
          | Some p \<Rightarrow> deref_struct e p 72 read_routines_command_64
              (\<lambda>rc. bad_if (rc64_init_module rc > ucast (dyst_nmodtab dyst)) ''init_module'') t),
         (\<lambda>t. case cs_ptr t P_hints of None \<Rightarrow> Inr t
          | Some p \<Rightarrow> deref_struct e p 16 read_twolevel_hints_command
              (\<lambda>hints. bad_if (hints_nhints hints \<noteq> dyst_nundefsym dyst) ''nhints'') t)]) s"

definition check_together :: "check_env \<Rightarrow> check_run" where
  "check_together e s =
     (case cs_ptr s P_st of
        None \<Rightarrow> bad_if (cs_ptr s P_dyst \<noteq> None) ''LC_DYSYMTAB without LC_SYMTAB'' s
      | Some p \<Rightarrow> (case cs_ptr s P_dyst of None \<Rightarrow> Inr s
          | Some q \<Rightarrow> deref_struct e p 24 read_symtab_command
              (\<lambda>st. deref_struct e q 80 read_dysymtab_command (check_groups e st)) s))"

section \<open>The whole check\<close>

datatype ofile_type = OFILE_UNKNOWN | OFILE_FAT | OFILE_ARCHIVE | OFILE_Mach_O | OFILE_LLVM_BITCODE

text \<open>
  The fields of \<open>struct ofile\<close> that the check reads or sets. \<open>of_load_commands\<close> is the memory from
  the load commands to the end of the object.
\<close>

record ofile =
  of_file_type :: ofile_type
  of_fat_header :: fat_header
  of_fat_archs :: "fat_arch list"
  of_fat_archs64 :: "fat_arch_64 list"
  of_narch :: u32
  of_headers_swapped :: bool
  of_object_size :: u32
  of_object_byte_sex :: byte_sex
  of_mh :: "mach_header option"
  of_mh64 :: "mach_header_64 option"
  of_load_commands :: "u8 list"
  of_mh_cputype :: cpu_type
  of_mh_cpusubtype :: cpu_subtype
  of_mh_filetype :: u32

definition check_fat_cputype :: "ofile \<Rightarrow> check_run" where
  "check_fat_cputype f s =
     (if of_file_type f = OFILE_FAT
      then let n = unat (of_narch f) in
        if fh_magic (of_fat_header f) = 0xcafebabf
        then if n < length (of_fat_archs64 f)
          then bad_if (fa64_cputype (of_fat_archs64 f ! n) \<noteq> of_mh_cputype f) ''cputype'' s
          else Inl Out_of_bounds
        else if n < length (of_fat_archs f)
          then bad_if (fa_cputype (of_fat_archs f ! n) \<noteq> of_mh_cputype f) ''cputype'' s
          else Inl Out_of_bounds
      else Inr s)"

definition check_object_file :: "check_env \<Rightarrow> ofile \<Rightarrow> failure + ofile \<times> cstate" where
  "check_object_file e f =
     (case in_turn [place 0 (e_sizeofhdrs e) ''Mach-O headers'', check_fat_cputype f]
          \<lparr>cs_mem = of_load_commands f, cs_elements = [], cs_ptr = (\<lambda>_. None)\<rparr> of
        Inl x \<Rightarrow> Inl x
      | Inr s \<Rightarrow>
        (case check_commands e (unat (e_ncmds e)) 0 0 s of
           Inl x \<Rightarrow> Inl x
         | Inr (lc, s1) \<Rightarrow>
           (case in_turn [check_together e,
               bad_if (unat (e_sizeofcmds e) \<noteq> lc) ''inconsistent sizeofcmds''] s1 of
              Inl x \<Rightarrow> Inl x
            | Inr s2 \<Rightarrow> Inr (f\<lparr>of_load_commands := cs_mem s2,
                of_headers_swapped := e_swapped e \<or> of_headers_swapped f\<rparr>, s2))))"

text \<open>The variables that are set from the header; the object is then checked with them.\<close>

definition env_32 ::
    "byte_sex \<Rightarrow> (cpu_type \<Rightarrow> u32 \<Rightarrow> u8 list \<Rightarrow> u8 list) \<Rightarrow> bool \<Rightarrow> ofile \<Rightarrow> mach_header \<Rightarrow> check_env"
  where
  "env_32 host tswap sw f mh =
     \<lparr>e_size = of_object_size f, e_host = host, e_swapped = sw, e_mh = Some mh,
      e_mh64 = of_mh64 f, e_sizeofhdrs = mh_sizeofcmds mh + 28, e_ncmds = mh_ncmds mh,
      e_sizeofcmds = mh_sizeofcmds mh, e_cputype = mh_cputype mh, e_multiple = 4,
      e_sizeof_nlist = 12, e_sizeof_dylib_module = 52, e_thread_swap = tswap\<rparr>"

definition env_64 ::
    "byte_sex \<Rightarrow> (cpu_type \<Rightarrow> u32 \<Rightarrow> u8 list \<Rightarrow> u8 list) \<Rightarrow> bool \<Rightarrow> ofile \<Rightarrow> mach_header_64 \<Rightarrow> check_env"
  where
  "env_64 host tswap sw f mh64 =
     \<lparr>e_size = of_object_size f, e_host = host, e_swapped = sw, e_mh = None,
      e_mh64 = Some mh64, e_sizeofhdrs = mh64_sizeofcmds mh64 + 32, e_ncmds = mh64_ncmds mh64,
      e_sizeofcmds = mh64_sizeofcmds mh64, e_cputype = mh64_cputype mh64, e_multiple = 8,
      e_sizeof_nlist = 16, e_sizeof_dylib_module = 56, e_thread_swap = tswap\<rparr>"

definition check_Mach_O ::
    "byte_sex \<Rightarrow> (cpu_type \<Rightarrow> u32 \<Rightarrow> u8 list \<Rightarrow> u8 list) \<Rightarrow> ofile \<Rightarrow> failure + ofile \<times> cstate" where
  "check_Mach_O host tswap f =
     (let sw = (host \<noteq> of_object_byte_sex f) in
      case of_mh f of
        Some mh0 \<Rightarrow>
          let mh = (if sw then swap_mach_header mh0 else mh0) in
          if big_sum (mh_sizeofcmds mh) 28 > ucast (of_object_size f)
          then Inl (Bad ''load commands extend past the end of the file'')
          else check_object_file (env_32 host tswap sw f mh)
            (f\<lparr>of_mh := Some mh, of_mh_cputype := mh_cputype mh,
              of_mh_cpusubtype := mh_cpusubtype mh, of_mh_filetype := mh_filetype mh\<rparr>)
      | None \<Rightarrow>
          (case of_mh64 f of None \<Rightarrow> Inl Null_dereference
           | Some mh0 \<Rightarrow>
             let mh64 = (if sw then swap_mach_header_64 mh0 else mh0) in
             if big_sum (mh64_sizeofcmds mh64) 32 > ucast (of_object_size f)
             then Inl (Bad ''load commands extend past the end of the file'')
             else check_object_file (env_64 host tswap sw f mh64)
               (f\<lparr>of_mh64 := Some mh64, of_mh_cputype := mh64_cputype mh64,
                 of_mh_cpusubtype := mh64_cpusubtype mh64,
                 of_mh_filetype := mh64_filetype mh64\<rparr>)))"
end
