(* ===== verification/Ofile_Safety.thy ===== *)
theory Ofile_Safety
  imports Ofile_Check
begin

text \<open>
  What a run of \<open>check_Mach_O\<close> does to the memory. \<open>confined\<close> says that a step, in a state whose
  memory satisfies a condition, does not touch anything outside an interval of the memory, which is
  that of the command it looks at, and that it leaves the pointers at commands before the end of
  that interval. From its rules follows that the whole check stays inside the load commands and
  that the commands of an accepted object fill \<open>sizeofcmds\<close> exactly.
\<close>

section \<open>States and steps\<close>

primrec pointer_size :: "pointer \<Rightarrow> nat" where
  "pointer_size P_st = 24" | "pointer_size P_dyst = 80" | "pointer_size P_rc = 40"
| "pointer_size P_rc64 = 72" | "pointer_size P_hints = 16" | "pointer_size P_code_sig = 0"
| "pointer_size P_func_starts = 0" | "pointer_size P_data_in_code = 0"
| "pointer_size P_code_sign_drs = 0" | "pointer_size P_link_opt_hint = 0"
| "pointer_size P_split_info = 0" | "pointer_size P_cs = 0" | "pointer_size P_uuid = 0"
| "pointer_size P_vers = 0"

definition pointers_before :: "nat \<Rightarrow> cstate \<Rightarrow> bool" where
  "pointers_before b s \<longleftrightarrow> (\<forall>p q. cs_ptr s p = Some q \<longrightarrow> q + pointer_size p \<le> b)"

definition same_outside :: "check_env \<Rightarrow> nat \<Rightarrow> nat \<Rightarrow> u8 list \<Rightarrow> u8 list \<Rightarrow> bool" where
  "same_outside e lo hi m m' \<longleftrightarrow> length m' = length m \<and> take lo m' = take lo m
     \<and> drop hi m' = drop hi m \<and> (\<not> e_swapped e \<longrightarrow> m' = m)"

definition confined ::
    "check_env \<Rightarrow> (u8 list \<Rightarrow> bool) \<Rightarrow> nat \<Rightarrow> nat \<Rightarrow> nat \<Rightarrow> check_run \<Rightarrow> bool" where
  "confined e P N lo hi c \<longleftrightarrow> (\<forall>s. length (cs_mem s) = N \<longrightarrow> P (cs_mem s) \<longrightarrow> pointers_before hi s \<longrightarrow>
     (case c s of Inl f \<Rightarrow> f \<noteq> Out_of_bounds
      | Inr s' \<Rightarrow> same_outside e lo hi (cs_mem s) (cs_mem s') \<and> pointers_before hi s'))"

text \<open>A step that leaves the memory alone.\<close>

definition memory_kept :: "nat \<Rightarrow> check_run \<Rightarrow> bool" where
  "memory_kept hi c \<longleftrightarrow> (\<forall>s. pointers_before hi s \<longrightarrow>
     (case c s of Inl f \<Rightarrow> f \<noteq> Out_of_bounds
      | Inr s' \<Rightarrow> cs_mem s' = cs_mem s \<and> pointers_before hi s'))"

named_theorems keeps_intros \<open>steps that leave the memory alone\<close>
named_theorems confined_intros \<open>steps that stay inside their command\<close>

lemma same_outside_refl [simp]: "same_outside e lo hi m m"
  by (simp add: same_outside_def)

lemma same_outside_trans:
  "same_outside e lo hi m m1 \<Longrightarrow> same_outside e lo hi m1 m2 \<Longrightarrow> same_outside e lo hi m m2"
  by (simp add: same_outside_def)

lemma length_write_at: "p + length xs \<le> length m \<Longrightarrow> length (write_at m p xs) = length m"
  by (simp add: write_at_def)

lemma take_write_at: "lo \<le> p \<Longrightarrow> p \<le> length m \<Longrightarrow> take lo (write_at m p xs) = take lo m"
  by (simp add: write_at_def)

lemma drop_write_at:
  "p + length xs \<le> hi \<Longrightarrow> p \<le> length m \<Longrightarrow> drop hi (write_at m p xs) = drop hi m"
  by (simp add: write_at_def)

lemma same_outside_write:
  assumes "e_swapped e" and "lo \<le> p" and "p + length xs \<le> hi" and "hi \<le> length m"
  shows "same_outside e lo hi m (write_at m p xs)"
  using assms by (simp add: same_outside_def length_write_at take_write_at drop_write_at)

lemma bytes_at_write: "p + length xs \<le> length m \<Longrightarrow> bytes_at (write_at m p xs) (length xs) p = xs"
  by (simp add: write_at_def bytes_at_def)

subsection \<open>Steps that leave the memory alone\<close>

lemma keeps_bad_if [keeps_intros]: "memory_kept hi (bad_if b text)"
  by (simp add: memory_kept_def bad_if_def)

lemma keeps_too_small [keeps_intros]: "memory_kept hi (too_small n l name)"
  by (simp add: too_small_def keeps_bad_if)

lemma keeps_Inr [keeps_intros]: "memory_kept hi Inr"
  by (simp add: memory_kept_def)

lemma keeps_place [keeps_intros]: "memory_kept hi (place off sz name)"
  by (simp add: memory_kept_def place_def pointers_before_def split: sum.split)

lemma keeps_once [keeps_intros]: "lc + pointer_size p \<le> hi \<Longrightarrow> memory_kept hi (once p lc name)"
  by (simp add: memory_kept_def once_def pointers_before_def)

lemma keeps_if [keeps_intros]:
  "memory_kept hi c \<Longrightarrow> memory_kept hi (\<lambda>t. if b then c t else Inr t)"
  by (simp add: memory_kept_def)

lemma memory_keptI:
  assumes "\<And>s f. pointers_before hi s \<Longrightarrow> c s = Inl f \<Longrightarrow> f \<noteq> Out_of_bounds"
    and "\<And>s s'. pointers_before hi s \<Longrightarrow> c s = Inr s' \<Longrightarrow>
      cs_mem s' = cs_mem s \<and> pointers_before hi s'"
  shows "memory_kept hi c"
  unfolding memory_kept_def
proof (intro allI impI)
  fix s assume s: "pointers_before hi s"
  show "case c s of Inl f \<Rightarrow> f \<noteq> Out_of_bounds
    | Inr s' \<Rightarrow> cs_mem s' = cs_mem s \<and> pointers_before hi s'"
  proof (cases "c s")
    case (Inl f)
    with assms(1) [OF s this] show ?thesis by simp
  next
    case (Inr s')
    with assms(2) [OF s this] show ?thesis by simp
  qed
qed

lemma memory_keptD:
  assumes "memory_kept hi c" and "pointers_before hi s"
  shows "c s = Inl f \<Longrightarrow> f \<noteq> Out_of_bounds"
    and "c s = Inr s' \<Longrightarrow> cs_mem s' = cs_mem s \<and> pointers_before hi s'"
proof -
  have "case c s of Inl f \<Rightarrow> f \<noteq> Out_of_bounds
    | Inr s' \<Rightarrow> cs_mem s' = cs_mem s \<and> pointers_before hi s'"
    using assms unfolding memory_kept_def by blast
  then show "c s = Inl f \<Longrightarrow> f \<noteq> Out_of_bounds"
    and "c s = Inr s' \<Longrightarrow> cs_mem s' = cs_mem s \<and> pointers_before hi s'" by simp_all
qed

lemma in_turn_Inl:
  "in_turn (c # cs) s = Inl f \<longleftrightarrow> c s = Inl f \<or> (\<exists>s1. c s = Inr s1 \<and> in_turn cs s1 = Inl f)"
  by (cases "c s") simp_all

lemma in_turn_Inr:
  "in_turn (c # cs) s = Inr s' \<longleftrightarrow> (\<exists>s1. c s = Inr s1 \<and> in_turn cs s1 = Inr s')"
  by (cases "c s") simp_all

lemma keeps_in_turn: "\<forall>c \<in> set cs. memory_kept hi c \<Longrightarrow> memory_kept hi (in_turn cs)"
proof (induction cs)
  case (Cons c cs)
  then have c: "memory_kept hi c" and cs: "memory_kept hi (in_turn cs)" by simp_all
  show ?case
  proof (rule memory_keptI)
    fix s f assume "pointers_before hi s" "in_turn (c # cs) s = Inl f"
    then show "f \<noteq> Out_of_bounds"
      unfolding in_turn_Inl using memory_keptD [OF c] memory_keptD(1) [OF cs] by blast
  next
    fix s s' assume "pointers_before hi s" "in_turn (c # cs) s = Inr s'"
    then show "cs_mem s' = cs_mem s \<and> pointers_before hi s'"
      unfolding in_turn_Inr using memory_keptD(2) [OF c] memory_keptD(2) [OF cs] by metis
  qed
qed (simp add: memory_kept_def)

lemma keeps_check_table:
  "c \<in> set (check_table e off n entry name) \<Longrightarrow> memory_kept hi c"
  by (auto simp: check_table_def intro: keeps_intros)

lemma keeps_check_dyld_part:
  "c \<in> set (check_dyld_part e off sz name) \<Longrightarrow> memory_kept hi c"
  by (auto simp: check_dyld_part_def intro: keeps_intros)

lemma keeps_check_section: "memory_kept hi (check_section e sg x)"
proof (cases "e_mh e")
  case (Some mh)
  then show ?thesis
    by (simp add: check_section_def [abs_def] Let_def del: in_turn.simps append.simps)
      (rule keeps_in_turn; auto simp: check_relocs_def intro: keeps_intros keeps_check_table)
qed (simp add: check_section_def [abs_def] memory_kept_def)

lemma keeps_check_section_64: "memory_kept hi (check_section_64 e sg x)"
proof (cases "e_mh64 e")
  case (Some mh)
  then show ?thesis
    by (simp add: check_section_64_def [abs_def] Let_def del: in_turn.simps append.simps)
      (rule keeps_in_turn; auto simp: check_relocs_def intro: keeps_intros keeps_check_table)
qed (simp add: check_section_64_def [abs_def] memory_kept_def)

subsection \<open>Steps that stay inside\<close>

lemma confinedI:
  assumes "\<And>s f. length (cs_mem s) = N \<Longrightarrow> P (cs_mem s) \<Longrightarrow> pointers_before hi s \<Longrightarrow> c s = Inl f \<Longrightarrow>
      f \<noteq> Out_of_bounds"
    and "\<And>s s'. length (cs_mem s) = N \<Longrightarrow> P (cs_mem s) \<Longrightarrow> pointers_before hi s \<Longrightarrow> c s = Inr s' \<Longrightarrow>
      same_outside e lo hi (cs_mem s) (cs_mem s') \<and> pointers_before hi s'"
  shows "confined e P N lo hi c"
  unfolding confined_def
proof (intro allI impI)
  fix s assume s: "length (cs_mem s) = N" "P (cs_mem s)" "pointers_before hi s"
  show "case c s of Inl f \<Rightarrow> f \<noteq> Out_of_bounds
    | Inr s' \<Rightarrow> same_outside e lo hi (cs_mem s) (cs_mem s') \<and> pointers_before hi s'"
  proof (cases "c s")
    case (Inl f)
    with assms(1) [OF s this] show ?thesis by simp
  next
    case (Inr s')
    with assms(2) [OF s this] show ?thesis by simp
  qed
qed

lemma confinedD:
  assumes "confined e P N lo hi c" and "length (cs_mem s) = N" and "P (cs_mem s)"
    and "pointers_before hi s"
  shows "c s = Inl f \<Longrightarrow> f \<noteq> Out_of_bounds"
    and "c s = Inr s' \<Longrightarrow> same_outside e lo hi (cs_mem s) (cs_mem s') \<and> pointers_before hi s'"
proof -
  have "case c s of Inl f \<Rightarrow> f \<noteq> Out_of_bounds
    | Inr s' \<Rightarrow> same_outside e lo hi (cs_mem s) (cs_mem s') \<and> pointers_before hi s'"
    using assms unfolding confined_def by blast
  then show "c s = Inl f \<Longrightarrow> f \<noteq> Out_of_bounds"
    and "c s = Inr s' \<Longrightarrow> same_outside e lo hi (cs_mem s) (cs_mem s') \<and> pointers_before hi s'"
    by simp_all
qed

lemma confined_keeps: "memory_kept hi c \<Longrightarrow> confined e P N lo hi c"
  by (rule confinedI) (auto dest: memory_keptD)

lemma confined_first:
  assumes c: "memory_kept hi c" and cs: "confined e P N lo hi (in_turn cs)"
  shows "confined e P N lo hi (in_turn (c # cs))"
proof (rule confinedI)
  fix s f assume s: "length (cs_mem s) = N" "P (cs_mem s)" "pointers_before hi s"
    and "in_turn (c # cs) s = Inl f"
  then consider "c s = Inl f" | s1 where "c s = Inr s1" "in_turn cs s1 = Inl f"
    unfolding in_turn_Inl by blast
  then show "f \<noteq> Out_of_bounds"
  proof cases
    case 1
    then show ?thesis by (rule memory_keptD(1) [OF c s(3)])
  next
    case (2 s1)
    then have "cs_mem s1 = cs_mem s \<and> pointers_before hi s1" by (intro memory_keptD(2) [OF c s(3)])
    with 2 s show ?thesis by (intro confinedD(1) [OF cs]) simp_all
  qed
next
  fix s s' assume s: "length (cs_mem s) = N" "P (cs_mem s)" "pointers_before hi s"
    and "in_turn (c # cs) s = Inr s'"
  then obtain s1 where "c s = Inr s1" "in_turn cs s1 = Inr s'" unfolding in_turn_Inr by blast
  then show "same_outside e lo hi (cs_mem s) (cs_mem s') \<and> pointers_before hi s'"
    using memory_keptD(2) [OF c s(3), of s1] confinedD(2) [OF cs, of s1 s'] s by simp
qed

lemma confined_then:
  assumes c: "confined e P N lo hi c" and cs: "confined e (\<lambda>_. True) N lo hi (in_turn cs)"
  shows "confined e P N lo hi (in_turn (c # cs))"
proof (rule confinedI)
  fix s f assume s: "length (cs_mem s) = N" "P (cs_mem s)" "pointers_before hi s"
    and "in_turn (c # cs) s = Inl f"
  then consider "c s = Inl f" | s1 where "c s = Inr s1" "in_turn cs s1 = Inl f"
    unfolding in_turn_Inl by blast
  then show "f \<noteq> Out_of_bounds"
  proof cases
    case 1
    then show ?thesis by (rule confinedD(1) [OF c s])
  next
    case (2 s1)
    then have "same_outside e lo hi (cs_mem s) (cs_mem s1) \<and> pointers_before hi s1"
      by (intro confinedD(2) [OF c s])
    with 2 s show ?thesis by (intro confinedD(1) [OF cs]) (auto simp: same_outside_def)
  qed
next
  fix s s' assume s: "length (cs_mem s) = N" "P (cs_mem s)" "pointers_before hi s"
    and "in_turn (c # cs) s = Inr s'"
  then obtain s1 where s1: "c s = Inr s1" "in_turn cs s1 = Inr s'" unfolding in_turn_Inr by blast
  then have o1: "same_outside e lo hi (cs_mem s) (cs_mem s1) \<and> pointers_before hi s1"
    by (intro confinedD(2) [OF c s])
  with s1 s have "same_outside e lo hi (cs_mem s1) (cs_mem s') \<and> pointers_before hi s'"
    by (intro confinedD(2) [OF cs]) (auto simp: same_outside_def)
  with o1 show "same_outside e lo hi (cs_mem s) (cs_mem s') \<and> pointers_before hi s'"
    using same_outside_trans by blast
qed

lemma confined_one: "confined e P N lo hi c \<Longrightarrow> confined e P N lo hi (in_turn [c])"
  by (erule confined_then) (rule confined_keeps, rule keeps_in_turn, simp)

lemma confined_bad_if:
  "(\<not> b \<Longrightarrow> confined e P N lo hi (in_turn cs)) \<Longrightarrow> confined e P N lo hi (in_turn (bad_if b text # cs))"
  by (cases b) (auto simp: confined_def bad_if_def)

lemma confined_too_small:
  "(unat n \<le> unat (lc_cmdsize l) \<Longrightarrow> confined e P N lo hi (in_turn cs)) \<Longrightarrow>
   confined e P N lo hi (in_turn (too_small n l name # cs))"
  unfolding too_small_def by (rule confined_bad_if) (simp add: word_le_nat_alt not_less)

lemma confined_struct:
  assumes "lo \<le> p" and "p + n \<le> hi" and "hi \<le> N" and "\<And>x. length (image (e_host e) (layout x)) = n"
    and k: "\<And>m. P m \<Longrightarrow> confined e (\<lambda>_. True) N lo hi
      (k (if e_swapped e then sw (rd (e_host e) (bytes_at m n p)) else rd (e_host e) (bytes_at m n p)))"
  shows "confined e P N lo hi (with_struct e p n rd layout sw k)"
proof (rule confinedI)
  fix s f assume s: "length (cs_mem s) = N" "P (cs_mem s)" "pointers_before hi s"
    and f: "with_struct e p n rd layout sw k s = Inl f"
  show "f \<noteq> Out_of_bounds"
  proof (cases "e_swapped e")
    case True
    with f s assms(1-4) show ?thesis
      using confinedD(1) [OF k [OF s(2)], of "s\<lparr>cs_mem := write_at (cs_mem s) p (image (e_host e)
          (layout (sw (rd (e_host e) (bytes_at (cs_mem s) n p)))))\<rparr>" f]
      by (simp add: with_struct_def Let_def length_write_at pointers_before_def)
  next
    case False
    with f s assms(2,3) show ?thesis
      using confinedD(1) [OF k [OF s(2)], of s f] by (simp add: with_struct_def Let_def)
  qed
next
  fix s s' assume s: "length (cs_mem s) = N" "P (cs_mem s)" "pointers_before hi s"
    and f: "with_struct e p n rd layout sw k s = Inr s'"
  show "same_outside e lo hi (cs_mem s) (cs_mem s') \<and> pointers_before hi s'"
  proof (cases "e_swapped e")
    case True
    let ?w = "write_at (cs_mem s) p (image (e_host e)
          (layout (sw (rd (e_host e) (bytes_at (cs_mem s) n p)))))"
    have "same_outside e lo hi (cs_mem s) ?w"
      using True assms(1-4) s by (intro same_outside_write) simp_all
    moreover from True f s assms(1-4) have "same_outside e lo hi ?w (cs_mem s') \<and> pointers_before hi s'"
      using confinedD(2) [OF k [OF s(2)], of "s\<lparr>cs_mem := ?w\<rparr>" s']
      by (simp add: with_struct_def Let_def length_write_at pointers_before_def)
    ultimately show ?thesis using same_outside_trans by blast
  next
    case False
    with f s assms(2,3) show ?thesis
      using confinedD(2) [OF k [OF s(2)], of s s'] by (simp add: with_struct_def Let_def)
  qed
qed

lemma length_concat_const: "\<forall>x \<in> set xs. length (f x) = n \<Longrightarrow> length (concat (map f xs)) = length xs * n"
  by (induction xs) simp_all

lemma confined_array:
  assumes "lo \<le> p" and "p + cnt * n \<le> hi" and "hi \<le> N"
    and len: "\<And>x. length (image (e_host e) (layout x)) = n" and "\<And>xs. length (sw xs cnt) = length xs"
    and k: "\<And>xs. confined e (\<lambda>_. True) N lo hi (k xs)"
  shows "confined e P N lo hi (with_array e p cnt n rd layout sw k)"
proof (rule confinedI)
  let ?xs = "\<lambda>s. map (\<lambda>j. rd (e_host e) (bytes_at (cs_mem s) n (p + j * n))) [0..<cnt]"
  let ?bs = "\<lambda>s. concat (map (\<lambda>x. image (e_host e) (layout x)) (sw (?xs s) cnt))"
  let ?t = "\<lambda>s. if e_swapped e then s\<lparr>cs_mem := write_at (cs_mem s) p (?bs s)\<rparr> else s"
  let ?k = "\<lambda>s. k (if e_swapped e then sw (?xs s) cnt else ?xs s)"
  have bs: "length (?bs s) = cnt * n" for s
    using len assms(5) by (subst length_concat_const [where n = n]) auto
  have run: "with_array e p cnt n rd layout sw k s = ?k s (?t s)"
    if "length (cs_mem s) = N" for s
    using that assms(2,3) by (simp add: with_array_def Let_def)
  have t: "length (cs_mem (?t s)) = N" "pointers_before hi (?t s)"
    "same_outside e lo hi (cs_mem s) (cs_mem (?t s))"
    if "length (cs_mem s) = N" "pointers_before hi s" for s
    using that assms(1-3) bs [of s]
    by (simp_all add: length_write_at pointers_before_def same_outside_write)
  {
    fix s f assume "length (cs_mem s) = N" "pointers_before hi s"
      and "with_array e p cnt n rd layout sw k s = Inl f"
    then show "f \<noteq> Out_of_bounds"
      using confinedD(1) [OF k, of "?t s" _ f] run [of s] t [of s] by metis
  }
  fix s s' assume s: "length (cs_mem s) = N" "pointers_before hi s"
    and "with_array e p cnt n rd layout sw k s = Inr s'"
  then have "same_outside e lo hi (cs_mem (?t s)) (cs_mem s') \<and> pointers_before hi s'"
    using confinedD(2) [OF k, of "?t s" _ s'] run [of s] t [of s] by metis
  then show "same_outside e lo hi (cs_mem s) (cs_mem s') \<and> pointers_before hi s'"
    using t(3) [OF s] same_outside_trans by blast
qed


section \<open>The checks stay inside their commands\<close>

lemma unat_word_lt: "unat (w :: u32) < 2 ^ 32"
  using unsigned_less [of w] by simp

lemma unat_ucast_up: "unat (ucast (w :: u32) :: u64) = unat w"
  using unat_word_lt [of w] by (simp add: unsigned_ucast_eq take_bit_nat_eq_self)


lemma image_lengths:
  "length (image h (layout_load_command x0)) = 8"
  "length (image h (layout_segment_command x1)) = 56"
  "length (image h (layout_segment_command_64 x2)) = 72"
  "length (image h (layout_section x3)) = 68"
  "length (image h (layout_section_64 x4)) = 80"
  "length (image h (layout_symtab_command x5)) = 24"
  "length (image h (layout_dysymtab_command x6)) = 80"
  "length (image h (layout_routines_command x7)) = 40"
  "length (image h (layout_routines_command_64 x8)) = 72"
  "length (image h (layout_twolevel_hints_command x9)) = 16"
  "length (image h (layout_linkedit_data_command x10)) = 16"
  "length (image h (layout_version_min_command x11)) = 16"
  "length (image h (layout_encryption_info_command x12)) = 20"
  "length (image h (layout_encryption_info_command_64 x13)) = 24"
  "length (image h (layout_linker_option_command x14)) = 12"
  "length (image h (layout_dyld_info_command x15)) = 48"
  "length (image h (layout_prebind_cksum_command x16)) = 12"
  "length (image h (layout_uuid_command x17)) = 24"
  "length (image h (layout_symseg_command x18)) = 16"
  "length (image h (layout_fvmlib_command x19)) = 20"
  "length (image h (layout_dylib_command x20)) = 24"
  "length (image h (layout_sub_framework_command x21)) = 12"
  "length (image h (layout_sub_umbrella_command x22)) = 12"
  "length (image h (layout_sub_library_command x23)) = 12"
  "length (image h (layout_sub_client_command x24)) = 12"
  "length (image h (layout_prebound_dylib_command x25)) = 20"
  "length (image h (layout_dylinker_command x26)) = 12"
  "length (image h (layout_thread_command x27)) = 8"
  "length (image h (layout_entry_point_command x28)) = 24"
  "length (image h (layout_source_version_command x29)) = 16"
  "length (image h (layout_ident_command x30)) = 8"
  "length (image h (layout_rpath_command x31)) = 12"
  by (simp_all add: length_image layout_load_command_def layout_segment_command_def layout_segment_command_64_def layout_section_def layout_section_64_def layout_symtab_command_def layout_dysymtab_command_def layout_routines_command_def layout_routines_command_64_def layout_twolevel_hints_command_def layout_linkedit_data_command_def layout_version_min_command_def layout_encryption_info_command_def layout_encryption_info_command_64_def layout_linker_option_command_def layout_dyld_info_command_def layout_prebind_cksum_command_def layout_uuid_command_def layout_symseg_command_def layout_fvmlib_command_def layout_dylib_command_def layout_sub_framework_command_def layout_sub_umbrella_command_def layout_sub_library_command_def layout_sub_client_command_def layout_prebound_dylib_command_def layout_dylinker_command_def layout_thread_command_def layout_entry_point_command_def layout_source_version_command_def layout_ident_command_def layout_rpath_command_def)

lemma keeps_list:
  "\<forall>c \<in> set cs. memory_kept hi c \<Longrightarrow> \<forall>c \<in> set ds. memory_kept hi c \<Longrightarrow>
     \<forall>c \<in> set (cs @ ds). memory_kept hi c"
  by auto

lemma confined_plain:
  assumes "lc + unat (lc_cmdsize l) \<le> N" and "\<And>x. length (image (e_host e) (layout x)) = n"
    and "n = unat (of_nat n :: u32)"
    and "\<And>x. memory_kept (lc + unat (lc_cmdsize l)) (k x)"
  shows "confined e P N lc (lc + unat (lc_cmdsize l))
    (in_turn [too_small (of_nat n) l name, with_struct e lc n rd layout sw k])"
  using assms
  by (intro confined_too_small confined_one confined_struct) (auto intro: confined_keeps)

lemma confined_once:
  assumes "lc + unat (lc_cmdsize l) \<le> N" and "\<And>x. length (image (e_host e) (layout x)) = n"
    and "n = unat (of_nat n :: u32)" and "pointer_size p \<le> n"
    and "\<And>x. memory_kept (lc + unat (lc_cmdsize l)) (k x)"
  shows "confined e P N lc (lc + unat (lc_cmdsize l))
    (in_turn [too_small (of_nat n) l name, once p lc name1, with_struct e lc n rd layout sw k])"
  using assms
  by (intro confined_too_small confined_first confined_one confined_struct)
    (auto intro: confined_keeps keeps_once)

text \<open>Each check, for a command whose bytes are in the memory.\<close>

lemma confined_symtab:
  "lc + unat (lc_cmdsize l) \<le> N \<Longrightarrow>
     confined e P N lc (lc + unat (lc_cmdsize l)) (check_symtab e lc l)"
  unfolding check_symtab_def [abs_def]
  by (auto simp: image_lengths intro!: confined_once [where n = 24, simplified] keeps_intros keeps_in_turn
      intro: keeps_check_table keeps_check_dyld_part)

lemma confined_dysymtab:
  "lc + unat (lc_cmdsize l) \<le> N \<Longrightarrow>
     confined e P N lc (lc + unat (lc_cmdsize l)) (check_dysymtab e lc l)"
  unfolding check_dysymtab_def [abs_def]
  by (auto simp: image_lengths intro!: confined_once [where n = 80, simplified] keeps_intros keeps_in_turn
      intro: keeps_check_table keeps_check_dyld_part)

lemma confined_routines:
  "lc + unat (lc_cmdsize l) \<le> N \<Longrightarrow>
     confined e P N lc (lc + unat (lc_cmdsize l)) (check_routines e lc l)"
  unfolding check_routines_def [abs_def]
  by (auto simp: image_lengths intro!: confined_once [where n = 40, simplified] keeps_intros keeps_in_turn
      intro: keeps_check_table keeps_check_dyld_part)

lemma confined_routines_64:
  "lc + unat (lc_cmdsize l) \<le> N \<Longrightarrow>
     confined e P N lc (lc + unat (lc_cmdsize l)) (check_routines_64 e lc l)"
  unfolding check_routines_64_def [abs_def]
  by (auto simp: image_lengths intro!: confined_once [where n = 72, simplified] keeps_intros keeps_in_turn
      intro: keeps_check_table keeps_check_dyld_part)

lemma confined_twolevel_hints:
  "lc + unat (lc_cmdsize l) \<le> N \<Longrightarrow>
     confined e P N lc (lc + unat (lc_cmdsize l)) (check_twolevel_hints e lc l)"
  unfolding check_twolevel_hints_def [abs_def]
  by (auto simp: image_lengths intro!: confined_once [where n = 16, simplified] keeps_intros keeps_in_turn
      intro: keeps_check_table keeps_check_dyld_part)

lemma confined_version_min:
  "lc + unat (lc_cmdsize l) \<le> N \<Longrightarrow>
     confined e P N lc (lc + unat (lc_cmdsize l)) (check_version_min e name lc l)"
  unfolding check_version_min_def [abs_def]
  by (auto simp: image_lengths intro!: confined_once [where n = 16, simplified] keeps_intros keeps_in_turn
      intro: keeps_check_table keeps_check_dyld_part)

lemma confined_encryption_info:
  "lc + unat (lc_cmdsize l) \<le> N \<Longrightarrow>
     confined e P N lc (lc + unat (lc_cmdsize l)) (check_encryption_info e lc l)"
  unfolding check_encryption_info_def [abs_def]
  by (auto simp: image_lengths intro!: confined_plain [where n = 20, simplified] keeps_intros keeps_in_turn
      intro: keeps_check_table keeps_check_dyld_part)

lemma confined_encryption_info_64:
  "lc + unat (lc_cmdsize l) \<le> N \<Longrightarrow>
     confined e P N lc (lc + unat (lc_cmdsize l)) (check_encryption_info_64 e lc l)"
  unfolding check_encryption_info_64_def [abs_def]
  by (auto simp: image_lengths intro!: confined_plain [where n = 24, simplified] keeps_intros keeps_in_turn
      intro: keeps_check_table keeps_check_dyld_part)

lemma confined_linker_option:
  "lc + unat (lc_cmdsize l) \<le> N \<Longrightarrow>
     confined e P N lc (lc + unat (lc_cmdsize l)) (check_linker_option e lc l)"
  unfolding check_linker_option_def [abs_def]
  by (auto simp: image_lengths intro!: confined_plain [where n = 12, simplified] keeps_intros keeps_in_turn
      intro: keeps_check_table keeps_check_dyld_part)

lemma confined_dyld_info:
  "lc + unat (lc_cmdsize l) \<le> N \<Longrightarrow>
     confined e P N lc (lc + unat (lc_cmdsize l)) (check_dyld_info e lc l)"
  unfolding check_dyld_info_def [abs_def]
  by (auto simp: image_lengths intro!: confined_plain [where n = 48, simplified] keeps_intros keeps_in_turn
      intro: keeps_check_table keeps_check_dyld_part)

lemma confined_prebind_cksum:
  "lc + unat (lc_cmdsize l) \<le> N \<Longrightarrow>
     confined e P N lc (lc + unat (lc_cmdsize l)) (check_prebind_cksum e lc l)"
  unfolding check_prebind_cksum_def [abs_def]
  by (auto simp: image_lengths intro!: confined_once [where n = 12, simplified] keeps_intros keeps_in_turn
      intro: keeps_check_table keeps_check_dyld_part)

lemma confined_uuid:
  "lc + unat (lc_cmdsize l) \<le> N \<Longrightarrow>
     confined e P N lc (lc + unat (lc_cmdsize l)) (check_uuid e lc l)"
  unfolding check_uuid_def [abs_def]
  by (auto simp: image_lengths intro!: confined_once [where n = 24, simplified] keeps_intros keeps_in_turn
      intro: keeps_check_table keeps_check_dyld_part)

lemma confined_symseg:
  "lc + unat (lc_cmdsize l) \<le> N \<Longrightarrow>
     confined e P N lc (lc + unat (lc_cmdsize l)) (check_symseg e lc l)"
  unfolding check_symseg_def [abs_def]
  by (auto simp: image_lengths intro!: confined_plain [where n = 16, simplified] keeps_intros keeps_in_turn
      intro: keeps_check_table keeps_check_dyld_part)

lemma confined_fvmlib:
  "lc + unat (lc_cmdsize l) \<le> N \<Longrightarrow>
     confined e P N lc (lc + unat (lc_cmdsize l)) (check_fvmlib e name lc l)"
  unfolding check_fvmlib_def [abs_def]
  by (auto simp: image_lengths intro!: confined_plain [where n = 20, simplified] keeps_intros keeps_in_turn
      intro: keeps_check_table keeps_check_dyld_part)

lemma confined_dylib:
  "lc + unat (lc_cmdsize l) \<le> N \<Longrightarrow>
     confined e P N lc (lc + unat (lc_cmdsize l)) (check_dylib e name lc l)"
  unfolding check_dylib_def [abs_def]
  by (auto simp: image_lengths intro!: confined_plain [where n = 24, simplified] keeps_intros keeps_in_turn
      intro: keeps_check_table keeps_check_dyld_part)

lemma confined_sub_framework:
  "lc + unat (lc_cmdsize l) \<le> N \<Longrightarrow>
     confined e P N lc (lc + unat (lc_cmdsize l)) (check_sub_framework e lc l)"
  unfolding check_sub_framework_def [abs_def]
  by (auto simp: image_lengths intro!: confined_plain [where n = 12, simplified] keeps_intros keeps_in_turn
      intro: keeps_check_table keeps_check_dyld_part)

lemma confined_sub_umbrella:
  "lc + unat (lc_cmdsize l) \<le> N \<Longrightarrow>
     confined e P N lc (lc + unat (lc_cmdsize l)) (check_sub_umbrella e lc l)"
  unfolding check_sub_umbrella_def [abs_def]
  by (auto simp: image_lengths intro!: confined_plain [where n = 12, simplified] keeps_intros keeps_in_turn
      intro: keeps_check_table keeps_check_dyld_part)

lemma confined_sub_library:
  "lc + unat (lc_cmdsize l) \<le> N \<Longrightarrow>
     confined e P N lc (lc + unat (lc_cmdsize l)) (check_sub_library e lc l)"
  unfolding check_sub_library_def [abs_def]
  by (auto simp: image_lengths intro!: confined_plain [where n = 12, simplified] keeps_intros keeps_in_turn
      intro: keeps_check_table keeps_check_dyld_part)

lemma confined_sub_client:
  "lc + unat (lc_cmdsize l) \<le> N \<Longrightarrow>
     confined e P N lc (lc + unat (lc_cmdsize l)) (check_sub_client e lc l)"
  unfolding check_sub_client_def [abs_def]
  by (auto simp: image_lengths intro!: confined_plain [where n = 12, simplified] keeps_intros keeps_in_turn
      intro: keeps_check_table keeps_check_dyld_part)

lemma confined_prebound_dylib:
  "lc + unat (lc_cmdsize l) \<le> N \<Longrightarrow>
     confined e P N lc (lc + unat (lc_cmdsize l)) (check_prebound_dylib e lc l)"
  unfolding check_prebound_dylib_def [abs_def]
  by (auto simp: image_lengths intro!: confined_plain [where n = 20, simplified] keeps_intros keeps_in_turn
      intro: keeps_check_table keeps_check_dyld_part)

lemma confined_dylinker:
  "lc + unat (lc_cmdsize l) \<le> N \<Longrightarrow>
     confined e P N lc (lc + unat (lc_cmdsize l)) (check_dylinker e name lc l)"
  unfolding check_dylinker_def [abs_def]
  by (auto simp: image_lengths intro!: confined_plain [where n = 12, simplified] keeps_intros keeps_in_turn
      intro: keeps_check_table keeps_check_dyld_part)

lemma confined_rpath:
  "lc + unat (lc_cmdsize l) \<le> N \<Longrightarrow>
     confined e P N lc (lc + unat (lc_cmdsize l)) (check_rpath e lc l)"
  unfolding check_rpath_def [abs_def]
  by (auto simp: image_lengths intro!: confined_plain [where n = 12, simplified] keeps_intros keeps_in_turn
      intro: keeps_check_table keeps_check_dyld_part)

lemma confined_main:
  "lc + unat (lc_cmdsize l) \<le> N \<Longrightarrow>
     confined e P N lc (lc + unat (lc_cmdsize l)) (check_main e lc l)"
  unfolding check_main_def [abs_def]
  by (auto simp: image_lengths intro!: confined_plain [where n = 24, simplified] keeps_intros keeps_in_turn
      intro: keeps_check_table keeps_check_dyld_part)

lemma confined_ident:
  "lc + unat (lc_cmdsize l) \<le> N \<Longrightarrow>
     confined e P N lc (lc + unat (lc_cmdsize l)) (check_ident e lc l)"
  unfolding check_ident_def [abs_def]
  by (auto simp: image_lengths intro!: confined_plain [where n = 8, simplified] keeps_intros keeps_in_turn
      intro: keeps_check_table keeps_check_dyld_part)

lemma confined_linkedit_data:
  assumes "lc + unat (lc_cmdsize l) \<le> N" and "pointer_size p = 0"
  shows "confined e P N lc (lc + unat (lc_cmdsize l)) (check_linkedit_data e p name1 name2 lc l)"
  unfolding check_linkedit_data_def [abs_def]
proof (rule confined_first)
  show "memory_kept (lc + unat (lc_cmdsize l)) (once p lc name1)"
    using assms by (intro keeps_once) simp
qed (use assms in \<open>auto simp: image_lengths intro!: confined_plain [where n = 16, simplified]
      keeps_intros keeps_in_turn intro: keeps_check_table\<close>)

lemma confined_source_version:
  assumes "lc + unat (lc_cmdsize l) \<le> N"
  shows "confined e P N lc (lc + unat (lc_cmdsize l)) (check_source_version e lc l)"
  unfolding check_source_version_def [abs_def] using assms
  by (intro confined_too_small confined_then confined_one confined_struct confined_ident)
    (auto simp: image_lengths intro: confined_keeps keeps_Inr)

text \<open>The size that a structure holds is that of the load command at its place.\<close>

lemma get32_bytes_at: "o1 + 4 \<le> n \<Longrightarrow> get32 h (bytes_at m n p) o1 = get32 h m (p + o1)"
  by (simp add: get32_def bytes_at_def drop_take min_def add.commute)

lemma cmdsize_at:
  "load_command_at e m lc = l \<Longrightarrow> lc_cmdsize l =
     (if e_swapped e then SWAP_INT (get32 (e_host e) m (lc + 4)) else get32 (e_host e) m (lc + 4))"
  by (auto simp: load_command_at_def Let_def read_load_command_def swap_load_command_def get32_bytes_at)

lemma confined_segment:
  assumes "lc + unat (lc_cmdsize l) \<le> N"
  shows "confined e (\<lambda>m. load_command_at e m lc = l) N lc (lc + unat (lc_cmdsize l))
    (check_segment e lc l)"
  unfolding check_segment_def [abs_def]
proof (intro confined_too_small confined_one confined_struct)
  fix m assume "unat (56 :: u32) \<le> unat (lc_cmdsize l)" and "load_command_at e m lc = l"
  then have size: "sg_cmdsize (if e_swapped e then swap_segment_command (read_segment_command (e_host e)
      (bytes_at m 56 lc)) else read_segment_command (e_host e) (bytes_at m 56 lc)) = lc_cmdsize l"
    by (simp add: cmdsize_at read_segment_command_def swap_segment_command_def get32_bytes_at)
  let ?sg = "if e_swapped e then swap_segment_command (read_segment_command (e_host e)
      (bytes_at m 56 lc)) else read_segment_command (e_host e) (bytes_at m 56 lc)"
  show "confined e (\<lambda>_. True) N lc (lc + unat (lc_cmdsize l))
    (in_turn [bad_if (ucast (sg_cmdsize ?sg) \<noteq> ucast (sg_nsects ?sg) * (68::u64) + 56)
         ''LC_SEGMENT inconsistent cmdsize'',
       bad_if (sg_fileoff ?sg > e_size e) ''LC_SEGMENT fileoff'',
       bad_if (past e (big_sum (sg_fileoff ?sg) (sg_filesize ?sg)))
         ''LC_SEGMENT fileoff plus filesize'',
       bad_if (sg_vmsize ?sg \<noteq> 0 \<and> sg_filesize ?sg > sg_vmsize ?sg)
         ''LC_SEGMENT filesize greater than vmsize'',
       with_array e (lc + 56) (unat (sg_nsects ?sg)) 68 read_macho_section layout_section
         swap_section (\<lambda>xs. in_turn (map (check_section e ?sg) xs))])"
  proof (intro confined_bad_if)
    assume "\<not> ucast (sg_cmdsize ?sg) \<noteq> ucast (sg_nsects ?sg) * (68::u64) + 56"
    then have "unat (ucast (lc_cmdsize l) :: u64) = unat (ucast (sg_nsects ?sg) * (68::u64) + 56)"
      by (simp add: size)
    then have "unat (lc_cmdsize l) = unat (sg_nsects ?sg) * 68 + 56"
      using unat_word_lt [of "sg_nsects ?sg"] by (simp add: unat_word_ariths unat_ucast_up)
    then show "confined e (\<lambda>_. True) N lc (lc + unat (lc_cmdsize l))
      (in_turn [with_array e (lc + 56) (unat (sg_nsects ?sg)) 68 read_macho_section layout_section
         swap_section (\<lambda>xs. in_turn (map (check_section e ?sg) xs))])"
      using assms
      by (intro confined_one confined_array)
        (auto simp: image_lengths swap_section_def intro!: confined_keeps keeps_in_turn
          keeps_check_section)
  qed
qed (use assms in \<open>auto simp: image_lengths\<close>)

lemma confined_segment_64:
  assumes "lc + unat (lc_cmdsize l) \<le> N"
  shows "confined e (\<lambda>m. load_command_at e m lc = l) N lc (lc + unat (lc_cmdsize l))
    (check_segment_64 e lc l)"
  unfolding check_segment_64_def [abs_def]
proof (intro confined_too_small confined_one confined_struct)
  fix m assume "unat (72 :: u32) \<le> unat (lc_cmdsize l)" and "load_command_at e m lc = l"
  then have size: "sg64_cmdsize (if e_swapped e then swap_segment_command_64
      (read_segment_command_64 (e_host e) (bytes_at m 72 lc))
      else read_segment_command_64 (e_host e) (bytes_at m 72 lc)) = lc_cmdsize l"
    by (simp add: cmdsize_at read_segment_command_64_def swap_segment_command_64_def get32_bytes_at)
  let ?sg = "if e_swapped e then swap_segment_command_64
      (read_segment_command_64 (e_host e) (bytes_at m 72 lc))
      else read_segment_command_64 (e_host e) (bytes_at m 72 lc)"
  show "confined e (\<lambda>_. True) N lc (lc + unat (lc_cmdsize l))
    (in_turn [bad_if (ucast (sg64_cmdsize ?sg) \<noteq> ucast (sg64_nsects ?sg) * (80::u64) + 72)
         ''LC_SEGMENT_64 inconsistent cmdsize'',
       bad_if (past e (sg64_fileoff ?sg)) ''LC_SEGMENT_64 fileoff'',
       bad_if (past e (sg64_fileoff ?sg + sg64_filesize ?sg)) ''LC_SEGMENT_64 fileoff plus filesize'',
       with_array e (lc + 72) (unat (sg64_nsects ?sg)) 80 read_macho_section_64
         layout_section_64 swap_section_64 (\<lambda>xs. in_turn (map (check_section_64 e ?sg) xs))])"
  proof (intro confined_bad_if)
    assume "\<not> ucast (sg64_cmdsize ?sg) \<noteq> ucast (sg64_nsects ?sg) * (80::u64) + 72"
    then have "unat (ucast (lc_cmdsize l) :: u64) = unat (ucast (sg64_nsects ?sg) * (80::u64) + 72)"
      by (simp add: size)
    then have "unat (lc_cmdsize l) = unat (sg64_nsects ?sg) * 80 + 72"
      using unat_word_lt [of "sg64_nsects ?sg"] by (simp add: unat_word_ariths unat_ucast_up)
    then show "confined e (\<lambda>_. True) N lc (lc + unat (lc_cmdsize l))
      (in_turn [with_array e (lc + 72) (unat (sg64_nsects ?sg)) 80 read_macho_section_64
         layout_section_64 swap_section_64 (\<lambda>xs. in_turn (map (check_section_64 e ?sg) xs))])"
      using assms
      by (intro confined_one confined_array)
        (auto simp: image_lengths swap_section_64_def intro!: confined_keeps keeps_in_turn
          keeps_check_section_64)
  qed
qed (use assms in \<open>auto simp: image_lengths\<close>)

section \<open>Threads\<close>

text \<open>What is known of the routines that swap thread states: they swap in place.\<close>

definition swaps_in_place :: "(cpu_type \<Rightarrow> u32 \<Rightarrow> u8 list \<Rightarrow> u8 list) \<Rightarrow> bool" where
  "swaps_in_place tswap \<longleftrightarrow> (\<forall>cputype flavor bs. length (tswap cputype flavor bs) = length bs)"

text \<open>A step that gives a pointer, with the state behind it.\<close>

definition confined_pointer ::
    "check_env \<Rightarrow> nat \<Rightarrow> nat \<Rightarrow> cstate \<Rightarrow> failure + 'a \<times> cstate \<Rightarrow> bool" where
  "confined_pointer e lo hi s r \<longleftrightarrow> (case r of Inl f \<Rightarrow> f \<noteq> Out_of_bounds
     | Inr (_, s') \<Rightarrow> same_outside e lo hi (cs_mem s) (cs_mem s') \<and> pointers_before hi s')"

lemma confined_read_word:
  assumes "lo \<le> p" and "p + 4 \<le> hi" and "hi \<le> length (cs_mem s)" and "pointers_before hi s"
  shows "confined_pointer e lo hi s (read_word e p s)"
  using assms same_outside_write [of e lo p "enc_field (e_host e) (F32 (SWAP_INT
      (get32 (e_host e) (cs_mem s) p)))" hi "cs_mem s"]
  by (simp add: confined_pointer_def read_word_def Let_def pointers_before_def)

lemma confined_check_state:
  assumes "lo \<le> p" and "lim \<le> hi" and "hi \<le> length (cs_mem s)" and "pointers_before hi s"
    and "swaps_in_place (e_thread_swap e)"
  shows "confined_pointer e lo hi s (check_state e rows lim p flavor cnt s)"
proof (cases "map_of rows flavor")
  case None
  then show ?thesis using assms by (simp add: check_state_def confined_pointer_def)
next
  case (Some r)
  obtain c n where r: "r = (c, n)" by (cases r)
  have "same_outside e lo hi (cs_mem s) (write_at (cs_mem s) p
      (e_thread_swap e (e_cputype e) flavor (bytes_at (cs_mem s) n p)))"
    if "e_swapped e" "p + n \<le> lim"
    using that assms by (intro same_outside_write) (simp_all add: swaps_in_place_def bytes_at_def)
  then show ?thesis
    using Some assms by (simp add: check_state_def confined_pointer_def r pointers_before_def)
qed

lemma confined_pointer_case:
  assumes "confined_pointer e lo hi s r"
    and "\<And>x t. same_outside e lo hi (cs_mem s) (cs_mem t) \<Longrightarrow> pointers_before hi t \<Longrightarrow>
      confined_pointer e lo hi t (g x t)"
  shows "confined_pointer e lo hi s (case r of Inl f \<Rightarrow> Inl f | Inr (x, t) \<Rightarrow> g x t)"
proof (cases r)
  case (Inl f)
  with assms(1) show ?thesis by (simp add: confined_pointer_def)
next
  case (Inr y)
  obtain x t where y: "y = (x, t)" by (cases y)
  with Inr assms(1) have t: "same_outside e lo hi (cs_mem s) (cs_mem t)" "pointers_before hi t"
    by (simp_all add: confined_pointer_def)
  from assms(2) [OF this, of x] show ?thesis
    using Inr y t same_outside_trans
    by (auto simp: confined_pointer_def split: sum.splits)
qed

lemma same_outside_length: "same_outside e lo hi m m' \<Longrightarrow> length m' = length m"
  by (simp add: same_outside_def)

lemma confined_check_flavor:
  assumes "lo \<le> p" and "lim \<le> hi" and "hi \<le> length (cs_mem s)" and "pointers_before hi s"
    and "swaps_in_place (e_thread_swap e)"
  shows "confined_pointer e lo hi s (check_flavor e rows lim p s)"
proof (cases "p + 4 > lim")
  case True
  then show ?thesis by (simp add: check_flavor_def confined_pointer_def)
next
  case False
  have "confined_pointer e lo hi s (case read_word e p s of Inl f \<Rightarrow> Inl f | Inr (flavor, s1) \<Rightarrow>
      if p + 8 > lim then Inl (Bad ''count extends past end of command'')
      else case read_word e (p + 4) s1 of Inl f \<Rightarrow> Inl f | Inr (cnt, s2) \<Rightarrow>
        check_state e rows lim (p + 8) flavor cnt s2)"
  proof (rule confined_pointer_case)
    show "confined_pointer e lo hi s (read_word e p s)"
      using False assms by (intro confined_read_word) auto
  next
    fix flavor t
    assume t: "same_outside e lo hi (cs_mem s) (cs_mem t)" "pointers_before hi t"
    show "confined_pointer e lo hi t (if p + 8 > lim then Inl (Bad ''count extends past end of command'')
      else case read_word e (p + 4) t of Inl f \<Rightarrow> Inl f | Inr (cnt, s2) \<Rightarrow>
        check_state e rows lim (p + 8) flavor cnt s2)"
    proof (cases "p + 8 > lim")
      case True
      then show ?thesis by (simp add: confined_pointer_def)
    next
      case False
      have "confined_pointer e lo hi t (case read_word e (p + 4) t of Inl f \<Rightarrow> Inl f
        | Inr (cnt, s2) \<Rightarrow> check_state e rows lim (p + 8) flavor cnt s2)"
        using False assms t
        by (intro confined_pointer_case confined_read_word confined_check_state)
          (auto dest!: same_outside_length)
      with False show ?thesis by simp
    qed
  qed
  with False show ?thesis by (simp add: check_flavor_def)
qed

lemma confined_check_flavors:
  assumes "lim \<le> hi" and "hi \<le> N" and "lo \<le> p" and "swaps_in_place (e_thread_swap e)"
  shows "confined e P N lo hi (check_flavors e rows lim p)"
proof -
  have "(case check_flavors e rows lim p s of Inl f \<Rightarrow> f \<noteq> Out_of_bounds
      | Inr s' \<Rightarrow> same_outside e lo hi (cs_mem s) (cs_mem s') \<and> pointers_before hi s')"
    if "hi \<le> length (cs_mem s)" "pointers_before hi s" for s
    using assms(1,3,4) that
  proof (induction e rows lim p s rule: check_flavors.induct)
    case (1 e rows lim p s)
    show ?case
    proof (cases "p < lim")
      case False
      with 1 show ?thesis by (simp add: check_flavors.simps)
    next
      case True
      have c: "confined_pointer e lo hi s (check_flavor e rows lim p s)"
        using "1.prems" by (intro confined_check_flavor)
      show ?thesis
      proof (cases "check_flavor e rows lim p s")
        case (Inl f)
        with True c show ?thesis by (simp add: check_flavors.simps confined_pointer_def)
      next
        case (Inr y)
        obtain q t where y: "y = (q, t)" by (cases y)
        with Inr c have t: "same_outside e lo hi (cs_mem s) (cs_mem t)" "pointers_before hi t"
          by (simp_all add: confined_pointer_def)
        from Inr y have "p + 8 \<le> q" using check_flavor_moves by simp
        with "1.IH" [OF True Inr y [symmetric]] "1.prems" t
        have IH: "case check_flavors e rows lim q t of Inl f \<Rightarrow> f \<noteq> Out_of_bounds
          | Inr s' \<Rightarrow> same_outside e lo hi (cs_mem t) (cs_mem s') \<and> pointers_before hi s'"
          by (simp add: same_outside_def)
        show ?thesis
          using True Inr y IH t(1) same_outside_trans
          by (subst check_flavors.simps) (auto split: sum.splits)
      qed
    qed
  qed
  with assms(2) show ?thesis by (simp add: confined_def)
qed

lemma confined_thread:
  assumes "lc + unat (lc_cmdsize l) \<le> N" and "swaps_in_place (e_thread_swap e)"
  shows "confined e (\<lambda>m. load_command_at e m lc = l) N lc (lc + unat (lc_cmdsize l))
    (check_thread e name lc l)"
  unfolding check_thread_def [abs_def]
proof (intro confined_too_small confined_one confined_struct)
  fix m assume "load_command_at e m lc = l"
  then have size: "ut_cmdsize (if e_swapped e then swap_thread_command (read_thread_command (e_host e)
      (bytes_at m 8 lc)) else read_thread_command (e_host e) (bytes_at m 8 lc)) = lc_cmdsize l"
    by (simp add: cmdsize_at read_thread_command_def swap_thread_command_def get32_bytes_at)
  show "confined e (\<lambda>_. True) N lc (lc + unat (lc_cmdsize l))
    (case thread_flavors (e_cputype e) of
       None \<Rightarrow> bad_if (e_swapped e) (name @ '' unknown cputype'')
     | Some rows \<Rightarrow> check_flavors e rows (lc + unat (ut_cmdsize (if e_swapped e
         then swap_thread_command (read_thread_command (e_host e) (bytes_at m 8 lc))
         else read_thread_command (e_host e) (bytes_at m 8 lc)))) (lc + 8))"
    unfolding size
  proof (cases "thread_flavors (e_cputype e)")
    case None
    then show "confined e (\<lambda>_. True) N lc (lc + unat (lc_cmdsize l))
      (case thread_flavors (e_cputype e) of None \<Rightarrow> bad_if (e_swapped e) (name @ '' unknown cputype'')
       | Some rows \<Rightarrow> check_flavors e rows (lc + unat (lc_cmdsize l)) (lc + 8))"
      by (simp add: confined_keeps keeps_bad_if)
  next
    case (Some rows)
    then show "confined e (\<lambda>_. True) N lc (lc + unat (lc_cmdsize l))
      (case thread_flavors (e_cputype e) of None \<Rightarrow> bad_if (e_swapped e) (name @ '' unknown cputype'')
       | Some rows \<Rightarrow> check_flavors e rows (lc + unat (lc_cmdsize l)) (lc + 8))"
      using assms by (simp add: confined_check_flavors)
  qed
qed (use assms in \<open>auto simp: image_lengths\<close>)

section \<open>The pass\<close>

lemma confined_weaken: "confined e (\<lambda>_. True) N lo hi c \<Longrightarrow> confined e P N lo hi c"
  by (simp add: confined_def)

lemma confined_command_checks:
  assumes "lc + unat (lc_cmdsize l) \<le> N" and "swaps_in_place (e_thread_swap e)"
  shows "\<forall>(cmd, check) \<in> set (command_checks e lc l).
    confined e (\<lambda>m. load_command_at e m lc = l) N lc (lc + unat (lc_cmdsize l)) check"
  using assms
  by (simp add: command_checks_def confined_segment confined_segment_64 confined_symtab
      confined_dysymtab confined_routines confined_routines_64 confined_twolevel_hints
      confined_linkedit_data confined_version_min confined_encryption_info
      confined_encryption_info_64 confined_linker_option confined_dyld_info confined_prebind_cksum
      confined_uuid confined_symseg confined_fvmlib confined_dylib confined_sub_framework
      confined_sub_umbrella confined_sub_library confined_sub_client confined_prebound_dylib
      confined_dylinker confined_rpath confined_main confined_ident confined_source_version
      confined_thread)

lemma confined_check_command:
  assumes "lc + unat (lc_cmdsize l) \<le> N" and "swaps_in_place (e_thread_swap e)"
  shows "confined e (\<lambda>m. load_command_at e m lc = l) N lc (lc + unat (lc_cmdsize l))
    (check_command e lc l)"
proof (cases "map_of (command_checks e lc l) (lc_cmd l)")
  case None
  then show ?thesis by (simp add: confined_def check_command_def)
next
  case (Some check)
  then have "(lc_cmd l, check) \<in> set (command_checks e lc l)" by (rule map_of_SomeD)
  with confined_command_checks [OF assms] have "confined e (\<lambda>m. load_command_at e m lc = l) N lc
      (lc + unat (lc_cmdsize l)) check" by blast
  with Some show ?thesis by (simp add: confined_def check_command_def)
qed

lemma pointers_before_mono: "pointers_before b s \<Longrightarrow> b \<le> c \<Longrightarrow> pointers_before c s"
  by (auto simp: pointers_before_def intro: order_trans)

text \<open>
  Where a turn of the loop stands: the pointer and the sum of the sizes agree, and the pointers are
  at commands that were seen.
\<close>

definition stands_at :: "check_env \<Rightarrow> nat \<Rightarrow> nat \<Rightarrow> u64 \<Rightarrow> cstate \<Rightarrow> bool" where
  "stands_at e N lc big_load_end s \<longleftrightarrow> unat big_load_end = lc \<and> lc \<le> unat (e_sizeofcmds e)
     \<and> unat (e_sizeofcmds e) \<le> N \<and> length (cs_mem s) = N \<and> pointers_before lc s"

lemma unat_plus_up:
  assumes "unat a \<le> unat (k :: u32)"
  shows "unat (a + ucast (w :: u32) :: u64) = unat a + unat w"
    and "unat (a + 8 :: u64) = unat a + 8"
proof -
  have "unat a < 2 ^ 32" "unat w < 2 ^ 32" using assms unat_word_lt [of k] unat_word_lt [of w] by auto
  then show "unat (a + ucast w) = unat a + unat w" "unat (a + 8 :: u64) = unat a + 8"
    by (simp_all add: unat_word_ariths unat_ucast_up)
qed

lemma check_next_cases:
  assumes "stands_at e N lc big_load_end s" and "swaps_in_place (e_thread_swap e)"
  shows "check_next e lc big_load_end s = Inl f \<Longrightarrow> f \<noteq> Out_of_bounds"
    and "check_next e lc big_load_end s = Inr (lc', big', s') \<Longrightarrow>
      (let l = load_command_at e (cs_mem s) lc in
         lc + 8 \<le> unat (e_sizeofcmds e) \<and> lc' = lc + unat (lc_cmdsize l) \<and> 0 < unat (lc_cmdsize l)
         \<and> \<not> bad_cmdsize e l \<and> check_command e lc l s = Inr s'
         \<and> same_outside e lc lc' (cs_mem s) (cs_mem s') \<and> stands_at e N lc' big' s')"
proof -
  let ?l = "load_command_at e (cs_mem s) lc"
  have lc: "unat big_load_end = lc" "lc \<le> unat (e_sizeofcmds e)" "unat (e_sizeofcmds e) \<le> N"
    "length (cs_mem s) = N" and pb: "pointers_before lc s"
    using assms(1) by (simp_all add: stands_at_def)
  have past8: "big_load_end + 8 > ucast (e_sizeofcmds e) \<longleftrightarrow> lc + 8 > unat (e_sizeofcmds e)"
    using unat_plus_up(2) [of big_load_end "e_sizeofcmds e"] lc
    by (simp add: word_less_nat_alt unat_ucast_up)
  have sum: "unat (big_load_end + ucast (lc_cmdsize ?l)) = lc + unat (lc_cmdsize ?l)"
    using unat_plus_up(1) [of big_load_end "e_sizeofcmds e" "lc_cmdsize ?l"] lc by simp
  have past: "big_load_end + ucast (lc_cmdsize ?l) > ucast (e_sizeofcmds e)
      \<longleftrightarrow> lc + unat (lc_cmdsize ?l) > unat (e_sizeofcmds e)"
    by (simp add: word_less_nat_alt unat_ucast_up sum)
  have c: "confined e (\<lambda>m. load_command_at e m lc = ?l) N lc (lc + unat (lc_cmdsize ?l))
      (check_command e lc ?l)" if "lc + unat (lc_cmdsize ?l) \<le> unat (e_sizeofcmds e)"
    using that lc(3) by (intro confined_check_command assms(2)) simp
  have pb': "pointers_before (lc + unat (lc_cmdsize ?l)) s"
    using pb by (rule pointers_before_mono) simp
  {
    assume *: "check_next e lc big_load_end s = Inl f"
    show "f \<noteq> Out_of_bounds"
    proof (cases "lc + unat (lc_cmdsize ?l) > unat (e_sizeofcmds e) \<or> bad_cmdsize e ?l
        \<or> lc_cmdsize ?l = 0 \<or> lc + 8 > unat (e_sizeofcmds e)")
      case True
      with * lc show ?thesis by (auto simp: check_next_def past8 past Let_def split: if_split_asm)
    next
      case False
      with * lc have "check_command e lc ?l s = Inl f"
        by (auto simp: check_next_def past8 past Let_def split: sum.splits)
      with False show ?thesis
        using confinedD(1) [OF c, of s f] lc pb' by simp
    qed
  }
  assume *: "check_next e lc big_load_end s = Inr (lc', big', s')"
  then have k: "lc + 8 \<le> unat (e_sizeofcmds e)" "\<not> bad_cmdsize e ?l" "lc_cmdsize ?l \<noteq> 0"
    "lc + unat (lc_cmdsize ?l) \<le> unat (e_sizeofcmds e)" "lc' = lc + unat (lc_cmdsize ?l)"
    "big' = big_load_end + ucast (lc_cmdsize ?l)" "check_command e lc ?l s = Inr s'"
    by (auto simp: check_next_def past8 past Let_def split: if_split_asm sum.splits)
  have o: "same_outside e lc lc' (cs_mem s) (cs_mem s') \<and> pointers_before lc' s'"
    using confinedD(2) [OF c [OF k(4)], of s s'] k(5,7) lc pb' by simp
  moreover have "0 < unat (lc_cmdsize ?l)" using k(3) by (simp add: unat_gt_0)
  moreover have "stands_at e N lc' big' s'"
    using k lc o sum same_outside_length [OF conjunct1 [OF o]] by (simp add: stands_at_def)
  ultimately show "let l = load_command_at e (cs_mem s) lc in
         lc + 8 \<le> unat (e_sizeofcmds e) \<and> lc' = lc + unat (lc_cmdsize l) \<and> 0 < unat (lc_cmdsize l)
         \<and> \<not> bad_cmdsize e l \<and> check_command e lc l s = Inr s'
         \<and> same_outside e lc lc' (cs_mem s) (cs_mem s') \<and> stands_at e N lc' big' s'"
    using k by (simp add: Let_def)
qed

text \<open>An induction over the pass, for what every turn keeps.\<close>

lemma check_commands_induct:
  assumes "swaps_in_place (e_thread_swap e)" and "check_commands e n lc big s = Inr (lc1, s1)"
    and "stands_at e N lc big s"
    and "\<And>lc s. Q lc s 0 lc s"
    and "\<And>n lc big s lc' s' lc1 s1. stands_at e N lc big s \<Longrightarrow>
      lc + 8 \<le> unat (e_sizeofcmds e) \<Longrightarrow>
      lc' = lc + unat (lc_cmdsize (load_command_at e (cs_mem s) lc)) \<Longrightarrow> lc < lc' \<Longrightarrow>
      \<not> bad_cmdsize e (load_command_at e (cs_mem s) lc) \<Longrightarrow>
      check_command e lc (load_command_at e (cs_mem s) lc) s = Inr s' \<Longrightarrow>
      same_outside e lc lc' (cs_mem s) (cs_mem s') \<Longrightarrow> pointers_before lc' s' \<Longrightarrow>
      Q lc' s' n lc1 s1 \<Longrightarrow> Q lc s (Suc n) lc1 s1"
  shows "Q lc s n lc1 s1 \<and> (\<exists>big1. stands_at e N lc1 big1 s1)"
  using assms(2,3)
proof (induction n arbitrary: lc big s)
  case 0
  then show ?case using assms(4) by auto
next
  case (Suc n)
  then obtain lc' big' s' where step: "check_next e lc big s = Inr (lc', big', s')"
    and rest: "check_commands e n lc' big' s' = Inr (lc1, s1)"
    by (auto split: sum.splits)
  note k = check_next_cases(2) [OF Suc.prems(2) assms(1) step, unfolded Let_def]
  from k Suc.IH [OF rest] have "Q lc' s' n lc1 s1" and st: "\<exists>big1. stands_at e N lc1 big1 s1" by auto
  moreover have "pointers_before lc' s'" "lc < lc'" using k by (auto simp: stands_at_def)
  ultimately have "Q lc s (Suc n) lc1 s1"
    using k by (intro assms(5) [OF Suc.prems(2), where lc' = lc' and s' = s']) auto
  with st show ?case by blast
qed

lemma check_commands_safe:
  assumes "swaps_in_place (e_thread_swap e)" and "stands_at e N lc big s"
  shows "check_commands e n lc big s = Inl f \<Longrightarrow> f \<noteq> Out_of_bounds"
  using assms(2)
proof (induction n arbitrary: lc big s)
  case (Suc n)
  show ?case
  proof (cases "check_next e lc big s")
    case (Inl g)
    with Suc.prems check_next_cases(1) [OF Suc.prems(2) assms(1) Inl] show ?thesis by simp
  next
    case (Inr y)
    obtain lc' big' s' where y: "y = (lc', big', s')" by (cases y)
    with Inr have step: "check_next e lc big s = Inr (lc', big', s')" by simp
    have "stands_at e N lc' big' s'"
      using check_next_cases(2) [OF Suc.prems(2) assms(1) step, unfolded Let_def] by blast
    with Suc Inr y show ?thesis by simp
  qed
qed simp

section \<open>The commands together\<close>

definition reads_only :: "nat \<Rightarrow> check_run \<Rightarrow> bool" where
  "reads_only N c \<longleftrightarrow> (\<forall>s. length (cs_mem s) = N \<longrightarrow> pointers_before N s \<longrightarrow>
     c s = Inr s \<or> (\<exists>f. c s = Inl f \<and> f \<noteq> Out_of_bounds))"

named_theorems reads_intros \<open>steps that only read\<close>

lemma reads_bad_if [reads_intros]: "reads_only N (bad_if b text)"
  by (simp add: reads_only_def bad_if_def)

lemma reads_in_turn: "\<forall>c \<in> set cs. reads_only N c \<Longrightarrow> reads_only N (in_turn cs)"
proof (induction cs)
  case (Cons c cs)
  then have c: "reads_only N c" and cs: "reads_only N (in_turn cs)" by simp_all
  show ?case
    unfolding reads_only_def
  proof (intro allI impI)
    fix s assume s: "length (cs_mem s) = N" "pointers_before N s"
    with c have "c s = Inr s \<or> (\<exists>f. c s = Inl f \<and> f \<noteq> Out_of_bounds)"
      unfolding reads_only_def by blast
    moreover from s cs have "in_turn cs s = Inr s \<or> (\<exists>f. in_turn cs s = Inl f \<and> f \<noteq> Out_of_bounds)"
      unfolding reads_only_def by blast
    ultimately show "in_turn (c # cs) s = Inr s
        \<or> (\<exists>f. in_turn (c # cs) s = Inl f \<and> f \<noteq> Out_of_bounds)"
      by auto
  qed
qed (simp add: reads_only_def)

lemma reads_deref [reads_intros]:
  "(\<And>x. reads_only N (k x)) \<Longrightarrow> p + n \<le> N \<Longrightarrow> reads_only N (deref_struct e p n rd k)"
  by (simp add: reads_only_def deref_struct_def)

text \<open>A step that follows a pointer variable when it is not null.\<close>

lemma reads_pointer [reads_intros]:
  assumes "\<And>q. q + pointer_size p \<le> N \<Longrightarrow> reads_only N (c q)"
  shows "reads_only N (\<lambda>t. case cs_ptr t p of None \<Rightarrow> Inr t | Some q \<Rightarrow> c q t)"
  unfolding reads_only_def
proof (intro allI impI)
  fix s assume s: "length (cs_mem s) = N" "pointers_before N s"
  show "(case cs_ptr s p of None \<Rightarrow> Inr s | Some q \<Rightarrow> c q s) = Inr s
    \<or> (\<exists>f. (case cs_ptr s p of None \<Rightarrow> Inr s | Some q \<Rightarrow> c q s) = Inl f \<and> f \<noteq> Out_of_bounds)"
  proof (cases "cs_ptr s p")
    case (Some q)
    with s have "q + pointer_size p \<le> N" by (simp add: pointers_before_def)
    from assms [OF this] s Some show ?thesis unfolding reads_only_def by simp
  qed simp
qed

lemma reads_check_groups: "reads_only N (check_groups e st dyst)"
  unfolding check_groups_def [abs_def]
  by (rule reads_in_turn) (auto simp: check_group_def intro!: reads_intros)

lemma reads_check_together: "reads_only N (check_together e)"
  unfolding reads_only_def
proof (intro allI impI)
  fix s assume s: "length (cs_mem s) = N" "pointers_before N s"
  show "check_together e s = Inr s \<or> (\<exists>f. check_together e s = Inl f \<and> f \<noteq> Out_of_bounds)"
  proof (cases "cs_ptr s P_st")
    case None
    then show ?thesis by (simp add: check_together_def bad_if_def)
  next
    case p: (Some p)
    show ?thesis
    proof (cases "cs_ptr s P_dyst")
      case None
      with p show ?thesis by (simp add: check_together_def)
    next
      case (Some q)
      with p s have "p + 24 \<le> N" "q + 80 \<le> N"
        using s(2) unfolding pointers_before_def by (metis pointer_size.simps)+
      then have "reads_only N (deref_struct e p 24 read_symtab_command
          (\<lambda>st. deref_struct e q 80 read_dysymtab_command (check_groups e st)))"
        by (intro reads_deref reads_check_groups)
      with p Some s show ?thesis unfolding reads_only_def by (simp add: check_together_def)
    qed
  qed
qed

section \<open>The whole check\<close>

text \<open>
  The memory of an object: it reaches from the load commands to the end of the object, and the
  architecture of a fat file is one of its table.
\<close>

definition fat_fields_ok :: "ofile \<Rightarrow> bool" where
  "fat_fields_ok f \<longleftrightarrow> (of_file_type f = OFILE_FAT \<longrightarrow> unat (of_narch f) <
     (if fh_magic (of_fat_header f) = 0xcafebabf then length (of_fat_archs64 f) else length (of_fat_archs f)))"

lemma fat_fields_ok_update [simp]:
  "fat_fields_ok (f\<lparr>of_mh := x\<rparr>) = fat_fields_ok f"
  "fat_fields_ok (f\<lparr>of_mh64 := y\<rparr>) = fat_fields_ok f"
  "fat_fields_ok (f\<lparr>of_mh_cputype := a\<rparr>) = fat_fields_ok f"
  "fat_fields_ok (f\<lparr>of_mh_cpusubtype := b\<rparr>) = fat_fields_ok f"
  "fat_fields_ok (f\<lparr>of_mh_filetype := c\<rparr>) = fat_fields_ok f"
  "fat_fields_ok (f\<lparr>of_object_size := d\<rparr>) = fat_fields_ok f"
  "fat_fields_ok (f\<lparr>of_object_byte_sex := e\<rparr>) = fat_fields_ok f"
  "fat_fields_ok (f\<lparr>of_load_commands := bs\<rparr>) = fat_fields_ok f"
  "fat_fields_ok (f\<lparr>of_headers_swapped := sw\<rparr>) = fat_fields_ok f"
  by (simp_all add: fat_fields_ok_def)

definition memory_of :: "ofile \<Rightarrow> nat \<Rightarrow> bool" where
  "memory_of f header \<longleftrightarrow> length (of_load_commands f) + header = unat (of_object_size f) \<and> fat_fields_ok f"

definition first_state :: "ofile \<Rightarrow> cstate" where
  "first_state f = \<lparr>cs_mem = of_load_commands f, cs_elements = [], cs_ptr = (\<lambda>_. None)\<rparr>"

lemma check_fat_cputype_safe:
  assumes "fat_fields_ok f"
  shows "check_fat_cputype f s = Inr s \<or> (\<exists>g. check_fat_cputype f s = Inl g \<and> g \<noteq> Out_of_bounds)"
  using assms by (auto simp: check_fat_cputype_def bad_if_def Let_def fat_fields_ok_def split: if_splits)

text \<open>What is known when the loop starts, and what an accepted object went through.\<close>

lemma check_object_file_starts:
  assumes "memory_of f header" and "header + unat (e_sizeofcmds e) \<le> unat (of_object_size f)"
  shows "(\<exists>g. check_object_file e f = Inl g \<and> g \<noteq> Out_of_bounds) \<or>
    (\<exists>es. place 0 (e_sizeofhdrs e) ''Mach-O headers'' (first_state f)
        = Inr (first_state f\<lparr>cs_elements := es\<rparr>)
      \<and> stands_at e (length (of_load_commands f)) 0 0 (first_state f\<lparr>cs_elements := es\<rparr>)
      \<and> check_object_file e f =
        (case check_commands e (unat (e_ncmds e)) 0 0 (first_state f\<lparr>cs_elements := es\<rparr>) of
           Inl x \<Rightarrow> Inl x
         | Inr (lc, s1) \<Rightarrow>
           (case in_turn [check_together e,
               bad_if (unat (e_sizeofcmds e) \<noteq> lc) ''inconsistent sizeofcmds''] s1 of
              Inl x \<Rightarrow> Inl x
            | Inr s2 \<Rightarrow> Inr (f\<lparr>of_load_commands := cs_mem s2,
                of_headers_swapped := e_swapped e \<or> of_headers_swapped f\<rparr>, s2))))"
proof (cases "place 0 (e_sizeofhdrs e) ''Mach-O headers'' (first_state f)")
  case (Inl x)
  then show ?thesis
    by (auto simp: check_object_file_def place_def check_overlaping_element_def first_state_def
        split: if_split_asm)
next
  case (Inr s)
  then obtain es where es: "s = first_state f\<lparr>cs_elements := es\<rparr>"
    by (auto simp: place_def split: sum.splits)
  have "stands_at e (length (of_load_commands f)) 0 0 s"
    using assms by (simp add: stands_at_def es first_state_def pointers_before_def memory_of_def)
  moreover have "check_fat_cputype f s = Inr s
      \<or> (\<exists>g. check_fat_cputype f s = Inl g \<and> g \<noteq> Out_of_bounds)"
    using assms(1) by (intro check_fat_cputype_safe) (simp add: memory_of_def)
  ultimately show ?thesis
    using Inr es by (auto simp: check_object_file_def first_state_def [symmetric])
qed

text \<open>
  The commands of an object, as the tools go over them after the check: \<open>n\<close> commands from \<open>lc\<close> to
  \<open>lim\<close>, each of a size that is not zero and passes the test of the multiple.
\<close>

primrec commands_fill :: "check_env \<Rightarrow> u8 list \<Rightarrow> nat \<Rightarrow> nat \<Rightarrow> nat \<Rightarrow> bool" where
  "commands_fill e m 0 lc lim \<longleftrightarrow> lc = lim"
| "commands_fill e m (Suc n) lc lim \<longleftrightarrow>
     (let l = load_command_at e m lc in
        lc + 8 \<le> unat (e_sizeofcmds e) \<and> 0 < unat (lc_cmdsize l) \<and> \<not> bad_cmdsize e l
        \<and> lc_cmd l \<in> set (map fst (command_checks e lc l))
        \<and> commands_fill e m n (lc + unat (lc_cmdsize l)) lim)"

lemma load_command_at_drop: "drop lc m = drop lc m' \<Longrightarrow> load_command_at e m lc = load_command_at e m' lc"
  by (simp add: load_command_at_def bytes_at_def)

lemma drop_same_mono: "drop k m = drop k m' \<Longrightarrow> k \<le> k' \<Longrightarrow> drop k' m = drop k' m'"
  by (metis drop_drop le_add_diff_inverse2)

lemma commands_fill_cong:
  "drop lc m = drop lc m' \<Longrightarrow> commands_fill e m n lc lim = commands_fill e m' n lc lim"
proof (induction n arbitrary: lc)
  case (Suc n)
  have "commands_fill e m n (lc + k) lim = commands_fill e m' n (lc + k) lim" for k
    using Suc.prems by (intro Suc.IH) (rule drop_same_mono, auto)
  with load_command_at_drop [OF Suc.prems] show ?case by (simp add: Let_def)
qed simp

lemma check_command_known:
  "check_command e lc l s = Inr s' \<Longrightarrow> lc_cmd l \<in> set (map fst (command_checks e lc l))"
  by (auto simp: check_command_def dest!: map_of_SomeD split: option.splits intro: rev_image_eqI)

lemma same_outside_widen:
  assumes "same_outside e lo hi m m1" and "same_outside e hi hi' m1 m2" and "lo \<le> hi" and "hi \<le> hi'"
  shows "same_outside e lo hi' m m2"
proof -
  have "take lo m2 = take lo m1"
    using assms(2,3) unfolding same_outside_def by (metis min.absorb1 take_take)
  moreover have "drop hi' m1 = drop hi' m"
    using assms(1,4) unfolding same_outside_def by (metis drop_same_mono)
  ultimately show ?thesis using assms(1,2) by (simp add: same_outside_def)
qed

lemma check_commands_effect:
  assumes "swaps_in_place (e_thread_swap e)" and "check_commands e n lc big s = Inr (lc1, s1)"
    and "stands_at e N lc big s"
  shows "lc \<le> lc1 \<and> same_outside e lc lc1 (cs_mem s) (cs_mem s1)
    \<and> commands_fill e (cs_mem s) n lc lc1 \<and> (\<exists>big1. stands_at e N lc1 big1 s1)"
proof -
  let ?Q = "\<lambda>lc s n lc1 s1. lc \<le> lc1 \<and> same_outside e lc lc1 (cs_mem s) (cs_mem s1)
    \<and> commands_fill e (cs_mem s) n lc lc1"
  have "?Q lc s n lc1 s1 \<and> (\<exists>big1. stands_at e N lc1 big1 s1)"
  proof (rule check_commands_induct [where Q = ?Q, OF assms])
    fix n lc big s lc' s' lc1 s1
    assume step: "lc' = lc + unat (lc_cmdsize (load_command_at e (cs_mem s) lc))" "lc < lc'"
      "lc + 8 \<le> unat (e_sizeofcmds e)" "\<not> bad_cmdsize e (load_command_at e (cs_mem s) lc)"
      "check_command e lc (load_command_at e (cs_mem s) lc) s = Inr s'"
      and o1: "same_outside e lc lc' (cs_mem s) (cs_mem s')"
      and Q: "?Q lc' s' n lc1 s1"
    have "commands_fill e (cs_mem s) n lc' lc1"
      using Q o1 by (subst commands_fill_cong [of lc' _ "cs_mem s'"]) (simp_all add: same_outside_def)
    with step Q o1 show "?Q lc s (Suc n) lc1 s1"
      using check_command_known [OF step(5)] same_outside_widen [OF o1]
      by (auto simp: Let_def)
  qed simp
  then show ?thesis by blast
qed

lemma check_end_Inr:
  "(case r of Inl x \<Rightarrow> Inl x | Inr (lc, s1) \<Rightarrow>
      (case h lc s1 of Inl x \<Rightarrow> Inl x | Inr s2 \<Rightarrow> Inr (k s2, s2))) = Inr (g, s)
   \<longleftrightarrow> (\<exists>lc s1. r = Inr (lc, s1) \<and> h lc s1 = Inr s \<and> g = k s)"
  by (cases r) (auto split: sum.splits prod.splits)

lemma check_end_Inl:
  "(case r of Inl x \<Rightarrow> Inl x | Inr (lc, s1) \<Rightarrow>
      (case h lc s1 of Inl x \<Rightarrow> Inl x | Inr s2 \<Rightarrow> Inr (k s2, s2))) = Inl x
   \<longleftrightarrow> r = Inl x \<or> (\<exists>lc s1. r = Inr (lc, s1) \<and> h lc s1 = Inl x)"
  by (cases r) (auto split: sum.splits prod.splits)

lemma check_together_result:
  assumes "stands_at e N lc big s"
  shows "check_together e s = Inr s \<or> (\<exists>f. check_together e s = Inl f \<and> f \<noteq> Out_of_bounds)"
  using assms reads_check_together [of N e] pointers_before_mono [of lc s N]
  unfolding reads_only_def stands_at_def by fastforce

text \<open>An accepted object, step by step.\<close>

lemma check_object_file_accepts:
  assumes "memory_of f header" and "header + unat (e_sizeofcmds e) \<le> unat (of_object_size f)"
    and "swaps_in_place (e_thread_swap e)" and "check_object_file e f = Inr (g, s)"
  obtains es big where "place 0 (e_sizeofhdrs e) ''Mach-O headers'' (first_state f)
        = Inr (first_state f\<lparr>cs_elements := es\<rparr>)"
    and "check_commands e (unat (e_ncmds e)) 0 0 (first_state f\<lparr>cs_elements := es\<rparr>)
      = Inr (unat (e_sizeofcmds e), s)"
    and "stands_at e (length (of_load_commands f)) 0 0 (first_state f\<lparr>cs_elements := es\<rparr>)"
    and "stands_at e (length (of_load_commands f)) (unat (e_sizeofcmds e)) big s"
    and "check_together e s = Inr s"
    and "g = f\<lparr>of_load_commands := cs_mem s, of_headers_swapped := e_swapped e \<or> of_headers_swapped f\<rparr>"
proof -
  have no: "\<not> (\<exists>x. check_object_file e f = Inl x \<and> x \<noteq> Out_of_bounds)"
    using assms(4) by simp
  from check_object_file_starts [OF assms(1,2)] no
  obtain es where es: "place 0 (e_sizeofhdrs e) ''Mach-O headers'' (first_state f)
        = Inr (first_state f\<lparr>cs_elements := es\<rparr>)"
      "stands_at e (length (of_load_commands f)) 0 0 (first_state f\<lparr>cs_elements := es\<rparr>)"
    and eq: "check_object_file e f =
        (case check_commands e (unat (e_ncmds e)) 0 0 (first_state f\<lparr>cs_elements := es\<rparr>) of
           Inl x \<Rightarrow> Inl x
         | Inr (lc, s1) \<Rightarrow>
           (case in_turn [check_together e,
               bad_if (unat (e_sizeofcmds e) \<noteq> lc) ''inconsistent sizeofcmds''] s1 of
              Inl x \<Rightarrow> Inl x
            | Inr s2 \<Rightarrow> Inr (f\<lparr>of_load_commands := cs_mem s2,
                of_headers_swapped := e_swapped e \<or> of_headers_swapped f\<rparr>, s2)))"
    by blast
  from assms(4) [unfolded eq check_end_Inr] obtain lc s1 where
    run: "check_commands e (unat (e_ncmds e)) 0 0 (first_state f\<lparr>cs_elements := es\<rparr>)
      = Inr (lc, s1)"
    and last: "in_turn [check_together e,
        bad_if (unat (e_sizeofcmds e) \<noteq> lc) ''inconsistent sizeofcmds''] s1 = Inr s"
    and g: "g = f\<lparr>of_load_commands := cs_mem s,
      of_headers_swapped := e_swapped e \<or> of_headers_swapped f\<rparr>"
    by blast
  from check_commands_effect [OF assms(3) run es(2)] obtain big1 where
    st: "stands_at e (length (of_load_commands f)) lc big1 s1" by blast
  from check_together_result [OF st] last
  have "check_together e s1 = Inr s1" "s1 = s" "lc = unat (e_sizeofcmds e)"
    by (auto simp: bad_if_def split: if_split_asm)
  with es run g st that show thesis by blast
qed

lemma check_object_file_safe:
  assumes "memory_of f header" and "header + unat (e_sizeofcmds e) \<le> unat (of_object_size f)"
    and "swaps_in_place (e_thread_swap e)" and "check_object_file e f = Inl x"
  shows "x \<noteq> Out_of_bounds"
proof (cases "\<exists>g. check_object_file e f = Inl g \<and> g \<noteq> Out_of_bounds")
  case True
  with assms(4) show ?thesis by auto
next
  case False
  from check_object_file_starts [OF assms(1,2)] False
  obtain es where es: "place 0 (e_sizeofhdrs e) ''Mach-O headers'' (first_state f)
        = Inr (first_state f\<lparr>cs_elements := es\<rparr>)"
      "stands_at e (length (of_load_commands f)) 0 0 (first_state f\<lparr>cs_elements := es\<rparr>)"
    and eq: "check_object_file e f =
        (case check_commands e (unat (e_ncmds e)) 0 0 (first_state f\<lparr>cs_elements := es\<rparr>) of
           Inl x \<Rightarrow> Inl x
         | Inr (lc, s1) \<Rightarrow>
           (case in_turn [check_together e,
               bad_if (unat (e_sizeofcmds e) \<noteq> lc) ''inconsistent sizeofcmds''] s1 of
              Inl x \<Rightarrow> Inl x
            | Inr s2 \<Rightarrow> Inr (f\<lparr>of_load_commands := cs_mem s2,
                of_headers_swapped := e_swapped e \<or> of_headers_swapped f\<rparr>, s2)))"
    by blast
  note run = assms(4) [unfolded eq check_end_Inl]
  from run show ?thesis
  proof (elim disjE exE conjE)
    assume "check_commands e (unat (e_ncmds e)) 0 0 (first_state f\<lparr>cs_elements := es\<rparr>) = Inl x"
    then show ?thesis by (rule check_commands_safe [OF assms(3) es(2)])
  next
    fix lc s1
    assume r: "check_commands e (unat (e_ncmds e)) 0 0 (first_state f\<lparr>cs_elements := es\<rparr>)
        = Inr (lc, s1)"
      and last: "in_turn [check_together e,
        bad_if (unat (e_sizeofcmds e) \<noteq> lc) ''inconsistent sizeofcmds''] s1 = Inl x"
    from check_commands_effect [OF assms(3) r es(2)] obtain big1 where
      st: "stands_at e (length (of_load_commands f)) lc big1 s1" by blast
    from check_together_result [OF st] last show ?thesis
      by (auto simp: bad_if_def split: if_split_asm)
  qed
qed

definition header_size :: "ofile \<Rightarrow> nat" where
  "header_size f = (if of_mh f = None then 32 else 28)"

text \<open>The variables of the check of \<open>f\<close>, with the header of the accepted object \<open>g\<close>.\<close>

definition checked_env ::
    "byte_sex \<Rightarrow> (cpu_type \<Rightarrow> u32 \<Rightarrow> u8 list \<Rightarrow> u8 list) \<Rightarrow> ofile \<Rightarrow> ofile \<Rightarrow> check_env" where
  "checked_env host tswap f g =
     (case of_mh g of
        Some mh \<Rightarrow> env_32 host tswap (host \<noteq> of_object_byte_sex f) f mh
      | None \<Rightarrow> env_64 host tswap (host \<noteq> of_object_byte_sex f) f (the (of_mh64 g)))"

lemma big_sum_le:
  "\<not> big_sum a 28 > ucast (k :: u32) \<Longrightarrow> 28 + unat a \<le> unat k"
  "\<not> big_sum a 32 > ucast (k :: u32) \<Longrightarrow> 32 + unat a \<le> unat k"
  using unat_plus_up(1) [of "ucast a" a 28] unat_plus_up(1) [of "ucast a" a 32]
  by (simp_all add: big_sum_def word_less_nat_alt unat_ucast_up)

lemma check_object_file_keeps:
  "check_object_file e f = Inr (g, s) \<Longrightarrow> of_mh g = of_mh f \<and> of_mh64 g = of_mh64 f
     \<and> of_load_commands g = cs_mem s"
  by (auto simp: check_object_file_def split: sum.splits)

lemma check_Mach_O_accepts:
  assumes "check_Mach_O host tswap f = Inr (g, s)" and "memory_of f (header_size f)"
  obtains f1 where "of_load_commands f1 = of_load_commands f" and "memory_of f1 (header_size f)"
    and "header_size f + unat (e_sizeofcmds (checked_env host tswap f g)) \<le> unat (of_object_size f1)"
    and "check_object_file (checked_env host tswap f g) f1 = Inr (g, s)"
proof (cases "of_mh f")
  case (Some mh0)
  define mh where "mh = (if host \<noteq> of_object_byte_sex f then swap_mach_header mh0 else mh0)"
  define f1 where "f1 = f\<lparr>of_mh := Some mh, of_mh_cputype := mh_cputype mh,
    of_mh_cpusubtype := mh_cpusubtype mh, of_mh_filetype := mh_filetype mh\<rparr>"
  from assms(1) Some have big: "\<not> big_sum (mh_sizeofcmds mh) 28 > ucast (of_object_size f)"
    and run: "check_object_file (env_32 host tswap (host \<noteq> of_object_byte_sex f) f mh) f1 = Inr (g, s)"
    by (auto simp: check_Mach_O_def Let_def mh_def [symmetric] f1_def split: if_split_asm)
  have e: "checked_env host tswap f g = env_32 host tswap (host \<noteq> of_object_byte_sex f) f mh"
    using check_object_file_keeps [OF run] by (simp add: checked_env_def f1_def)
  show thesis
    using assms(2) Some run big_sum_le(1) [OF big]
    by (intro that [of f1]) (simp_all add: e f1_def memory_of_def header_size_def env_32_def)
next
  case None
  with assms(1) obtain mh0 where mh0: "of_mh64 f = Some mh0"
    by (auto simp: check_Mach_O_def Let_def split: option.splits)
  define mh where "mh = (if host \<noteq> of_object_byte_sex f then swap_mach_header_64 mh0 else mh0)"
  define f1 where "f1 = f\<lparr>of_mh64 := Some mh, of_mh_cputype := mh64_cputype mh,
    of_mh_cpusubtype := mh64_cpusubtype mh, of_mh_filetype := mh64_filetype mh\<rparr>"
  from assms(1) None mh0 have big: "\<not> big_sum (mh64_sizeofcmds mh) 32 > ucast (of_object_size f)"
    and run: "check_object_file (env_64 host tswap (host \<noteq> of_object_byte_sex f) f mh) f1 = Inr (g, s)"
    by (auto simp: check_Mach_O_def Let_def mh_def [symmetric] f1_def split: if_split_asm)
  have e: "checked_env host tswap f g = env_64 host tswap (host \<noteq> of_object_byte_sex f) f mh"
    using check_object_file_keeps [OF run] None by (simp add: checked_env_def f1_def)
  show thesis
    using assms(2) None run big_sum_le(2) [OF big]
    by (intro that [of f1]) (simp_all add: e f1_def memory_of_def header_size_def env_64_def)
qed

lemma check_Mach_O_rejects:
  assumes "check_Mach_O host tswap f = Inl x" and "memory_of f (header_size f)"
    and "swaps_in_place tswap"
  shows "x \<noteq> Out_of_bounds"
proof (cases "of_mh f")
  case (Some mh0)
  define mh where "mh = (if host \<noteq> of_object_byte_sex f then swap_mach_header mh0 else mh0)"
  define f1 where "f1 = f\<lparr>of_mh := Some mh, of_mh_cputype := mh_cputype mh,
    of_mh_cpusubtype := mh_cpusubtype mh, of_mh_filetype := mh_filetype mh\<rparr>"
  define e where "e = env_32 host tswap (host \<noteq> of_object_byte_sex f) f mh"
  show ?thesis
  proof (cases "big_sum (mh_sizeofcmds mh) 28 > ucast (of_object_size f)")
    case True
    with assms(1) Some show ?thesis by (auto simp: check_Mach_O_def Let_def mh_def split: if_split_asm)
  next
    case False
    with assms(1) Some have "check_object_file e f1 = Inl x"
      by (auto simp: check_Mach_O_def Let_def mh_def [symmetric] e_def f1_def split: if_split_asm)
    then show ?thesis
      using assms(2,3) Some big_sum_le(1) [OF False]
      by (intro check_object_file_safe [of f1 28 e x])
        (simp_all add: f1_def e_def memory_of_def header_size_def env_32_def)
  qed
next
  case None
  show ?thesis
  proof (cases "of_mh64 f")
    case None
    with assms(1) \<open>of_mh f = None\<close> show ?thesis by (auto simp: check_Mach_O_def)
  next
    case (Some mh0)
    define mh where "mh = (if host \<noteq> of_object_byte_sex f then swap_mach_header_64 mh0 else mh0)"
    define f1 where "f1 = f\<lparr>of_mh64 := Some mh, of_mh_cputype := mh64_cputype mh,
      of_mh_cpusubtype := mh64_cpusubtype mh, of_mh_filetype := mh64_filetype mh\<rparr>"
    define e where "e = env_64 host tswap (host \<noteq> of_object_byte_sex f) f mh"
    show ?thesis
    proof (cases "big_sum (mh64_sizeofcmds mh) 32 > ucast (of_object_size f)")
      case True
      with assms(1) None Some show ?thesis
        by (auto simp: check_Mach_O_def Let_def mh_def split: if_split_asm)
    next
      case False
      with assms(1) None Some have "check_object_file e f1 = Inl x"
        by (auto simp: check_Mach_O_def Let_def mh_def [symmetric] e_def f1_def split: if_split_asm)
      then show ?thesis
        using assms(2,3) None big_sum_le(2) [OF False]
        by (intro check_object_file_safe [of f1 32 e x])
          (simp_all add: f1_def e_def memory_of_def header_size_def env_64_def)
    qed
  qed
qed

lemma checked_env_simps:
  "e_host (checked_env host tswap f g) = host"
  "e_swapped (checked_env host tswap f g) \<longleftrightarrow> host \<noteq> of_object_byte_sex f"
  "e_thread_swap (checked_env host tswap f g) = tswap"
  "e_size (checked_env host tswap f g) = of_object_size f"
  by (simp_all add: checked_env_def env_32_def env_64_def split: option.split)

lemma check_Mach_O_run:
  assumes "check_Mach_O host tswap f = Inr (g, s)" and "memory_of f (header_size f)"
    and "swaps_in_place tswap"
  defines "e \<equiv> checked_env host tswap f g"
  obtains es big f1 where "of_load_commands f1 = of_load_commands f" and "of_load_commands g = cs_mem s"
    and "place 0 (e_sizeofhdrs e) ''Mach-O headers'' (first_state f1)
        = Inr (first_state f1\<lparr>cs_elements := es\<rparr>)"
    and "check_commands e (unat (e_ncmds e)) 0 0 (first_state f1\<lparr>cs_elements := es\<rparr>)
      = Inr (unat (e_sizeofcmds e), s)"
    and "stands_at e (length (of_load_commands f)) 0 0 (first_state f1\<lparr>cs_elements := es\<rparr>)"
    and "stands_at e (length (of_load_commands f)) (unat (e_sizeofcmds e)) big s"
    and "check_together e s = Inr s"
proof -
  from check_Mach_O_accepts [OF assms(1,2)] obtain f1 where
    f1: "of_load_commands f1 = of_load_commands f" "memory_of f1 (header_size f)"
      "header_size f + unat (e_sizeofcmds e) \<le> unat (of_object_size f1)"
      "check_object_file e f1 = Inr (g, s)"
    unfolding e_def by blast
  have "swaps_in_place (e_thread_swap e)" using assms(3) by (simp add: e_def checked_env_simps)
  from check_object_file_accepts [OF f1(2,3) this f1(4)] check_object_file_keeps [OF f1(4)] f1(1)
  show thesis using that by metis
qed

end
