(* ===== verification/Ofile_Accept.thy ===== *)
theory Ofile_Accept
  imports Ofile_Safety
begin

text \<open>
  What \<open>check_Mach_O\<close> promises of an object that it accepts, and what it does not. The check stays
  inside the load commands; the commands of an accepted object fill them; the symbol and string
  tables, and the tables and groups of symbols of the dynamic symbol table, lie where they should.
\<close>

section \<open>Objects\<close>

text \<open>
  An object file of one command, a symbol table of one symbol, in the byte sex \<open>sex\<close>. The header
  is what a little endian host reads.
\<close>

definition symtab_object :: "byte_sex \<Rightarrow> ofile" where
  "symtab_object sex =
     \<lparr>of_file_type = OFILE_Mach_O, of_fat_header = \<lparr>fh_magic = 0, fh_nfat_arch = 0\<rparr>,
      of_fat_archs = [], of_fat_archs64 = [], of_narch = 0, of_headers_swapped = False,
      of_object_size = 68, of_object_byte_sex = sex,
      of_mh = Some ((if sex = BIG_ENDIAN_BYTE_SEX then swap_mach_header else id)
        \<lparr>mh_magic = 0xfeedface, mh_cputype = CPU_TYPE_POWERPC, mh_cpusubtype = 0, mh_filetype = 1,
         mh_ncmds = 1, mh_sizeofcmds = 24, mh_flags = 0\<rparr>),
      of_mh64 = None,
      of_load_commands = image sex (map F32 [2, 24, 52, 1, 64, 4]) @ replicate 16 0,
      of_mh_cputype = 0, of_mh_cpusubtype = 0, of_mh_filetype = 0\<rparr>"

lemma symtab_object_memory: "memory_of (symtab_object sex) (header_size (symtab_object sex))"
  by (simp add: memory_of_def fat_fields_ok_def header_size_def symtab_object_def length_image)

text \<open>A routine that swaps thread states in place, for the runs below, which have no threads.\<close>

definition reverse_state :: "cpu_type \<Rightarrow> u32 \<Rightarrow> u8 list \<Rightarrow> u8 list" where
  "reverse_state cputype flavor bs = rev bs"

lemma reverse_in_place: "swaps_in_place reverse_state"
  by (simp add: swaps_in_place_def reverse_state_def)

section \<open>The check stays inside the load commands\<close>




lemma symtab_object_accepted:
  "\<exists>g s. check_Mach_O LITTLE_ENDIAN_BYTE_SEX reverse_state (symtab_object LITTLE_ENDIAN_BYTE_SEX) = Inr (g, s)
     \<and> of_mh g = of_mh (symtab_object LITTLE_ENDIAN_BYTE_SEX)
     \<and> of_load_commands g = of_load_commands (symtab_object LITTLE_ENDIAN_BYTE_SEX)
     \<and> cs_ptr s P_st = Some 0"
proof -
  have "case check_Mach_O LITTLE_ENDIAN_BYTE_SEX reverse_state (symtab_object LITTLE_ENDIAN_BYTE_SEX) of
      Inl x \<Rightarrow> False
    | Inr (g, s) \<Rightarrow> of_mh g = of_mh (symtab_object LITTLE_ENDIAN_BYTE_SEX)
        \<and> of_load_commands g = of_load_commands (symtab_object LITTLE_ENDIAN_BYTE_SEX)
        \<and> cs_ptr s P_st = Some 0"
    by code_simp
  then show ?thesis by (auto split: sum.splits)
qed


section \<open>Which steps set a pointer\<close>

definition sets_no :: "pointer \<Rightarrow> check_run \<Rightarrow> bool" where
  "sets_no p c \<longleftrightarrow> (\<forall>s s'. c s = Inr s' \<longrightarrow> cs_ptr s' p = cs_ptr s p)"

named_theorems sets_intros \<open>steps that leave a pointer alone\<close>

lemma sets_no_basic [sets_intros]:
  "sets_no p (bad_if b text)" "sets_no p (too_small n l name)" "sets_no p Inr"
  "sets_no p (place off sz name)"
  by (auto simp: sets_no_def bad_if_def too_small_def place_def split: if_split_asm sum.splits)

lemma sets_no_once [sets_intros]: "p \<noteq> q \<Longrightarrow> sets_no p (once q lc name)"
  by (auto simp: sets_no_def once_def split: if_split_asm)

lemma sets_no_if [sets_intros]: "sets_no p c \<Longrightarrow> sets_no p (\<lambda>t. if b then c t else Inr t)"
  by (auto simp: sets_no_def)

lemma sets_no_in_turn [sets_intros]: "(\<And>c. c \<in> set cs \<Longrightarrow> sets_no p c) \<Longrightarrow> sets_no p (in_turn cs)"
proof (induction cs)
  case (Cons c cs)
  then have "sets_no p c" "sets_no p (in_turn cs)" by simp_all
  then show ?case unfolding sets_no_def in_turn_Inr by metis
qed (simp add: sets_no_def)

lemma sets_no_struct [sets_intros]:
  "(\<And>x. sets_no p (k x)) \<Longrightarrow> sets_no p (with_struct e q n rd layout sw k)"
  by (fastforce simp: sets_no_def with_struct_def Let_def split: if_split_asm)

lemma sets_no_array [sets_intros]:
  "(\<And>x. sets_no p (k x)) \<Longrightarrow> sets_no p (with_array e q cnt n rd layout sw k)"
  by (fastforce simp: sets_no_def with_array_def Let_def split: if_split_asm)

lemma sets_no_table:
  "c \<in> set (check_table e off n entry name) \<Longrightarrow> sets_no p c"
  "c \<in> set (check_dyld_part e off sz name) \<Longrightarrow> sets_no p c"
  by (auto simp: check_table_def check_dyld_part_def intro: sets_intros)

lemma sets_no_section [sets_intros]: "sets_no p (check_section e sg x)"
proof (cases "e_mh e")
  case (Some mh)
  then show ?thesis
    by (simp add: check_section_def [abs_def] Let_def del: in_turn.simps append.simps)
      (rule sets_no_in_turn; auto simp: check_relocs_def intro: sets_intros dest: sets_no_table)
qed (simp add: check_section_def [abs_def] sets_no_def)

lemma sets_no_section_64 [sets_intros]: "sets_no p (check_section_64 e sg x)"
proof (cases "e_mh64 e")
  case (Some mh)
  then show ?thesis
    by (simp add: check_section_64_def [abs_def] Let_def del: in_turn.simps append.simps)
      (rule sets_no_in_turn; auto simp: check_relocs_def intro: sets_intros dest: sets_no_table)
qed (simp add: check_section_64_def [abs_def] sets_no_def)

lemma read_word_ptr: "read_word e q s = Inr (w, s') \<Longrightarrow> cs_ptr s' = cs_ptr s"
  by (auto simp: read_word_def Let_def split: if_split_asm)

lemma check_state_ptr: "check_state e rows lim q flavor cnt s = Inr (q', s') \<Longrightarrow> cs_ptr s' = cs_ptr s"
  by (auto simp: check_state_def split: if_split_asm option.splits)

lemma check_flavor_ptr: "check_flavor e rows lim q s = Inr (q', s') \<Longrightarrow> cs_ptr s' = cs_ptr s"
  by (auto simp: check_flavor_def dest!: read_word_ptr check_state_ptr split: if_split_asm sum.splits)

lemma sets_no_flavors [sets_intros]: "sets_no p (check_flavors e rows lim q)"
proof -
  have "check_flavors e rows lim q s = Inr s' \<Longrightarrow> cs_ptr s' = cs_ptr s" for s s'
  proof (induction e rows lim q s rule: check_flavors.induct)
    case (1 e rows lim q s)
    show ?case
    proof (cases "q < lim")
      case True
      with "1.prems" obtain q1 s1 where c: "check_flavor e rows lim q s = Inr (q1, s1)"
        "check_flavors e rows lim q1 s1 = Inr s'"
        by (subst (asm) check_flavors.simps) (auto split: sum.splits)
      with "1.IH" [OF True c(1) refl] check_flavor_ptr [OF c(1)] show ?thesis by simp
    next
      case False
      with "1.prems" show ?thesis by (simp add: check_flavors.simps)
    qed
  qed
  then show ?thesis by (simp add: sets_no_def)
qed

lemma sets_no_thread [sets_intros]: "sets_no p (check_thread e name lc l)"
  unfolding check_thread_def [abs_def]
  by (rule sets_no_in_turn)
    (auto intro!: sets_no_basic sets_no_struct sets_no_flavors split: option.split)

lemmas check_defs = check_segment_def [abs_def] check_segment_64_def [abs_def]
  check_symtab_def [abs_def] check_dysymtab_def [abs_def] check_routines_def [abs_def]
  check_routines_64_def [abs_def] check_twolevel_hints_def [abs_def]
  check_linkedit_data_def [abs_def] check_version_min_def [abs_def]
  check_encryption_info_def [abs_def] check_encryption_info_64_def [abs_def]
  check_linker_option_def [abs_def] check_dyld_info_def [abs_def] check_prebind_cksum_def [abs_def]
  check_uuid_def [abs_def] check_symseg_def [abs_def] check_fvmlib_def [abs_def]
  check_dylib_def [abs_def] check_sub_framework_def [abs_def] check_sub_umbrella_def [abs_def]
  check_sub_library_def [abs_def] check_sub_client_def [abs_def] check_prebound_dylib_def [abs_def]
  check_dylinker_def [abs_def] check_rpath_def [abs_def] check_main_def [abs_def]
  check_ident_def [abs_def] check_source_version_def [abs_def]

lemma sets_no_checks:
  "p \<noteq> P_st \<Longrightarrow> sets_no p (check_symtab e lc l)"
  "p \<noteq> P_dyst \<Longrightarrow> sets_no p (check_dysymtab e lc l)"
  "p \<noteq> P_rc \<Longrightarrow> sets_no p (check_routines e lc l)"
  "p \<noteq> P_rc64 \<Longrightarrow> sets_no p (check_routines_64 e lc l)"
  "p \<noteq> P_hints \<Longrightarrow> sets_no p (check_twolevel_hints e lc l)"
  "p \<noteq> q \<Longrightarrow> sets_no p (check_linkedit_data e q name1 name2 lc l)"
  "p \<noteq> P_vers \<Longrightarrow> sets_no p (check_version_min e name lc l)"
  "p \<noteq> P_cs \<Longrightarrow> sets_no p (check_prebind_cksum e lc l)"
  "p \<noteq> P_uuid \<Longrightarrow> sets_no p (check_uuid e lc l)"
  "sets_no p (check_segment e lc l)" "sets_no p (check_segment_64 e lc l)"
  "sets_no p (check_encryption_info e lc l)" "sets_no p (check_encryption_info_64 e lc l)"
  "sets_no p (check_linker_option e lc l)" "sets_no p (check_dyld_info e lc l)"
  "sets_no p (check_symseg e lc l)" "sets_no p (check_fvmlib e name lc l)"
  "sets_no p (check_dylib e name lc l)" "sets_no p (check_sub_framework e lc l)"
  "sets_no p (check_sub_umbrella e lc l)" "sets_no p (check_sub_library e lc l)"
  "sets_no p (check_sub_client e lc l)" "sets_no p (check_prebound_dylib e lc l)"
  "sets_no p (check_dylinker e name lc l)" "sets_no p (check_rpath e lc l)"
  "sets_no p (check_main e lc l)" "sets_no p (check_ident e lc l)"
  "sets_no p (check_source_version e lc l)"
  unfolding check_defs
  by (rule sets_no_in_turn; auto intro!: sets_no_basic sets_no_once sets_no_in_turn sets_no_struct
      sets_no_array sets_no_section sets_no_section_64 dest: sets_no_table)+

lemma command_symtab: "map_of (command_checks e lc l) cmd_SYMTAB = Some (check_symtab e lc l)"
  and command_dysymtab: "map_of (command_checks e lc l) cmd_DYSYMTAB = Some (check_dysymtab e lc l)"
  by (simp_all add: command_checks_def cmd_SEGMENT_def cmd_SEGMENT_64_def cmd_SYMTAB_def
      cmd_DYSYMTAB_def)

lemma command_checks_set_no:
  "\<forall>(cmd, check) \<in> set (command_checks e lc l).
     (cmd \<noteq> cmd_SYMTAB \<longrightarrow> sets_no P_st check) \<and> (cmd \<noteq> cmd_DYSYMTAB \<longrightarrow> sets_no P_dyst check)"
  by (simp add: command_checks_def sets_no_checks sets_no_thread)

lemma check_command_sets_no:
  "lc_cmd l \<noteq> cmd_SYMTAB \<Longrightarrow> sets_no P_st (check_command e lc l)"
  "lc_cmd l \<noteq> cmd_DYSYMTAB \<Longrightarrow> sets_no P_dyst (check_command e lc l)"
proof -
  have "(lc_cmd l \<noteq> cmd_SYMTAB \<longrightarrow> sets_no P_st (check_command e lc l))
    \<and> (lc_cmd l \<noteq> cmd_DYSYMTAB \<longrightarrow> sets_no P_dyst (check_command e lc l))"
  proof (cases "map_of (command_checks e lc l) (lc_cmd l)")
    case None
    then show ?thesis by (simp add: sets_no_def check_command_def)
  next
    case (Some check)
    then have "(lc_cmd l, check) \<in> set (command_checks e lc l)" by (rule map_of_SomeD)
    with command_checks_set_no [of e lc l] Some show ?thesis
      by (auto simp: sets_no_def check_command_def)
  qed
  then show "lc_cmd l \<noteq> cmd_SYMTAB \<Longrightarrow> sets_no P_st (check_command e lc l)"
    "lc_cmd l \<noteq> cmd_DYSYMTAB \<Longrightarrow> sets_no P_dyst (check_command e lc l)" by simp_all
qed

section \<open>Tables lie in the file\<close>

definition in_file :: "check_env \<Rightarrow> u32 \<Rightarrow> u32 \<Rightarrow> nat \<Rightarrow> bool" where
  "in_file e off n entry \<longleftrightarrow> unat off + unat n * entry \<le> unat (e_size e)"

lemma unat_big_table: "unat (big_table n (ucast (k :: u32)) off) = unat n * unat k + unat off"
proof -
  have "unat n * unat k \<le> (2 ^ 32 - 1) * (2 ^ 32 - 1)"
    using unat_word_lt [of n] unat_word_lt [of k] by (intro mult_le_mono) simp_all
  then show ?thesis
    using unat_word_lt [of off] by (simp add: big_table_def unat_word_ariths unat_ucast_up)
qed

lemma check_table_accepts:
  assumes "in_turn (check_table e off n k name @ cs) s = Inr s'"
  shows "in_file e off n (unat k)" and "\<exists>es. in_turn cs (s\<lparr>cs_elements := es\<rparr>) = Inr s'"
  using assms unat_big_table [of n k off]
  by (auto simp: check_table_def bad_if_def place_def past_def in_file_def word_less_nat_alt
      unat_ucast_up not_less add.commute split: if_split_asm sum.splits)

definition symtab_ok :: "check_env \<Rightarrow> symtab_command \<Rightarrow> bool" where
  "symtab_ok e st \<longleftrightarrow> in_file e (st_symoff st) (st_nsyms st) (unat (e_sizeof_nlist e))
     \<and> in_file e (st_stroff st) (st_strsize st) 1"

definition dysymtab_ok :: "check_env \<Rightarrow> dysymtab_command \<Rightarrow> bool" where
  "dysymtab_ok e d \<longleftrightarrow> in_file e (dyst_tocoff d) (dyst_ntoc d) 8
     \<and> in_file e (dyst_modtaboff d) (dyst_nmodtab d) (unat (e_sizeof_dylib_module e))
     \<and> in_file e (dyst_extrefsymoff d) (dyst_nextrefsyms d) 4
     \<and> in_file e (dyst_indirectsymoff d) (dyst_nindirectsyms d) 4
     \<and> in_file e (dyst_extreloff d) (dyst_nextrel d) 8
     \<and> in_file e (dyst_locreloff d) (dyst_nlocrel d) 8"

text \<open>What is at a pointer after \<open>with_struct\<close> is what its steps were given.\<close>

lemma with_struct_accepts:
  assumes "with_struct e p n rd layout sw k s = Inr s'"
    and "\<And>x r. rd (e_host e) (image (e_host e) (layout x) @ r) = x"
    and "\<And>x. length (image (e_host e) (layout x)) = n"
  obtains x t where "k x t = Inr s'" and "rd (e_host e) (bytes_at (cs_mem t) n p) = x"
    and "cs_ptr t = cs_ptr s"
proof (cases "e_swapped e")
  case True
  let ?x = "sw (rd (e_host e) (bytes_at (cs_mem s) n p))"
  let ?t = "s\<lparr>cs_mem := write_at (cs_mem s) p (image (e_host e) (layout ?x))\<rparr>"
  from True assms(1) have k: "k ?x ?t = Inr s'" "p + n \<le> length (cs_mem s)"
    by (auto simp: with_struct_def Let_def split: if_split_asm)
  then have "bytes_at (cs_mem ?t) n p = image (e_host e) (layout ?x)"
    using bytes_at_write [of p "image (e_host e) (layout ?x)" "cs_mem s"] assms(3) by simp
  then have "rd (e_host e) (bytes_at (cs_mem ?t) n p) = ?x"
    using assms(2) [of ?x "[]"] by simp
  with k show thesis by (intro that [of ?x ?t]) simp_all
next
  case False
  with assms(1) show thesis
    by (intro that [of "rd (e_host e) (bytes_at (cs_mem s) n p)" s])
      (auto simp: with_struct_def Let_def split: if_split_asm)
qed

lemma once_accepts:
  "in_turn [too_small n l name, once p lc name1, c] s = Inr s' \<Longrightarrow>
     c (s\<lparr>cs_ptr := (cs_ptr s)(p := Some lc)\<rparr>) = Inr s'"
  by (auto simp: too_small_def bad_if_def once_def split: if_split_asm sum.splits)

lemma check_symtab_accepts:
  assumes "check_symtab e lc l s = Inr s'"
  shows "cs_ptr s' P_st = Some lc"
    and "symtab_ok e (read_symtab_command (e_host e) (bytes_at (cs_mem s') 24 lc))"
proof -
  let ?k = "\<lambda>st. in_turn
          ([bad_if (st_cmdsize st \<noteq> 24) ''LC_SYMTAB incorrect cmdsize'']
           @ check_table e (st_symoff st) (st_nsyms st) (e_sizeof_nlist e) ''symbol table''
           @ check_table e (st_stroff st) (st_strsize st) 1 ''string table'')"
  let ?s1 = "s\<lparr>cs_ptr := (cs_ptr s)(P_st := Some lc)\<rparr>"
  from once_accepts [OF assms [unfolded check_symtab_def]]
  have ws: "with_struct e lc 24 read_symtab_command layout_symtab_command swap_symtab_command ?k ?s1
    = Inr s'" .
  from with_struct_accepts [OF ws read_image_symtab_command] obtain x t where
    k: "?k x t = Inr s'" and x: "read_symtab_command (e_host e) (bytes_at (cs_mem t) 24 lc) = x"
    and ptr: "cs_ptr t = cs_ptr ?s1"
    by (auto simp: image_lengths)
  from k have k': "in_turn (check_table e (st_symoff x) (st_nsyms x) (e_sizeof_nlist e) ''symbol table''
           @ check_table e (st_stroff x) (st_strsize x) 1 ''string table'' @ []) t = Inr s'"
    by (simp add: bad_if_def split: if_split_asm)
  from check_table_accepts [OF k'] obtain es where a: "in_file e (st_symoff x) (st_nsyms x) (unat (e_sizeof_nlist e))"
    and b: "in_turn (check_table e (st_stroff x) (st_strsize x) 1 ''string table'' @ [])
      (t\<lparr>cs_elements := es\<rparr>) = Inr s'" by auto
  from check_table_accepts [OF b] a have "symtab_ok e x" by (simp add: symtab_ok_def)
  moreover obtain es' where "s' = t\<lparr>cs_elements := es'\<rparr>"
    using check_table_accepts(2) [OF b] by auto
  ultimately show "cs_ptr s' P_st = Some lc"
    "symtab_ok e (read_symtab_command (e_host e) (bytes_at (cs_mem s') 24 lc))"
    using x ptr by simp_all
qed

lemma elements_kept: "\<exists>es. s = s\<lparr>cs_elements := es\<rparr>" for s :: cstate
  by (rule exI [of _ "cs_elements s"]) simp

lemma check_table_then:
  assumes "in_turn (check_table e off n k name @ cs) s = Inr s'"
    and "\<And>t. in_turn cs t = Inr s' \<Longrightarrow> Q \<and> (\<exists>es. s' = t\<lparr>cs_elements := es\<rparr>)"
  shows "(in_file e off n (unat k) \<and> Q) \<and> (\<exists>es. s' = s\<lparr>cs_elements := es\<rparr>)"
  using check_table_accepts [OF assms(1)] assms(2) by fastforce

lemma check_dysymtab_accepts:
  assumes "check_dysymtab e lc l s = Inr s'"
  shows "cs_ptr s' P_dyst = Some lc"
    and "dysymtab_ok e (read_dysymtab_command (e_host e) (bytes_at (cs_mem s') 80 lc))"
proof -
  let ?tables = "\<lambda>d. check_table e (dyst_tocoff d) (dyst_ntoc d) 8 ''table of contents''
           @ check_table e (dyst_modtaboff d) (dyst_nmodtab d) (e_sizeof_dylib_module e)
               ''module table''
           @ check_table e (dyst_extrefsymoff d) (dyst_nextrefsyms d) 4 ''reference table''
           @ check_table e (dyst_indirectsymoff d) (dyst_nindirectsyms d) 4 ''indirect table''
           @ check_table e (dyst_extreloff d) (dyst_nextrel d) 8 ''external relocation table''
           @ check_table e (dyst_locreloff d) (dyst_nlocrel d) 8 ''local relocation table'' @ []"
  let ?k = "\<lambda>d. in_turn ([bad_if (dyst_cmdsize d \<noteq> 80) ''LC_DYSYMTAB incorrect cmdsize''] @ ?tables d)"
  let ?s1 = "s\<lparr>cs_ptr := (cs_ptr s)(P_dyst := Some lc)\<rparr>"
  from once_accepts [OF assms [unfolded check_dysymtab_def]]
  have ws: "with_struct e lc 80 read_dysymtab_command layout_dysymtab_command swap_dysymtab_command
    ?k ?s1 = Inr s'" by simp
  from with_struct_accepts [OF ws read_image_dysymtab_command] obtain x t where
    k: "?k x t = Inr s'" and x: "read_dysymtab_command (e_host e) (bytes_at (cs_mem t) 80 lc) = x"
    and ptr: "cs_ptr t = cs_ptr ?s1"
    by (auto simp: image_lengths)
  from k have k': "in_turn (?tables x) t = Inr s'"
    by (simp add: bad_if_def split: if_split_asm)
  have "(in_file e (dyst_tocoff x) (dyst_ntoc x) (unat (8 :: u32))
     \<and> (in_file e (dyst_modtaboff x) (dyst_nmodtab x) (unat (e_sizeof_dylib_module e))
     \<and> (in_file e (dyst_extrefsymoff x) (dyst_nextrefsyms x) (unat (4 :: u32))
     \<and> (in_file e (dyst_indirectsymoff x) (dyst_nindirectsyms x) (unat (4 :: u32))
     \<and> (in_file e (dyst_extreloff x) (dyst_nextrel x) (unat (8 :: u32))
     \<and> (in_file e (dyst_locreloff x) (dyst_nlocrel x) (unat (8 :: u32)) \<and> True))))))
     \<and> (\<exists>es. s' = t\<lparr>cs_elements := es\<rparr>)"
    by (rule check_table_then [OF k'], erule check_table_then, erule check_table_then,
        erule check_table_then, erule check_table_then, erule check_table_then)
      (simp add: elements_kept)
  then have "dysymtab_ok e x" and "\<exists>es. s' = t\<lparr>cs_elements := es\<rparr>"
    by (auto simp: dysymtab_ok_def)
  then show "cs_ptr s' P_dyst = Some lc"
    "dysymtab_ok e (read_dysymtab_command (e_host e) (bytes_at (cs_mem s') 80 lc))"
    using x ptr by auto
qed

section \<open>The symbol tables of an accepted object\<close>

definition tables_checked :: "check_env \<Rightarrow> cstate \<Rightarrow> bool" where
  "tables_checked e s \<longleftrightarrow>
     (\<forall>p. cs_ptr s P_st = Some p \<longrightarrow>
        symtab_ok e (read_symtab_command (e_host e) (bytes_at (cs_mem s) 24 p))) \<and>
     (\<forall>p. cs_ptr s P_dyst = Some p \<longrightarrow>
        dysymtab_ok e (read_dysymtab_command (e_host e) (bytes_at (cs_mem s) 80 p)))"

lemma bytes_at_before:
  assumes "take lo m' = take lo m" and "p + n \<le> lo"
  shows "bytes_at m' n p = bytes_at m n p"
proof -
  have "bytes_at m n p = bytes_at (take lo m) n p" for m :: "u8 list"
    using assms(2) by (simp add: bytes_at_def drop_take min_def)
  with assms(1) show ?thesis by metis
qed

lemma check_command_tables:
  assumes "pointers_before lc s" and "tables_checked e s" and "check_command e lc l s = Inr s'"
    and "same_outside e lc lc' (cs_mem s) (cs_mem s')"
  shows "tables_checked e s'"
  unfolding tables_checked_def
proof (intro conjI allI impI)
  fix p assume p: "cs_ptr s' P_st = Some p"
  show "symtab_ok e (read_symtab_command (e_host e) (bytes_at (cs_mem s') 24 p))"
  proof (cases "lc_cmd l = cmd_SYMTAB")
    case True
    with assms(3) have "check_symtab e lc l s = Inr s'" by (simp add: check_command_def command_symtab)
    with p check_symtab_accepts show ?thesis by fastforce
  next
    case False
    then have "cs_ptr s P_st = Some p"
      using check_command_sets_no(1) assms(3) p by (simp add: sets_no_def)
    moreover from this assms(1) have "p + pointer_size P_st \<le> lc"
      unfolding pointers_before_def by blast
    ultimately show ?thesis
      using assms(2) bytes_at_before [of lc "cs_mem s'" "cs_mem s" p 24] assms(4)
      by (simp add: tables_checked_def same_outside_def)
  qed
next
  fix p assume p: "cs_ptr s' P_dyst = Some p"
  show "dysymtab_ok e (read_dysymtab_command (e_host e) (bytes_at (cs_mem s') 80 p))"
  proof (cases "lc_cmd l = cmd_DYSYMTAB")
    case True
    with assms(3) have "check_dysymtab e lc l s = Inr s'"
      by (simp add: check_command_def command_dysymtab)
    with p check_dysymtab_accepts show ?thesis by fastforce
  next
    case False
    then have "cs_ptr s P_dyst = Some p"
      using check_command_sets_no(2) assms(3) p by (simp add: sets_no_def)
    moreover from this assms(1) have "p + pointer_size P_dyst \<le> lc"
      unfolding pointers_before_def by blast
    ultimately show ?thesis
      using assms(2) bytes_at_before [of lc "cs_mem s'" "cs_mem s" p 80] assms(4)
      by (simp add: tables_checked_def same_outside_def)
  qed
qed

lemma accepted_tables_checked:
  assumes "check_Mach_O host tswap f = Inr (g, s)" and "memory_of f (header_size f)"
    and "swaps_in_place tswap"
  shows "tables_checked (checked_env host tswap f g) s"
    and "check_together (checked_env host tswap f g) s = Inr s"
    and "of_load_commands g = cs_mem s"
proof -
  define e where "e = checked_env host tswap f g"
  from check_Mach_O_run [OF assms, folded e_def] obtain es f1 where
    run: "of_load_commands g = cs_mem s"
      "check_commands e (unat (e_ncmds e)) 0 0 (first_state f1\<lparr>cs_elements := es\<rparr>)
        = Inr (unat (e_sizeofcmds e), s)"
      "stands_at e (length (of_load_commands f)) 0 0 (first_state f1\<lparr>cs_elements := es\<rparr>)"
      "check_together e s = Inr s"
    by metis
  have sw: "swaps_in_place (e_thread_swap e)" using assms(3) by (simp add: e_def checked_env_simps)
  let ?Q = "\<lambda>(lc :: nat) s (n :: nat) (lc1 :: nat) s1. tables_checked e s \<longrightarrow> tables_checked e s1"
  have "?Q 0 (first_state f1\<lparr>cs_elements := es\<rparr>) (unat (e_ncmds e)) (unat (e_sizeofcmds e)) s
    \<and> (\<exists>big1. stands_at e (length (of_load_commands f)) (unat (e_sizeofcmds e)) big1 s)"
    by (rule check_commands_induct [where Q = ?Q, OF sw run(2,3)])
      (auto simp: stands_at_def dest: check_command_tables)
  then show "tables_checked (checked_env host tswap f g) s"
    by (simp add: tables_checked_def first_state_def e_def)
  show "check_together (checked_env host tswap f g) s = Inr s" "of_load_commands g = cs_mem s"
    using run by (simp_all add: e_def)
qed

definition group_in :: "symtab_command \<Rightarrow> u32 \<Rightarrow> u32 \<Rightarrow> bool" where
  "group_in st i n \<longleftrightarrow> n = 0 \<or> unat i + unat n \<le> unat (st_nsyms st)"

lemma unat_big_sum: "unat (big_sum a b) = unat a + unat b"
  using unat_plus_up(1) [of "ucast a" a b] by (simp add: big_sum_def unat_ucast_up)

lemma check_group_accepts:
  "in_turn (check_group st i n name @ cs) s = Inr s' \<Longrightarrow> group_in st i n \<and> in_turn cs s = Inr s'"
  by (auto simp: check_group_def bad_if_def group_in_def word_less_nat_alt unat_big_sum unat_ucast_up
      split: if_split_asm)

lemma check_groups_accepts:
  assumes "check_groups e st d s = Inr s'"
  shows "group_in st (dyst_ilocalsym d) (dyst_nlocalsym d)"
    and "group_in st (dyst_iextdefsym d) (dyst_nextdefsym d)"
    and "group_in st (dyst_iundefsym d) (dyst_nundefsym d)"
    and "cs_ptr s P_hints = Some h \<Longrightarrow>
      hints_nhints (read_twolevel_hints_command (e_host e) (bytes_at (cs_mem s) 16 h))
        = dyst_nundefsym d"
proof -
  note g1 = check_group_accepts [OF assms [unfolded check_groups_def append.assoc]]
  note g2 = check_group_accepts [OF conjunct2 [OF g1]]
  note g3 = check_group_accepts [OF conjunct2 [OF g2]]
  show "group_in st (dyst_ilocalsym d) (dyst_nlocalsym d)"
    "group_in st (dyst_iextdefsym d) (dyst_nextdefsym d)"
    "group_in st (dyst_iundefsym d) (dyst_nundefsym d)"
    using g1 g2 g3 by blast+
  assume h: "cs_ptr s P_hints = Some h"
  from conjunct2 [OF g3] h show "hints_nhints (read_twolevel_hints_command (e_host e)
      (bytes_at (cs_mem s) 16 h)) = dyst_nundefsym d"
    by (auto simp: bad_if_def deref_struct_def split: if_split_asm option.splits sum.splits)
qed

text \<open>
  Property C19. The symbol table and the string table of an accepted object lie in the file: the fields are
  those that the program reads from the command in memory after the check, in its own byte sex.
\<close>

theorem accepted_symbol_table:
  assumes "check_Mach_O host tswap f = Inr (g, s)" and "memory_of f (header_size f)"
    and "swaps_in_place tswap" and "cs_ptr s P_st = Some p"
  shows "let st = read_symtab_command host (bytes_at (of_load_commands g) 24 p) in
    unat (st_symoff st) + unat (st_nsyms st) * (if of_mh g = None then 16 else 12)
      \<le> unat (of_object_size f)
    \<and> unat (st_stroff st) + unat (st_strsize st) \<le> unat (of_object_size f)"
proof -
  note t = accepted_tables_checked [OF assms(1-3)]
  have "unat (e_sizeof_nlist (checked_env host tswap f g)) = (if of_mh g = None then 16 else 12)"
    by (simp add: checked_env_def env_32_def env_64_def split: option.split)
  then show ?thesis
    using t(1) assms(4) by (auto simp: tables_checked_def symtab_ok_def in_file_def t(3)
        checked_env_simps Let_def)
qed

theorem accepted_symbol_table_witness:
  "unat (52 :: u32) + unat (1 :: u32) * 12 \<le> (68 :: nat) \<and> unat (64 :: u32) + unat (4 :: u32) \<le> (68 :: nat)"
proof -
  obtain g s where r: "check_Mach_O LITTLE_ENDIAN_BYTE_SEX reverse_state
      (symtab_object LITTLE_ENDIAN_BYTE_SEX) = Inr (g, s)"
    and g: "of_mh g = of_mh (symtab_object LITTLE_ENDIAN_BYTE_SEX)"
      "of_load_commands g = of_load_commands (symtab_object LITTLE_ENDIAN_BYTE_SEX)"
    and p: "cs_ptr s P_st = Some 0"
    using symtab_object_accepted by blast
  have "read_symtab_command LITTLE_ENDIAN_BYTE_SEX
      (bytes_at (of_load_commands (symtab_object LITTLE_ENDIAN_BYTE_SEX)) 24 0) =
    \<lparr>st_cmd = 2, st_cmdsize = 24, st_symoff = 52, st_nsyms = 1, st_stroff = 64, st_strsize = 4\<rparr>"
    by code_simp
  with accepted_symbol_table [OF r symtab_object_memory reverse_in_place p] g show ?thesis
    by (simp add: symtab_object_def)
qed

text \<open>
  Property C7. An accepted object with a dynamic symbol table has a symbol table. All the tables of the dynamic
  symbol table lie in the file, the groups of local, defined and undefined symbols lie in the
  symbol table, and there are as many two level hints as undefined symbols.
\<close>

theorem accepted_dynamic_symbols:
  assumes "check_Mach_O host tswap f = Inr (g, s)" and "memory_of f (header_size f)"
    and "swaps_in_place tswap" and "cs_ptr s P_dyst = Some q"
  shows "\<exists>p. cs_ptr s P_st = Some p \<and>
    (let e = checked_env host tswap f g;
         st = read_symtab_command host (bytes_at (of_load_commands g) 24 p);
         d = read_dysymtab_command host (bytes_at (of_load_commands g) 80 q)
     in dysymtab_ok e d
       \<and> group_in st (dyst_ilocalsym d) (dyst_nlocalsym d)
       \<and> group_in st (dyst_iextdefsym d) (dyst_nextdefsym d)
       \<and> group_in st (dyst_iundefsym d) (dyst_nundefsym d)
       \<and> (\<forall>h. cs_ptr s P_hints = Some h \<longrightarrow> hints_nhints (read_twolevel_hints_command host
           (bytes_at (of_load_commands g) 16 h)) = dyst_nundefsym d))"
proof -
  define e where "e = checked_env host tswap f g"
  note t = accepted_tables_checked [OF assms(1-3), folded e_def]
  have host: "e_host e = host" by (simp add: e_def checked_env_simps)
  obtain p where p: "cs_ptr s P_st = Some p"
    using t(2) assms(4) by (auto simp: check_together_def bad_if_def split: option.splits)
  let ?st = "read_symtab_command host (bytes_at (of_load_commands g) 24 p)"
  let ?d = "read_dysymtab_command host (bytes_at (of_load_commands g) 80 q)"
  have "check_groups e ?st ?d s = Inr s"
    using t(2) assms(4) p
    by (simp add: check_together_def deref_struct_def host t(3) split: if_split_asm)
  from check_groups_accepts [OF this] t(1) assms(4) p show ?thesis
    by (simp add: tables_checked_def Let_def host t(3) e_def [symmetric])
qed

text \<open>Objects of a little endian host: the header, the size, and the load commands.\<close>

definition object_with ::
    "byte_sex \<Rightarrow> mach_header option \<Rightarrow> mach_header_64 option \<Rightarrow> u32 \<Rightarrow> u8 list \<Rightarrow> ofile" where
  "object_with sex mh mh64 sz commands =
     \<lparr>of_file_type = OFILE_Mach_O, of_fat_header = \<lparr>fh_magic = 0, fh_nfat_arch = 0\<rparr>,
      of_fat_archs = [], of_fat_archs64 = [], of_narch = 0, of_headers_swapped = False,
      of_object_size = sz, of_object_byte_sex = sex, of_mh = mh, of_mh64 = mh64,
      of_load_commands = commands, of_mh_cputype = 0, of_mh_cpusubtype = 0, of_mh_filetype = 0\<rparr>"


text \<open>A symbol table of one local symbol with its dynamic symbol table.\<close>

definition dynamic_object :: ofile where
  "dynamic_object = object_with LITTLE_ENDIAN_BYTE_SEX
     (Some \<lparr>mh_magic = 0xfeedface, mh_cputype = CPU_TYPE_I386, mh_cpusubtype = 3, mh_filetype = 1,
       mh_ncmds = 2, mh_sizeofcmds = 104, mh_flags = 0\<rparr>) None 148
     (image LITTLE_ENDIAN_BYTE_SEX (map F32 ([2, 24, 132, 1, 144, 4] @ [11, 80, 0, 1] @ replicate 16 0))
       @ replicate 16 0)"

lemma dynamic_object_accepted:
  "\<exists>g s. check_Mach_O LITTLE_ENDIAN_BYTE_SEX reverse_state dynamic_object = Inr (g, s)
     \<and> of_load_commands g = of_load_commands dynamic_object
     \<and> cs_ptr s P_st = Some 0 \<and> cs_ptr s P_dyst = Some 24"
proof -
  have "case check_Mach_O LITTLE_ENDIAN_BYTE_SEX reverse_state dynamic_object of
      Inl x \<Rightarrow> False
    | Inr (g, s) \<Rightarrow> of_load_commands g = of_load_commands dynamic_object
        \<and> cs_ptr s P_st = Some 0 \<and> cs_ptr s P_dyst = Some 24"
    by code_simp
  then show ?thesis by (auto split: sum.splits)
qed

theorem accepted_dynamic_symbols_witness:
  "group_in (read_symtab_command LITTLE_ENDIAN_BYTE_SEX (bytes_at (of_load_commands dynamic_object) 24 0))
    0 1"
proof -
  obtain g s where r: "check_Mach_O LITTLE_ENDIAN_BYTE_SEX reverse_state dynamic_object = Inr (g, s)"
    and g: "of_load_commands g = of_load_commands dynamic_object"
    and p: "cs_ptr s P_st = Some 0" "cs_ptr s P_dyst = Some 24"
    using dynamic_object_accepted by blast
  have "memory_of dynamic_object (header_size dynamic_object)"
    by (simp add: dynamic_object_def object_with_def memory_of_def fat_fields_ok_def header_size_def length_image
        sum_list_replicate)
  moreover have "dyst_ilocalsym (read_dysymtab_command LITTLE_ENDIAN_BYTE_SEX
      (bytes_at (of_load_commands dynamic_object) 80 24)) = 0
    \<and> dyst_nlocalsym (read_dysymtab_command LITTLE_ENDIAN_BYTE_SEX
      (bytes_at (of_load_commands dynamic_object) 80 24)) = 1"
    by code_simp
  ultimately show ?thesis
    using accepted_dynamic_symbols [OF r _ reverse_in_place p(2)] g p(1) by (simp add: Let_def)
qed

section \<open>What the check lets through\<close>







end
