(* ===== verification/Hash_Table.thy ===== *)
theory Hash_Table
  imports Prelude
begin

text \<open>
  The hash tables of the assembler, \<open>as/hash.c\<close>: names of symbols, registers, directives and
  instructions are looked up in them. A table is an array of chains; a chain is the list of
  its entries, the one \<open>*list\<close> points to first, and a lookup that succeeds moves the entry
  to the front. A C string is the list of its bytes before the terminating zero. Plain
  \<open>char\<close> is signed, as on i386 and x86_64. Entries are allocated from an obstack, which
  never fails but exits; the statistics are compiled out.
\<close>

section \<open>The table\<close>

record hash_entry =
  he_string :: "u8 list"
  he_hash :: u32
  he_data :: u64

record hash_control =
  hc_table :: "hash_entry list list"
  hc_size :: u32

text \<open>Undefined behaviour of the lookup and the call of \<open>abort\<close> in \<open>hash_delete\<close>.\<close>

datatype hash_error = Read_past_end | Abort

definition DEFAULT_SIZE :: u32 where
  "DEFAULT_SIZE = 4051"

definition hash_new :: hash_control where
  "hash_new = \<lparr>hc_table = replicate (unat DEFAULT_SIZE) [], hc_size = DEFAULT_SIZE\<rparr>"

definition hash_mix :: "u32 \<Rightarrow> u32 \<Rightarrow> u32" where
  "hash_mix hash c = (let hash = hash + (c + push_bit 17 c) in hash XOR drop_bit 2 hash)"

definition hash_code :: "u8 list \<Rightarrow> u32" where
  "hash_code key = hash_mix (foldl (\<lambda>hash c. hash_mix hash (scast c)) 0 key) (of_nat (length key))"

section \<open>Lookup\<close>

text \<open>
  \<open>strncmp(string, key, len) == 0\<close>, the second argument being the \<open>len\<close> bytes at \<open>key\<close>: a
  zero byte ends the comparison. Then \<open>string[len]\<close>, which is inside the string only up to its
  terminating zero.
\<close>

fun strncmp_equal :: "u8 list \<Rightarrow> u8 list \<Rightarrow> bool" where
  "strncmp_equal s [] = True"
| "strncmp_equal [] (k # ks) = (k = 0)"
| "strncmp_equal (c # s) (k # ks) = (c = k \<and> (c = 0 \<or> strncmp_equal s ks))"

definition char_at :: "u8 list \<Rightarrow> nat \<Rightarrow> u8 option" where
  "char_at s n = (if n < length s then Some (s ! n) else if n = length s then Some 0 else None)"

definition same_string :: "u8 list \<Rightarrow> u8 list \<Rightarrow> bool option" where
  "same_string s key = (if strncmp_equal s key
     then map_option (\<lambda>c. c = 0) (char_at s (length key)) else Some False)"

text \<open>
  The loop over a chain, with the entries already passed: an entry that matches is taken out
  of its place and put in front of the chain, where the caller finds it.
\<close>

fun find_entry :: "u32 \<Rightarrow> u8 list \<Rightarrow> hash_entry list \<Rightarrow> hash_entry list
    \<Rightarrow> hash_error + (hash_entry option \<times> hash_entry list)" where
  "find_entry hash key seen [] = Inr (None, seen)"
| "find_entry hash key seen (p # rest) =
    (if he_hash p = hash then
       (case same_string (he_string p) key of
          None \<Rightarrow> Inl Read_past_end
        | Some True \<Rightarrow> Inr (Some p, p # seen @ rest)
        | Some False \<Rightarrow> find_entry hash key (seen @ [p]) rest)
     else find_entry hash key (seen @ [p]) rest)"

text \<open>What a lookup hands back: the entry, the index of its chain and the hash code.\<close>

record hash_place =
  hp_entry :: "hash_entry option"
  hp_list :: nat
  hp_hash :: u32

definition hash_lookup :: "hash_control \<Rightarrow> u8 list \<Rightarrow> hash_error + (hash_place \<times> hash_control)"
  where
  "hash_lookup table key =
    (let hash = hash_code key; index = unat (hash mod hc_size table) in
     case find_entry hash key [] (hc_table table ! index) of
       Inl e \<Rightarrow> Inl e
     | Inr (p, chain) \<Rightarrow>
         Inr (\<lparr>hp_entry = p, hp_list = index, hp_hash = hash\<rparr>,
              table\<lparr>hc_table := (hc_table table)[index := chain]\<rparr>))"

section \<open>Operations\<close>

definition new_entry :: "hash_control \<Rightarrow> hash_place \<Rightarrow> u8 list \<Rightarrow> u64 \<Rightarrow> hash_control" where
  "new_entry table at key value = table\<lparr>hc_table := (hc_table table)[hp_list at :=
     \<lparr>he_string = key, he_hash = hp_hash at, he_data = value\<rparr> # hc_table table ! hp_list at]\<rparr>"

text \<open>\<open>p->data = value\<close>, where the lookup has just put \<open>p\<close> in front of its chain.\<close>

definition set_data :: "hash_control \<Rightarrow> hash_place \<Rightarrow> hash_entry \<Rightarrow> u64 \<Rightarrow> hash_control" where
  "set_data table at p value = table\<lparr>hc_table := (hc_table table)[hp_list at :=
     p\<lparr>he_data := value\<rparr> # tl (hc_table table ! hp_list at)]\<rparr>"

definition hash_insert ::
  "hash_control \<Rightarrow> u8 list \<Rightarrow> u64 \<Rightarrow> hash_error + (string option \<times> hash_control)" where
  "hash_insert table key value = (case hash_lookup table key of
     Inl e \<Rightarrow> Inl e
   | Inr (at, t) \<Rightarrow> (case hp_entry at of
       Some p \<Rightarrow> Inr (Some ''exists'', t)
     | None \<Rightarrow> Inr (None, new_entry t at key value)))"

definition hash_jam ::
  "hash_control \<Rightarrow> u8 list \<Rightarrow> u64 \<Rightarrow> hash_error + (string option \<times> hash_control)" where
  "hash_jam table key value = (case hash_lookup table key of
     Inl e \<Rightarrow> Inl e
   | Inr (at, t) \<Rightarrow> (case hp_entry at of
       Some p \<Rightarrow> Inr (None, set_data t at p value)
     | None \<Rightarrow> Inr (None, new_entry t at key value)))"

definition hash_replace ::
  "hash_control \<Rightarrow> u8 list \<Rightarrow> u64 \<Rightarrow> hash_error + (u64 \<times> hash_control)" where
  "hash_replace table key value = (case hash_lookup table key of
     Inl e \<Rightarrow> Inl e
   | Inr (at, t) \<Rightarrow> (case hp_entry at of
       None \<Rightarrow> Inr (0, t)
     | Some p \<Rightarrow> Inr (he_data p, set_data t at p value)))"

definition hash_find :: "hash_control \<Rightarrow> u8 list \<Rightarrow> hash_error + (u64 \<times> hash_control)" where
  "hash_find table key = (case hash_lookup table key of
     Inl e \<Rightarrow> Inl e
   | Inr (at, t) \<Rightarrow> (case hp_entry at of
       None \<Rightarrow> Inr (0, t)
     | Some p \<Rightarrow> Inr (he_data p, t)))"

text \<open>\<open>hash_find_n\<close> looks up the first \<open>len\<close> of the bytes at \<open>key\<close>.\<close>

definition hash_find_n ::
  "hash_control \<Rightarrow> u8 list \<Rightarrow> nat \<Rightarrow> hash_error + (u64 \<times> hash_control)" where
  "hash_find_n table key len = (case hash_lookup table (take len key) of
     Inl e \<Rightarrow> Inl e
   | Inr (at, t) \<Rightarrow> (case hp_entry at of
       None \<Rightarrow> Inr (0, t)
     | Some p \<Rightarrow> Inr (he_data p, t)))"

definition hash_delete :: "hash_control \<Rightarrow> u8 list \<Rightarrow> hash_error + (u64 \<times> hash_control)" where
  "hash_delete table key = (case hash_lookup table key of
     Inl e \<Rightarrow> Inl e
   | Inr (at, t) \<Rightarrow> (case hp_entry at of
       None \<Rightarrow> Inr (0, t)
     | Some p \<Rightarrow> (case hc_table t ! hp_list at of
         [] \<Rightarrow> Inl Abort
       | q # rest \<Rightarrow>
           if p \<noteq> q then Inl Abort
           else Inr (he_data p, t\<lparr>hc_table := (hc_table t)[hp_list at := rest]\<rparr>))))"

text \<open>The calls of \<open>pfn\<close>, in their order.\<close>

definition entry_pair :: "hash_entry \<Rightarrow> u8 list \<times> u64" where
  "entry_pair e = (he_string e, he_data e)"

definition hash_traverse :: "hash_control \<Rightarrow> (u8 list \<times> u64) list" where
  "hash_traverse table = concat (map (map entry_pair) (hc_table table))"

section \<open>Clients\<close>

datatype hash_op =
    Insert "u8 list" u64
  | Jam "u8 list" u64
  | Replace "u8 list" u64
  | Find "u8 list"
  | Find_n "u8 list" nat
  | Delete "u8 list"

datatype hash_result = Message "string option" | Pointer u64

definition returning ::
  "('a \<Rightarrow> hash_result) \<Rightarrow> hash_error + ('a \<times> 't) \<Rightarrow> hash_error + (hash_result \<times> 't)" where
  "returning f r = (case r of Inl e \<Rightarrow> Inl e | Inr (x, t) \<Rightarrow> Inr (f x, t))"

fun hash_step :: "hash_op \<Rightarrow> hash_control \<Rightarrow> hash_error + (hash_result \<times> hash_control)" where
  "hash_step (Insert k v) t = returning Message (hash_insert t k v)"
| "hash_step (Jam k v) t = returning Message (hash_jam t k v)"
| "hash_step (Replace k v) t = returning Pointer (hash_replace t k v)"
| "hash_step (Find k) t = returning Pointer (hash_find t k)"
| "hash_step (Find_n k n) t = returning Pointer (hash_find_n t k n)"
| "hash_step (Delete k) t = returning Pointer (hash_delete t k)"

text \<open>What a client may rely on: the same operations on a partial function.\<close>

definition ptr_of :: "u64 option \<Rightarrow> u64" where
  "ptr_of p = (case p of None \<Rightarrow> 0 | Some v \<Rightarrow> v)"

fun map_step :: "hash_op \<Rightarrow> (u8 list \<rightharpoonup> u64) \<Rightarrow> hash_result \<times> (u8 list \<rightharpoonup> u64)" where
  "map_step (Insert k v) m =
     (if m k = None then (Message None, m(k \<mapsto> v)) else (Message (Some ''exists''), m))"
| "map_step (Jam k v) m = (Message None, m(k \<mapsto> v))"
| "map_step (Replace k v) m =
     (Pointer (ptr_of (m k)), if m k = None then m else m(k \<mapsto> v))"
| "map_step (Find k) m = (Pointer (ptr_of (m k)), m)"
| "map_step (Find_n k n) m = (Pointer (ptr_of (m (take n k))), m)"
| "map_step (Delete k) m = (Pointer (ptr_of (m k)), m(k := None))"

fun op_key :: "hash_op \<Rightarrow> u8 list" where
  "op_key (Insert k v) = k"
| "op_key (Jam k v) = k"
| "op_key (Replace k v) = k"
| "op_key (Find k) = k"
| "op_key (Find_n k n) = take n k"
| "op_key (Delete k) = k"

text \<open>A sequence of operations, on the tables and on the specification.\<close>

fun run_steps :: "('o \<Rightarrow> 't \<Rightarrow> 'e + ('r \<times> 't)) \<Rightarrow> 'o list \<Rightarrow> 't \<Rightarrow> 'e + ('r list \<times> 't)" where
  "run_steps step [] t = Inr ([], t)"
| "run_steps step (x # xs) t = (case step x t of
     Inl e \<Rightarrow> Inl e
   | Inr (r, t) \<Rightarrow> (case run_steps step xs t of
       Inl e \<Rightarrow> Inl e
     | Inr (rs, t) \<Rightarrow> Inr (r # rs, t)))"

fun run_spec :: "('o \<Rightarrow> 'm \<Rightarrow> 'r \<times> 'm) \<Rightarrow> 'o list \<Rightarrow> 'm \<Rightarrow> 'r list \<times> 'm" where
  "run_spec spec [] m = ([], m)"
| "run_spec spec (x # xs) m =
     (let (r, m) = spec x m; (rs, m) = run_spec spec xs m in (r # rs, m))"

section \<open>Data refinement\<close>

text \<open>
  Operations that keep an invariant and behave, through an abstraction function, as their
  specification. What follows for sequences of operations is proved here once.
\<close>

locale data_refinement =
  fixes step :: "'o \<Rightarrow> 't \<Rightarrow> 'e + ('r \<times> 't)"
    and spec :: "'o \<Rightarrow> 'm \<Rightarrow> 'r \<times> 'm"
    and abs :: "'t \<Rightarrow> 'm"
    and inv :: "'t \<Rightarrow> bool"
    and ok :: "'o \<Rightarrow> bool"
  assumes simulates: "inv t \<Longrightarrow> ok x \<Longrightarrow>
    \<exists>r t'. step x t = Inr (r, t') \<and> inv t' \<and> spec x (abs t) = (r, abs t')"
begin

lemma run_simulates:
  assumes "inv t" and "\<forall>x \<in> set xs. ok x"
  shows "\<exists>rs t'. run_steps step xs t = Inr (rs, t') \<and> inv t' \<and> run_spec spec xs (abs t) = (rs, abs t')"
  using assms
proof (induction xs arbitrary: t)
  case (Cons x xs)
  obtain r t' where x: "step x t = Inr (r, t')" "inv t'" "spec x (abs t) = (r, abs t')"
    using simulates [of t x] Cons.prems by auto
  then obtain rs u where
    "run_steps step xs t' = Inr (rs, u)" "inv u" "run_spec spec xs (abs t') = (rs, abs u)"
    using Cons.IH [of t'] Cons.prems by auto
  with x show ?case by simp
qed simp

end

section \<open>Strings and chains\<close>

lemma strncmp_equal_prefix:
  "0 \<notin> set s \<Longrightarrow> 0 \<notin> set key \<Longrightarrow> strncmp_equal s key \<longleftrightarrow> take (length key) s = key"
  by (induction s key rule: strncmp_equal.induct) auto

lemma same_string_eq:
  assumes "0 \<notin> set s" and "0 \<notin> set key"
  shows "same_string s key = Some (s = key)"
proof (cases "take (length key) s = key")
  case True
  then have len: "length key \<le> length s" by (metis length_take min.cobounded1)
  show ?thesis
  proof (cases "length key = length s")
    case True
    then show ?thesis
      using assms \<open>take (length key) s = key\<close>
      by (simp add: same_string_def strncmp_equal_prefix char_at_def)
  next
    case False
    with len have "s ! length key \<in> set s" by simp
    with assms(1) have "s ! length key \<noteq> 0" by metis
    with False len True assms show ?thesis
      by (auto simp: same_string_def strncmp_equal_prefix char_at_def)
  qed
next
  case False
  with assms show ?thesis by (auto simp: same_string_def strncmp_equal_prefix)
qed

definition chain_ok :: "u32 \<Rightarrow> nat \<Rightarrow> hash_entry list \<Rightarrow> bool" where
  "chain_ok sz i chain \<longleftrightarrow> distinct (map he_string chain)
     \<and> (\<forall>e \<in> set chain. he_hash e = hash_code (he_string e) \<and> 0 \<notin> set (he_string e)
          \<and> unat (he_hash e mod sz) = i)"

lemma chain_ok_Nil [simp]: "chain_ok sz i []"
  by (simp add: chain_ok_def)

lemma chain_ok_Cons:
  "chain_ok sz i (e # chain) \<longleftrightarrow> he_string e \<notin> he_string ` set chain
     \<and> he_hash e = hash_code (he_string e) \<and> 0 \<notin> set (he_string e)
     \<and> unat (he_hash e mod sz) = i \<and> chain_ok sz i chain"
  by (auto simp: chain_ok_def)

lemma chain_ok_filter [intro]: "chain_ok sz i chain \<Longrightarrow> chain_ok sz i (filter P chain)"
  by (auto simp: chain_ok_def distinct_map_filter)

definition chain_map :: "hash_entry list \<Rightarrow> (u8 list \<rightharpoonup> u64)" where
  "chain_map chain = map_of (map entry_pair chain)"

lemma chain_map_simps [simp]:
  "chain_map [] = Map.empty"
  "chain_map (e # chain) = (chain_map chain)(he_string e \<mapsto> he_data e)"
  by (simp_all add: chain_map_def entry_pair_def)

lemma chain_map_None: "chain_map chain k = None \<longleftrightarrow> k \<notin> he_string ` set chain"
  by (induction chain) auto

abbreviation others :: "u8 list \<Rightarrow> hash_entry list \<Rightarrow> hash_entry list" where
  "others key \<equiv> filter (\<lambda>e. he_string e \<noteq> key)"

lemma others_idle: "key \<notin> he_string ` set chain \<Longrightarrow> others key chain = chain"
  by (auto simp: filter_id_conv)

lemma chain_map_others: "chain_map (others key chain) = (chain_map chain)(key := None)"
  by (induction chain) (auto simp: fun_upd_twist)

lemma find_entry_finds:
  assumes "chain_ok sz i (seen @ chain)" and "0 \<notin> set key" and "key \<notin> he_string ` set seen"
  shows "find_entry (hash_code key) key seen chain =
    Inr (case find (\<lambda>e. he_string e = key) chain of
      None \<Rightarrow> (None, seen @ chain) | Some p \<Rightarrow> (Some p, p # others key (seen @ chain)))"
  using assms
proof (induction chain arbitrary: seen)
  case (Cons e chain)
  then have e: "he_hash e = hash_code (he_string e)" "0 \<notin> set (he_string e)"
    by (auto simp: chain_ok_def)
  show ?case
  proof (cases "he_string e = key")
    case True
    with Cons.prems have "key \<notin> he_string ` set chain" by (auto simp: chain_ok_def)
    with True e Cons.prems show ?thesis
      by (simp add: same_string_eq others_idle)
  next
    case False
    with Cons.IH [of "seen @ [e]"] Cons.prems e show ?thesis
      by (auto simp: same_string_eq split: option.split)
  qed
qed simp

lemma find_key:
  "find (\<lambda>e. he_string e = key) chain = Some p \<Longrightarrow> p \<in> set chain \<and> he_string p = key"
  by (auto simp: find_Some_iff)

lemma find_chain_map:
  "chain_map chain key = map_option he_data (find (\<lambda>e. he_string e = key) chain)"
  by (induction chain) auto

section \<open>The invariant of a table\<close>

definition hash_inv :: "hash_control \<Rightarrow> bool" where
  "hash_inv t \<longleftrightarrow> 0 < hc_size t \<and> length (hc_table t) = unat (hc_size t)
     \<and> (\<forall>i < length (hc_table t). chain_ok (hc_size t) i (hc_table t ! i))"

definition hash_abs :: "hash_control \<Rightarrow> (u8 list \<rightharpoonup> u64)" where
  "hash_abs t = map_of (hash_traverse t)"

definition slot :: "hash_control \<Rightarrow> u8 list \<Rightarrow> nat" where
  "slot t key = unat (hash_code key mod hc_size t)"

lemma slot_bound: "hash_inv t \<Longrightarrow> slot t key < length (hc_table t)"
  by (simp add: hash_inv_def slot_def word_less_nat_alt unat_mod_distrib)

lemma hash_inv_chain: "hash_inv t \<Longrightarrow> i < length (hc_table t) \<Longrightarrow> chain_ok (hc_size t) i (hc_table t ! i)"
  by (simp add: hash_inv_def)

lemma map_of_concat_nth:
  assumes "i < length xss" and "\<And>j. j < length xss \<Longrightarrow> j \<noteq> i \<Longrightarrow> map_of (xss ! j) k = None"
  shows "map_of (concat xss) k = map_of (xss ! i) k"
  using assms
proof (induction xss arbitrary: i)
  case (Cons xs xss)
  show ?case
  proof (cases i)
    case 0
    have "map_of (concat xss) k = None"
    proof -
      have "\<forall>ys \<in> set xss. map_of ys k = None"
        using Cons.prems(2) [of "Suc _"] 0 by (auto simp: in_set_conv_nth)
      then show ?thesis by (induction xss) (auto simp: map_add_def)
    qed
    with 0 show ?thesis by (simp add: map_add_def split: option.split)
  next
    case (Suc n)
    have "map_of xs k = None" using Cons.prems(2) [of 0] Suc by simp
    moreover have "map_of (concat xss) k = map_of (xss ! n) k"
      using Cons.IH [of n] Cons.prems Suc by fastforce
    ultimately show ?thesis using Suc by (simp add: map_add_def split: option.split)
  qed
qed simp

lemma hash_abs_slot:
  assumes "hash_inv t"
  shows "hash_abs t key = chain_map (hc_table t ! slot t key) key"
proof -
  let ?xss = "map (map entry_pair) (hc_table t)"
  have "map_of (?xss ! j) key = None" if "j < length ?xss" "j \<noteq> slot t key" for j
  proof -
    have "key \<notin> he_string ` set (hc_table t ! j)"
      using hash_inv_chain [OF assms, of j] that by (auto simp: chain_ok_def slot_def)
    then show ?thesis using that chain_map_None by (simp add: chain_map_def [symmetric])
  qed
  then have "map_of (concat ?xss) key = map_of (?xss ! slot t key) key"
    using slot_bound [OF assms, of key] by (intro map_of_concat_nth) auto
  then show ?thesis
    using slot_bound [OF assms, of key] by (simp add: hash_abs_def hash_traverse_def chain_map_def)
qed

abbreviation put_chain :: "hash_control \<Rightarrow> nat \<Rightarrow> hash_entry list \<Rightarrow> hash_control" where
  "put_chain t i chain \<equiv> t\<lparr>hc_table := (hc_table t)[i := chain]\<rparr>"

lemma put_chain_inv:
  assumes "hash_inv t" and "chain_ok (hc_size t) i chain"
  shows "hash_inv (put_chain t i chain)"
  using assms by (auto simp: hash_inv_def) (metis nth_list_update_eq nth_list_update_neq)

lemma put_chain_abs:
  assumes "hash_inv t" and "chain_ok (hc_size t) (slot t key) chain"
    and "chain_map chain = (chain_map (hc_table t ! slot t key))(key := v)"
  shows "hash_abs (put_chain t (slot t key) chain) = (hash_abs t)(key := v)"
proof
  fix k
  have "slot (put_chain t (slot t key) chain) k = slot t k" by (simp add: slot_def)
  then show "hash_abs (put_chain t (slot t key) chain) k = ((hash_abs t)(key := v)) k"
    using assms slot_bound [OF assms(1)]
    by (simp add: hash_abs_slot put_chain_inv nth_list_update)
qed

section \<open>What the operations do\<close>

lemma hash_lookup_cases:
  assumes inv: "hash_inv t" and key: "0 \<notin> set key"
  obtains (absent) "hash_abs t key = None"
      and "hash_lookup t key = Inr (\<lparr>hp_entry = None, hp_list = slot t key, hp_hash = hash_code key\<rparr>, t)"
  | (found) p where "hash_abs t key = Some (he_data p)" and "he_string p = key"
      and "he_hash p = hash_code key"
      and "hash_lookup t key = Inr (\<lparr>hp_entry = Some p, hp_list = slot t key, hp_hash = hash_code key\<rparr>,
             put_chain t (slot t key) (p # others key (hc_table t ! slot t key)))"
proof -
  let ?chain = "hc_table t ! slot t key"
  have ok: "chain_ok (hc_size t) (slot t key) ?chain"
    using hash_inv_chain slot_bound inv by blast
  note find = find_entry_finds [of _ _ "[]", simplified, OF ok key]
  show ?thesis
  proof (cases "find (\<lambda>e. he_string e = key) ?chain")
    case None
    with find show ?thesis
      using inv by (intro absent) (simp_all add: hash_abs_slot find_chain_map hash_lookup_def slot_def Let_def)
  next
    case (Some p)
    with ok have "he_hash p = hash_code key" by (auto simp: chain_ok_def dest: find_key)
    with Some find find_key [OF Some] show ?thesis
      using inv by (intro found) (simp_all add: hash_abs_slot find_chain_map hash_lookup_def slot_def Let_def)
  qed
qed

text \<open>A chain that holds \<open>key\<close> in front, or not at all, and the other entries unchanged.\<close>

lemma front_chain:
  assumes "hash_inv t" and "0 \<notin> set key" and "he_string p = key" and "he_hash p = hash_code key"
  shows "hash_inv (put_chain t (slot t key) (p # others key (hc_table t ! slot t key)))"
    and "hash_abs (put_chain t (slot t key) (p # others key (hc_table t ! slot t key)))
           = (hash_abs t)(key \<mapsto> he_data p)"
proof -
  have "chain_ok (hc_size t) (slot t key) (p # others key (hc_table t ! slot t key))"
    using assms hash_inv_chain [OF assms(1) slot_bound [OF assms(1)]]
    by (auto simp: chain_ok_Cons slot_def)
  then show "hash_inv (put_chain t (slot t key) (p # others key (hc_table t ! slot t key)))"
    and "hash_abs (put_chain t (slot t key) (p # others key (hc_table t ! slot t key)))
           = (hash_abs t)(key \<mapsto> he_data p)"
    using assms by (auto intro!: put_chain_inv put_chain_abs simp: chain_map_others)
qed

lemma without_chain:
  assumes "hash_inv t"
  shows "hash_inv (put_chain t (slot t key) (others key (hc_table t ! slot t key)))"
    and "hash_abs (put_chain t (slot t key) (others key (hc_table t ! slot t key)))
           = (hash_abs t)(key := None)"
  using hash_inv_chain [OF assms slot_bound [OF assms]] assms
  by (auto intro!: put_chain_inv put_chain_abs simp: chain_map_others)

lemma absent_chain:
  assumes "hash_inv t" and "hash_abs t key = None"
  shows "others key (hc_table t ! slot t key) = hc_table t ! slot t key"
  using assms by (intro others_idle) (simp add: hash_abs_slot chain_map_None)

lemmas hash_op_defs = hash_insert_def hash_jam_def hash_replace_def hash_find_def hash_find_n_def
  hash_delete_def new_entry_def set_data_def returning_def ptr_of_def

lemma hash_step_simulates:
  assumes inv: "hash_inv t" and key: "0 \<notin> set (op_key x)"
  shows "\<exists>r t'. hash_step x t = Inr (r, t') \<and> hash_inv t' \<and> map_step x (hash_abs t) = (r, hash_abs t')"
  using inv key
proof (cases rule: hash_lookup_cases)
  case absent
  note new = front_chain [OF inv key, where p = "\<lparr>he_string = op_key x, he_hash = hash_code (op_key x), he_data = _\<rparr>",
      simplified, unfolded absent_chain [OF inv absent(1)]]
  have none: "(hash_abs t)(op_key x := None) = hash_abs t" using absent(1) by (simp add: fun_upd_idem)
  from absent inv new none show ?thesis by (cases x) (auto simp: hash_op_defs)
next
  case (found p)
  let ?i = "slot t (op_key x)"
  have i: "?i < length (hc_table t)" using inv by (rule slot_bound)
  note same = front_chain [OF inv key found(2) found(3)]
  note other = front_chain [OF inv key, where p = "p\<lparr>he_data := _\<rparr>", simplified, OF found(2) found(3)]
  have id: "(hash_abs t)(op_key x \<mapsto> he_data p) = hash_abs t" using found(1) by (simp add: fun_upd_idem)
  from found i same other without_chain [OF inv, of "op_key x"] id show ?thesis
    by (cases x) (simp_all add: hash_op_defs)
qed

lemma hash_new_inv: "hash_inv hash_new"
  by (simp add: hash_inv_def hash_new_def DEFAULT_SIZE_def)

lemma hash_new_abs: "hash_abs hash_new = Map.empty"
  by (simp add: hash_abs_def hash_traverse_def hash_new_def map_replicate_const)

interpretation hash: data_refinement hash_step map_step hash_abs hash_inv "\<lambda>x. 0 \<notin> set (op_key x)"
  by unfold_locales (rule hash_step_simulates)

lemma distinct_concat_slots:
  assumes "\<And>i. i < length xss \<Longrightarrow> distinct (xss ! i) \<and> (\<forall>x \<in> set (xss ! i). f x = c + i)"
  shows "distinct (concat xss)"
  using assms
proof (induction xss arbitrary: c)
  case (Cons xs xss)
  have "f x \<noteq> c" if "x \<in> set (concat xss)" for x
  proof -
    from that obtain i where "i < length xss" "x \<in> set (xss ! i)"
      by (auto simp: in_set_conv_nth [of _ xss])
    then have "f x = c + Suc i" using Cons.prems [of "Suc i"] by simp
    then show ?thesis by simp
  qed
  moreover have "f x = c" if "x \<in> set xs" for x
    using that Cons.prems [of 0] by simp
  moreover have "distinct (concat xss)"
    using Cons.prems [of "Suc _"] by (intro Cons.IH [of "Suc c"]) simp
  ultimately show ?case using Cons.prems [of 0] by auto
qed simp

lemma hash_keys_distinct:
  assumes "hash_inv t"
  shows "distinct (map fst (hash_traverse t))"
proof -
  have "distinct (concat (map (map he_string) (hc_table t)))"
    using assms by (intro distinct_concat_slots [where f = "slot t" and c = 0])
      (fastforce simp: hash_inv_def chain_ok_def slot_def)
  then show ?thesis by (simp add: hash_traverse_def map_concat entry_pair_def o_def)
qed

section \<open>Properties\<close>

text \<open>
  Property C8. Whatever sequence of operations a client performs on a new table, with keys
  that contain no zero byte: no lookup reads past a string, \<open>hash_delete\<close> never aborts,
  every operation returns what it returns on a partial function from strings to data, and
  the traversal visits each binding of that function exactly once.
\<close>

theorem hash_table_is_map:
  assumes "\<forall>x \<in> set ops. 0 \<notin> set (op_key x)"
  shows "\<exists>t. run_steps hash_step ops hash_new = Inr (fst (run_spec map_step ops Map.empty), t)
    \<and> map_of (hash_traverse t) = snd (run_spec map_step ops Map.empty)
    \<and> distinct (map fst (hash_traverse t))"
proof -
  obtain rs t where "run_steps hash_step ops hash_new = Inr (rs, t)" "hash_inv t"
    and "run_spec map_step ops Map.empty = (rs, hash_abs t)"
    using hash.run_simulates [OF hash_new_inv, of ops] assms by (auto simp: hash_new_abs)
  then show ?thesis by (auto simp: hash_abs_def intro: hash_keys_distinct)
qed

theorem hash_table_is_map_witness:
  "\<exists>t. run_steps hash_step [Insert [115, 112] 7, Insert [115, 112] 8, Jam [114, 49] 9,
       Replace [114, 49] 10, Find_n [115, 112, 44] 2, Delete [115, 112], Find [115, 112]] hash_new
     = Inr ([Message None, Message (Some ''exists''), Message None, Pointer 9, Pointer 7, Pointer 7,
         Pointer 0], t) \<and> map_of (hash_traverse t) = [[114, 49] \<mapsto> 10]
     \<and> distinct (map fst (hash_traverse t))"
  using hash_table_is_map [of "[Insert [115, 112] 7, Insert [115, 112] 8, Jam [114, 49] 9,
      Replace [114, 49] 10, Find_n [115, 112, 44] 2, Delete [115, 112], Find [115, 112]]"]
  by (simp add: ptr_of_def fun_upd_twist)

end
