(* ===== verification/Archive.thy ===== *)
theory Archive
  imports Ofile_Check Checkout
begin

text \<open>
  Archives (\<open>ar.5\<close>) and their check, \<open>check_archive\<close> of \<open>libstuff/ofile.c\<close>. The memory from the
  start of the archive to the end of the mapped file is a list of bytes and a pointer into it is
  an offset. Reading past the end of the mapping is the failure \<open>Reads_outside\<close>, reading a
  variable that was never set is \<open>Uninitialised\<close>. \<open>unsigned long\<close> has 64 bits.
\<close>

section \<open>Numbers in headers\<close>

definition isspace :: "u8 \<Rightarrow> bool" where
  "isspace c \<longleftrightarrow> c = 32 \<or> 9 \<le> c \<and> c \<le> 13"

definition isdigit :: "u8 \<Rightarrow> bool" where
  "isdigit c \<longleftrightarrow> 48 \<le> c \<and> c \<le> 57"

definition digits_value :: "u8 list \<Rightarrow> int" where
  "digits_value ds = foldl (\<lambda>v d. 10 * v + (uint d - 48)) 0 ds"

text \<open>
  \<open>strtoul(s, &endp, 10)\<close> of the C library on the bytes from \<open>s\<close> to the end of the memory: the
  value, the distance of \<open>endp\<close> from \<open>s\<close>, and whether \<open>errno\<close> is set to \<open>ERANGE\<close>; \<open>None\<close> when no
  byte of the memory ends the number.
\<close>

record number =
  nu_value :: u64
  nu_end :: nat
  nu_range :: bool

definition strtoul :: "u8 list \<Rightarrow> number option" where
  "strtoul s =
    (let n = length (takeWhile isspace s);
         neg = n < length s \<and> s ! n = 45;
         d = (if n < length s \<and> s ! n \<in> {43, 45} then Suc n else n);
         ds = takeWhile isdigit (drop d s) in
     if length s \<le> d + length ds then None
     else if ds = [] then Some \<lparr>nu_value = 0, nu_end = 0, nu_range = False\<rparr>
     else if 2 ^ 64 \<le> digits_value ds
     then Some \<lparr>nu_value = - 1, nu_end = d + length ds, nu_range = True\<rparr>
     else Some \<lparr>nu_value = (if neg then - of_int (digits_value ds) else of_int (digits_value ds)),
                nu_end = d + length ds, nu_range = False\<rparr>)"

section \<open>Headers\<close>

text \<open>
  \<open>struct ar_hdr\<close> of \<open>ar.h\<close>, as \<open>ar.5\<close> describes it: the name is at 0, the size at 48, and the
  whole has 60 bytes.
\<close>

definition SARMAG :: u64 where "SARMAG = 8"

definition ARMAG :: "u8 list" where
  "ARMAG = [0x21, 0x3c, 0x61, 0x72, 0x63, 0x68, 0x3e, 0x0a]"

definition AR_EFMT1 :: "u8 list" where
  "AR_EFMT1 = [0x23, 0x31, 0x2f]"

definition sizeof_ar_hdr :: u64 where "sizeof_ar_hdr = 60"

definition ar_name_at :: "u8 list \<Rightarrow> u64 \<Rightarrow> u8 list" where
  "ar_name_at mem p = take 16 (drop (unat p) mem)"

definition ar_size_at :: "u8 list \<Rightarrow> u64 \<Rightarrow> number option" where
  "ar_size_at mem p = strtoul (drop (unat p + 48) mem)"

text \<open>The loop over the spaces at the end of a name, from index \<open>i\<close> down.\<close>

primrec name_last :: "u8 list \<Rightarrow> nat \<Rightarrow> nat" where
  "name_last name 0 = 0"
| "name_last name (Suc i) = (if name ! Suc i \<noteq> 32 then Suc i else name_last name i)"

definition size_ar_name :: "u8 list \<Rightarrow> u32" where
  "size_ar_name name =
     (let i = name_last name 15; i = (if 1 < i \<and> name ! i = 0x2f then i - 1 else i)
      in of_nat (i + 1))"

section \<open>The check\<close>

datatype archive_failure = Malformed string | Reads_outside | Uninitialised | Null_pointer | No_fuel

text \<open>
  The size of the name in the extended format: what is returned with \<open>CHECK_GOOD\<close> is the size
  and \<open>errno\<close>, of which only being \<open>ERANGE\<close> matters. The name is copied to a buffer that ends
  with a zero.
\<close>

definition check_extend_format_1 :: "u8 list \<Rightarrow> u32 \<Rightarrow> bool \<Rightarrow> archive_failure + (u32 \<times> bool)" where
  "check_extend_format_1 name size_left errno =
     (let buf = name @ [0]; p = drop 3 buf in
      if \<not> isdigit (hd p) then Inl (Malformed ''extend format #1 starts with non-digit'')
      else (case strtoul p of
          None \<Rightarrow> Inl Reads_outside
        | Some nu \<Rightarrow>
          let ar_name_size = ucast (nu_value nu); errno = (errno \<or> nu_range nu);
              endp = dropWhile (\<lambda>c. c = 32) (drop (nu_end nu) p) in
          if ar_name_size = - 1 \<and> errno
          then Inl (Malformed ''size in ar_name overflows uint32_t'')
          else if hd endp \<noteq> 0
          then Inl (Malformed ''size in ar_name contains non-digit and non-space characters'')
          else if size_left < ar_name_size
          then Inl (Malformed ''archive name of member extends past the end of the file'')
          else Inr (ar_name_size, errno)))"

text \<open>
  The variables of \<open>check_archive\<close> and the fields of the \<open>ofile\<close> it sets. \<open>aw_mh\<close> and \<open>aw_mh64\<close>
  are the local headers, which are not set at first. \<open>aw_reports\<close> counts the errors that are
  reported without ending the check.
\<close>

record archive_walk =
  aw_offset :: u64
  aw_member_offset :: u64
  aw_member_size :: u32
  aw_member_name :: u64
  aw_member_name_size :: u32
  aw_cputype :: cpu_type
  aw_cpusubtype :: cpu_subtype
  aw_mh :: "mach_header option"
  aw_mh64 :: "mach_header_64 option"
  aw_errno :: bool
  aw_reports :: nat

text \<open>The arguments: the archive, its place, the host and \<open>errno\<close> before the check.\<close>

record archive_file =
  ar_mem :: "u8 list"
  ar_size :: u64
  ar_in_fat :: bool
  ar_fat_ok :: bool
  ar_host :: byte_sex
  ar_errno :: bool

definition FAT_MAGIC :: u32 where "FAT_MAGIC = 0xcafebabe"
definition FAT_MAGIC_64 :: u32 where "FAT_MAGIC_64 = 0xcafebabf"
definition MH_MAGIC :: u32 where "MH_MAGIC = 0xfeedface"
definition MH_MAGIC_64 :: u32 where "MH_MAGIC_64 = 0xfeedfacf"

definition is_fat_magic :: "byte_sex \<Rightarrow> u32 \<Rightarrow> bool" where
  "is_fat_magic host magic \<longleftrightarrow> (if host = BIG_ENDIAN_BYTE_SEX
     then magic = FAT_MAGIC \<or> magic = FAT_MAGIC_64
     else magic = SWAP_INT FAT_MAGIC \<or> magic = SWAP_INT FAT_MAGIC_64)"

definition read_mach_header :: "byte_sex \<Rightarrow> u8 list \<Rightarrow> mach_header" where
  "read_mach_header s bs = \<lparr>mh_magic = get32 s bs 0, mh_cputype = get32 s bs 4,
     mh_cpusubtype = get32 s bs 8, mh_filetype = get32 s bs 12, mh_ncmds = get32 s bs 16,
     mh_sizeofcmds = get32 s bs 20, mh_flags = get32 s bs 24\<rparr>"

definition read_mach_header_64 :: "byte_sex \<Rightarrow> u8 list \<Rightarrow> mach_header_64" where
  "read_mach_header_64 s bs = \<lparr>mh64_magic = get32 s bs 0, mh64_cputype = get32 s bs 4,
     mh64_cpusubtype = get32 s bs 8, mh64_filetype = get32 s bs 12, mh64_ncmds = get32 s bs 16,
     mh64_sizeofcmds = get32 s bs 20, mh64_flags = get32 s bs 24, mh64_reserved = get32 s bs 28\<rparr>"

text \<open>The cputype of the first object is that of the archive, another one is an error message.\<close>

definition note_cputype :: "cpu_type \<Rightarrow> cpu_subtype \<Rightarrow> archive_walk \<Rightarrow> archive_walk" where
  "note_cputype ct cs w =
     (if aw_cputype w = 0 then w\<lparr>aw_cputype := ct, aw_cpusubtype := cs\<rparr>
      else if aw_cputype w \<noteq> ct then w\<lparr>aw_reports := aw_reports w + 1\<rparr> else w)"

text \<open>
  The headers of a member that is no fat file: \<open>left\<close> bytes of the archive are left, \<open>bs\<close> are the
  bytes from the member to the end of the mapping.
\<close>

definition object_headers ::
    "byte_sex \<Rightarrow> u32 \<Rightarrow> u64 \<Rightarrow> u8 list \<Rightarrow> archive_walk \<Rightarrow> archive_failure + (u32 \<times> archive_walk)" where
  "object_headers host magic left bs w =
     (if 28 \<le> left \<and> (magic = MH_MAGIC \<or> magic = SWAP_INT MH_MAGIC)
      then if length bs < 28 then Inl Reads_outside
        else let mh = read_mach_header host bs in
          Inr (MH_MAGIC,
            w\<lparr>aw_mh := Some (if magic = SWAP_INT MH_MAGIC then swap_mach_header mh else mh)\<rparr>)
      else if 32 \<le> left \<and> (magic = MH_MAGIC_64 \<or> magic = SWAP_INT MH_MAGIC_64)
      then if length bs < 32 then Inl Reads_outside
        else let mh64 = read_mach_header_64 host bs in
          Inr (MH_MAGIC_64,
            w\<lparr>aw_mh64 := Some (if magic = SWAP_INT MH_MAGIC_64 then swap_mach_header_64 mh64
              else mh64)\<rparr>)
      else Inr (magic, w))"

definition object_cputype :: "u32 \<Rightarrow> archive_walk \<Rightarrow> archive_failure + archive_walk" where
  "object_cputype magic w =
     (if magic = MH_MAGIC
      then (case aw_mh w of None \<Rightarrow> Inl Uninitialised
            | Some mh \<Rightarrow> Inr (note_cputype (mh_cputype mh) (mh_cpusubtype mh) w))
      else if magic = MH_MAGIC_64
      then (case aw_mh64 w of None \<Rightarrow> Inl Uninitialised
            | Some mh64 \<Rightarrow> Inr (note_cputype (mh64_cputype mh64) (mh64_cpusubtype mh64) w))
      else Inr w)"

text \<open>What a member holds, looked at when more than four bytes of the archive are left.\<close>

definition check_contents :: "archive_file \<Rightarrow> archive_walk \<Rightarrow> archive_failure + archive_walk" where
  "check_contents a w =
     (let left = ar_size a - aw_offset w; bs = drop (unat (aw_offset w)) (ar_mem a) in
      if left > 4
      then if length bs < 4 then Inl Reads_outside
        else let magic = get32 (ar_host a) bs 0 in
          if is_fat_magic (ar_host a) magic
          then if \<not> ar_fat_ok a \<or> ar_in_fat a
            then Inl (Malformed ''is a fat file (not allowed in an archive)'') else Inr w
          else (case object_headers (ar_host a) magic left bs w of
              Inl f \<Rightarrow> Inl f | Inr (magic, w) \<Rightarrow> object_cputype magic w)
      else Inr w)"

text \<open>The header of a member: its name, its size and where its contents begin.\<close>

definition member_header :: "archive_file \<Rightarrow> archive_walk \<Rightarrow> archive_failure + archive_walk" where
  "member_header a w =
     (let hdr = aw_offset w; name = ar_name_at (ar_mem a) hdr in
      case ar_size_at (ar_mem a) hdr of
        None \<Rightarrow> Inl Reads_outside
      | Some nu \<Rightarrow>
        if length name < 16 then Inl Reads_outside
        else let w = w\<lparr>aw_member_offset := hdr, aw_member_size := ucast (nu_value nu),
                aw_member_name := hdr, aw_member_name_size := size_ar_name name,
                aw_offset := hdr + sizeof_ar_hdr, aw_errno := aw_errno w \<or> nu_range nu\<rparr> in
          if take 3 name = AR_EFMT1
          then (case check_extend_format_1 name (ucast (ar_size a - aw_offset w)) (aw_errno w) of
              Inl f \<Rightarrow> Inl f
            | Inr (ar_name_size, errno) \<Rightarrow>
              Inr (w\<lparr>aw_member_name := hdr + sizeof_ar_hdr, aw_member_name_size := ar_name_size,
                aw_offset := aw_offset w + ucast ar_name_size,
                aw_member_offset := aw_member_offset w + ucast ar_name_size,
                aw_member_size := aw_member_size w - ar_name_size, aw_errno := errno\<rparr>))
          else Inr w)"

text \<open>One pass of the loop.\<close>

definition check_member :: "archive_file \<Rightarrow> archive_walk \<Rightarrow> archive_failure + archive_walk" where
  "check_member a w =
     (case member_header a w of
        Inl f \<Rightarrow> Inl f
      | Inr w \<Rightarrow>
        let big_size = rnd (ucast (aw_member_size w)) 2 + aw_offset w in
        if big_size > ar_size a
        then Inl (Malformed ''size too large (archive member extends past the end of the file)'')
        else (case check_contents a w of
            Inl f \<Rightarrow> Inl f
          | Inr w \<Rightarrow> Inr (w\<lparr>aw_offset := aw_offset w + rnd (ucast (aw_member_size w)) 2\<rparr>)))"

fun check_each_member :: "nat \<Rightarrow> archive_file \<Rightarrow> archive_walk \<Rightarrow> archive_failure + archive_walk" where
  "check_each_member 0 a w = Inl No_fuel"
| "check_each_member (Suc n) a w =
     (if ar_size a > aw_offset w
      then (case check_member a w of Inl f \<Rightarrow> Inl f | Inr w \<Rightarrow> check_each_member n a w)
      else Inr w)"

text \<open>
  The whole check, from the cputype and cpusubtype of the fat slice the archive is in, or zeroes.
  The fields of the member are cleared at the end.
\<close>

definition start_walk :: "archive_file \<Rightarrow> cpu_type \<Rightarrow> cpu_subtype \<Rightarrow> archive_walk" where
  "start_walk a ct cs = \<lparr>aw_offset = SARMAG, aw_member_offset = 0, aw_member_size = 0,
     aw_member_name = 0, aw_member_name_size = 0, aw_cputype = ct, aw_cpusubtype = cs,
     aw_mh = None, aw_mh64 = None, aw_errno = ar_errno a, aw_reports = 0\<rparr>"

definition check_archive ::
    "nat \<Rightarrow> archive_file \<Rightarrow> cpu_type \<Rightarrow> cpu_subtype \<Rightarrow> archive_failure + archive_walk" where
  "check_archive fuel a ct cs =
     (if ar_size a < SARMAG \<or> take 8 (ar_mem a) \<noteq> ARMAG
      then Inl (Malformed ''no archive magic string'')
      else let w = start_walk a ct cs in
        if SARMAG = ar_size a then Inr w
        else if SARMAG + sizeof_ar_hdr > ar_size a
        then Inl (Malformed ''archive header of first member extends past the end of the file'')
        else (case check_each_member fuel a w of
            Inl f \<Rightarrow> Inl f
          | Inr w \<Rightarrow> Inr (w\<lparr>aw_member_offset := 0, aw_member_size := 0, aw_member_name := 0,
              aw_member_name_size := 0\<rparr>)))"

end
