(* ===== verification/Archive_Toc.thy ===== *)
theory Archive_Toc
  imports Archive
begin

text \<open>
  The table of contents of an archive: \<open>get_toc_byte_sex\<close> of \<open>libstuff/get_toc_byte_sex.c\<close> and
  \<open>check_archive_toc\<close> of \<open>libstuff/ofile.c\<close>. The memory is that of a whole file, which is an
  archive, and a pointer is an offset in it. The two sizes of table, with words of four and of
  eight bytes, have the same code, of which \<open>toc_is_32bit\<close> chooses. The host is no i386 one.
\<close>

section \<open>Names\<close>

definition chars :: "string \<Rightarrow> u8 list" where
  "chars s = map of_char s"

definition SYMDEF :: "u8 list" where "SYMDEF = chars ''__.SYMDEF''"
definition SYMDEF_SORTED :: "u8 list" where "SYMDEF_SORTED = chars ''__.SYMDEF SORTED''"
definition SYMDEF_64 :: "u8 list" where "SYMDEF_64 = chars ''__.SYMDEF_64''"
definition SYMDEF_64_SORTED :: "u8 list" where "SYMDEF_64_SORTED = chars ''__.SYMDEF_64 SORTED''"

text \<open>
  \<open>strncmp(p, literal, n) == 0\<close> on the bytes from \<open>p\<close> to the end of the memory; \<open>None\<close> when the
  comparison reads past them.
\<close>

fun strncmp_at :: "u8 list \<Rightarrow> u8 list \<Rightarrow> nat \<Rightarrow> bool option" where
  "strncmp_at m l 0 = Some True"
| "strncmp_at [] l (Suc n) = None"
| "strncmp_at (c # m) [] (Suc n) = Some (c = 0)"
| "strncmp_at (c # m) (k # l) (Suc n) = (if c = k then strncmp_at m l n else Some False)"

text \<open>The disjunction of such comparisons, from left to right.\<close>

primrec named_one_of :: "u8 list \<Rightarrow> (u8 list \<times> nat) list \<Rightarrow> archive_failure + bool" where
  "named_one_of m [] = Inr False"
| "named_one_of m (x # xs) = (case strncmp_at m (fst x) (snd x) of
     None \<Rightarrow> Inl Reads_outside | Some b \<Rightarrow> if b then Inr True else named_one_of m xs)"

section \<open>The byte sex\<close>

text \<open>The loop from \<open>p\<close>, a pointer that is not reduced modulo the size of an address.\<close>

function toc_sex_from :: "byte_sex \<Rightarrow> u8 list \<Rightarrow> u32 \<Rightarrow> nat \<Rightarrow> archive_failure + byte_sex" where
  "toc_sex_from host mem sz p =
     (if \<not> p + 64 < unat sz then Inr UNKNOWN_BYTE_SEX
      else (case (if take 3 (drop p mem) = AR_EFMT1
                  then map_option (\<lambda>nu. ucast (nu_value nu)) (strtoul (drop (p + 3) mem))
                  else Some (0 :: u32)) of
          None \<Rightarrow> Inl Reads_outside
        | Some ar_name_size \<Rightarrow>
          let q = p + 60 + unat ar_name_size in
          if length mem < q + 4 then Inl Reads_outside
          else let magic = get32 host mem q in
            if magic = MH_MAGIC \<or> magic = MH_MAGIC_64 then Inr host
            else if magic = SWAP_INT MH_MAGIC \<or> magic = SWAP_INT MH_MAGIC_64
            then Inr (other_sex host)
            else (case strtoul (drop (p + 48) mem) of
                None \<Rightarrow> Inl Reads_outside
              | Some nu \<Rightarrow> toc_sex_from host mem sz (p + 60 + unat (rnd (nu_value nu) 2)))))"
  by pat_completeness auto
termination
  by (relation "measure (\<lambda>(host, mem, sz, p). unat sz - p)") auto

declare toc_sex_from.simps [simp del]

definition get_toc_byte_sex :: "byte_sex \<Rightarrow> u8 list \<Rightarrow> u32 \<Rightarrow> archive_failure + byte_sex" where
  "get_toc_byte_sex host mem sz = (case strtoul (drop 56 mem) of
     None \<Rightarrow> Inl Reads_outside
   | Some nu \<Rightarrow> toc_sex_from host mem sz (68 + unat (rnd (nu_value nu) 2)))"

section \<open>The check\<close>

text \<open>
  The \<open>toc\<close> fields of an \<open>ofile\<close>, with null pointers as \<open>None\<close>; one pointer stands for
  \<open>toc_ranlibs\<close> and \<open>toc_ranlibs64\<close>, of which \<open>toc_is_32bit\<close> says which one is meant.
\<close>

record toc =
  toc_addr :: u64
  toc_size :: u32
  toc_name :: u64
  toc_name_size :: u32
  toc_is_32bit :: bool
  toc_ranlibs :: "u64 option"
  toc_nranlibs :: u64
  toc_strings :: "u64 option"
  toc_strsize :: u64
  toc_bad :: bool

definition toc_width :: "bool \<Rightarrow> u64" where
  "toc_width is32 = (if is32 then 4 else 8)"

definition sizeof_ranlib :: "bool \<Rightarrow> u64" where
  "sizeof_ranlib is32 = (if is32 then 8 else 16)"

text \<open>A word of the table, swapped when \<open>sw\<close>.\<close>

definition toc_word :: "byte_sex \<Rightarrow> bool \<Rightarrow> bool \<Rightarrow> u8 list \<Rightarrow> u64 \<Rightarrow> archive_failure + u64" where
  "toc_word host sw is32 mem p =
     (if length mem < unat p + unat (toc_width is32) then Inl Reads_outside
      else if is32
      then let x = get32 host mem (unat p) in Inr (ucast (if sw then SWAP_INT x else x))
      else let x = get64 host mem (unat p) in Inr (if sw then SWAP_LONG_LONG x else x))"

definition read_ranlib :: "byte_sex \<Rightarrow> u8 list \<Rightarrow> ranlib" where
  "read_ranlib s bs = \<lparr>ran_strx = get32 s bs 0, ran_off = get32 s bs 4\<rparr>"

definition read_ranlib_64 :: "byte_sex \<Rightarrow> u8 list \<Rightarrow> ranlib_64" where
  "read_ranlib_64 s bs = \<lparr>ran64_strx = get64 s bs 0, ran64_off = get64 s bs 8\<rparr>"

text \<open>The array of entries, swapped in place.\<close>

definition swap_toc :: "byte_sex \<Rightarrow> bool \<Rightarrow> u8 list \<Rightarrow> nat \<Rightarrow> nat \<Rightarrow> u8 list" where
  "swap_toc host is32 mem p n = write_at mem p
     (if is32
      then concat (map (\<lambda>x. image host (layout_ranlib x))
        (swap_ranlib (map (\<lambda>i. read_ranlib host (bytes_at mem 8 (p + i * 8))) [0..<n]) n))
      else concat (map (\<lambda>x. image host (layout_ranlib_64 x))
        (swap_ranlib_64 (map (\<lambda>i. read_ranlib_64 host (bytes_at mem 16 (p + i * 16))) [0..<n]) n)))"

text \<open>The index of the string and the offset of the member of an entry.\<close>

definition toc_entry :: "byte_sex \<Rightarrow> bool \<Rightarrow> u8 list \<Rightarrow> nat \<Rightarrow> nat \<Rightarrow> u64 \<times> u64" where
  "toc_entry host is32 mem p i =
     (if is32 then let r = read_ranlib host (bytes_at mem 8 (p + i * 8)) in
        (ucast (ran_strx r), ucast (ran_off r))
      else let r = read_ranlib_64 host (bytes_at mem 16 (p + i * 16)) in (ran64_strx r, ran64_off r))"

definition entry_ok :: "bool \<Rightarrow> u64 \<Rightarrow> u64 \<Rightarrow> u64 \<times> u64 \<Rightarrow> bool" where
  "entry_ok is32 strsize file_size e \<longleftrightarrow> fst e < strsize \<and> snd e < file_size
     \<and> snd e mod toc_width is32 = 0"

definition cleared :: "toc \<Rightarrow> toc" where
  "cleared t = t\<lparr>toc_is_32bit := True, toc_ranlibs := None, toc_nranlibs := 0, toc_strings := None,
     toc_strsize := 0\<rparr>"

text \<open>
  The part after the byte sex is known: the extents of the entries and of the strings are compared
  with the size of the table, then the entries are checked.
\<close>

definition check_toc_entries ::
    "byte_sex \<Rightarrow> u64 \<Rightarrow> bool \<Rightarrow> bool \<Rightarrow> u8 list \<Rightarrow> toc \<Rightarrow> archive_failure + (u8 list \<times> toc)" where
  "check_toc_entries host file_size sw is32 mem t =
     (let wd = toc_width is32; len = ucast (toc_size t) in
      case toc_word host sw is32 mem (toc_addr t) of
        Inl f \<Rightarrow> Inl f
      | Inr words \<Rightarrow>
        let n = words div sizeof_ranlib is32; ranlibs = toc_addr t + wd;
            offset = wd + sizeof_ranlib is32 * n in
        if n = 0 then Inr (mem, t)
        else if offset - 2 * wd > len then Inr (mem, t\<lparr>toc_bad := True\<rparr>)
        else (case toc_word host sw is32 mem (toc_addr t + offset) of
            Inl f \<Rightarrow> Inl f
          | Inr strsize \<Rightarrow>
            let strings = toc_addr t + offset + wd; offset = offset + wd + strsize in
            if offset - 2 * wd > len then Inr (mem, t\<lparr>toc_bad := True\<rparr>)
            else if len = 2 * wd then Inr (mem, t)
            else if length mem < unat ranlibs + unat n * unat (sizeof_ranlib is32)
            then Inl Reads_outside
            else let mem = (if sw then swap_toc host is32 mem (unat ranlibs) (unat n) else mem) in
              if list_all (\<lambda>i. entry_ok is32 strsize file_size (toc_entry host is32 mem (unat ranlibs) i))
                  [0..<unat n]
              then Inr (mem, t\<lparr>toc_is_32bit := is32, toc_ranlibs := Some ranlibs,
                toc_strings := Some strings, toc_nranlibs := n, toc_strsize := strsize\<rparr>)
              else Inr (mem, t\<lparr>toc_bad := True\<rparr>)))"

definition check_archive_toc ::
    "byte_sex \<Rightarrow> ofile_type \<Rightarrow> u64 \<Rightarrow> u8 list \<Rightarrow> toc \<Rightarrow> archive_failure + (u8 list \<times> toc)" where
  "check_archive_toc host type file_size mem t =
     (if type \<noteq> OFILE_ARCHIVE then Inr (mem, cleared t)
      else (case named_one_of (drop (unat (toc_name t)) mem)
              [(SYMDEF_64_SORTED, unat (toc_name_size t)), (SYMDEF_64, unat (toc_name_size t))] of
          Inl f \<Rightarrow> Inl f
        | Inr is64 \<Rightarrow>
          if ucast (toc_size t) < 2 * toc_width (\<not> is64)
          then Inr (mem, (cleared t)\<lparr>toc_bad := True\<rparr>)
          else (case get_toc_byte_sex host mem (ucast file_size) of
              Inl f \<Rightarrow> Inl f
            | Inr sex \<Rightarrow>
              if sex = UNKNOWN_BYTE_SEX then Inr (mem, (cleared t)\<lparr>toc_bad := True\<rparr>)
              else check_toc_entries host file_size (sex \<noteq> host) (\<not> is64) mem (cleared t))))"

section \<open>What an accepted table is\<close>


lemma check_toc_entries_accepts:
  assumes "check_toc_entries host fsz sw is32 mem t = Inr (mem', t')" and "toc_ranlibs t = None"
    and "toc_ranlibs t' = Some p"
  shows "toc_is_32bit t' = is32
    \<and> (\<forall>i < unat (toc_nranlibs t'). entry_ok is32 (toc_strsize t') fsz (toc_entry host is32 mem' (unat p) i))
    \<and> toc_size t' = toc_size t \<and> toc_nranlibs t' \<noteq> 0
    \<and> (\<exists>words. toc_word host sw is32 mem (toc_addr t) = Inr words
         \<and> toc_nranlibs t' = words div sizeof_ranlib is32
         \<and> toc_word host sw is32 mem (toc_addr t + (toc_width is32 + sizeof_ranlib is32 * toc_nranlibs t'))
             = Inr (toc_strsize t'))
    \<and> toc_width is32 + sizeof_ranlib is32 * toc_nranlibs t' + toc_width is32 + toc_strsize t'
         - 2 * toc_width is32 \<le> ucast (toc_size t)"
  using assms
  by (auto simp: check_toc_entries_def Let_def list_all_iff not_less split: sum.splits if_splits)

lemma check_archive_toc_cases:
  assumes "check_archive_toc host type fsz mem t = Inr (mem', t')" and "toc_ranlibs t' \<noteq> None"
  obtains is64 sw where
    "named_one_of (drop (unat (toc_name t)) mem)
       [(SYMDEF_64_SORTED, unat (toc_name_size t)), (SYMDEF_64, unat (toc_name_size t))] = Inr is64"
    and "check_toc_entries host fsz sw (\<not> is64) mem (cleared t) = Inr (mem', t')"
  using assms
  by (auto simp: check_archive_toc_def cleared_def simp del: named_one_of.simps
      split: if_splits sum.splits)

text \<open>
  An archive with a table of one entry and one object, on a little endian host. The table says that
  its strings have 16 bytes, of which 8 are in it.
\<close>

definition toc_header :: "string \<Rightarrow> string \<Rightarrow> u8 list" where
  "toc_header name sz = chars name @ replicate (16 - length name) 32 @ chars ''0           0     0     644     ''
     @ chars sz @ replicate (10 - length sz) 32 @ [0x60, 0x0a]"


definition toc_archive_64 :: "u8 list" where
  "toc_archive_64 = ARMAG @ toc_header ''__.SYMDEF'' ''40''
     @ [16, 0, 0, 0, 0, 0, 0, 0, 1, 0, 0, 0, 0, 0, 0, 0, 104, 0, 0, 0, 0, 0, 0, 0, 8, 0, 0, 0, 0, 0, 0, 0]
     @ chars ''__f____'' @ [0] @ toc_header ''a.o'' ''28'' @ [0xce, 0xfa, 0xed, 0xfe] @ replicate 24 0"

definition toc_of :: "u32 \<Rightarrow> u32 \<Rightarrow> toc" where
  "toc_of sz name_size = \<lparr>toc_addr = 68, toc_size = sz, toc_name = 8, toc_name_size = name_size,
     toc_is_32bit = True, toc_ranlibs = None, toc_nranlibs = 0, toc_strings = None, toc_strsize = 0,
     toc_bad = False\<rparr>"


lemma toc_archive_64_accepted:
  "case check_archive_toc LITTLE_ENDIAN_BYTE_SEX OFILE_ARCHIVE 196 toc_archive_64 (toc_of 40 9) of
     Inl f \<Rightarrow> False
   | Inr (mem, t) \<Rightarrow> t = (toc_of 40 9)\<lparr>toc_is_32bit := False, toc_ranlibs := Some 76, toc_nranlibs := 1,
       toc_strings := Some 100, toc_strsize := 8\<rparr>"
  by code_simp

text \<open>A 64-bit table whose strings have \<open>- 16\<close> bytes: their end wraps around and is accepted.\<close>

definition toc_archive_wrapped :: "u8 list" where
  "toc_archive_wrapped = take 92 toc_archive_64 @ [0xf0] @ replicate 7 0xff @ drop 100 toc_archive_64"

lemma wrapped_toc_accepted:
  "case check_archive_toc LITTLE_ENDIAN_BYTE_SEX OFILE_ARCHIVE 196 toc_archive_wrapped (toc_of 40 9) of
     Inl f \<Rightarrow> False
   | Inr (mem, t) \<Rightarrow> t = (toc_of 40 9)\<lparr>toc_is_32bit := False, toc_ranlibs := Some 76, toc_nranlibs := 1,
       toc_strings := Some 100, toc_strsize := - 16\<rparr>"
  by code_simp

section \<open>Properties\<close>



text \<open>
  A table whose name is \<open>__.SYMDEF\<close> without an extended format, so that nine
  characters are compared, is never taken for one of 32-bit words: the nine characters are also
  the first of \<open>__.SYMDEF_64\<close>.
\<close>

theorem plain_symdef_is_64_bit:
  assumes "check_archive_toc host type fsz mem t = Inr (mem', t')" and "toc_ranlibs t' \<noteq> None"
    and "toc_name_size t = size_ar_name (ar_name_at mem (toc_name t))"
    and "ar_name_at mem (toc_name t) = SYMDEF @ replicate 7 32"
  shows "\<not> toc_is_32bit t'"
proof -
  have nine: "toc_name_size t = 9" by (simp only: assms(3,4)) code_simp
  let ?m = "drop (unat (toc_name t)) mem"
  have "take 9 ?m = take 9 (take 16 ?m)" by simp
  also have "take 16 ?m = SYMDEF @ replicate 7 32" using assms(4) by (simp only: ar_name_at_def)
  also have "take 9 \<dots> = SYMDEF" by code_simp
  finally have m: "?m = SYMDEF @ drop 9 ?m" by (metis append_take_drop_id)
  have "strncmp_at (SYMDEF @ r) SYMDEF_64_SORTED 9 = Some True" for r
    by (simp add: SYMDEF_def SYMDEF_64_SORTED_def chars_def eval_nat_numeral)
  then have "named_one_of (SYMDEF @ r)
      [(SYMDEF_64_SORTED, unat (toc_name_size t)), (SYMDEF_64, unat (toc_name_size t))] = Inr True" for r
    by (simp add: nine)
  from this [of "drop 9 ?m"] m have named: "named_one_of ?m
      [(SYMDEF_64_SORTED, unat (toc_name_size t)), (SYMDEF_64, unat (toc_name_size t))] = Inr True"
    by metis
  obtain is64 sw where c:
    "named_one_of ?m [(SYMDEF_64_SORTED, unat (toc_name_size t)), (SYMDEF_64, unat (toc_name_size t))] = Inr is64"
    "check_toc_entries host fsz sw (\<not> is64) mem (cleared t) = Inr (mem', t')"
    using check_archive_toc_cases [OF assms(1,2)] by blast
  have "toc_ranlibs (cleared t) = None" by (simp add: cleared_def)
  with check_toc_entries_accepts [OF c(2)] assms(2) c(1) named show ?thesis by auto
qed

theorem plain_symdef_is_64_bit_witness:
  "\<exists>mem t. check_archive_toc LITTLE_ENDIAN_BYTE_SEX OFILE_ARCHIVE 196 toc_archive_64 (toc_of 40 9)
     = Inr (mem, t) \<and> \<not> toc_is_32bit t"
proof -
  obtain mem t where c: "check_archive_toc LITTLE_ENDIAN_BYTE_SEX OFILE_ARCHIVE 196 toc_archive_64 (toc_of 40 9)
      = Inr (mem, t)" "toc_ranlibs t \<noteq> None"
    using toc_archive_64_accepted by (auto split: sum.splits)
  have "toc_name_size (toc_of 40 9) = size_ar_name (ar_name_at toc_archive_64 (toc_name (toc_of 40 9)))"
    and "ar_name_at toc_archive_64 (toc_name (toc_of 40 9)) = SYMDEF @ replicate 7 32"
    by code_simp+
  from plain_symdef_is_64_bit [OF c this] c(1) show ?thesis by blast
qed

end
