(* ===== verification/Fat_Check.thy ===== *)
theory Fat_Check
  imports Archive Arch_Flags
begin

text \<open>
  Fat files in \<open>libstuff/ofile.c\<close>: the checks of the table of slices, \<open>check_fat\<close> for a file and
  \<open>check_fat_object_in_archive\<close> for a member of an archive, and the selection of a slice in
  \<open>ofile_map_from_memory\<close>. A check returns \<open>None\<close> for \<open>CHECK_GOOD\<close>. Both kinds of slices are read
  into the same local variables, which are the record \<open>fat_slice\<close>.
\<close>

section \<open>Slices\<close>

record fat_slice =
  fs_cputype :: cpu_type
  fs_cpusubtype :: cpu_subtype
  fs_offset :: u64
  fs_size :: u64
  fs_align :: u32

fun fat_slices :: "fat_table \<Rightarrow> fat_slice list" where
  "fat_slices (Fat64 fs) = map (\<lambda>f. \<lparr>fs_cputype = fa64_cputype f, fs_cpusubtype = fa64_cpusubtype f,
     fs_offset = fa64_offset f, fs_size = fa64_size f, fs_align = fa64_align f\<rparr>) fs"
| "fat_slices (Fat32 fs) = map (\<lambda>f. \<lparr>fs_cputype = fa_cputype f, fs_cpusubtype = fa_cpusubtype f,
     fs_offset = ucast (fa_offset f), fs_size = ucast (fa_size f), fs_align = fa_align f\<rparr>) fs"

definition MAXSECTALIGN :: u32 where "MAXSECTALIGN = 15"

text \<open>The tests of a slice in a file, or a member of an archive, of the given size.\<close>

definition check_slice :: "u64 \<Rightarrow> fat_slice \<Rightarrow> archive_failure option" where
  "check_slice sz s =
     (if fs_offset s + fs_size s > sz
      then Some (Malformed ''offset plus size extends past the end of the file'')
      else if fs_align s > MAXSECTALIGN then Some (Malformed ''align too large'')
      else if fs_offset s mod push_bit (unat (fs_align s)) 1 \<noteq> 0
      then Some (Malformed ''offset not aligned on its alignment'')
      else None)"

text \<open>The two nested loops that look for two slices of one architecture.\<close>

definition check_pair :: "slice list \<Rightarrow> nat \<times> nat \<Rightarrow> archive_failure option" where
  "check_pair ss p = (case p of (i, j) \<Rightarrow>
     if fst (ss ! i) = fst (ss ! j) \<and> subtype_base (snd (ss ! i)) = subtype_base (snd (ss ! j))
     then Some (Malformed ''contains two of the same architecture'') else None)"

definition check_pairs :: "slice list \<Rightarrow> archive_failure option" where
  "check_pairs ss = search_in_order (check_pair ss)
     (concat (map (\<lambda>i. map (\<lambda>j. (i, j)) [i + 1..<length ss]) [0..<length ss]))"

definition check_fat :: "ofile_type \<Rightarrow> fat_table \<Rightarrow> u64 \<Rightarrow> archive_failure option" where
  "check_fat type t file_size =
     (if type \<noteq> OFILE_FAT then Some (Malformed ''file type is not OFILE_FAT'')
      else if fat_slices t = [] then Some (Malformed ''contains zero architecture types'')
      else or_else (search_in_order (check_slice file_size) (fat_slices t)) (check_pairs (slices t)))"

text \<open>
  In an archive each slice must be an object. The magic number is read at the offset of the slice
  from the member, in 64-bit arithmetic of addresses; \<open>bitcode\<close> is the test of the LLVM library
  for the bytes at an offset, and always false in a program without it.
\<close>

definition check_object_slice ::
    "byte_sex \<Rightarrow> (u64 \<Rightarrow> u64 \<Rightarrow> bool) \<Rightarrow> u8 list \<Rightarrow> u64 \<Rightarrow> u32 \<Rightarrow> fat_slice \<Rightarrow> archive_failure option" where
  "check_object_slice host bitcode mem member_offset member_size s =
     or_else (check_slice (ucast member_size) s)
      (if fs_size s < 28 then Some (Malformed ''size too small to be an object file'')
       else let p = member_offset + fs_offset s in
         if length mem < unat p + 4 then Some Reads_outside
         else let magic = get32 host mem (unat p) in
           if magic \<in> {MH_MAGIC, SWAP_INT MH_MAGIC, MH_MAGIC_64, SWAP_INT MH_MAGIC_64}
             \<or> bitcode p (fs_size s)
           then None
           else Some (Malformed ''is not an object file (bad magic number)''))"

definition check_fat_object_in_archive ::
    "byte_sex \<Rightarrow> (u64 \<Rightarrow> u64 \<Rightarrow> bool) \<Rightarrow> ofile_type \<Rightarrow> u8 list \<Rightarrow> u64 \<Rightarrow> u32 \<Rightarrow> fat_table \<Rightarrow>
     archive_failure option" where
  "check_fat_object_in_archive host bitcode type mem member_offset member_size t =
     (if type \<noteq> OFILE_ARCHIVE then Some (Malformed ''file type is not OFILE_ARCHIVE'')
      else if fat_slices t = [] then Some (Malformed ''contains zero architecture types'')
      else or_else
        (search_in_order (check_object_slice host bitcode mem member_offset member_size)
          (fat_slices t))
        (check_pairs (slices t)))"

section \<open>Selecting a slice\<close>

datatype map_failure = No_host_arch | No_such_arch | Null_arch_flag

text \<open>
  The slice of \<open>ofile_map_from_memory\<close> for an architecture flag, or for that of the host when the
  pointer is null. The message for an architecture that is not there prints the name of the flag
  of the caller.
\<close>

definition map_arch ::
    "arch_flag option \<Rightarrow> arch_flag option \<Rightarrow> fat_table \<Rightarrow> map_failure + (nat \<times> arch_flag)" where
  "map_arch flag host t =
     (case (case flag of None \<Rightarrow> host | Some f \<Rightarrow> Some f) of
        None \<Rightarrow> Inl No_host_arch
      | Some f \<Rightarrow>
        (case first_index (same_arch (af_cputype f) (af_cpusubtype f)) (slices t) of
           Some i \<Rightarrow> Inr (i, f)
         | None \<Rightarrow>
           let family = (case get_arch_family_from_cputype (af_cputype f) of
               None \<Rightarrow> False
             | Some g \<Rightarrow> subtype_base (af_cpusubtype g) = subtype_base (af_cpusubtype f)) in
           (case first_index (\<lambda>s. fst s = af_cputype f
                \<and> (family \<or> subtype_base (snd s) = subtype_base (af_cpusubtype f))) (slices t) of
              Some i \<Rightarrow> Inr (i, f\<lparr>af_cpusubtype := snd (slices t ! i)\<rparr>)
            | None \<Rightarrow> Inl (if flag = None then Null_arch_flag else No_such_arch))))"

section \<open>What the checks accept\<close>

lemma length_fat_slices [simp]: "length (fat_slices t) = length (slices t)"
  by (cases t) simp_all

lemma slices_fat_slices: "slices t = map (\<lambda>s. (fs_cputype s, fs_cpusubtype s)) (fat_slices t)"
  by (cases t) simp_all

lemma distinct_pairs:
  "distinct xs \<longleftrightarrow> (\<forall>i < length xs. \<forall>j \<in> {i + 1..<length xs}. xs ! i \<noteq> xs ! j)"
proof
  assume r: "\<forall>i < length xs. \<forall>j \<in> {i + 1..<length xs}. xs ! i \<noteq> xs ! j"
  have "xs ! i \<noteq> xs ! j" if "i < length xs" "j < length xs" "i \<noteq> j" for i j
    using that r [rule_format, of i j] r [rule_format, of j i]
    by (cases i j rule: linorder_cases) auto
  then show "distinct xs" by (simp add: distinct_conv_nth)
qed (simp add: distinct_conv_nth)

definition arch_of_slice :: "slice \<Rightarrow> slice" where
  "arch_of_slice s = (fst s, subtype_base (snd s))"

lemma check_pairs_None: "check_pairs ss = None \<longleftrightarrow> distinct (map arch_of_slice ss)"
proof -
  have "check_pairs ss = None \<longleftrightarrow>
      (\<forall>i < length ss. \<forall>j \<in> {i + 1..<length ss}. check_pair ss (i, j) = None)"
    by (auto simp: check_pairs_def)
  also have "\<dots> \<longleftrightarrow> distinct (map arch_of_slice ss)"
    by (simp add: check_pair_def arch_of_slice_def distinct_pairs)
  finally show ?thesis .
qed

lemma aligned_iff:
  assumes "\<not> a > MAXSECTALIGN"
  shows "(x :: u64) mod push_bit (unat a) 1 = 0 \<longleftrightarrow> 2 ^ unat a dvd unat x"
proof -
  have "unat a \<le> 15" using assms by (simp add: MAXSECTALIGN_def not_less word_le_nat_alt)
  then have "(2 :: nat) ^ unat a \<le> 2 ^ 15" by (rule power_increasing) simp
  moreover have "(push_bit (unat a) 1 :: u64) = of_nat (2 ^ unat a)" by simp
  ultimately have "unat (push_bit (unat a) 1 :: u64) = 2 ^ unat a"
    by (simp only: unat_of_nat) simp
  then have "unat (x mod push_bit (unat a) 1) = unat x mod 2 ^ unat a" by (simp add: unat_mod_distrib)
  then show ?thesis by (metis unsigned_0 unsigned_word_eqI mod_0_imp_dvd dvd_imp_mod_0)
qed

lemma check_slice_None:
  "check_slice sz s = None \<longleftrightarrow> (unat (fs_offset s) + unat (fs_size s)) mod 2 ^ 64 \<le> unat sz
     \<and> unat (fs_align s) \<le> 15 \<and> 2 ^ unat (fs_align s) dvd unat (fs_offset s)"
proof (cases "fs_align s > MAXSECTALIGN")
  case True
  then show ?thesis by (simp add: check_slice_def MAXSECTALIGN_def word_less_nat_alt)
next
  case False
  then have "unat (fs_align s) \<le> 15" by (simp add: MAXSECTALIGN_def not_less word_le_nat_alt)
  moreover have "fs_offset s + fs_size s > sz
      \<longleftrightarrow> \<not> (unat (fs_offset s) + unat (fs_size s)) mod 2 ^ 64 \<le> unat sz"
    by (simp add: word_less_nat_alt unat_word_ariths not_le)
  ultimately show ?thesis
    using False aligned_iff [OF False, of "fs_offset s"] by (simp add: check_slice_def del: push_bit_of_1)
qed

section \<open>Properties\<close>

text \<open>
  Property C12. \<open>check_fat\<close> accepts exactly the tables with at least one slice in which every
  slice ends inside the file, as the end is computed in 64 bits, begins at a multiple of its
  alignment, which is at most \<open>2 ^ 15\<close>, and in which no architecture is there twice. The ends of
  the slices of a 32-bit table do not wrap around.
\<close>

theorem check_fat_accepts:
  "(check_fat OFILE_FAT t sz = None \<longleftrightarrow> fat_slices t \<noteq> []
     \<and> list_all (\<lambda>s. (unat (fs_offset s) + unat (fs_size s)) mod 2 ^ 64 \<le> unat sz
          \<and> unat (fs_align s) \<le> 15 \<and> 2 ^ unat (fs_align s) dvd unat (fs_offset s)) (fat_slices t)
     \<and> distinct (map (\<lambda>s. (fs_cputype s, subtype_base (fs_cpusubtype s))) (fat_slices t)))
   \<and> list_all (\<lambda>s. (unat (fs_offset s) + unat (fs_size s)) mod 2 ^ 64
          = unat (fs_offset s) + unat (fs_size s)) (fat_slices (Fat32 fs))"
proof
  have "check_pairs (slices t) = None
      \<longleftrightarrow> distinct (map (\<lambda>s. (fs_cputype s, subtype_base (fs_cpusubtype s))) (fat_slices t))"
    by (simp add: check_pairs_None slices_fat_slices arch_of_slice_def o_def)
  then show "check_fat OFILE_FAT t sz = None \<longleftrightarrow> fat_slices t \<noteq> []
     \<and> list_all (\<lambda>s. (unat (fs_offset s) + unat (fs_size s)) mod 2 ^ 64 \<le> unat sz
          \<and> unat (fs_align s) \<le> 15 \<and> 2 ^ unat (fs_align s) dvd unat (fs_offset s)) (fat_slices t)
     \<and> distinct (map (\<lambda>s. (fs_cputype s, subtype_base (fs_cpusubtype s))) (fat_slices t))"
    by (simp add: check_fat_def check_slice_None list_all_iff)
next
  have "(unat (ucast a :: u64) + unat (ucast b :: u64)) mod 2 ^ 64
      = unat (ucast a :: u64) + unat (ucast b :: u64)" for a b :: u32
    using unat_less_numeral [of a] unat_less_numeral [of b]
    by (simp add: unsigned_ucast_eq take_bit_nat_eq_self)
  then show "list_all (\<lambda>s. (unat (fs_offset s) + unat (fs_size s)) mod 2 ^ 64
          = unat (fs_offset s) + unat (fs_size s)) (fat_slices (Fat32 fs))"
    by (simp add: list_all_iff)
qed

text \<open>
  In a table that \<open>check_fat\<close> accepts, the slice that is selected for an
  architecture flag is the only one of its architecture when there is one, and otherwise a slice
  of the cpu type, which is taken only for the flag of the whole family; the flag then gets the
  subtype of the slice.
\<close>

theorem map_arch_selects:
  assumes "check_fat OFILE_FAT t sz = None" and "map_arch (Some f) host t = Inr (i, g)"
  shows "i < length (slices t) \<and> fst (slices t ! i) = af_cputype f \<and> af_cputype g = af_cputype f
    \<and> (if \<exists>j < length (slices t). same_arch (af_cputype f) (af_cpusubtype f) (slices t ! j)
       then g = f \<and> (\<forall>j < length (slices t).
              same_arch (af_cputype f) (af_cpusubtype f) (slices t ! j) \<longleftrightarrow> j = i)
       else af_cpusubtype g = snd (slices t ! i)
         \<and> map_option (\<lambda>h. subtype_base (af_cpusubtype h)) (get_arch_family_from_cputype (af_cputype f))
           = Some (subtype_base (af_cpusubtype f)))"
proof (cases "first_index (same_arch (af_cputype f) (af_cpusubtype f)) (slices t)")
  case (Some k)
  then have k: "k < length (slices t)" "same_arch (af_cputype f) (af_cpusubtype f) (slices t ! k)"
    by (simp_all add: first_index_Some)
  have "distinct (map arch_of_slice (slices t))"
    using assms(1) by (simp add: check_fat_def check_pairs_None split: if_splits)
  then have one: "j = k" if "j < length (slices t)" "same_arch (af_cputype f) (af_cpusubtype f) (slices t ! j)" for j
    using that k by (force simp: distinct_conv_nth same_arch_def arch_of_slice_def)
  have "i = k" "g = f" using assms(2) Some by (simp_all add: map_arch_def)
  moreover have "fst (slices t ! k) = af_cputype f" using k(2) by (simp add: same_arch_def)
  moreover have "\<exists>j < length (slices t). same_arch (af_cputype f) (af_cpusubtype f) (slices t ! j)"
    using k by blast
  moreover have "\<forall>j < length (slices t). same_arch (af_cputype f) (af_cpusubtype f) (slices t ! j) \<longleftrightarrow> j = k"
    using one k(2) by blast
  ultimately show ?thesis using k(1) by simp
next
  case None
  then have none: "\<not> same_arch (af_cputype f) (af_cpusubtype f) (slices t ! j)" if "j < length (slices t)" for j
    using that by simp
  let ?h = "get_arch_family_from_cputype (af_cputype f)"
  let ?family = "case ?h of None \<Rightarrow> False
    | Some h \<Rightarrow> subtype_base (af_cpusubtype h) = subtype_base (af_cpusubtype f)"
  from assms(2) None have i: "first_index (\<lambda>s. fst s = af_cputype f
      \<and> (?family \<or> subtype_base (snd s) = subtype_base (af_cpusubtype f))) (slices t) = Some i"
    and g: "g = f\<lparr>af_cpusubtype := snd (slices t ! i)\<rparr>"
    by (auto simp: map_arch_def Let_def split: option.splits simp del: first_index_None)
  from first_index_SomeD [OF i] none have "i < length (slices t)" "fst (slices t ! i) = af_cputype f" ?family
    by (auto simp: same_arch_def)
  with g none show ?thesis by (auto split: option.splits)
qed

text \<open>A fat file for i386 and x86_64, and a 64-bit one whose slice begins before the file.\<close>

definition fat_i386_x86_64 :: fat_table where
  "fat_i386_x86_64 = Fat32
     [\<lparr>fa_cputype = CPU_TYPE_I386, fa_cpusubtype = 3, fa_offset = 0x1000, fa_size = 0x800, fa_align = 12\<rparr>,
      \<lparr>fa_cputype = CPU_TYPE_X86_64, fa_cpusubtype = 0x80000003, fa_offset = 0x2000, fa_size = 0x800,
        fa_align = 12\<rparr>]"

definition fat_before_file :: fat_table where
  "fat_before_file = Fat64 [\<lparr>fa64_cputype = CPU_TYPE_X86_64, fa64_cpusubtype = 3, fa64_offset = - 4096,
     fa64_size = 8192, fa64_align = 12, fa64_reserved = 0\<rparr>]"

theorem map_arch_selects_witness:
  "map_arch (Some (known_flag ''x86_64'' CPU_TYPE_X86_64 3)) None fat_i386_x86_64
     = Inr (1, known_flag ''x86_64'' CPU_TYPE_X86_64 3)
   \<and> (\<forall>j < 2. same_arch CPU_TYPE_X86_64 3 (slices fat_i386_x86_64 ! j) \<longleftrightarrow> j = 1)"
proof -
  have fat: "check_fat OFILE_FAT fat_i386_x86_64 0x2800 = None" by code_simp
  have map: "map_arch (Some (known_flag ''x86_64'' CPU_TYPE_X86_64 3)) None fat_i386_x86_64
      = Inr (1, known_flag ''x86_64'' CPU_TYPE_X86_64 3)" by code_simp
  have "\<exists>j < 2. same_arch CPU_TYPE_X86_64 3 (slices fat_i386_x86_64 ! j)"
    by (rule exI [of _ 1]) code_simp
  with map_arch_selects [OF fat map] map show ?thesis
    by (simp add: fat_i386_x86_64_def numeral_2_eq_2 split: if_splits)
qed

text \<open>A slice that begins before the file: its end wraps around.\<close>

lemma slice_before_file_accepted: "check_fat OFILE_FAT fat_before_file 8192 = None"
  by code_simp

text \<open>
  Without a flag and without a slice for the host, the message takes the name of the flag through
  a null pointer.
\<close>

lemma host_arch_missing:
  "map_arch None (Some (known_flag ''arm64'' CPU_TYPE_ARM64 0)) fat_i386_x86_64 = Inl Null_arch_flag"
  by code_simp

end
