(* ===== verification/Archive_Walk.thy ===== *)
theory Archive_Walk
  imports Archive_Toc Fat_Check
begin

text \<open>
  The members of an archive one after the other: \<open>ofile_first_member\<close> and \<open>ofile_next_member\<close> of
  \<open>libstuff/ofile.c\<close>. Each sets the member fields of the \<open>ofile\<close>, looks at what the member is, and
  checks an object with \<open>check_Mach_O\<close>, which swaps its headers in memory. The memory is that of
  the file from the start of the archive on. \<open>member_addr\<close> always is \<open>member_offset\<close> in that memory
  and has no field of its own. Error messages that do not change the result are left out.
\<close>

section \<open>The state\<close>

record archive_state =
  as_mem :: "u8 list"
  as_ofile :: ofile
  as_offset :: u64
  as_size :: u32
  as_hdr :: "u64 option"
  as_name :: u64
  as_name_size :: u32
  as_type :: ofile_type
  as_fat :: "fat_table option"
  as_toc :: toc
  as_strtab :: "u64 option"
  as_strtab_size :: u32

text \<open>
  The size of the archive, the host, and the code that is called: \<open>we_process\<close> is what the caller
  of the loop does with a member, and the swapping back of its headers behind that.
\<close>

record walk_env =
  we_size :: u64
  we_host :: byte_sex
  we_tswap :: "cpu_type \<Rightarrow> u32 \<Rightarrow> u8 list \<Rightarrow> u8 list"
  we_bitcode :: "u64 \<Rightarrow> u64 \<Rightarrow> bool"
  we_non_objects :: bool
  we_process :: "archive_state \<Rightarrow> archive_state"

type_synonym member_run = "archive_failure + (bool \<times> archive_state)"

definition no_object :: "ofile \<Rightarrow> ofile" where
  "no_object f = f\<lparr>of_object_size := 0, of_object_byte_sex := UNKNOWN_BYTE_SEX, of_mh := None,
     of_mh64 := None, of_load_commands := []\<rparr>"

definition no_member :: "archive_state \<Rightarrow> archive_state" where
  "no_member st = st\<lparr>as_offset := 0, as_size := 0, as_hdr := None, as_name := 0, as_name_size := 0,
     as_type := OFILE_UNKNOWN, as_ofile := no_object (as_ofile st)\<rparr>"

section \<open>What a member is\<close>

definition read_fat_header :: "byte_sex \<Rightarrow> u8 list \<Rightarrow> fat_header" where
  "read_fat_header s bs = \<lparr>fh_magic = get32 s bs 0, fh_nfat_arch = get32 s bs 4\<rparr>"

definition read_fat_arch :: "byte_sex \<Rightarrow> u8 list \<Rightarrow> fat_arch" where
  "read_fat_arch s bs = \<lparr>fa_cputype = get32 s bs 0, fa_cpusubtype = get32 s bs 4,
     fa_offset = get32 s bs 8, fa_size = get32 s bs 12, fa_align = get32 s bs 16\<rparr>"

definition read_fat_arch_64 :: "byte_sex \<Rightarrow> u8 list \<Rightarrow> fat_arch_64" where
  "read_fat_arch_64 s bs = \<lparr>fa64_cputype = get32 s bs 0, fa64_cpusubtype = get32 s bs 4,
     fa64_offset = get64 s bs 8, fa64_size = get64 s bs 16, fa64_align = get32 s bs 24,
     fa64_reserved = get32 s bs 28\<rparr>"

text \<open>The table of a fat member, swapped in memory on a little endian host.\<close>

definition fat_table_at :: "byte_sex \<Rightarrow> bool \<Rightarrow> u8 list \<Rightarrow> nat \<Rightarrow> nat \<Rightarrow> fat_table" where
  "fat_table_at host is64 mem p n =
     (if is64
      then let fs = map (\<lambda>i. read_fat_arch_64 host (bytes_at mem 32 (p + i * 32))) [0..<n] in
        Fat64 (if host = LITTLE_ENDIAN_BYTE_SEX then swap_fat_arch_64 fs n else fs)
      else let fs = map (\<lambda>i. read_fat_arch host (bytes_at mem 20 (p + i * 20))) [0..<n] in
        Fat32 (if host = LITTLE_ENDIAN_BYTE_SEX then swap_fat_arch fs n else fs))"

fun fat_table_image :: "byte_sex \<Rightarrow> fat_table \<Rightarrow> u8 list" where
  "fat_table_image host (Fat64 fs) = concat (map (\<lambda>f. image host (layout_fat_arch_64 f)) fs)"
| "fat_table_image host (Fat32 fs) = concat (map (\<lambda>f. image host (layout_fat_arch f)) fs)"

text \<open>
  A fat member. The size of the table is computed in 64 bits and stored in 32; the table is then
  read with the number of slices of the header.
\<close>

definition open_fat :: "walk_env \<Rightarrow> archive_state \<Rightarrow> member_run" where
  "open_fat env st =
     (let p = unat (as_offset st); host = we_host env in
      if length (as_mem st) < p + 8 then Inl Reads_outside
      else let h = read_fat_header host (bytes_at (as_mem st) 8 p);
             h = (if host = LITTLE_ENDIAN_BYTE_SEX then swap_fat_header h else h);
             mem = write_at (as_mem st) p (image host (layout_fat_header h));
             is64 = (fh_magic h = FAT_MAGIC_64); n = unat (fh_nfat_arch h);
             sizeof_fat_archs = fh_nfat_arch h * (if is64 then 32 else 20);
             st = st\<lparr>as_mem := mem\<rparr> in
        if 8 + ucast sizeof_fat_archs > (ucast (as_size st) :: u64)
        then Inr (False, (no_member st)\<lparr>as_fat := None\<rparr>)
        else if length mem < p + 8 + n * (if is64 then 32 else 20) then Inl Reads_outside
        else let t = fat_table_at host is64 mem (p + 8) n;
               st = st\<lparr>as_mem := write_at mem (p + 8) (fat_table_image host t)\<rparr> in
          (case check_fat_object_in_archive host (we_bitcode env) (of_file_type (as_ofile st))
              (as_mem st) (as_offset st) (as_size st) t of
            None \<Rightarrow> Inr (True, st\<lparr>as_type := OFILE_FAT, as_fat := Some t\<rparr>)
          | Some (Malformed text) \<Rightarrow> Inr (False, (no_member st)\<lparr>as_fat := None\<rparr>)
          | Some f \<Rightarrow> Inl f))"

text \<open>
  An object: its header and its load commands are swapped in place when it has the other byte
  sex. When the check fails they are swapped back.
\<close>

definition object_in :: "walk_env \<Rightarrow> bool \<Rightarrow> bool \<Rightarrow> archive_state \<Rightarrow> ofile" where
  "object_in env is64 swapped st =
     (let bs = drop (unat (as_offset st)) (as_mem st); host = we_host env in
      (as_ofile st)\<lparr>of_object_size := as_size st,
        of_object_byte_sex := (if swapped then other_sex host else host),
        of_mh := (if is64 then None else Some (read_mach_header host bs)),
        of_mh64 := (if is64 then Some (read_mach_header_64 host bs) else None),
        of_load_commands := drop (if is64 then 32 else 28) (take (unat (as_size st)) bs)\<rparr>)"

definition header_image :: "byte_sex \<Rightarrow> ofile \<Rightarrow> u8 list" where
  "header_image host f = (case of_mh f of
     Some mh \<Rightarrow> image host (layout_mach_header mh)
   | None \<Rightarrow> (case of_mh64 f of
       Some mh64 \<Rightarrow> image host (layout_mach_header_64 mh64) | None \<Rightarrow> []))"

definition open_mach_O :: "walk_env \<Rightarrow> bool \<Rightarrow> bool \<Rightarrow> archive_state \<Rightarrow> member_run" where
  "open_mach_O env is64 swapped st =
     (case check_Mach_O (we_host env) (we_tswap env) (object_in env is64 swapped st) of
        Inl (failure.Bad text) \<Rightarrow> Inr (False, no_member st)
      | Inl failure.Null_dereference \<Rightarrow> Inl Null_pointer
      | Inl failure.Out_of_bounds \<Rightarrow> Inl Reads_outside
      | Inr (f, cs) \<Rightarrow> Inr (True, st\<lparr>as_type := OFILE_Mach_O, as_ofile := f,
          as_mem := write_at (as_mem st) (unat (as_offset st))
            (header_image (we_host env) f @ of_load_commands f)\<rparr>))"

text \<open>
  The kind of a member. \<open>left\<close> is what remains of the archive from its contents on, and unknown when
  the length of the name was never set.
\<close>

definition open_member :: "walk_env \<Rightarrow> u64 option \<Rightarrow> archive_state \<Rightarrow> member_run" where
  "open_member env left st =
     (let p = unat (as_offset st); host = we_host env in
      if \<not> as_size st > 4 then Inr (True, st)
      else if length (as_mem st) < p + 4 then Inl Reads_outside
      else let magic = get32 host (as_mem st) p in
        if is_fat_magic host magic then open_fat env st
        else (case left of
            None \<Rightarrow> Inl Uninitialised
          | Some left \<Rightarrow>
            if 28 \<le> left \<and> (magic = MH_MAGIC \<or> magic = SWAP_INT MH_MAGIC)
            then open_mach_O env False (magic \<noteq> MH_MAGIC) st
            else if 32 \<le> left \<and> (magic = MH_MAGIC_64 \<or> magic = SWAP_INT MH_MAGIC_64)
            then open_mach_O env True (magic \<noteq> MH_MAGIC_64) st
            else Inr (True, st)))"

text \<open>A member of no kind may hold LLVM bitcode.\<close>

definition open_bitcode :: "walk_env \<Rightarrow> archive_state \<Rightarrow> archive_state" where
  "open_bitcode env st =
     (if as_size st > 4 \<and> as_type st = OFILE_UNKNOWN \<and> we_bitcode env (as_offset st) (ucast (as_size st))
      then st\<lparr>as_type := OFILE_LLVM_BITCODE, as_ofile := (as_ofile st)\<lparr>of_object_size := as_size st\<rparr>\<rparr>
      else st)"

section \<open>The first member\<close>

definition clamped_size :: "u64 \<Rightarrow> u64 \<Rightarrow> u32" where
  "clamped_size sz v = (let n = ucast v :: u32 in
     if ucast n > sz - sizeof_ar_hdr then ucast (sz - sizeof_ar_hdr) else n)"

text \<open>
  The name in the extended format: its length, which is read from the header in place, is cut off
  at the size of the member.
\<close>

definition extended_name :: "u64 \<Rightarrow> archive_state \<Rightarrow> archive_failure + (archive_state \<times> u32)" where
  "extended_name hdr st = (case strtoul (drop (unat hdr + 3) (as_mem st)) of
     None \<Rightarrow> Inl Reads_outside
   | Some nu \<Rightarrow>
     let n = ucast (nu_value nu); n = (if n > as_size st then as_size st else n) in
     Inr (st\<lparr>as_name := hdr + sizeof_ar_hdr, as_name_size := n, as_offset := as_offset st + ucast n,
       as_size := as_size st - n\<rparr>, n))"

text \<open>The fields that are set from the header at \<open>hdr\<close>, before its name is looked at.\<close>

definition set_member :: "walk_env \<Rightarrow> u64 \<Rightarrow> archive_state \<Rightarrow> archive_failure + archive_state" where
  "set_member env hdr st = (case ar_size_at (as_mem st) hdr of
     None \<Rightarrow> Inl Reads_outside
   | Some nu \<Rightarrow> if length (as_mem st) < unat hdr + 16 then Inl Reads_outside
     else Inr (st\<lparr>as_offset := hdr + sizeof_ar_hdr, as_size := clamped_size (we_size env) (nu_value nu),
       as_hdr := Some hdr, as_type := OFILE_UNKNOWN, as_name := hdr\<rparr>))"

definition first_name :: "u64 \<Rightarrow> archive_state \<Rightarrow> archive_failure + (archive_state \<times> u32)" where
  "first_name hdr st = (let name = ar_name_at (as_mem st) hdr in
     if take 3 name = AR_EFMT1 then extended_name hdr st
     else Inr (st\<lparr>as_name_size := size_ar_name name\<rparr>, 0))"

text \<open>The table of contents, which only the first member can be.\<close>

definition no_toc :: "toc \<Rightarrow> toc" where
  "no_toc t = t\<lparr>toc_addr := 0, toc_size := 0, toc_name := 0, toc_name_size := 0, toc_ranlibs := None,
     toc_nranlibs := 0, toc_strings := None, toc_strsize := 0, toc_bad := False\<rparr>"

definition open_toc :: "walk_env \<Rightarrow> archive_state \<Rightarrow> archive_failure + archive_state" where
  "open_toc env st =
     (if \<not> (as_size st > 4 \<and> as_type st = OFILE_UNKNOWN) then Inr st
      else (case named_one_of (drop (unat (as_name st)) (as_mem st))
            [(SYMDEF_SORTED, 16), (SYMDEF, 9), (SYMDEF_64_SORTED, 19), (SYMDEF_64, 12)] of
          Inl f \<Rightarrow> Inl f
        | Inr True \<Rightarrow>
          let t = (as_toc st)\<lparr>toc_addr := as_offset st, toc_size := as_size st, toc_name := as_name st,
              toc_name_size := as_name_size st\<rparr> in
          (case check_archive_toc (we_host env) (of_file_type (as_ofile st)) (we_size env) (as_mem st) t of
             Inl f \<Rightarrow> Inl f
           | Inr (mem, t) \<Rightarrow> Inr (st\<lparr>as_mem := mem, as_toc := t\<rparr>))
        | Inr False \<Rightarrow>
          (case strncmp_at (drop (unat (as_name st)) (as_mem st)) (chars ''// '') 4 of
             None \<Rightarrow> Inl Reads_outside
           | Some b \<Rightarrow> Inr (if b
               then st\<lparr>as_strtab := Some (as_offset st), as_strtab_size := as_size st\<rparr> else st))))"

text \<open>A table of contents is not looked into for bitcode.\<close>

definition first_bitcode :: "walk_env \<Rightarrow> archive_state \<Rightarrow> archive_failure + archive_state" where
  "first_bitcode env st =
     (if \<not> (as_size st > 4 \<and> as_type st = OFILE_UNKNOWN) then Inr st
      else (case named_one_of (drop (unat (as_name st)) (as_mem st)) [(SYMDEF_SORTED, 16), (SYMDEF, 9)] of
          Inl f \<Rightarrow> Inl f
        | Inr b \<Rightarrow> Inr (if b then st else open_bitcode env st)))"

definition first_contents :: "walk_env \<Rightarrow> u32 \<Rightarrow> archive_state \<Rightarrow> member_run" where
  "first_contents env n st =
     (let left = we_size env - (SARMAG + sizeof_ar_hdr + ucast n);
          st = st\<lparr>as_toc := no_toc (as_toc st), as_strtab := None, as_strtab_size := 0\<rparr> in
      case open_member env (Some left) st of
        Inl f \<Rightarrow> Inl f
      | Inr (False, st) \<Rightarrow> Inr (False, st)
      | Inr (True, st) \<Rightarrow>
        (case open_toc env st of
           Inl f \<Rightarrow> Inl f
         | Inr st \<Rightarrow> (case first_bitcode env st of Inl f \<Rightarrow> Inl f | Inr st \<Rightarrow> Inr (True, st))))"

definition ofile_first_member :: "walk_env \<Rightarrow> archive_state \<Rightarrow> member_run" where
  "ofile_first_member env st =
     (let st = no_member st in
      if we_size env < SARMAG \<or> take 8 (as_mem st) \<noteq> ARMAG then Inr (False, st)
      else if SARMAG \<noteq> we_size env \<and> SARMAG + sizeof_ar_hdr > we_size env then Inr (False, st)
      else if we_size env = SARMAG then Inr (False, st)
      else (case set_member env SARMAG st of
          Inl f \<Rightarrow> Inl f
        | Inr st \<Rightarrow> (case first_name SARMAG st of
            Inl f \<Rightarrow> Inl f
          | Inr (st, n) \<Rightarrow> first_contents env n st)))"

section \<open>The next member\<close>

text \<open>The string table of a System V archive, and a name in it.\<close>

definition note_strtab :: "u64 \<Rightarrow> archive_state \<Rightarrow> archive_state" where
  "note_strtab hdr st =
     (if as_strtab st = None \<and> as_strtab_size st = 0
        \<and> take 3 (ar_name_at (as_mem st) hdr) = chars ''// ''
      then st\<lparr>as_strtab := Some (as_offset st), as_strtab_size := as_size st\<rparr> else st)"

definition strtab_name :: "u64 \<Rightarrow> archive_state \<Rightarrow> archive_failure + archive_state" where
  "strtab_name hdr st = (case strtoul (drop (unat hdr + 1) (as_mem st)) of
     None \<Rightarrow> Inl Reads_outside
   | Some nu \<Rightarrow>
     let k = ucast (nu_value nu) :: u32 in
     if k < as_strtab_size st
     then (case as_strtab st of
         None \<Rightarrow> Inl Null_pointer
       | Some tab \<Rightarrow>
         let name = take (unat (as_strtab_size st - k)) (drop (unat tab + unat k) (as_mem st)) in
         if length name < unat (as_strtab_size st - k) \<and> 0x2f \<notin> set name then Inl Reads_outside
         else Inr (st\<lparr>as_name := tab + ucast k,
           as_name_size := of_nat (length (takeWhile (\<lambda>c. c \<noteq> 0x2f) name))\<rparr>))
     else Inr (st\<lparr>as_name_size := size_ar_name (ar_name_at (as_mem st) hdr)\<rparr>))"

text \<open>The name, and its length in the extended format; after a System V name that is not set.\<close>

definition next_name :: "u64 \<Rightarrow> archive_state \<Rightarrow> archive_failure + (archive_state \<times> u32 option)" where
  "next_name hdr st = (let name = ar_name_at (as_mem st) hdr in
     if name ! 0 = 0x2f \<and> name ! 1 \<noteq> 32 \<and> name ! 1 \<noteq> 0x2f
     then (case strtab_name hdr st of Inl f \<Rightarrow> Inl f | Inr st \<Rightarrow> Inr (st, None))
     else if take 3 name = AR_EFMT1
     then (case extended_name hdr st of Inl f \<Rightarrow> Inl f | Inr (st, n) \<Rightarrow> Inr (st, Some n))
     else Inr (st\<lparr>as_name_size := size_ar_name name\<rparr>, Some 0))"

definition next_contents :: "walk_env \<Rightarrow> u64 \<Rightarrow> u32 option \<Rightarrow> archive_state \<Rightarrow> member_run" where
  "next_contents env hdr n st =
     (let left = map_option (\<lambda>n. we_size env - (hdr + sizeof_ar_hdr + ucast n)) n;
          st = st\<lparr>as_type := OFILE_UNKNOWN, as_ofile := no_object (as_ofile st)\<rparr> in
      case open_member env left st of
        Inl f \<Rightarrow> Inl f
      | Inr (False, st) \<Rightarrow> Inr (False, st)
      | Inr (True, st) \<Rightarrow> Inr (True, open_bitcode env st))"

definition ofile_next_member :: "walk_env \<Rightarrow> archive_state \<Rightarrow> member_run" where
  "ofile_next_member env st =
     (if we_size env < SARMAG \<or> take 8 (as_mem st) \<noteq> ARMAG then Inr (False, st)
      else if as_hdr st = None then Inr (False, st)
      else let hdr = as_offset st + rnd (ucast (as_size st)) 2 in
        if hdr = we_size env
        then Inr (False, (no_member st)\<lparr>as_fat := (if as_type st = OFILE_FAT then None else as_fat st)\<rparr>)
        else if hdr > we_size env then Inr (False, st)
        else (case set_member env hdr st of
            Inl f \<Rightarrow> Inl f
          | Inr st \<Rightarrow> (case next_name hdr (note_strtab hdr st) of
              Inl f \<Rightarrow> Inl f
            | Inr (st, n) \<Rightarrow> next_contents env hdr n st)))"

section \<open>The loop over the members\<close>

text \<open>
  The loop of \<open>ofile_process\<close>. Its result is the list of the headers of the members and the
  places of their contents.
\<close>

definition place_of :: "archive_state \<Rightarrow> u64 option \<times> u64 \<times> u32" where
  "place_of st = (as_hdr st, as_offset st, as_size st)"

definition process_member :: "walk_env \<Rightarrow> archive_state \<Rightarrow> archive_state" where
  "process_member env st =
     (if we_non_objects env \<or> as_type st = OFILE_Mach_O then we_process env st else st)"

primrec visit_from ::
    "nat \<Rightarrow> walk_env \<Rightarrow> archive_state \<Rightarrow> archive_failure + (u64 option \<times> u64 \<times> u32) list" where
  "visit_from 0 env st = Inl No_fuel"
| "visit_from (Suc k) env st = (case ofile_next_member env (process_member env st) of
     Inl f \<Rightarrow> Inl f
   | Inr (found, st') \<Rightarrow> if \<not> found then Inr [place_of st]
     else (case visit_from k env st' of Inl f \<Rightarrow> Inl f | Inr ps \<Rightarrow> Inr (place_of st # ps)))"

definition visit_members ::
    "nat \<Rightarrow> walk_env \<Rightarrow> archive_state \<Rightarrow> archive_failure + (u64 option \<times> u64 \<times> u32) list" where
  "visit_members k env st = (case ofile_first_member env st of
     Inl f \<Rightarrow> Inl f
   | Inr (found, st) \<Rightarrow> if found then visit_from k env st else Inr [])"

end
