(* ===== verification/Archive_Members.thy ===== *)
theory Archive_Members
  imports Archive
begin

text \<open>
  What an archive is whose check succeeds: \<open>tiles\<close> says that its members lie one behind the other
  from the magic string to the end of the archive.
\<close>

section \<open>The members of an archive\<close>

text \<open>The numbers in a header: the size it gives, and the length of the name behind it.\<close>

definition member_numbers :: "u8 list \<Rightarrow> u64 \<Rightarrow> (u32 \<times> u32) option" where
  "member_numbers mem p =
     (case ar_size_at mem p of
        None \<Rightarrow> None
      | Some nu \<Rightarrow> Some (ucast (nu_value nu),
          if take 3 (ar_name_at mem p) = AR_EFMT1
          then (case strtoul (drop 3 (ar_name_at mem p) @ [0]) of
              None \<Rightarrow> 0 | Some k \<Rightarrow> ucast (nu_value k))
          else 0))"

definition even_up :: "nat \<Rightarrow> nat" where
  "even_up n = n + n mod 2"

inductive tiles :: "u8 list \<Rightarrow> nat \<Rightarrow> nat \<Rightarrow> (nat \<times> nat \<times> nat) list \<Rightarrow> bool"
  for mem :: "u8 list" and sz :: nat where
  tiles_end: "tiles mem sz sz []"
| tiles_member: "member_numbers mem (of_nat p) = Some (v, n) \<Longrightarrow>
    p + 60 + unat n + even_up (unat (v - n)) \<le> sz \<Longrightarrow>
    tiles mem sz (p + 60 + unat n + even_up (unat (v - n))) ms \<Longrightarrow>
    tiles mem sz p ((p, unat n, unat (v - n)) # ms)"

inductive_cases tiles_ConsE: "tiles mem sz p (m # ms)"
inductive_cases tiles_NilE: "tiles mem sz p []"

lemma tiles_bounds:
  assumes "tiles mem sz p ms"
  shows "p \<le> sz \<and> (\<forall>(h, n, s) \<in> set ms. p \<le> h \<and> h + 60 + n + s \<le> sz)"
  using assms by (induction rule: tiles.induct) (auto simp: even_up_def)

lemma tiles_disjoint:
  assumes "tiles mem sz p ms" and "i < j" and "j < length ms"
  shows "fst (ms ! i) + 60 + fst (snd (ms ! i)) + snd (snd (ms ! i)) \<le> fst (ms ! j)"
  using assms
proof (induction arbitrary: i j rule: tiles.induct)
  case (tiles_member p v n ms)
  show ?case
  proof (cases i)
    case 0
    obtain h n' s' where m: "ms ! (j - 1) = (h, n', s')" by (rule prod_cases3)
    have "ms ! (j - 1) \<in> set ms" using tiles_member.prems 0 by simp
    then have "p + 60 + unat n + even_up (unat (v - n)) \<le> fst (ms ! (j - 1))"
      using tiles_bounds [OF tiles_member.hyps(3)] by (auto simp: m)
    then show ?thesis using 0 tiles_member.prems by (simp add: even_up_def nth_Cons')
  next
    case (Suc k)
    then show ?thesis using tiles_member.IH [of k "j - 1"] tiles_member.prems by (simp add: nth_Cons')
  qed
qed simp

section \<open>Rounding and offsets\<close>

lemma unat_rnd_2: "unat (rnd (ucast (m :: u32)) 2) = even_up (unat m)"
proof -
  have *: "rnd v 2 = push_bit 1 (drop_bit 1 (v + 1))" for v
    using and_not_mask_shift [of "v + 1" 1] by (simp add: rnd_def mask_eq_exp_minus_1)
  have "unat (ucast m + 1 :: u64) = unat m + 1"
    using unat_less_numeral [of m] by (subst word_add_no_wrap) (simp_all add: unsigned_ucast_eq take_bit_nat_eq_self)
  then have "unat (rnd (ucast m) 2) = (unat m + 1) div 2 * 2"
    using unat_less_numeral [of m]
    by (simp add: * unat_shift_down_up [where n = 1, simplified])
  also have "\<dots> = even_up (unat m)" by (simp add: even_up_def) presburger
  finally show ?thesis .
qed

section \<open>One pass of the check\<close>

lemma check_extend_format_1_accepts:
  assumes "check_extend_format_1 name left errno = Inr (n, errno')"
  shows "\<exists>k. strtoul (drop 3 (name @ [0])) = Some k \<and> n = ucast (nu_value k) \<and> n \<le> left"
  using assms by (auto simp: check_extend_format_1_def Let_def split: if_splits option.splits)

lemma member_header_accepts:
  assumes "member_header a w = Inr w'"
  shows "\<exists>v n. member_numbers (ar_mem a) (aw_offset w) = Some (v, n)
    \<and> aw_offset w' = aw_offset w + 60 + ucast n \<and> aw_member_size w' = v - n
    \<and> aw_mh w' = aw_mh w \<and> aw_mh64 w' = aw_mh64 w"
proof -
  have "length (ar_name_at (ar_mem a) (aw_offset w)) = 16"
    using assms by (auto simp: member_header_def Let_def ar_name_at_def split: option.splits if_splits)
  then have drop: "drop 3 (ar_name_at (ar_mem a) (aw_offset w) @ [0])
      = drop 3 (ar_name_at (ar_mem a) (aw_offset w)) @ [0]" by simp
  show ?thesis
    using assms drop
    by (auto simp: member_header_def Let_def member_numbers_def sizeof_ar_hdr_def
        dest!: check_extend_format_1_accepts split: option.splits if_splits sum.splits)
qed

lemma note_cputype_keeps [simp]:
  "aw_offset (note_cputype ct cs w) = aw_offset w"
  "aw_member_size (note_cputype ct cs w) = aw_member_size w"
  by (simp_all add: note_cputype_def)

lemma check_contents_keeps:
  assumes "check_contents a w = Inr w'"
  shows "aw_offset w' = aw_offset w \<and> aw_member_size w' = aw_member_size w"
  using assms by (auto simp: check_contents_def object_headers_def object_cputype_def Let_def
      split: if_splits option.splits sum.splits)

text \<open>No sum of the pass wraps around in an archive of less than \<open>2 ^ 63\<close> bytes.\<close>

lemma check_member_accepts:
  assumes c: "check_member a w = Inr w'" and less: "aw_offset w < ar_size a"
    and small: "unat (ar_size a) < 2 ^ 63"
  shows "\<exists>v n. member_numbers (ar_mem a) (aw_offset w) = Some (v, n)
    \<and> unat (aw_offset w') = unat (aw_offset w) + 60 + unat n + even_up (unat (v - n))
    \<and> unat (aw_offset w') \<le> unat (ar_size a)"
proof -
  obtain h where h: "member_header a w = Inr h" using c by (auto simp: check_member_def split: sum.splits)
  obtain v n where m: "member_numbers (ar_mem a) (aw_offset w) = Some (v, n)"
    and off: "aw_offset h = aw_offset w + 60 + ucast n" and sz: "aw_member_size h = v - n"
    using member_header_accepts [OF h] by blast
  have big: "rnd (ucast (aw_member_size h)) 2 + aw_offset h \<le> ar_size a"
    using c h by (auto simp: check_member_def Let_def not_less split: if_splits)
  have w': "aw_offset w' = aw_offset h + rnd (ucast (v - n)) 2"
    using c h sz by (auto simp: check_member_def Let_def dest!: check_contents_keeps
        split: if_splits sum.splits)
  have lt: "unat (aw_offset w) < 2 ^ 63" using less small by (simp add: word_less_nat_alt)
  have n: "unat (ucast n :: u64) = unat n" "unat n < 2 ^ 32"
    using unat_less_numeral [of n] by (simp_all add: unsigned_ucast_eq take_bit_nat_eq_self)
  have r: "unat (rnd (ucast (v - n)) 2) = even_up (unat (v - n))" by (rule unat_rnd_2)
  have e: "even_up (unat (v - n)) \<le> 2 ^ 32"
    using unat_less_numeral [of "v - n"] by (simp add: even_up_def)
  have h_off: "unat (aw_offset h) = unat (aw_offset w) + 60 + unat n"
  proof -
    have "unat (aw_offset w + 60) = unat (aw_offset w) + 60" using lt by (subst word_add_no_wrap) simp_all
    then show ?thesis using lt n by (simp add: off word_add_no_wrap)
  qed
  have "unat (aw_offset w') = unat (aw_offset h) + even_up (unat (v - n))"
    using lt n e by (simp add: w' h_off r word_add_no_wrap)
  moreover have "unat (aw_offset w') \<le> unat (ar_size a)"
    using big by (simp add: w' sz add.commute word_le_nat_alt)
  ultimately show ?thesis using m h_off by simp
qed

section \<open>The whole check\<close>

lemma check_each_member_accepts:
  assumes "check_each_member fuel a w = Inr w'" and "unat (ar_size a) < 2 ^ 63"
    and "aw_offset w \<le> ar_size a"
  shows "\<exists>ms. tiles (ar_mem a) (unat (ar_size a)) (unat (aw_offset w)) ms"
  using assms
proof (induction fuel arbitrary: w)
  case (Suc fuel)
  show ?case
  proof (cases "aw_offset w < ar_size a")
    case True
    then obtain v where v: "check_member a w = Inr v" "check_each_member fuel a v = Inr w'"
      using Suc.prems(1) by (auto split: sum.splits)
    obtain x n where m: "member_numbers (ar_mem a) (aw_offset w) = Some (x, n)"
      "unat (aw_offset v) = unat (aw_offset w) + 60 + unat n + even_up (unat (x - n))"
      "unat (aw_offset v) \<le> unat (ar_size a)"
      using check_member_accepts [OF v(1) True Suc.prems(2)] by blast
    with Suc.IH [OF v(2) Suc.prems(2)] obtain ms where
      "tiles (ar_mem a) (unat (ar_size a)) (unat (aw_offset v)) ms" by (auto simp: word_le_nat_alt)
    with m have "tiles (ar_mem a) (unat (ar_size a)) (unat (aw_offset w))
        ((unat (aw_offset w), unat n, unat (x - n)) # ms)"
      by (intro tiles_member) simp_all
    then show ?thesis by blast
  next
    case False
    with Suc.prems have "aw_offset w = ar_size a" by simp
    then show ?thesis using tiles_end by metis
  qed
qed simp

lemma pass_needs_no_fuel:
  "check_extend_format_1 name left errno \<noteq> Inl No_fuel" "member_header a w \<noteq> Inl No_fuel"
  "check_contents a w \<noteq> Inl No_fuel" "check_member a w \<noteq> Inl No_fuel"
proof -
  show ext: "check_extend_format_1 name left errno \<noteq> Inl No_fuel" for name left errno
    by (simp add: check_extend_format_1_def Let_def split: option.split)
  then show hdr: "member_header a w \<noteq> Inl No_fuel" for w
    by (auto simp: member_header_def Let_def split: option.split sum.splits)
  have "object_headers host magic left bs w \<noteq> Inl No_fuel" "object_cputype magic w \<noteq> Inl No_fuel"
    for host magic left bs w
    by (simp_all add: object_headers_def object_cputype_def Let_def split: option.split)
  then show con: "check_contents a w \<noteq> Inl No_fuel" for w
    by (auto simp: check_contents_def Let_def split: sum.splits)
  show "check_member a w \<noteq> Inl No_fuel"
    using hdr con by (auto simp: check_member_def Let_def split: sum.splits)
qed

text \<open>A pass gets at least 60 bytes further.\<close>

lemma check_each_member_ends:
  assumes "unat (ar_size a) < 2 ^ 63" and "unat (ar_size a) < unat (aw_offset w) + 60 * fuel"
    and "unat (aw_offset w) \<le> unat (ar_size a)"
  shows "check_each_member fuel a w \<noteq> Inl No_fuel"
  using assms(2,3)
proof (induction fuel arbitrary: w)
  case 0
  then show ?case by simp
next
  case (Suc fuel)
  have "check_each_member fuel a v \<noteq> Inl No_fuel" if "check_member a w = Inr v" "aw_offset w < ar_size a" for v
  proof -
    have "unat (aw_offset w) + 60 \<le> unat (aw_offset v)" "unat (aw_offset v) \<le> unat (ar_size a)"
      using check_member_accepts [OF that assms(1)] by auto
    with Suc.prems show ?thesis by (intro Suc.IH) simp
  qed
  moreover note pass_needs_no_fuel(4) [of a w]
  ultimately show ?case by (auto split: sum.splits)
qed

lemma check_archive_cases:
  assumes "check_archive fuel a ct cs = Inr w"
  shows "SARMAG \<le> ar_size a \<and> take 8 (ar_mem a) = ARMAG
    \<and> (ar_size a = SARMAG \<or> (\<exists>w'. check_each_member fuel a (start_walk a ct cs) = Inr w'))"
  using assms by (auto simp: check_archive_def Let_def split: if_splits sum.splits)

text \<open>Headers as \<open>ar\<close> writes them, for the archives below.\<close>

definition spaced :: "nat \<Rightarrow> string \<Rightarrow> u8 list" where
  "spaced n s = map of_char s @ replicate (n - length s) 32"

definition ar_header :: "string \<Rightarrow> string \<Rightarrow> u8 list" where
  "ar_header name sz = spaced 16 name @ spaced 12 ''0'' @ spaced 6 ''0'' @ spaced 6 ''0''
     @ spaced 8 ''644'' @ spaced 10 sz @ [0x60, 0x0a]"

text \<open>A member with a name of four bytes and ten bytes of contents, then an empty one.\<close>

definition two_members :: archive_file where
  "two_members = \<lparr>ar_mem = ARMAG @ ar_header ''#1/4'' ''14'' @ [0x61, 0x2e, 0x6f, 0] @ replicate 10 1
       @ ar_header ''b.o'' ''0'',
     ar_size = 142, ar_in_fat = False, ar_fat_ok = False, ar_host = LITTLE_ENDIAN_BYTE_SEX,
     ar_errno = False\<rparr>"

text \<open>The same archive with 20 bytes behind it, and one whose only member begins like an object.\<close>

definition trailing_bytes :: archive_file where
  "trailing_bytes = two_members\<lparr>ar_mem := ar_mem two_members @ replicate 20 1, ar_size := 162\<rparr>"

definition short_object :: archive_file where
  "short_object = two_members\<lparr>ar_mem := ARMAG @ ar_header ''a.o'' ''8'' @ [0xce, 0xfa, 0xed, 0xfe]
     @ replicate 4 0, ar_size := 76\<rparr>"

lemma two_members_accepted:
  "case check_archive 3 two_members 0 0 of Inl _ \<Rightarrow> False | Inr w \<Rightarrow> aw_offset w = 142"
  by code_simp

section \<open>Properties\<close>

text \<open>
  Property C9. An archive whose check succeeds is tiled by its members: they follow each
  other from the magic string to the end without a gap, each with its header, its name and its
  contents inside the archive, and none overlaps another.
\<close>

theorem accepted_archive_tiled:
  assumes "check_archive fuel a ct cs = Inr w" and "unat (ar_size a) < 2 ^ 63"
  shows "\<exists>ms. tiles (ar_mem a) (unat (ar_size a)) 8 ms
    \<and> (\<forall>(h, n, s) \<in> set ms. 8 \<le> h \<and> h + 60 + n + s \<le> unat (ar_size a))
    \<and> (\<forall>i j. i < j \<longrightarrow> j < length ms \<longrightarrow>
          fst (ms ! i) + 60 + fst (snd (ms ! i)) + snd (snd (ms ! i)) \<le> fst (ms ! j))"
proof -
  have start: "aw_offset (start_walk a ct cs) = 8" by (simp add: start_walk_def SARMAG_def)
  obtain ms where ms: "tiles (ar_mem a) (unat (ar_size a)) 8 ms"
  proof (cases "ar_size a = SARMAG")
    case True
    then have "unat (ar_size a) = 8" by (simp add: SARMAG_def)
    then show ?thesis using that tiles_end [of "ar_mem a" 8] by metis
  next
    case False
    then show ?thesis using that check_archive_cases [OF assms(1)] start assms(2)
        check_each_member_accepts [of fuel a "start_walk a ct cs"] by (auto simp: SARMAG_def)
  qed
  then show ?thesis using tiles_bounds [OF ms] tiles_disjoint [OF ms] by blast
qed

theorem accepted_archive_tiled_witness:
  "\<exists>ms. tiles (ar_mem two_members) 142 8 ms
    \<and> (\<forall>(h, n, s) \<in> set ms. 8 \<le> h \<and> h + 60 + n + s \<le> 142)
    \<and> (\<forall>i j. i < j \<longrightarrow> j < length ms \<longrightarrow>
          fst (ms ! i) + 60 + fst (snd (ms ! i)) + snd (snd (ms ! i)) \<le> fst (ms ! j))"
proof -
  have sz: "unat (ar_size two_members) = 142" by (simp add: two_members_def)
  obtain w where "check_archive 3 two_members 0 0 = Inr w"
    using two_members_accepted by (auto split: sum.splits)
  from accepted_archive_tiled [OF this] show ?thesis by (simp only: sz) simp
qed

text \<open>
  Property C16. The check of an archive always ends: there is at most one pass for each 60
  bytes.
\<close>

theorem check_archive_ends:
  assumes "unat (ar_size a) < 2 ^ 63" and "unat (ar_size a) div 60 < fuel"
  shows "check_archive fuel a ct cs \<noteq> Inl No_fuel"
proof -
  have start: "unat (aw_offset (start_walk a ct cs)) = 8" by (simp add: start_walk_def SARMAG_def)
  have "check_each_member fuel a (start_walk a ct cs) \<noteq> Inl No_fuel" if "SARMAG \<le> ar_size a"
    using assms that start by (intro check_each_member_ends)
      (simp_all add: SARMAG_def word_le_nat_alt div_less_iff_less_mult mult.commute)
  then show ?thesis by (auto simp: check_archive_def Let_def not_less split: sum.splits)
qed

theorem check_archive_ends_witness: "check_archive 3 two_members 0 0 \<noteq> Inl No_fuel"
  by (rule check_archive_ends) (simp_all add: two_members_def)

text \<open>
  Property C37. Only the header of the first member is compared with the end of the archive.
  When fewer than 49 bytes follow a member in a file that ends with the archive, the check reads
  past the end of the file.
\<close>

theorem trailing_header_read_outside:
  assumes "aw_offset w < ar_size a" and "unat (ar_size a) = length (ar_mem a)"
    and "length (ar_mem a) < unat (aw_offset w) + 49"
  shows "check_each_member (Suc fuel) a w = Inl Reads_outside"
proof -
  have "ar_size_at (ar_mem a) (aw_offset w) = None"
    using assms(3) by (simp add: ar_size_at_def strtoul_def)
  with assms(1) show ?thesis by (simp add: check_member_def member_header_def Let_def)
qed

theorem trailing_header_read_outside_witness:
  "check_each_member (Suc 0) trailing_bytes (start_walk trailing_bytes 0 0\<lparr>aw_offset := 142\<rparr>)
     = Inl Reads_outside"
  by (rule trailing_header_read_outside)
    (simp_all add: trailing_bytes_def two_members_def ARMAG_def ar_header_def spaced_def)

lemma trailing_bytes_read_outside: "check_archive 4 trailing_bytes 0 0 = Inl Reads_outside"
  by code_simp

text \<open>
  Property C38. A member that begins with the magic number of an object but is the last one and
  shorter than a header: the cputype is then taken from a header that was never read.
\<close>

theorem short_object_uninitialised:
  assumes "4 < ar_size a - aw_offset w" and "ar_size a - aw_offset w < 28"
    and "unat (aw_offset w) + 4 \<le> length (ar_mem a)" and "aw_mh w = None"
    and "get32 (ar_host a) (drop (unat (aw_offset w)) (ar_mem a)) 0 = MH_MAGIC"
  shows "check_contents a w = Inl Uninitialised"
proof -
  have "\<not> length (drop (unat (aw_offset w)) (ar_mem a)) < 4" "\<not> 28 \<le> ar_size a - aw_offset w"
    using assms(2,3) by (simp_all add: not_le)
  with assms show ?thesis
    by (simp add: check_contents_def Let_def object_headers_def object_cputype_def
        is_fat_magic_def MH_MAGIC_def MH_MAGIC_64_def FAT_MAGIC_def FAT_MAGIC_64_def SWAP_INT_def)
qed

theorem short_object_uninitialised_witness:
  "check_contents short_object (start_walk short_object 0 0\<lparr>aw_offset := 68\<rparr>) = Inl Uninitialised"
proof (rule short_object_uninitialised)
  show "get32 (ar_host short_object) (drop (unat (aw_offset (start_walk short_object 0 0\<lparr>aw_offset := 68\<rparr>)))
      (ar_mem short_object)) 0 = MH_MAGIC" by code_simp
qed (simp_all add: short_object_def two_members_def start_walk_def ARMAG_def ar_header_def spaced_def)

lemma short_object_archive: "check_archive 2 short_object 0 0 = Inl Uninitialised"
  by code_simp

end
