(* ===== verification/Archive_Visit.thy ===== *)
theory Archive_Visit
  imports Archive_Walk Archive_Members Ofile_Safety
begin

text \<open>
  The walk over the members of an archive visits the members that tile it. \<open>at_member\<close> is the
  invariant between two calls: the state stands at a member, and the memory behind the member is
  as it was, whatever was swapped in it and before it.
\<close>

section \<open>Numbers\<close>





section \<open>Objects in their memory\<close>



lemma object_in_simps [simp]:
  "of_mh (object_in env False sw st) \<noteq> None" "of_mh (object_in env True sw st) = None"
  "fat_fields_ok (object_in env is64 sw st) = fat_fields_ok (as_ofile st)"
  "of_object_size (object_in env is64 sw st) = as_size st"
  by (auto simp: object_in_def Let_def)





text \<open>
  What is done with a member that is no fat file, with the length of its name known: it is
  passed over, checked as an object, or an object whose check fails.
\<close>

definition has_magic :: "byte_sex \<Rightarrow> u8 list \<Rightarrow> nat \<Rightarrow> bool" where
  "has_magic host mem p \<longleftrightarrow>
     get32 host mem p \<in> {MH_MAGIC, SWAP_INT MH_MAGIC, MH_MAGIC_64, SWAP_INT MH_MAGIC_64}"


section \<open>Standing at a member\<close>












section \<open>One member after the other\<close>


definition is_object :: "byte_sex \<Rightarrow> u8 list \<Rightarrow> nat \<times> nat \<times> nat \<Rightarrow> bool" where
  "is_object host mem m = (case m of (p, n, s) \<Rightarrow> 4 < s \<and> has_magic host mem (p + 60 + n))"










definition member_place :: "nat \<times> nat \<times> nat \<Rightarrow> u64 option \<times> u64 \<times> u32" where
  "member_place m = (case m of (p, n, s) \<Rightarrow> (Some (of_nat p), of_nat (p + 60 + n), of_nat s))"


text \<open>How far a walk gets: to the end, or to an object whose check fails.\<close>

definition visits :: "byte_sex \<Rightarrow> u8 list \<Rightarrow> (nat \<times> nat \<times> nat) list \<Rightarrow> (u64 option \<times> u64 \<times> u32) list \<Rightarrow> bool"
  where
  "visits host mem ms ps \<longleftrightarrow> (\<exists>j \<le> length ms. ps = map member_place (take j ms)
     \<and> (j < length ms \<longrightarrow> is_object host mem (ms ! j)))"

lemma visits_Nil [simp]: "visits host mem [] []" "is_object host mem m \<Longrightarrow> visits host mem (m # ms) []"
  by (auto simp: visits_def)



section \<open>The first member\<close>










text \<open>
  An archive with an object of the other byte sex, with no load commands, and an empty member; the
  caller turns the bytes of an object around.
\<close>

definition swapped_object_archive :: "u8 list" where
  "swapped_object_archive = ARMAG @ ar_header ''a.o'' ''28''
     @ concat [[0xfe, 0xed, 0xfa, 0xce], [0, 0, 0, 18], [0, 0, 0, 0], [0, 0, 0, 1], replicate 12 0]
     @ ar_header ''#1/4'' ''4'' @ [0x62, 0x2e, 0x6f, 0]"

definition walk_in :: "byte_sex \<Rightarrow> walk_env" where
  "walk_in host = \<lparr>we_size = 160, we_host = host, we_tswap = (\<lambda>cputype flavor bs. bs),
     we_bitcode = (\<lambda>p n. False), we_non_objects = False,
     we_process = (\<lambda>st. st\<lparr>as_mem := write_at (as_mem st) (unat (as_offset st))
       (rev (take (unat (as_size st)) (drop (unat (as_offset st)) (as_mem st))))\<rparr>)\<rparr>"

definition walk_start :: "u8 list \<Rightarrow> archive_state" where
  "walk_start mem = \<lparr>as_mem = mem,
     as_ofile = \<lparr>of_file_type = OFILE_ARCHIVE, of_fat_header = \<lparr>fh_magic = 0, fh_nfat_arch = 0\<rparr>,
       of_fat_archs = [], of_fat_archs64 = [], of_narch = 0, of_headers_swapped = False,
       of_object_size = 0, of_object_byte_sex = UNKNOWN_BYTE_SEX, of_mh = None, of_mh64 = None,
       of_load_commands = [], of_mh_cputype = 0, of_mh_cpusubtype = 0, of_mh_filetype = 0\<rparr>,
     as_offset = 0, as_size = 0, as_hdr = None, as_name = 0, as_name_size = 0,
     as_type = OFILE_UNKNOWN, as_fat = None,
     as_toc = \<lparr>toc_addr = 0, toc_size = 0, toc_name = 0, toc_name_size = 0, toc_is_32bit = True,
       toc_ranlibs = None, toc_nranlibs = 0, toc_strings = None, toc_strsize = 0, toc_bad = False\<rparr>,
     as_strtab = None, as_strtab_size = 0\<rparr>"



lemma swapped_object_visited:
  "visit_members 3 (walk_in LITTLE_ENDIAN_BYTE_SEX) (walk_start swapped_object_archive)
     = Inr [member_place (8, 0, 28), member_place (96, 4, 0)]"
  by code_simp




end
