(* ===== verification/Archive_Specific.thy ===== *)
theory Archive_Specific
  imports Archive_Visit
begin

text \<open>
  A member of an archive by its name: \<open>ofile_specific_member\<close> of \<open>libstuff/ofile.c\<close>. The name that
  is asked for is the list of its bytes before the null byte.
\<close>

section \<open>The search\<close>

text \<open>The string table of a System V archive; here its size is not compared with the archive.\<close>

definition specific_strtab :: "u64 \<Rightarrow> archive_state \<Rightarrow> archive_failure + archive_state" where
  "specific_strtab hdr st =
     (if as_strtab st = None \<and> as_strtab_size st = 0 \<and> take 3 (ar_name_at (as_mem st) hdr) = chars ''// ''
      then (case ar_size_at (as_mem st) hdr of
          None \<Rightarrow> Inl Reads_outside
        | Some nu \<Rightarrow> Inr (st\<lparr>as_strtab := Some (hdr + sizeof_ar_hdr), as_strtab_size := ucast (nu_value nu)\<rparr>))
      else Inr st)"

text \<open>Where the name of a member is, its length, and the length of it that is behind the header.\<close>

definition specific_name :: "u64 \<Rightarrow> archive_state \<Rightarrow> archive_failure + (u64 \<times> u32 \<times> u32)" where
  "specific_name hdr st = (let name = ar_name_at (as_mem st) hdr in
     if name ! 0 = 0x2f \<and> name ! 1 \<noteq> 32 \<and> name ! 1 \<noteq> 0x2f
     then (case strtab_name hdr (st\<lparr>as_name := hdr\<rparr>) of
         Inl f \<Rightarrow> Inl f | Inr t \<Rightarrow> Inr (as_name t, as_name_size t, 0))
     else if take 3 name = AR_EFMT1
     then (case strtoul (drop (unat hdr + 3) (as_mem st)) of
         None \<Rightarrow> Inl Reads_outside
       | Some nu \<Rightarrow> Inr (hdr + sizeof_ar_hdr, ucast (nu_value nu), ucast (nu_value nu)))
     else Inr (hdr, size_ar_name name, 0))"

definition specific_bitcode :: "walk_env \<Rightarrow> archive_state \<Rightarrow> archive_state" where
  "specific_bitcode env st =
     (if as_type st = OFILE_UNKNOWN \<and> we_bitcode env (as_offset st) (ucast (as_size st))
      then st\<lparr>as_type := OFILE_LLVM_BITCODE, as_ofile := (as_ofile st)\<lparr>of_object_size := as_size st\<rparr>\<rparr>
      else st)"

text \<open>The member at \<open>hdr\<close> of \<open>v\<close> bytes is the one; \<open>n\<close> of them are its name.\<close>

definition open_specific ::
    "walk_env \<Rightarrow> u64 \<Rightarrow> u64 \<times> u32 \<times> u32 \<Rightarrow> u32 \<Rightarrow> archive_state \<Rightarrow> member_run" where
  "open_specific env hdr name v st = (case name of (p, i, n) \<Rightarrow>
     let st = st\<lparr>as_name := p, as_name_size := i, as_offset := hdr + sizeof_ar_hdr + ucast n,
           as_size := v - n, as_hdr := Some hdr, as_type := OFILE_UNKNOWN\<rparr> in
     case open_member env (Some (we_size env - (hdr + sizeof_ar_hdr + ucast n))) st of
       Inl f \<Rightarrow> Inl f
     | Inr (False, st) \<Rightarrow> Inr (False, st)
     | Inr (True, st) \<Rightarrow> Inr (True, specific_bitcode env st))"

primrec specific_from :: "nat \<Rightarrow> walk_env \<Rightarrow> u8 list \<Rightarrow> u64 \<Rightarrow> archive_state \<Rightarrow> member_run" where
  "specific_from 0 env want hdr st = Inl No_fuel"
| "specific_from (Suc k) env want hdr st =
     (if \<not> we_size env > hdr then Inr (False, (no_member st)\<lparr>as_fat := None\<rparr>)
      else if length (as_mem st) < unat hdr + 16 then Inl Reads_outside
      else (case specific_strtab hdr st of
          Inl f \<Rightarrow> Inl f
        | Inr st \<Rightarrow> (case specific_name hdr st of
            Inl f \<Rightarrow> Inl f
          | Inr (p, i, n) \<Rightarrow>
            (case (if 0 <s i then strncmp_at (drop (unat p) (as_mem st)) want (unat i) else Some False) of
              None \<Rightarrow> Inl Reads_outside
            | Some found \<Rightarrow>
              (case ar_size_at (as_mem st) hdr of
                None \<Rightarrow> Inl Reads_outside
              | Some nu \<Rightarrow>
                if found then open_specific env hdr (p, i, n) (ucast (nu_value nu)) st
                else specific_from k env want (hdr + sizeof_ar_hdr + rnd (nu_value nu) 2) st)))))"

definition ofile_specific_member :: "nat \<Rightarrow> walk_env \<Rightarrow> u8 list \<Rightarrow> archive_state \<Rightarrow> member_run" where
  "ofile_specific_member k env want st =
     (let st = no_member st in
      if we_size env < SARMAG \<or> take 8 (as_mem st) \<noteq> ARMAG then Inr (False, st)
      else let st = st\<lparr>as_strtab := None, as_strtab_size := 0\<rparr> in
        if SARMAG \<noteq> we_size env \<and> SARMAG + sizeof_ar_hdr > we_size env then Inr (False, st)
        else specific_from k env want SARMAG st)"

section \<open>Names\<close>

text \<open>
  The name of a member, and what it is to be asked for by: a name with a null byte in it by what is
  before it, and a name without one by everything that begins with it.
\<close>

definition name_of :: "u8 list \<Rightarrow> nat \<times> nat \<times> nat \<Rightarrow> u8 list" where
  "name_of mem m = (case m of (p, n, s) \<Rightarrow>
     if take 3 (ar_name_at mem (of_nat p)) = AR_EFMT1 then take n (drop (p + 60) mem)
     else take (unat (size_ar_name (ar_name_at mem (of_nat p)))) (drop p mem))"

definition asked_for :: "u8 list \<Rightarrow> u8 list \<Rightarrow> nat \<times> nat \<times> nat \<Rightarrow> bool" where
  "asked_for want mem m \<longleftrightarrow> (let name = name_of mem m; before = takeWhile (\<lambda>c. c \<noteq> 0) name in
     name \<noteq> [] \<and> (if before = name then take (length name) want = name else want = before))"









section \<open>Properties\<close>



text \<open>The member that is found there is the second one.\<close>

lemma second_is_asked_for:
  "find (asked_for (chars ''b.o'') swapped_object_archive) [(8, 0, 28), (96, 4, 0)] = Some (96, 4, 0)"
  by code_simp

text \<open>
  An archive with a name of three bytes behind a header, and one byte of contents: the pad byte
  is counted from the contents by the check and by the walk, and from the size, which includes
  the name, by the search.
\<close>

definition odd_name_archive :: "u8 list" where
  "odd_name_archive = ARMAG @ ar_header ''#1/3'' ''4'' @ [0x61, 0x2e, 0x6f, 1, 0] @ ar_header ''b.o'' ''0''"

definition odd_env :: walk_env where
  "odd_env = (walk_in LITTLE_ENDIAN_BYTE_SEX)\<lparr>we_size := 133\<rparr>"


text \<open>A member of a short name is found by a longer one.\<close>

lemma prefix_is_found:
  "case ofile_specific_member 3 odd_env (chars ''a.obsolete'') (walk_start odd_name_archive) of
     Inl f \<Rightarrow> False | Inr (found, st) \<Rightarrow> found \<and> as_offset st = 71"
  by code_simp

end
