(* ===== verification/Modules.thy ===== *)
theory Modules
  imports Archive_Toc
begin

text \<open>
  The modules of a dynamic library: \<open>ofile_first_module\<close>, \<open>ofile_next_module\<close>,
  \<open>ofile_specific_module\<close> and \<open>check_dylib_module\<close> of \<open>libstuff/ofile.c\<close>. The memory is that of the
  object, whose header and load commands already have the byte sex of the host; the table of
  modules has not, and each module is swapped in a copy. A pointer is an offset in the object.
\<close>

section \<open>The object and the state\<close>

text \<open>
  The parts of \<open>struct ofile\<close> that are read, and those that are set. \<open>ms_modtab\<close> stands for \<open>modtab\<close>
  and \<open>modtab64\<close>, \<open>ms_module\<close> for \<open>dylib_module\<close> and \<open>dylib_module64\<close>: \<open>mf_is64\<close> says which one is
  meant.
\<close>

record module_file =
  mf_mem :: "u8 list"
  mf_host :: byte_sex
  mf_object_byte_sex :: byte_sex
  mf_is64 :: bool
  mf_ncmds :: u32
  mf_file_type :: ofile_type
  mf_arch_type :: ofile_type
  mf_filetype :: u32

record module_state =
  ms_modtab :: "u64 option"
  ms_nmodtab :: u32
  ms_module :: "u64 option"
  ms_name :: "u64 option"

definition no_module :: module_state where
  "no_module = \<lparr>ms_modtab = None, ms_nmodtab = 0, ms_module = None, ms_name = None\<rparr>"

definition read_dylib_module :: "byte_sex \<Rightarrow> u8 list \<Rightarrow> dylib_module" where
  "read_dylib_module s bs =
    \<lparr>mod_module_name = get32 s bs 0, mod_iextdefsym = get32 s bs 4, mod_nextdefsym = get32 s bs 8,
     mod_irefsym = get32 s bs 12, mod_nrefsym = get32 s bs 16, mod_ilocalsym = get32 s bs 20,
     mod_nlocalsym = get32 s bs 24, mod_iextrel = get32 s bs 28, mod_nextrel = get32 s bs 32,
     mod_iinit_iterm = get32 s bs 36, mod_ninit_nterm = get32 s bs 40,
     mod_objc_module_info_addr = get32 s bs 44, mod_objc_module_info_size = get32 s bs 48\<rparr>"

definition read_dylib_module_64 :: "byte_sex \<Rightarrow> u8 list \<Rightarrow> dylib_module_64" where
  "read_dylib_module_64 s bs =
    \<lparr>mod64_module_name = get32 s bs 0, mod64_iextdefsym = get32 s bs 4,
     mod64_nextdefsym = get32 s bs 8, mod64_irefsym = get32 s bs 12, mod64_nrefsym = get32 s bs 16,
     mod64_ilocalsym = get32 s bs 20, mod64_nlocalsym = get32 s bs 24,
     mod64_iextrel = get32 s bs 28, mod64_nextrel = get32 s bs 32,
     mod64_iinit_iterm = get32 s bs 36, mod64_ninit_nterm = get32 s bs 40,
     mod64_objc_module_info_size = get32 s bs 44, mod64_objc_module_info_addr = get64 s bs 48\<rparr>"

text \<open>What is looked at of a module, the same for both kinds of module.\<close>

record module_fields =
  mb_module_name :: u32
  mb_nextdefsym :: u32
  mb_iextdefsym :: u32
  mb_nlocalsym :: u32
  mb_ilocalsym :: u32
  mb_nrefsym :: u32
  mb_irefsym :: u32
  mb_nextrel :: u32
  mb_iextrel :: u32

definition module_fields_of :: "dylib_module \<Rightarrow> module_fields" where
  "module_fields_of m = \<lparr>mb_module_name = mod_module_name m, mb_nextdefsym = mod_nextdefsym m,
     mb_iextdefsym = mod_iextdefsym m, mb_nlocalsym = mod_nlocalsym m, mb_ilocalsym = mod_ilocalsym m,
     mb_nrefsym = mod_nrefsym m, mb_irefsym = mod_irefsym m, mb_nextrel = mod_nextrel m,
     mb_iextrel = mod_iextrel m\<rparr>"

definition module_64_fields_of :: "dylib_module_64 \<Rightarrow> module_fields" where
  "module_64_fields_of m = \<lparr>mb_module_name = mod64_module_name m, mb_nextdefsym = mod64_nextdefsym m,
     mb_iextdefsym = mod64_iextdefsym m, mb_nlocalsym = mod64_nlocalsym m,
     mb_ilocalsym = mod64_ilocalsym m, mb_nrefsym = mod64_nrefsym m, mb_irefsym = mod64_irefsym m,
     mb_nextrel = mod64_nextrel m, mb_iextrel = mod64_iextrel m\<rparr>"

definition sizeof_module :: "bool \<Rightarrow> nat" where
  "sizeof_module is64 = (if is64 then 56 else 52)"

definition module_at :: "module_file \<Rightarrow> u64 \<Rightarrow> failure + module_fields" where
  "module_at f p =
     (let host = mf_host f; swapped = (host \<noteq> mf_object_byte_sex f);
          bs = bytes_at (mf_mem f) (sizeof_module (mf_is64 f)) (unat p) in
      if length (mf_mem f) < unat p + sizeof_module (mf_is64 f) then Inl failure.Out_of_bounds
      else if mf_is64 f
      then let m = read_dylib_module_64 host bs in
        Inr (module_64_fields_of (if swapped then hd (swap_dylib_module_64 [m] 1) else m))
      else let m = read_dylib_module host bs in
        Inr (module_fields_of (if swapped then hd (swap_dylib_module [m] 1) else m)))"

section \<open>The check of a module\<close>

text \<open>The loop that looks for the end of the name: whether there is one before the end of the strings.\<close>

definition name_ends :: "u8 list \<Rightarrow> nat \<Rightarrow> nat \<Rightarrow> nat \<Rightarrow> failure + bool" where
  "name_ends mem strings strsize name =
     (let bs = take (strsize - name) (drop (strings + name) mem) in
      if 0 \<in> set bs then Inr True
      else if length bs < strsize - name then Inl failure.Out_of_bounds
      else Inr False)"

text \<open>A range of \<open>n\<close> entries from \<open>i\<close>; the sum has 32 bits.\<close>

definition module_range :: "u32 \<Rightarrow> u32 \<Rightarrow> u32 \<Rightarrow> string \<Rightarrow> string option" where
  "module_range i n limit field =
     (if n = 0 then None
      else if i > limit then Some (''i'' @ field)
      else if i + n > limit then Some (''n'' @ field)
      else None)"

definition check_dylib_module ::
    "module_file \<Rightarrow> symtab_command \<Rightarrow> dysymtab_command \<Rightarrow> nat \<Rightarrow> u64 \<Rightarrow> failure + unit" where
  "check_dylib_module f st dyst strings p = (case module_at f p of
     Inl e \<Rightarrow> Inl e
   | Inr m \<Rightarrow>
     if mb_module_name m > st_strsize st then Inl (failure.Bad ''module_name'')
     else (case name_ends (mf_mem f) strings (unat (st_strsize st)) (unat (mb_module_name m)) of
         Inl e \<Rightarrow> Inl e
       | Inr ends \<Rightarrow>
         if \<not> ends then Inl (failure.Bad ''module_name'')
         else (case module_range (mb_iextdefsym m) (mb_nextdefsym m) (st_nsyms st) ''extdefsym'' of
             Some text \<Rightarrow> Inl (failure.Bad text)
           | None \<Rightarrow> (case module_range (mb_ilocalsym m) (mb_nlocalsym m) (st_nsyms st) ''localsym'' of
             Some text \<Rightarrow> Inl (failure.Bad text)
           | None \<Rightarrow> (case module_range (mb_irefsym m) (mb_nrefsym m) (dyst_nextrefsyms dyst) ''refsym'' of
             Some text \<Rightarrow> Inl (failure.Bad text)
           | None \<Rightarrow> (case module_range (mb_iextrel m) (mb_nextrel m) (dyst_extreloff dyst) ''extrel'' of
             Some text \<Rightarrow> Inl (failure.Bad text)
           | None \<Rightarrow> Inr ()))))))"

section \<open>The symbol tables\<close>

definition MH_DYLIB_type :: u32 where "MH_DYLIB_type = 6"

definition no_modules :: "module_file \<Rightarrow> bool" where
  "no_modules f \<longleftrightarrow> mf_arch_type f \<noteq> OFILE_Mach_O
     \<and> mf_filetype f \<noteq> MH_DYLIB_type \<and> mf_filetype f \<noteq> MH_DYLIB_STUB"

text \<open>The loop over the load commands: the first symbol table and the last dynamic one.\<close>

primrec module_tables ::
    "nat \<Rightarrow> byte_sex \<Rightarrow> u8 list \<Rightarrow> nat \<Rightarrow> nat option \<times> nat option \<Rightarrow> failure + (nat option \<times> nat option)"
  where
  "module_tables 0 host mem p tabs = Inr tabs"
| "module_tables (Suc n) host mem p tabs =
     (if length mem < p + 8 then Inl failure.Out_of_bounds
      else let lc = read_load_command host (bytes_at mem 8 p);
               tabs = (if fst tabs = None \<and> lc_cmd lc = cmd_SYMTAB then (Some p, snd tabs)
                 else if lc_cmd lc = cmd_DYSYMTAB then (fst tabs, Some p) else tabs) in
        module_tables n host mem (p + unat (lc_cmdsize lc)) tabs)"

text \<open>Both tables, when there are both.\<close>

definition symbol_tables :: "module_file \<Rightarrow> failure + (symtab_command \<times> dysymtab_command) option" where
  "symbol_tables f =
     (case module_tables (unat (mf_ncmds f)) (mf_host f) (mf_mem f) (if mf_is64 f then 32 else 28) (None, None) of
        Inl e \<Rightarrow> Inl e
      | Inr (Some p, Some q) \<Rightarrow>
        if length (mf_mem f) < p + 24 \<or> length (mf_mem f) < q + 80 then Inl failure.Out_of_bounds
        else Inr (Some (read_symtab_command (mf_host f) (bytes_at (mf_mem f) 24 p),
               read_dysymtab_command (mf_host f) (bytes_at (mf_mem f) 80 q)))
      | Inr _ \<Rightarrow> Inr None)"

section \<open>The modules\<close>

text \<open>The end of both routines: the module at \<open>p\<close> is made the current one and checked.\<close>

definition enter_module ::
    "module_file \<Rightarrow> symtab_command \<Rightarrow> dysymtab_command \<Rightarrow> u64 \<Rightarrow> module_state \<Rightarrow> failure + (bool \<times> module_state)" where
  "enter_module f st dyst p s = (case module_at f p of
     Inl e \<Rightarrow> Inl e
   | Inr m \<Rightarrow>
     let s = s\<lparr>ms_module := Some p, ms_name := Some (ucast (st_stroff st) + ucast (mb_module_name m))\<rparr> in
     (case check_dylib_module f st dyst (unat (st_stroff st)) p of
        Inl (failure.Bad text) \<Rightarrow> Inr (False, s)
      | Inl e \<Rightarrow> Inl e
      | Inr _ \<Rightarrow> Inr (True, s)))"

definition ofile_first_module :: "module_file \<Rightarrow> failure + (bool \<times> module_state)" where
  "ofile_first_module f =
     (if no_modules f then Inr (False, no_module)
      else (case symbol_tables f of
          Inl e \<Rightarrow> Inl e
        | Inr None \<Rightarrow> Inr (False, no_module)
        | Inr (Some (st, dyst)) \<Rightarrow>
          if dyst_nmodtab dyst = 0 then Inr (False, no_module)
          else let p = ucast (dyst_modtaboff dyst) in
            enter_module f st dyst p (no_module\<lparr>ms_nmodtab := dyst_nmodtab dyst, ms_modtab := Some p\<rparr>)))"

definition ofile_next_module :: "module_file \<Rightarrow> module_state \<Rightarrow> failure + (bool \<times> module_state)" where
  "ofile_next_module f s =
     (if no_modules f then Inr (False, s)
      else (case symbol_tables f of
          Inl e \<Rightarrow> Inl e
        | Inr None \<Rightarrow> Inr (False, s)
        | Inr (Some (st, dyst)) \<Rightarrow>
          (case (ms_module s, ms_modtab s) of
             (Some p, Some q) \<Rightarrow>
             let p = p + of_nat (sizeof_module (mf_is64 f)) in
             if ucast ((p - q) div of_nat (sizeof_module (mf_is64 f))) \<ge> ms_nmodtab s then Inr (False, s)
             else enter_module f st dyst p s
           | _ \<Rightarrow> if 1 \<ge> ms_nmodtab s then Inr (False, s) else Inl failure.Null_dereference)))"

text \<open>
  The loop of \<open>ofile_specific_module\<close> over the modules from \<open>p\<close>. When it ends, the fields of a
  32-bit object are cleared again, and of a 64-bit one only the number and the name.
\<close>

primrec specific_module_from :: "nat \<Rightarrow> module_file \<Rightarrow> symtab_command \<Rightarrow> dysymtab_command \<Rightarrow> u8 list \<Rightarrow> u64
    \<Rightarrow> module_state \<Rightarrow> failure + (bool \<times> module_state)" where
  "specific_module_from 0 f st dyst want p s =
     Inr (False, if mf_is64 f then s\<lparr>ms_nmodtab := 0, ms_name := None\<rparr> else no_module)"
| "specific_module_from (Suc n) f st dyst want p s = (case module_at f p of
     Inl e \<Rightarrow> Inl e
   | Inr m \<Rightarrow>
     let s = s\<lparr>ms_module := Some p\<rparr>; name = ucast (st_stroff st) + ucast (mb_module_name m) :: u64 in
     (case check_dylib_module f st dyst (unat (st_stroff st)) p of
        Inl (failure.Bad text) \<Rightarrow> Inr (False, s)
      | Inl e \<Rightarrow> Inl e
      | Inr _ \<Rightarrow>
        (case strncmp_at (drop (unat name) (mf_mem f)) want (Suc (length want)) of
           None \<Rightarrow> Inl failure.Out_of_bounds
         | Some found \<Rightarrow>
           if found then Inr (True, s\<lparr>ms_name := Some name\<rparr>)
           else specific_module_from n f st dyst want (p + of_nat (sizeof_module (mf_is64 f))) s)))"

definition ofile_specific_module :: "u8 list \<Rightarrow> module_file \<Rightarrow> failure + (bool \<times> module_state)" where
  "ofile_specific_module want f =
     (if no_modules f then Inr (False, no_module)
      else (case symbol_tables f of
          Inl e \<Rightarrow> Inl e
        | Inr None \<Rightarrow> Inr (False, no_module)
        | Inr (Some (st, dyst)) \<Rightarrow>
          if dyst_nmodtab dyst = 0 then Inr (False, no_module)
          else let p = ucast (dyst_modtaboff dyst) in
            specific_module_from (unat (dyst_nmodtab dyst)) f st dyst want p
              (no_module\<lparr>ms_nmodtab := dyst_nmodtab dyst, ms_modtab := Some p\<rparr>)))"

text \<open>
  The loop of \<open>ofile_process\<close> over the modules, with the places of the entries that are visited; no
  result when there is no fuel left.
\<close>

primrec modules_from :: "nat \<Rightarrow> module_file \<Rightarrow> module_state \<Rightarrow> (failure + u64 option list) option" where
  "modules_from 0 f s = None"
| "modules_from (Suc k) f s = (case ofile_next_module f s of
     Inl e \<Rightarrow> Some (Inl e)
   | Inr (found, s') \<Rightarrow> if found
     then (case modules_from k f s' of
         None \<Rightarrow> None | Some (Inl e) \<Rightarrow> Some (Inl e) | Some (Inr ps) \<Rightarrow> Some (Inr (ms_module s # ps)))
     else Some (Inr [ms_module s]))"

definition visit_modules :: "nat \<Rightarrow> module_file \<Rightarrow> (failure + u64 option list) option" where
  "visit_modules k f = (case ofile_first_module f of
     Inl e \<Rightarrow> Some (Inl e)
   | Inr (found, s) \<Rightarrow> if found then modules_from k f s else Some (Inr []))"

section \<open>What the check accepts\<close>

definition range_ok :: "u32 \<Rightarrow> u32 \<Rightarrow> u32 \<Rightarrow> bool" where
  "range_ok i n limit \<longleftrightarrow> n = 0 \<or> unat i \<le> unat limit \<and> (unat i + unat n) mod 2 ^ 32 \<le> unat limit"

definition module_ok :: "module_file \<Rightarrow> symtab_command \<Rightarrow> dysymtab_command \<Rightarrow> module_fields \<Rightarrow> bool" where
  "module_ok f st dyst m \<longleftrightarrow>
     0 \<in> set (take (unat (st_strsize st) - unat (mb_module_name m))
            (drop (unat (st_stroff st) + unat (mb_module_name m)) (mf_mem f)))
     \<and> range_ok (mb_iextdefsym m) (mb_nextdefsym m) (st_nsyms st)
     \<and> range_ok (mb_ilocalsym m) (mb_nlocalsym m) (st_nsyms st)
     \<and> range_ok (mb_irefsym m) (mb_nrefsym m) (dyst_nextrefsyms dyst)
     \<and> range_ok (mb_iextrel m) (mb_nextrel m) (dyst_extreloff dyst)"

lemma module_range_None: "module_range i n limit field = None \<longleftrightarrow> range_ok i n limit"
  by (auto simp: module_range_def range_ok_def word_less_nat_alt word_le_nat_alt not_less unat_word_ariths)

lemma module_range_Some: "module_range i n limit field = Some text \<Longrightarrow> \<not> range_ok i n limit"
  using module_range_None [of i n limit field] by simp

lemma check_dylib_module_accepts:
  assumes "module_at f p = Inr m" and "unat (st_stroff st) + unat (st_strsize st) \<le> length (mf_mem f)"
  shows "if module_ok f st dyst m then check_dylib_module f st dyst (unat (st_stroff st)) p = Inr ()
    else \<exists>text. check_dylib_module f st dyst (unat (st_stroff st)) p = Inl (failure.Bad text)"
proof (cases "mb_module_name m > st_strsize st")
  case True
  then have "\<not> module_ok f st dyst m" by (simp add: module_ok_def word_less_nat_alt)
  with True show ?thesis by (simp add: check_dylib_module_def assms(1))
next
  case False
  let ?name = "name_ends (mf_mem f) (unat (st_stroff st)) (unat (st_strsize st)) (unat (mb_module_name m))"
  have name: "?name = Inr (0 \<in> set (take (unat (st_strsize st) - unat (mb_module_name m))
      (drop (unat (st_stroff st) + unat (mb_module_name m)) (mf_mem f))))"
    using assms(2) False by (simp add: name_ends_def Let_def word_less_nat_alt)
  show ?thesis
    using False by (auto simp: check_dylib_module_def assms(1) name module_ok_def module_range_None
        dest: module_range_Some split: option.splits)
qed

section \<open>The walk over the modules\<close>

text \<open>What \<open>check_Mach_O\<close> makes sure of: the table of modules and the strings are inside the object.\<close>

definition module_tables_inside :: "module_file \<Rightarrow> symtab_command \<Rightarrow> dysymtab_command \<Rightarrow> bool" where
  "module_tables_inside f st dyst \<longleftrightarrow>
     unat (st_stroff st) + unat (st_strsize st) \<le> length (mf_mem f)
     \<and> unat (dyst_modtaboff dyst) + unat (dyst_nmodtab dyst) * sizeof_module (mf_is64 f) \<le> length (mf_mem f)
     \<and> length (mf_mem f) < 2 ^ 63"

definition module_place :: "module_file \<Rightarrow> dysymtab_command \<Rightarrow> nat \<Rightarrow> u64" where
  "module_place f dyst i = of_nat (unat (dyst_modtaboff dyst) + i * sizeof_module (mf_is64 f))"

lemma sizeof_module_bounds: "0 < sizeof_module is64" "sizeof_module is64 \<le> 56"
  by (simp_all add: sizeof_module_def)

lemma module_place_unat:
  assumes "module_tables_inside f st dyst" and "i \<le> unat (dyst_nmodtab dyst)"
  shows "unat (module_place f dyst i) = unat (dyst_modtaboff dyst) + i * sizeof_module (mf_is64 f)"
proof -
  have "i * sizeof_module (mf_is64 f) \<le> unat (dyst_nmodtab dyst) * sizeof_module (mf_is64 f)"
    using assms(2) by (rule mult_le_mono1)
  moreover have "unat (dyst_modtaboff dyst) + unat (dyst_nmodtab dyst) * sizeof_module (mf_is64 f) < 2 ^ 63"
    using assms(1) unfolding module_tables_inside_def by (elim conjE) (rule le_less_trans)
  ultimately have "unat (dyst_modtaboff dyst) + i * sizeof_module (mf_is64 f) < 2 ^ 63" by linarith
  then show ?thesis unfolding module_place_def by (intro unat_small) simp
qed

lemma module_at_place:
  assumes "module_tables_inside f st dyst" and "i < unat (dyst_nmodtab dyst)"
  obtains m where "module_at f (module_place f dyst i) = Inr m"
proof -
  have "Suc i * sizeof_module (mf_is64 f) \<le> unat (dyst_nmodtab dyst) * sizeof_module (mf_is64 f)"
    using assms(2) by (intro mult_le_mono1) simp
  then have "unat (module_place f dyst i) + sizeof_module (mf_is64 f) \<le> length (mf_mem f)"
    using assms(1) module_place_unat [OF assms(1), of i] assms(2)
    by (simp add: module_tables_inside_def)
  then show ?thesis using that by (cases "mf_is64 f") (simp_all add: module_at_def Let_def)
qed

definition good_module :: "module_file \<Rightarrow> symtab_command \<Rightarrow> dysymtab_command \<Rightarrow> nat \<Rightarrow> bool" where
  "good_module f st dyst i = (case module_at f (module_place f dyst i) of
     Inl e \<Rightarrow> False | Inr m \<Rightarrow> module_ok f st dyst m)"

lemma enter_module_at:
  assumes "module_tables_inside f st dyst" and "i < unat (dyst_nmodtab dyst)"
  shows "\<exists>name. enter_module f st dyst (module_place f dyst i) s =
    Inr (good_module f st dyst i, s\<lparr>ms_module := Some (module_place f dyst i), ms_name := Some name\<rparr>)"
proof -
  obtain m where m: "module_at f (module_place f dyst i) = Inr m" using module_at_place [OF assms] .
  have "unat (st_stroff st) + unat (st_strsize st) \<le> length (mf_mem f)"
    using assms(1) by (simp add: module_tables_inside_def)
  from check_dylib_module_accepts [OF m this, of dyst] show ?thesis
    by (auto simp: enter_module_def m good_module_def Let_def split: if_split_asm)
qed

lemma module_index:
  assumes "module_tables_inside f st dyst" and "i < unat (dyst_nmodtab dyst)"
  shows "(ucast ((module_place f dyst (Suc i) - module_place f dyst 0) div of_nat (sizeof_module (mf_is64 f))) :: u32)
    = of_nat (Suc i)"
proof -
  let ?sz = "sizeof_module (mf_is64 f)"
  have "Suc i * ?sz \<le> unat (dyst_nmodtab dyst) * ?sz"
    using assms(2) by (intro mult_le_mono1) simp
  then have b: "Suc i * ?sz < 2 ^ 63" using assms(1) unfolding module_tables_inside_def by linarith
  have "module_place f dyst (Suc i) - module_place f dyst 0 = of_nat (Suc i * ?sz)"
    by (simp add: module_place_def)
  moreover have "unat (of_nat (Suc i * ?sz) :: u64) = Suc i * ?sz" using b by (subst unat_of_nat) simp
  moreover have "unat (of_nat ?sz :: u64) = ?sz"
    using sizeof_module_bounds(2) [of "mf_is64 f"] by (simp add: unat_of_nat)
  ultimately have "unat ((module_place f dyst (Suc i) - module_place f dyst 0) div of_nat ?sz) = Suc i"
    using sizeof_module_bounds(1) [of "mf_is64 f"] by (simp only: unat_div) (simp del: of_nat_Suc mult_Suc)
  then show ?thesis by (metis of_nat_unat)
qed

definition at_module :: "module_file \<Rightarrow> dysymtab_command \<Rightarrow> nat \<Rightarrow> module_state \<Rightarrow> bool" where
  "at_module f dyst i s \<longleftrightarrow> ms_module s = Some (module_place f dyst i)
     \<and> ms_modtab s = Some (module_place f dyst 0) \<and> ms_nmodtab s = dyst_nmodtab dyst"

lemma next_module_at:
  assumes "module_tables_inside f st dyst" and "symbol_tables f = Inr (Some (st, dyst))" and "\<not> no_modules f"
    and "at_module f dyst i s" and "i < unat (dyst_nmodtab dyst)"
  shows "if Suc i < unat (dyst_nmodtab dyst)
    then \<exists>s'. at_module f dyst (Suc i) s' \<and> ofile_next_module f s = Inr (good_module f st dyst (Suc i), s')
    else ofile_next_module f s = Inr (False, s)"
proof -
  let ?next = "module_place f dyst (Suc i)"
  have behind: "module_place f dyst i + of_nat (sizeof_module (mf_is64 f)) = ?next"
    by (simp add: module_place_def algebra_simps)
  have "unat (of_nat (Suc i) :: u32) = Suc i"
    using assms(5) unat_less_numeral [of "dyst_nmodtab dyst"] by (subst unat_of_nat) simp
  then have idx: "(of_nat (Suc i) :: u32) \<ge> dyst_nmodtab dyst \<longleftrightarrow> \<not> Suc i < unat (dyst_nmodtab dyst)"
    by (simp only: word_le_nat_alt not_less)
  have run: "ofile_next_module f s = (if \<not> Suc i < unat (dyst_nmodtab dyst) then Inr (False, s)
      else enter_module f st dyst ?next s)"
    using assms(2-4) by (simp only: ofile_next_module_def at_module_def Let_def behind idx
        module_index [OF assms(1,5)] if_False sum.case option.case prod.case)
  show ?thesis
  proof (cases "Suc i < unat (dyst_nmodtab dyst)")
    case True
    from enter_module_at [OF assms(1) True] obtain name where
      "enter_module f st dyst ?next s = Inr (good_module f st dyst (Suc i),
         s\<lparr>ms_module := Some ?next, ms_name := Some name\<rparr>)" by blast
    with True assms(4) show ?thesis unfolding run by (auto simp: at_module_def)
  qed (simp add: run)
qed

text \<open>A walk from entry \<open>i\<close> ends, without a failure, at the first bad module or behind the last one.\<close>

definition walk_places :: "module_file \<Rightarrow> symtab_command \<Rightarrow> dysymtab_command \<Rightarrow> nat \<Rightarrow> u64 option list" where
  "walk_places f st dyst i = map (\<lambda>j. Some (module_place f dyst j))
     (takeWhile (good_module f st dyst) [i..<unat (dyst_nmodtab dyst)])"

lemma modules_from_at:
  assumes "module_tables_inside f st dyst" and "symbol_tables f = Inr (Some (st, dyst))" and "\<not> no_modules f"
    and "at_module f dyst i s" and "i < unat (dyst_nmodtab dyst)" and "good_module f st dyst i"
    and "unat (dyst_nmodtab dyst) - i \<le> k"
  shows "modules_from k f s = Some (Inr (walk_places f st dyst i))"
  using assms(4-7)
proof (induction k arbitrary: i s)
  case (Suc k)
  have start: "walk_places f st dyst i = ms_module s # walk_places f st dyst (Suc i)"
    using Suc.prems(1-3) by (simp add: walk_places_def upt_conv_Cons at_module_def)
  note step = next_module_at [OF assms(1-3) Suc.prems(1,2)]
  show ?case
  proof (cases "Suc i < unat (dyst_nmodtab dyst)")
    case True
    with step obtain s' where s': "at_module f dyst (Suc i) s'"
      "ofile_next_module f s = Inr (good_module f st dyst (Suc i), s')" by auto
    show ?thesis
    proof (cases "good_module f st dyst (Suc i)")
      case good: True
      have "modules_from k f s' = Some (Inr (walk_places f st dyst (Suc i)))"
        using Suc.prems(4) by (intro Suc.IH s'(1) True good) simp
      with s'(2) good show ?thesis by (simp add: start)
    next
      case False
      with True have "walk_places f st dyst (Suc i) = []" by (simp add: walk_places_def upt_conv_Cons)
      with s'(2) False show ?thesis by (simp add: start)
    qed
  next
    case False
    then have "walk_places f st dyst (Suc i) = []" by (simp add: walk_places_def)
    with False step show ?thesis by (simp add: start)
  qed
qed simp

text \<open>
  Property C17. The walk over the modules of a dynamic library whose table of modules and whose
  strings are inside the object ends, and reads nothing outside. It visits the entries of the
  table in their order, up to the first one whose name does not end inside the strings or one of
  whose four ranges is not inside its table, with the sums in 32 bits.
\<close>

theorem modules_visited:
  assumes "symbol_tables f = Inr (Some (st, dyst))" and "module_tables_inside f st dyst"
    and "\<not> no_modules f" and "unat (dyst_nmodtab dyst) \<le> k"
  shows "visit_modules k f = Some (Inr (map (\<lambda>i. Some (module_place f dyst i))
    (takeWhile (good_module f st dyst) [0..<unat (dyst_nmodtab dyst)])))"
proof (cases "dyst_nmodtab dyst = 0")
  case True
  then show ?thesis using assms(1,3) by (simp add: visit_modules_def ofile_first_module_def)
next
  case False
  let ?s = "no_module\<lparr>ms_nmodtab := dyst_nmodtab dyst, ms_modtab := Some (module_place f dyst 0)\<rparr>"
  have some: "0 < unat (dyst_nmodtab dyst)" using False by (simp add: unat_gt_0)
  have "ucast (dyst_modtaboff dyst) = module_place f dyst 0" by (simp add: module_place_def)
  then have first: "ofile_first_module f = enter_module f st dyst (module_place f dyst 0) ?s"
    using assms(1,3) False by (simp add: ofile_first_module_def Let_def)
  from enter_module_at [OF assms(2) some, of ?s] obtain name where
    "ofile_first_module f = Inr (good_module f st dyst 0,
       ?s\<lparr>ms_module := Some (module_place f dyst 0), ms_name := Some name\<rparr>)" unfolding first by blast
  moreover have "at_module f dyst 0 (?s\<lparr>ms_module := Some (module_place f dyst 0), ms_name := Some name\<rparr>)"
    by (simp add: at_module_def)
  ultimately show ?thesis
    using modules_from_at [OF assms(2,1,3) _ some, of _ k] assms(4) some
    by (cases "good_module f st dyst 0") (auto simp: visit_modules_def walk_places_def upt_conv_Cons)
qed

section \<open>The search for a module\<close>

lemma strcmp_at_iff:
  assumes "0 \<in> set m" and "0 \<notin> set want"
  shows "strncmp_at m want (Suc (length want)) = Some (takeWhile (\<lambda>c. c \<noteq> 0) m = want)"
  using assms
proof (induction want arbitrary: m)
  case Nil
  then show ?case by (cases m) auto
next
  case (Cons k want)
  then show ?case by (cases m) auto
qed

definition module_name_of :: "module_file \<Rightarrow> symtab_command \<Rightarrow> dysymtab_command \<Rightarrow> nat \<Rightarrow> u8 list" where
  "module_name_of f st dyst i = (case module_at f (module_place f dyst i) of
     Inl e \<Rightarrow> []
   | Inr m \<Rightarrow> takeWhile (\<lambda>c. c \<noteq> 0) (drop (unat (st_stroff st) + unat (mb_module_name m)) (mf_mem f)))"

lemma unat_name_pointer:
  "unat (ucast a + ucast b :: u64) = unat a + unat b" for a b :: u32
proof -
  have c: "unat (ucast x :: u64) = unat x" for x :: u32
    by (simp add: unsigned_ucast_eq take_bit_nat_eq_self less_trans [OF unat_less_numeral])
  have "unat a < 2 ^ 32" "unat b < 2 ^ 32" using unat_less_numeral [of a] unat_less_numeral [of b] by simp_all
  then show ?thesis by (subst unat_add_lem [THEN iffD1]) (simp_all add: c)
qed

text \<open>One pass: a bad module ends the search, a module of the name too, and else it goes on.\<close>

lemma specific_module_pass:
  assumes "module_tables_inside f st dyst" and "i < unat (dyst_nmodtab dyst)" and "0 \<notin> set want"
  obtains name where "specific_module_from (Suc n) f st dyst want (module_place f dyst i) s =
      (let s = s\<lparr>ms_module := Some (module_place f dyst i)\<rparr> in
       if \<not> good_module f st dyst i then Inr (False, s)
       else if module_name_of f st dyst i = want then Inr (True, s\<lparr>ms_name := Some name\<rparr>)
       else specific_module_from n f st dyst want (module_place f dyst (Suc i)) s)"
proof -
  obtain m where m: "module_at f (module_place f dyst i) = Inr m" using module_at_place [OF assms(1,2)] .
  have inside: "unat (st_stroff st) + unat (st_strsize st) \<le> length (mf_mem f)"
    using assms(1) by (simp add: module_tables_inside_def)
  have behind: "module_place f dyst i + of_nat (sizeof_module (mf_is64 f)) = module_place f dyst (Suc i)"
    by (simp add: module_place_def algebra_simps)
  let ?name = "ucast (st_stroff st) + ucast (mb_module_name m) :: u64"
  have "strncmp_at (drop (unat ?name) (mf_mem f)) want (Suc (length want)) = Some (module_name_of f st dyst i = want)"
    if "module_ok f st dyst m"
  proof -
    have "0 \<in> set (drop (unat (st_stroff st) + unat (mb_module_name m)) (mf_mem f))"
      using that by (auto simp: module_ok_def dest: in_set_takeD)
    then show ?thesis
      by (simp add: unat_name_pointer strcmp_at_iff assms(3) module_name_of_def m del: strncmp_at.simps)
  qed
  then show ?thesis
    using check_dylib_module_accepts [OF m inside, of dyst] that [of ?name]
    by (auto simp: m behind good_module_def Let_def simp del: strncmp_at.simps split: if_split_asm)
qed

lemma specific_module_at:
  assumes "module_tables_inside f st dyst" and "0 \<notin> set want" and "i + n = unat (dyst_nmodtab dyst)"
    and "ms_modtab s = Some (module_place f dyst 0)" and "ms_nmodtab s = dyst_nmodtab dyst"
  shows "\<exists>found s'. specific_module_from n f st dyst want (module_place f dyst i) s = Inr (found, s')
    \<and> (case find (\<lambda>j. \<not> good_module f st dyst j \<or> module_name_of f st dyst j = want) [i..<unat (dyst_nmodtab dyst)] of
        None \<Rightarrow> \<not> found \<and> ms_nmodtab s' = 0
      | Some j \<Rightarrow> found = good_module f st dyst j \<and> at_module f dyst j s')"
  using assms(3-)
proof (induction n arbitrary: i s)
  case 0
  then show ?case by (simp add: no_module_def) blast
next
  case (Suc n)
  have i: "i < unat (dyst_nmodtab dyst)" using Suc.prems(1) by simp
  obtain name where pass: "specific_module_from (Suc n) f st dyst want (module_place f dyst i) s =
      (let s = s\<lparr>ms_module := Some (module_place f dyst i)\<rparr> in
       if \<not> good_module f st dyst i then Inr (False, s)
       else if module_name_of f st dyst i = want then Inr (True, s\<lparr>ms_name := Some name\<rparr>)
       else specific_module_from n f st dyst want (module_place f dyst (Suc i)) s)"
    using specific_module_pass [OF assms(1) i assms(2)] by blast
  have upt: "[i..<unat (dyst_nmodtab dyst)] = i # [Suc i..<unat (dyst_nmodtab dyst)]"
    using i by (rule upt_conv_Cons)
  show ?case
  proof (cases "\<not> good_module f st dyst i \<or> module_name_of f st dyst i = want")
    case True
    then show ?thesis
      using Suc.prems(2,3) unfolding pass upt by (auto simp: at_module_def Let_def)
  next
    case False
    then show ?thesis
      using Suc.IH [of "Suc i" "s\<lparr>ms_module := Some (module_place f dyst i)\<rparr>"] Suc.prems
      unfolding pass upt by (simp add: Let_def)
  qed
qed

text \<open>
  Property C27. A search for a module by its name finds the first module of the table with exactly
  that name, if all modules up to it are accepted by the check; it ends without one at the first
  module that is not, or behind the last one. It reads nothing outside.
\<close>

theorem specific_module_found:
  assumes "symbol_tables f = Inr (Some (st, dyst))" and "module_tables_inside f st dyst"
    and "\<not> no_modules f" and "0 \<notin> set want"
  shows "\<exists>found s'. ofile_specific_module want f = Inr (found, s')
    \<and> (case find (\<lambda>j. \<not> good_module f st dyst j \<or> module_name_of f st dyst j = want)
          [0..<unat (dyst_nmodtab dyst)] of
        None \<Rightarrow> \<not> found \<and> ms_nmodtab s' = 0
      | Some j \<Rightarrow> found = good_module f st dyst j \<and> at_module f dyst j s')"
proof (cases "dyst_nmodtab dyst = 0")
  case True
  then show ?thesis using assms(1,3) by (simp add: ofile_specific_module_def no_module_def) blast
next
  case False
  have "ucast (dyst_modtaboff dyst) = module_place f dyst 0" by (simp add: module_place_def)
  then show ?thesis
    using specific_module_at [OF assms(2,4), of 0 "unat (dyst_nmodtab dyst)"
        "no_module\<lparr>ms_nmodtab := dyst_nmodtab dyst, ms_modtab := Some (module_place f dyst 0)\<rparr>"]
      assms(1,3) False
    by (simp add: ofile_specific_module_def Let_def)
qed

section \<open>A library with two modules\<close>

text \<open>
  A big endian library on a little endian host. The second module has a range of references that
  wraps around in 32 bits, and relocation entries although the library has none: their number is
  compared with the offset of the relocation entries in the file.
\<close>

definition lib_symtab :: symtab_command where
  "lib_symtab = \<lparr>st_cmd = 2, st_cmdsize = 24, st_symoff = 0, st_nsyms = 0, st_stroff = 236, st_strsize = 5\<rparr>"

definition lib_dysymtab :: dysymtab_command where
  "lib_dysymtab = \<lparr>dyst_cmd = 11, dyst_cmdsize = 80, dyst_ilocalsym = 0, dyst_nlocalsym = 0, dyst_iextdefsym =
     0, dyst_nextdefsym = 0, dyst_iundefsym = 0, dyst_nundefsym = 0, dyst_tocoff = 0, dyst_ntoc =
     0, dyst_modtaboff = 132, dyst_nmodtab = 2, dyst_extrefsymoff = 0, dyst_nextrefsyms = 1,
     dyst_indirectsymoff = 0, dyst_nindirectsyms = 0, dyst_extreloff = 132, dyst_nextrel = 0,
     dyst_locreloff = 0, dyst_nlocrel = 0\<rparr>"

definition two_modules :: module_file where
  "two_modules = \<lparr>mf_mem = replicate 28 0
       @ [2, 0, 0, 0, 24, 0, 0, 0, 0, 0, 0, 0, 0, 0, 0, 0, 236, 0, 0, 0, 5, 0, 0, 0]
       @ [11, 0, 0, 0, 80, 0, 0, 0, 0, 0, 0, 0, 0, 0, 0, 0, 0, 0, 0, 0, 0, 0, 0, 0, 0, 0, 0,
          0, 0, 0, 0, 0, 0, 0, 0, 0, 0, 0, 0, 0, 132, 0, 0, 0, 2, 0, 0, 0, 0, 0, 0, 0, 1, 0,
          0, 0, 0, 0, 0, 0, 0, 0, 0, 0, 132, 0, 0, 0, 0, 0, 0, 0, 0, 0, 0, 0, 0, 0, 0, 0]
       @ 0 # 0 # 0 # 1 # replicate 48 0
       @ [0, 0, 0, 3, 0, 0, 0, 0, 0, 0, 0, 0, 0, 0, 0, 1, 255, 255, 255, 255, 0, 0, 0, 0, 0,
          0, 0, 0, 0, 0, 0, 100, 0, 0, 0, 20, 0, 0, 0, 0, 0, 0, 0, 0, 0, 0, 0, 0, 0, 0, 0, 0]
       @ [0, 0x61, 0, 0x62, 0],
     mf_host = LITTLE_ENDIAN_BYTE_SEX, mf_object_byte_sex = BIG_ENDIAN_BYTE_SEX, mf_is64 = False,
     mf_ncmds = 2, mf_file_type = OFILE_Mach_O, mf_arch_type = OFILE_Mach_O, mf_filetype = 6\<rparr>"

lemma two_modules_tables: "symbol_tables two_modules = Inr (Some (lib_symtab, lib_dysymtab))"
  by code_simp

lemma two_modules_inside: "module_tables_inside two_modules lib_symtab lib_dysymtab"
proof -
  have "length (mf_mem two_modules) = 241" by code_simp
  moreover have "dyst_modtaboff lib_dysymtab = 132" "dyst_nmodtab lib_dysymtab = 2" by code_simp+
  ultimately show ?thesis
    by (simp add: module_tables_inside_def lib_symtab_def sizeof_module_def two_modules_def)
qed

lemma two_modules_kind: "\<not> no_modules two_modules" by code_simp

theorem modules_visited_witness:
  "visit_modules 2 two_modules = Some (Inr (map (\<lambda>i. Some (module_place two_modules lib_dysymtab i))
    (takeWhile (good_module two_modules lib_symtab lib_dysymtab) [0..<unat (dyst_nmodtab lib_dysymtab)])))"
proof -
  have "unat (dyst_nmodtab lib_dysymtab) \<le> 2" by code_simp
  then show ?thesis by (rule modules_visited [OF two_modules_tables two_modules_inside two_modules_kind])
qed

theorem specific_module_found_witness:
  "\<exists>found s'. ofile_specific_module [0x62] two_modules = Inr (found, s')
    \<and> (case find (\<lambda>j. \<not> good_module two_modules lib_symtab lib_dysymtab j
            \<or> module_name_of two_modules lib_symtab lib_dysymtab j = [0x62])
          [0..<unat (dyst_nmodtab lib_dysymtab)] of
        None \<Rightarrow> \<not> found \<and> ms_nmodtab s' = 0
      | Some j \<Rightarrow> found = good_module two_modules lib_symtab lib_dysymtab j
          \<and> at_module two_modules lib_dysymtab j s')"
proof -
  have "0 \<notin> set [0x62 :: u8]" by simp
  then show ?thesis by (rule specific_module_found [OF two_modules_tables two_modules_inside two_modules_kind])
qed






end
