(* ===== verification/Spec2Isabelle.thy ===== *)
theory Spec2Isabelle
  imports Best_Arch Nx_Arch Arch_Flags Macho_Swap Bitfield_Swap Checkout_Object Bind_Spec
    Line_Roundtrip I386_Relax Ofile_Accept Hash_Table
    Archive_Specific Modules
begin

text \<open>
  A verification library for the object-file core of cctools.

  The tools of the repository share one core: they map a file, tell what it is, choose an
  architecture of it, check and swap its headers, and then work on tables whose place and form the
  headers give. The assembler makes such files, the linker and \<open>otool\<close> read them. The library
  follows that path, one theory for each component, in the order in which a file goes through
  them.

  \<^bold>\<open>Words and bytes.\<close> \<open>Prelude\<close> has the machine integers (words of the width of the C types), the
  search loops and the facts about them that all theories share. A structure is a record with
  the C field names behind a short prefix, and memory is a list of bytes in which a pointer is
  an offset; \<open>Byte_Order\<close>, \<open>Macho_Structs\<close> and \<open>Macho_Read\<close> (\<open>include/stuff/bytesex.h\<close>,
  \<open>include/mach-o/loader.h\<close>) relate the two: the layout of a structure, its image in memory in
  either byte sex, and what a program reads through a pointer to it.

  \<^bold>\<open>Architectures.\<close> \<open>Machine\<close> (\<open>include/mach/machine.h\<close>), \<open>Fat\<close> (\<open>include/mach-o/fat.h\<close>),
  \<open>Best_Arch\<close> and \<open>Arch_Combine\<close> (\<open>libstuff/best_arch.c\<close>), \<open>Arch_Info\<close> and \<open>Nx_Arch\<close>
  (\<open>libmacho/arch.c\<close>), \<open>Arch_Flags\<close> (\<open>libstuff/arch.c\<close>, \<open>set_arch_flag_name.c\<close>). \<open>Preference\<close> is the
  abstract specification: a preference is a ranking of slices, and a selection refines it when it
  returns the first slice of smallest rank. Both selections of the code refine one, and agree
  where the properties say. The contract of a selection is the locale \<open>slice_chooser\<close>, which both
  interpret.

  \<^bold>\<open>Swapping.\<close> \<open>Macho_Swap\<close> and \<open>Bitfield_Swap\<close> (\<open>libstuff/bytesex.c\<close>) have every routine for headers,
  load commands, symbols and tables. The contract is the locale \<open>byte_swapper\<close>: a routine maps a
  structure to the one that has the same bytes in the other byte sex. It is interpreted for all
  of them but five, which lose information, and the properties say when.

  \<^bold>\<open>Checks of files.\<close> \<open>Elements\<close>, \<open>Ofile_Check\<close>, \<open>Ofile_Safety\<close> and \<open>Ofile_Accept\<close> are
  \<open>check_Mach_O\<close> of \<open>libstuff/ofile.c\<close>, the check that every tool runs first: one definition for each
  load command, a run over the commands, and what is reported with \<open>CHECK_BAD\<close> as a value. A read
  or write outside the memory, or through a null pointer, is a failure of its own, so that the
  absence of it is a property. \<open>Fat_Check\<close> is \<open>check_fat\<close> and the selection of a slice when a file is
  mapped. \<open>Archive\<close> and \<open>Archive_Members\<close> are \<open>check_archive\<close>: an accepted archive is tiled by its
  members. \<open>Archive_Toc\<close> is \<open>check_archive_toc\<close>; \<open>Archive_Walk\<close> and \<open>Archive_Visit\<close> are
  \<open>ofile_first_member\<close>, \<open>ofile_next_member\<close> and the loop of \<open>ofile_process\<close> over them, \<open>Archive_Specific\<close>
  is \<open>ofile_specific_member\<close>: both visit the members that tile the archive. \<open>Modules\<close> has the walk over
  the modules of a library and their check. \<open>Checkout\<close>, \<open>Checkout_Layout\<close> and
  \<open>Checkout_Object\<close> (\<open>libstuff/checkout.c\<close>) are the checks of the order of the link edit tables;
  their specification is a layout, a sequence of tables with rounding between them.

  \<^bold>\<open>Binding.\<close> \<open>Leb128\<close> (\<open>as/read.c\<close> writes, \<open>otool/dyld_bind_info.c\<close> reads) and \<open>Bind_Info\<close>,
  \<open>Bind_Spec\<close> (\<open>otool/dyld_bind_info.c\<close>): the opcodes of the dynamic linker as a state machine. The
  specification is an unbounded run of the opcodes, and the two passes of the code, one that counts and
  one that stores, refine it.

  \<^bold>\<open>Line numbers.\<close> \<open>Line_Emit\<close> and \<open>Line_Table\<close> (\<open>as/dwarf2dbg.c\<close>) write the table, \<open>Line_Reader\<close> and
  \<open>Line_Safety\<close> (\<open>ld/debugline.c\<close>) read it: no reachable state of the reader reads outside the
  section. \<open>Line_Roundtrip\<close> joins the two programs: what the assembler writes the linker reads
  back.

  \<^bold>\<open>Relaxation.\<close> \<open>Relax\<close>, \<open>Relax_Laws\<close> (\<open>as/layout.c\<close>) and \<open>I386_Relax\<close> (\<open>as/i386.c\<close>): the sizes of
  the fragments of a section and the branches in them. What the relaxation asks of a target is the
  locale \<open>relax_table\<close>, interpreted on the table of i386.

  \<^bold>\<open>Tables of names.\<close> \<open>Hash_Table\<close> (\<open>as/hash.c\<close>) has the hash tables of the assembler. The locale
  \<open>data_refinement\<close> relates operations to a specification through an abstraction and an invariant;
  here the specification is a partial function from strings to data.

  \<^bold>\<open>Errors, loops and bounds.\<close> A message with which the code ends is the left side of a sum or an
  option, with the text that tells the messages apart. A loop over a list or a counter is a \<open>primrec\<close>
  or \<open>fun\<close>; a loop that might not end is a partial function into an option (the search in a line table,
  the relaxation) or has fuel (the check of an archive and the walks over members and modules), and properties say when
  it ends: the search always, the relaxation when nothing but branches refers forward, the check of an
  archive with one unit of fuel for each 60 bytes of it, a walk with one more than the members, or as
  many as the modules, that there are. Integers have
  the width of the code; where a sum or a product can wrap, the statement says so or an error property
  shows what happens then.

  \<^bold>\<open>Not modelled.\<close> The allocation of memory and the printing of messages, which only end a program or
  inform its user. \<open>ld64\<close> and \<open>dyld\<close>, which are C++ programs of their own. The disassemblers and the
  printing of \<open>otool\<close>, the instruction tables and the parsers of the assembler, and the
  passes of \<open>ld\<close>, which mostly are tables or work on the memory of the whole program. The drivers under
  \<open>misc\<close>, \<open>ar\<close> and \<open>gprof\<close>. A call that leaves the sources is a parameter: the host, the LLVM library,
  what a caller does with a member of an archive, with the swapping back of its headers, the swapping
  of a thread state in place, and the success of an allocation where the code looks at it. \<open>strtoul\<close> and the record of \<open>ar.h\<close> are
  defined as the C library and \<open>ar.5\<close> describe them.
\<close>

end
